(* ===== verification/Prelude.thy ===== *)
theory Prelude
  imports Main "HOL-Library.Word" "HOL-Library.Log_Nat"
begin

text \<open>
  Shared vocabulary of the development: the machine integer types of the firmware, the byte
  helpers the drivers use, C array reads and writes with their bounds, and the generic list and
  word lemmas the component theories rest on.

  C arrays are lists of fixed length. A read or a write outside the array is undefined behaviour
  in C, so \<open>rd\<close> and \<open>wr\<close> return \<open>None\<close> there: a model that uses them carries the bounds
  obligation in its result.
\<close>

unbundle bit_operations_syntax

type_synonym u8 = "8 word"
type_synonym u16 = "16 word"
type_synonym u32 = "32 word"
type_synonym bytes = "8 word list"

named_theorems arr_simps \<open>reads and writes of C arrays\<close>
named_theorems byte_simps \<open>splitting and joining machine words\<close>

subsection \<open>Arrays\<close>

definition rd :: "'a list \<Rightarrow> nat \<Rightarrow> 'a option" where
  "rd xs i = (if i < length xs then Some (xs ! i) else None)"

definition wr :: "'a list \<Rightarrow> nat \<Rightarrow> 'a \<Rightarrow> 'a list option" where
  "wr xs i x = (if i < length xs then Some (xs[i := x]) else None)"

lemma rd_Some [arr_simps]: "i < length xs \<Longrightarrow> rd xs i = Some (xs ! i)"
  by (simp add: rd_def)

lemma rd_None [arr_simps]: "length xs \<le> i \<Longrightarrow> rd xs i = None"
  by (simp add: rd_def)

lemma rd_eq_Some_iff: "rd xs i = Some x \<longleftrightarrow> i < length xs \<and> xs ! i = x"
  by (auto simp: rd_def)

lemma wr_Some [arr_simps]: "i < length xs \<Longrightarrow> wr xs i x = Some (xs[i := x])"
  by (simp add: wr_def)

lemma wr_None [arr_simps]: "length xs \<le> i \<Longrightarrow> wr xs i x = None"
  by (simp add: wr_def)

text \<open>\<^verbatim>\<open>memcpy(dst + off, src, length src)\<close> into an array, when the target range is inside it.\<close>

definition blit :: "'a list \<Rightarrow> nat \<Rightarrow> 'a list \<Rightarrow> 'a list" where
  "blit src off dst = take off dst @ src @ drop (off + length src) dst"

lemma length_blit [simp]:
  "off + length src \<le> length dst \<Longrightarrow> length (blit src off dst) = length dst"
  by (simp add: blit_def)

lemma take_blit: 
  "off + length src \<le> length dst \<Longrightarrow> take (off + length src) (blit src off dst) = take off dst @ src"
  by (auto simp: blit_def min_def simp flip: length_greater_0_conv)

lemma take_blit_prefix:
  "off \<le> length dst \<Longrightarrow> n \<le> off \<Longrightarrow> take n (blit src off dst) = take n dst"
  by (simp add: blit_def min_def)

lemma nth_blit_in:
  "\<lbrakk>off + length src \<le> length dst; i < length src\<rbrakk> \<Longrightarrow> blit src off dst ! (off + i) = src ! i"
  by (simp add: blit_def nth_append min_def)

subsection \<open>Bytes of machine words\<close>

text \<open>\<^verbatim>\<open>(uint8_t)(w >> n)\<close>\<close>

definition byte_at :: "nat \<Rightarrow> 'a::len word \<Rightarrow> u8" where
  "byte_at n w = ucast (drop_bit n w)"

definition be16 :: "u16 \<Rightarrow> bytes" where
  "be16 w = [byte_at 8 w, byte_at 0 w]"

definition be32 :: "u32 \<Rightarrow> bytes" where
  "be32 w = [byte_at 24 w, byte_at 16 w, byte_at 8 w, byte_at 0 w]"

text \<open>The inverse: the most significant byte first.\<close>

definition join16 :: "u8 \<Rightarrow> u8 \<Rightarrow> u16" where
  "join16 hi lo = push_bit 8 (ucast hi) OR ucast lo"

lemma join16_byte_at [byte_simps]: "join16 (byte_at 8 w) (byte_at 0 w) = w"
  unfolding join16_def byte_at_def
  by (rule bit_word_eqI) (auto simp: bit_simps)

lemma byte_at_join16 [byte_simps]:
  "byte_at 8 (join16 hi lo) = hi" "byte_at 0 (join16 hi lo) = lo"
  unfolding join16_def byte_at_def
  by (rule bit_word_eqI; auto simp: bit_simps dest: bit_imp_le_length)+

subsection \<open>C conversions of truth values\<close>

text \<open>A C \<^verbatim>\<open>bool\<close> stored into a byte is 0 or 1.\<close>

definition u8_of_bool :: "bool \<Rightarrow> u8" where
  "u8_of_bool b = (if b then 1 else 0)"

lemma u8_of_bool_eq_iff [simp]: "u8_of_bool a = u8_of_bool b \<longleftrightarrow> a = b"
  by (simp add: u8_of_bool_def)

lemma u8_of_bool_simps [simp]: "u8_of_bool True = 1" "u8_of_bool False = 0"
  by (simp_all add: u8_of_bool_def)

subsection \<open>Generic lemmas\<close>

lemma unat_less_iff_word: "(unat a < unat b) = (a < (b :: 'a::len word))"
  by (simp add: word_less_nat_alt)

lemma fold_invariant:
  assumes "P s" and "\<And>x s. x \<in> set xs \<Longrightarrow> P s \<Longrightarrow> P (f x s)"
  shows "P (fold f xs s)"
  using assms by (induction xs arbitrary: s) auto

lemma funpow_invariant:
  assumes "P s" and "\<And>s. P s \<Longrightarrow> P (f s)"
  shows "P ((f ^^ n) s)"
  using assms by (induction n) auto

lemma unat_ucast_up [byte_simps]:
  "LENGTH('a) \<le> LENGTH('b) \<Longrightarrow> unat (ucast (x :: 'a::len word) :: 'b::len word) = unat x"
  by (simp add: unsigned_ucast_eq take_bit_nat_eq_self order_less_le_trans [OF unsigned_less])

lemma unat_u8_lt [simp]: "unat (x :: u8) < 256"
  using unsigned_less [of x] by simp

lemma unat_u16_lt [simp]: "unat (x :: u16) < 65536"
  using unsigned_less [of x] by simp

subsection \<open>Loops and guarded reads\<close>

text \<open>A \<^verbatim>\<open>for\<close> loop over the elements of a list, stopping at a fault.\<close>

primrec for_each :: "('a \<Rightarrow> 's \<Rightarrow> 's option) \<Rightarrow> 'a list \<Rightarrow> 's \<Rightarrow> 's option" where
  "for_each f [] s = Some s"
| "for_each f (x # xs) s = Option.bind (f x s) (for_each f xs)"

lemma for_each_append [simp]:
  "for_each f (xs @ ys) s = Option.bind (for_each f xs s) (for_each f ys)"
  by (induction xs arbitrary: s) (simp_all cong: Option.bind_cong)

lemma for_each_invariant:
  assumes "P s" and "\<And>x s. x \<in> set xs \<Longrightarrow> P s \<Longrightarrow> \<exists>s'. f x s = Some s' \<and> P s'"
  shows "\<exists>s'. for_each f xs s = Some s' \<and> P s'"
  using assms
proof (induction xs arbitrary: s)
  case (Cons x xs)
  obtain s1 where s1: "f x s = Some s1" "P s1" using Cons.prems(2) [of x s] Cons.prems(1) by auto
  have "\<exists>s'. for_each f xs s1 = Some s' \<and> P s'"
    using Cons.prems(2) by (intro Cons.IH [OF s1(2)]) auto
  with s1(1) show ?case by simp
qed simp

lemma for_each_skip:
  "(\<And>x. x \<in> set xs \<Longrightarrow> f x s = Some s) \<Longrightarrow> for_each f xs s = Some s"
  by (induction xs) auto

text \<open>
  \<^verbatim>\<open>p[i] == v\<close> where \<open>p[i]\<close> may lie outside the array, and the short-circuit conjunction of such
  tests: the right operand is read only when the left one is true.
\<close>

definition rd_eq :: "'a list \<Rightarrow> nat \<Rightarrow> 'a \<Rightarrow> bool option" where
  "rd_eq m a v = map_option (\<lambda>b. b = v) (rd m a)"

definition and_then :: "bool option \<Rightarrow> bool option \<Rightarrow> bool option" where
  "and_then p q = (case p of None \<Rightarrow> None | Some b \<Rightarrow> if b then q else Some False)"

definition or_else :: "bool option \<Rightarrow> bool option \<Rightarrow> bool option" where
  "or_else p q = (case p of None \<Rightarrow> None | Some b \<Rightarrow> if b then Some True else q)"

definition if_opt :: "bool option \<Rightarrow> 'a option \<Rightarrow> 'a option \<Rightarrow> 'a option" where
  "if_opt c t e = Option.bind c (\<lambda>b. if b then t else e)"

lemma rd_eq_in [arr_simps]: "a < length m \<Longrightarrow> rd_eq m a v = Some (m ! a = v)"
  by (simp add: rd_eq_def rd_def)

lemma and_then_simps [simp]:
  "and_then None q = None" "and_then (Some True) q = q" "and_then (Some False) q = Some False"
  by (simp_all add: and_then_def)

lemma and_then_Some [arr_simps]: "and_then (Some a) (Some b) = Some (a \<and> b)"
  by (simp add: and_then_def)

lemma or_else_simps [simp]:
  "or_else None q = None" "or_else (Some True) q = Some True" "or_else (Some False) q = q"
  by (simp_all add: or_else_def)

lemma or_else_Some [arr_simps]: "or_else (Some a) (Some b) = Some (a \<or> b)"
  by (simp add: or_else_def)

lemma if_opt_Some [arr_simps]: "if_opt (Some b) t e = (if b then t else e)"
  by (simp add: if_opt_def)

lemma if_opt_None [simp]: "if_opt None t e = None"
  by (simp add: if_opt_def)

end
