(* ===== verification/Float32.thy ===== *)
theory Float32
  imports Complex_Main Prelude
begin

text \<open>
  IEEE 754 binary32 arithmetic, as the firmware's \<^verbatim>\<open>float\<close> code uses it (Cortex-M4 FPU, built
  with \<^verbatim>\<open>-O0\<close>, so every operation rounds to single precision and nothing is contracted).

  A float is \<open>FNan\<close>, an infinity with its sign, or a finite rational. Every operation computes
  the exact rational result and rounds it once, to nearest with ties to even (\<open>f32_round\<close>),
  overflow going to an infinity. The model does not keep the sign of a zero and has one NaN: the
  sources never divide by a zero and never look at a sign bit or a NaN payload.

  The main fact is \<open>f32_round_between\<close>: rounding never crosses a representable value. The bounds
  proved of the sensors and of the controllers rest on it.
\<close>

datatype f32 = FNan | FInf bool | Fin rat

subsection \<open>Rounding\<close>

text \<open>Round to the nearest integer, ties to even.\<close>

definition rne :: "rat \<Rightarrow> int" where
  "rne x = (let f = \<lfloor>x\<rfloor>; r = x - of_int f
     in if r < 1/2 \<or> (r = 1/2 \<and> even f) then f else f + 1)"

definition pow2 :: "int \<Rightarrow> rat" where
  "pow2 e = (if 0 \<le> e then 2 ^ nat e else 1 / 2 ^ nat (- e))"

text \<open>\<open>\<lfloor>log\<^sub>2 q\<rfloor>\<close> for a positive rational, by the bit lengths of numerator and denominator.\<close>

definition ilog2 :: "rat \<Rightarrow> int" where
  "ilog2 q = (case quotient_of q of (n, d) \<Rightarrow>
     let e = bitlen n - bitlen d in if pow2 e \<le> q then e else e - 1)"

text \<open>The exponent of the last of the 24 significand bits; \<open>-149\<close> for subnormals.\<close>

definition qexp :: "rat \<Rightarrow> int" where
  "qexp q = (if q = 0 then -149 else max (-149) (ilog2 \<bar>q\<bar> - 23))"

definition quantize :: "rat \<Rightarrow> rat" where
  "quantize q = of_int (rne (q / pow2 (qexp q))) * pow2 (qexp q)"

definition f32_round :: "rat \<Rightarrow> f32" where
  "f32_round q = (let v = quantize q in
     if pow2 128 \<le> \<bar>v\<bar> then FInf (v < 0) else Fin v)"

subsection \<open>Operations\<close>

fun fneg :: "f32 \<Rightarrow> f32" where
  "fneg FNan = FNan"
| "fneg (FInf s) = FInf (\<not> s)"
| "fneg (Fin x) = Fin (- x)"

fun fadd :: "f32 \<Rightarrow> f32 \<Rightarrow> f32" where
  "fadd (Fin x) (Fin y) = f32_round (x + y)"
| "fadd (FInf s) (FInf t) = (if s = t then FInf s else FNan)"
| "fadd (FInf s) (Fin y) = FInf s"
| "fadd (Fin x) (FInf t) = FInf t"
| "fadd _ _ = FNan"

definition fsub :: "f32 \<Rightarrow> f32 \<Rightarrow> f32" where
  "fsub a b = fadd a (fneg b)"

fun fmul :: "f32 \<Rightarrow> f32 \<Rightarrow> f32" where
  "fmul (Fin x) (Fin y) = f32_round (x * y)"
| "fmul (FInf s) (FInf t) = FInf (s \<noteq> t)"
| "fmul (FInf s) (Fin y) = (if y = 0 then FNan else FInf (s \<noteq> (y < 0)))"
| "fmul (Fin x) (FInf t) = (if x = 0 then FNan else FInf ((x < 0) \<noteq> t))"
| "fmul _ _ = FNan"

fun fdiv :: "f32 \<Rightarrow> f32 \<Rightarrow> f32" where
  "fdiv (Fin x) (Fin y) =
     (if y = 0 then (if x = 0 then FNan else FInf (x < 0)) else f32_round (x / y))"
| "fdiv (FInf s) (FInf t) = FNan"
| "fdiv (FInf s) (Fin y) = FInf (s \<noteq> (y < 0))"
| "fdiv (Fin x) (FInf t) = Fin 0"
| "fdiv _ _ = FNan"

fun fabsf :: "f32 \<Rightarrow> f32" where
  "fabsf FNan = FNan"
| "fabsf (FInf s) = FInf False"
| "fabsf (Fin x) = Fin \<bar>x\<bar>"

text \<open>Comparisons: all false on a NaN.\<close>

fun flt :: "f32 \<Rightarrow> f32 \<Rightarrow> bool" where
  "flt (Fin x) (Fin y) = (x < y)"
| "flt (FInf s) (FInf t) = (s \<and> \<not> t)"
| "flt (FInf s) (Fin y) = s"
| "flt (Fin x) (FInf t) = (\<not> t)"
| "flt _ _ = False"

fun fle :: "f32 \<Rightarrow> f32 \<Rightarrow> bool" where
  "fle (Fin x) (Fin y) = (x \<le> y)"
| "fle (FInf s) (FInf t) = (s \<or> \<not> t)"
| "fle (FInf s) (Fin y) = s"
| "fle (Fin x) (FInf t) = (\<not> t)"
| "fle _ _ = False"

abbreviation fgt :: "f32 \<Rightarrow> f32 \<Rightarrow> bool" where "fgt a b \<equiv> flt b a"
abbreviation fge :: "f32 \<Rightarrow> f32 \<Rightarrow> bool" where "fge a b \<equiv> fle b a"

text \<open>A decimal literal with suffix \<^verbatim>\<open>f\<close>, and an integer converted to \<^verbatim>\<open>float\<close>.\<close>

abbreviation flit :: "rat \<Rightarrow> f32" where "flit \<equiv> f32_round"

definition f32_of_int :: "int \<Rightarrow> f32" where
  "f32_of_int n = f32_round (of_int n)"

subsection \<open>Conversion to integers\<close>

text \<open>
  C truncates towards zero and leaves an out-of-range conversion undefined. The compiler emits
  \<^verbatim>\<open>vcvt.u32.f32\<close> / \<^verbatim>\<open>vcvt.s32.f32\<close>, which saturate and send NaN to 0, then keeps the low bits
  for a narrower type; the model follows the instructions and agrees with C in range.
\<close>

definition rtrunc :: "rat \<Rightarrow> int" where
  "rtrunc x = (if 0 \<le> x then \<lfloor>x\<rfloor> else - \<lfloor>- x\<rfloor>)"

definition clamp_int :: "int \<Rightarrow> int \<Rightarrow> int \<Rightarrow> int" where
  "clamp_int lo hi n = max lo (min hi n)"

fun f32_to_u32 :: "f32 \<Rightarrow> u32" where
  "f32_to_u32 FNan = 0"
| "f32_to_u32 (FInf s) = (if s then 0 else - 1)"
| "f32_to_u32 (Fin x) = word_of_int (clamp_int 0 (2 ^ 32 - 1) (rtrunc x))"

fun f32_to_s32 :: "f32 \<Rightarrow> int" where
  "f32_to_s32 FNan = 0"
| "f32_to_s32 (FInf s) = (if s then - (2 ^ 31) else 2 ^ 31 - 1)"
| "f32_to_s32 (Fin x) = clamp_int (- (2 ^ 31)) (2 ^ 31 - 1) (rtrunc x)"

definition f32_to_u16 :: "f32 \<Rightarrow> u16" where
  "f32_to_u16 a = ucast (f32_to_u32 a)"

definition f32_to_u8 :: "f32 \<Rightarrow> u8" where
  "f32_to_u8 a = ucast (f32_to_u32 a)"

subsection \<open>Powers of two\<close>

lemma pow2_pos [simp]: "0 < pow2 e"
  by (simp add: pow2_def)

lemma pow2_nonneg [simp]: "0 \<le> pow2 e"
  using pow2_pos [of e] by linarith

lemma pow2_nonzero [simp]: "pow2 e \<noteq> 0"
  using pow2_pos [of e] by linarith

lemma pow2_powi: "pow2 e = 2 powi e"
  by (simp add: pow2_def power_int_def field_simps)

lemma pow2_add: "pow2 (a + b) = pow2 a * pow2 b"
  by (simp add: pow2_powi power_int_add)

lemma pow2_diff: "pow2 (a - b) = pow2 a / pow2 b"
  by (simp add: pow2_powi power_int_diff)

lemma pow2_Suc: "pow2 (e + 1) = 2 * pow2 e"
  by (simp add: pow2_add) (simp add: pow2_def)

lemma pow2_strict_mono: "a < b \<Longrightarrow> pow2 a < pow2 b"
  by (simp add: pow2_powi power_int_strict_increasing)

lemma pow2_less_iff [simp]: "pow2 a < pow2 b \<longleftrightarrow> a < b"
  by (metis linorder_neqE_linordered_idom order_less_asym order_less_irrefl pow2_strict_mono)

lemma pow2_le_iff [simp]: "pow2 a \<le> pow2 b \<longleftrightarrow> a \<le> b"
  by (meson linorder_not_less pow2_less_iff)

lemma pow2_nat: "pow2 (int n) = 2 ^ n"
  by (simp add: pow2_def)

lemma pow2_multiple:
  assumes "k \<le> e" shows "\<exists>n::int. pow2 e = of_int n * pow2 k"
proof -
  have "pow2 e = pow2 (int (nat (e - k))) * pow2 k"
    using assms by (simp flip: pow2_add)
  also have "\<dots> = of_int (2 ^ nat (e - k)) * pow2 k"
    unfolding pow2_nat by simp
  finally show ?thesis by blast
qed

subsection \<open>The exponent of a rational\<close>

lemma bitlen_pow2_bounds:
  assumes "0 < n"
  shows "pow2 (bitlen n - 1) \<le> of_int n" "of_int n < pow2 (bitlen n)"
proof -
  have b: "0 < bitlen n" using assms bitlen_eq_zero_iff [of n] bitlen_nonneg [of n] by linarith
  have "(2::int) ^ nat (bitlen n - 1) \<le> n" "n < 2 ^ nat (bitlen n)"
    using bitlen_bounds [OF assms] by auto
  then have "of_int (2 ^ nat (bitlen n - 1)) \<le> (of_int n :: rat)"
    "(of_int n :: rat) < of_int (2 ^ nat (bitlen n))"
    by (simp_all only: of_int_le_iff of_int_less_iff)
  then show "pow2 (bitlen n - 1) \<le> of_int n" "of_int n < pow2 (bitlen n)"
    using b by (simp_all add: pow2_def)
qed

lemma ilog2_bounds:
  assumes "0 < q"
  shows "pow2 (ilog2 q) \<le> q" "q < pow2 (ilog2 q + 1)"
proof -
  obtain n d where nd: "quotient_of q = (n, d)" by fastforce
  have d: "0 < d" using quotient_of_denom_pos [OF nd] .
  have q: "q = of_int n / of_int d" using quotient_of_div [OF nd] .
  then have n: "0 < n" using assms d by (simp add: zero_less_divide_iff)
  define e where "e = bitlen n - bitlen d"
  have "q < pow2 (bitlen n) / pow2 (bitlen d - 1)"
    unfolding q using bitlen_pow2_bounds [OF n] bitlen_pow2_bounds [OF d] n
    by (intro frac_less) simp_all
  also have "\<dots> = pow2 (e + 1)"
    unfolding e_def by (simp flip: pow2_diff add: algebra_simps)
  finally have up: "q < pow2 (e + 1)" .
  have "pow2 (e - 1) = pow2 (bitlen n - 1) / pow2 (bitlen d)"
    unfolding e_def by (simp flip: pow2_diff add: algebra_simps)
  also have "\<dots> < q"
    unfolding q using bitlen_pow2_bounds [OF n] bitlen_pow2_bounds [OF d] d
    by (intro frac_less2) simp_all
  finally have lo: "pow2 (e - 1) < q" .
  have il: "ilog2 q = (if pow2 e \<le> q then e else e - 1)"
    by (simp add: ilog2_def nd e_def Let_def)
  show "pow2 (ilog2 q) \<le> q" "q < pow2 (ilog2 q + 1)"
    using up lo unfolding il by (auto simp: not_le)
qed

lemma ilog2_le: "0 < q \<Longrightarrow> q < pow2 (e + 1) \<Longrightarrow> ilog2 q \<le> e"
  using ilog2_bounds(1) [of q] pow2_less_iff [of "ilog2 q" "e + 1"] by linarith

lemma qexp_ge: "-149 \<le> qexp q"
  by (simp add: qexp_def)

lemma qexp_minus [simp]: "qexp (- q) = qexp q"
  by (simp add: qexp_def)

text \<open>A rational has at most 24 bits above its quantum, and exactly 24 unless subnormal.\<close>

lemma qexp_upper: "\<bar>q\<bar> < pow2 (qexp q + 24)"
proof (cases "q = 0")
  case False
  then have "\<bar>q\<bar> < pow2 (ilog2 \<bar>q\<bar> + 1)" using ilog2_bounds(2) [of "\<bar>q\<bar>"] by simp
  also have "\<dots> \<le> pow2 (qexp q + 24)" using False by (simp add: qexp_def)
  finally show ?thesis .
qed simp

lemma qexp_lower: "-149 < qexp q \<Longrightarrow> pow2 (qexp q + 23) \<le> \<bar>q\<bar>"
proof -
  assume a: "-149 < qexp q"
  then have "q \<noteq> 0" and "qexp q + 23 = ilog2 \<bar>q\<bar>" by (auto simp: qexp_def max_def split: if_splits)
  then show ?thesis using ilog2_bounds(1) [of "\<bar>q\<bar>"] by simp
qed

lemma qexp_le: "\<bar>q\<bar> < pow2 (k + 24) \<Longrightarrow> -149 \<le> k \<Longrightarrow> qexp q \<le> k"
proof -
  assume a: "\<bar>q\<bar> < pow2 (k + 24)" "-149 \<le> k"
  have "q \<noteq> 0 \<Longrightarrow> ilog2 \<bar>q\<bar> \<le> k + 23" using ilog2_le [of "\<bar>q\<bar>" "k + 23"] a by (simp add: add.commute)
  then show ?thesis using a by (auto simp: qexp_def)
qed

subsection \<open>Rounding to an integer\<close>

lemma rne_of_int [simp]: "rne (of_int n) = n"
  by (simp add: rne_def)

lemma rne_ge_int: "of_int n \<le> x \<Longrightarrow> n \<le> rne x"
proof -
  assume "of_int n \<le> x"
  then have "n \<le> \<lfloor>x\<rfloor>" by (simp add: le_floor_iff)
  then show ?thesis by (auto simp: rne_def Let_def)
qed

lemma rne_le_int: "x \<le> of_int n \<Longrightarrow> rne x \<le> n"
proof -
  assume x: "x \<le> of_int n"
  show ?thesis
  proof (cases "x = of_int n")
    case False
    with x have "\<lfloor>x\<rfloor> < n" by (simp add: floor_less_iff)
    then show ?thesis by (auto simp: rne_def Let_def)
  qed simp
qed

lemma rne_error: "\<bar>of_int (rne x) - x\<bar> \<le> 1/2"
proof -
  define f where "f = (of_int \<lfloor>x\<rfloor> :: rat)"
  have "f \<le> x" "x < f + 1" unfolding f_def by linarith+
  then show ?thesis by (auto simp: rne_def Let_def abs_if simp flip: f_def)
qed

lemma rne_minus: "rne (- x) = - rne x"
proof (cases "x \<in> \<int>")
  case True
  then obtain n where "x = of_int n" by (auto elim: Ints_cases)
  then show ?thesis by (metis of_int_minus rne_of_int)
next
  case False
  then have "of_int \<lfloor>x\<rfloor> \<noteq> x" by (metis Ints_of_int)
  then have "of_int \<lfloor>x\<rfloor> < x" "x < of_int \<lfloor>x\<rfloor> + 1" by linarith+
  then have f: "\<lfloor>- x\<rfloor> = - \<lfloor>x\<rfloor> - 1" by (simp add: floor_unique)
  then show ?thesis
    by (auto simp: rne_def Let_def)
qed

subsection \<open>Representable values\<close>

text \<open>
  \<open>f32_rep\<close> holds of the rationals that are the value of a finite single: an integer of at most
  24 bits times a power of two not below \<open>2 ^ -149\<close>, below the overflow threshold. It is
  executable: the quantum of the value must divide it.
\<close>

definition f32_rep :: "rat \<Rightarrow> bool" where
  "f32_rep v \<longleftrightarrow> \<bar>v\<bar> < pow2 128 \<and> quantize v = v"

lemma quantize_multiple:
  assumes "q = of_int m * pow2 j" "qexp q \<le> j" shows "quantize q = q"
proof -
  obtain n where "pow2 j = of_int n * pow2 (qexp q)" using pow2_multiple [OF assms(2)] by blast
  then have q: "q = of_int (m * n) * pow2 (qexp q)" using assms(1) by simp
  then have "q / pow2 (qexp q) = of_int (m * n)" by (metis nonzero_eq_divide_eq pow2_nonzero)
  then show ?thesis using q unfolding quantize_def by (metis rne_of_int)
qed

lemma quantize_dyadic:
  assumes "q = of_int m * pow2 j" "-149 \<le> j" "\<bar>m\<bar> \<le> 2 ^ 24"
  shows "quantize q = q"
proof (cases "\<bar>m\<bar> = 2 ^ 24")
  case True
  then consider "m = 2 * 2 ^ 23" | "m = 2 * - (2 ^ 23)" by (auto simp: abs_if split: if_splits)
  then have "\<exists>n. m = 2 * n" by cases blast+
  then obtain n where "m = 2 * n" ..
  then have "q = of_int n * pow2 (j + 1)" using assms(1) by (simp add: pow2_Suc)
  moreover have "\<bar>q\<bar> < pow2 (j + 1 + 24)"
  proof -
    have "\<bar>q\<bar> = 2 ^ 24 * pow2 j" using True assms(1) by (simp add: abs_mult flip: of_int_abs)
    also have "\<dots> = pow2 (24 + j)" unfolding pow2_add by (simp add: pow2_def)
    finally show ?thesis by simp
  qed
  ultimately show ?thesis using assms(2) by (intro quantize_multiple [of _ _ "j + 1"] qexp_le) auto
next
  case False
  with assms(3) have m: "\<bar>m\<bar> < 2 ^ 24" by simp
  have "\<bar>q\<bar> = of_int \<bar>m\<bar> * pow2 j" by (simp add: assms(1) abs_mult)
  also have "\<dots> < of_int (2 ^ 24) * pow2 j" using m by (intro mult_strict_right_mono) (simp_all only: of_int_less_iff pow2_pos)
  also have "\<dots> = pow2 (j + 24)" unfolding pow2_add by (simp add: pow2_def)
  finally show ?thesis using assms(1,2) by (intro quantize_multiple [of _ _ j] qexp_le)
qed

lemma rep_multiple:
  assumes "f32_rep a" "k = -149 \<or> pow2 (k + 23) \<le> \<bar>a\<bar>"
  shows "\<exists>n. a = of_int n * pow2 k"
proof -
  have a: "a = of_int (rne (a / pow2 (qexp a))) * pow2 (qexp a)"
    using assms(1) by (simp add: f32_rep_def quantize_def)
  have "k \<le> qexp a"
  proof (cases "k = -149")
    case False
    with assms(2) have "pow2 (k + 23) < pow2 (qexp a + 24)" using qexp_upper [of a] by linarith
    then show ?thesis by simp
  qed (simp add: qexp_ge)
  then obtain n where "pow2 (qexp a) = of_int n * pow2 k" using pow2_multiple by blast
  then show ?thesis using a by (metis mult.assoc of_int_mult)
qed

lemma quantize_ge:
  assumes "f32_rep a" "a \<le> q"
  shows "a \<le> quantize q"
proof -
  define k where "k = qexp q"
  have fl: "c \<le> quantize q" if c: "c = of_int n * pow2 k" "c \<le> q" for c n
  proof -
    have "of_int n \<le> q / pow2 k" using that by (simp add: pos_le_divide_eq)
    then have "n \<le> rne (q / pow2 k)" by (rule rne_ge_int)
    then show ?thesis unfolding c(1) quantize_def k_def [symmetric] by simp
  qed
  show ?thesis
  proof (cases "k = -149 \<or> pow2 (k + 23) \<le> \<bar>a\<bar>")
    case True
    then show ?thesis using rep_multiple [OF assms(1)] fl assms(2) by blast
  next
    case False
    then have k: "-149 < k" and a: "\<bar>a\<bar> < pow2 (k + 23)"
      using qexp_ge [of q] by (auto simp: k_def)
    have q: "pow2 (k + 23) \<le> \<bar>q\<bar>" using qexp_lower [of q] k by (simp add: k_def)
    with a assms(2) have "pow2 (k + 23) \<le> q" by linarith
    moreover have "pow2 (k + 23) = of_int (2 ^ 23) * pow2 k" unfolding pow2_add by (simp add: pow2_def)
    ultimately have "pow2 (k + 23) \<le> quantize q" using fl by blast
    with a show ?thesis by linarith
  qed
qed

lemma quantize_minus [simp]: "quantize (- q) = - quantize q"
  by (simp add: quantize_def rne_minus)

lemma f32_rep_minus [simp]: "f32_rep (- v) = f32_rep v"
  by (simp add: f32_rep_def)

lemma f32_rep_abs [simp]: "f32_rep \<bar>v\<bar> = f32_rep v"
  by (simp add: abs_if)

lemma quantize_le: "f32_rep b \<Longrightarrow> q \<le> b \<Longrightarrow> quantize q \<le> b"
  using quantize_ge [of "- b" "- q"] by simp

lemma quantize_rep: "quantize (quantize q) = quantize q"
proof -
  define k where "k = qexp q"
  have "\<bar>q / pow2 k\<bar> \<le> of_int (2 ^ 24)"
  proof -
    have "\<bar>q\<bar> / pow2 k \<le> pow2 (k + 24) / pow2 k"
      using qexp_upper [of q] by (intro divide_right_mono) (auto simp: k_def)
    also have "\<dots> = of_int (2 ^ 24)" unfolding pow2_add by (simp add: pow2_def)
    finally show ?thesis by (simp add: abs_divide)
  qed
  then have "q / pow2 k \<le> of_int (2 ^ 24)" "of_int (- (2 ^ 24)) \<le> q / pow2 k"
    by (simp_all only: of_int_minus abs_le_iff minus_le_iff)
  then have "\<bar>rne (q / pow2 k)\<bar> \<le> 2 ^ 24"
    using rne_le_int rne_ge_int by (metis abs_le_iff minus_le_iff)
  then show ?thesis
    using qexp_ge [of q] by (intro quantize_dyadic [where j = k]) (simp_all add: quantize_def k_def)
qed

lemma f32_rep_dyadic:
  "\<lbrakk>v = of_int m * pow2 j; -149 \<le> j; \<bar>m\<bar> \<le> 2 ^ 24; \<bar>v\<bar> < pow2 128\<rbrakk> \<Longrightarrow> f32_rep v"
  by (simp add: f32_rep_def quantize_dyadic)

lemma f32_rep_of_int: "\<bar>n\<bar> \<le> 2 ^ 24 \<Longrightarrow> f32_rep (of_int n)"
proof -
  assume n: "\<bar>n\<bar> \<le> 2 ^ 24"
  have "\<bar>of_int n :: rat\<bar> = of_int \<bar>n\<bar>" by simp
  also have "\<dots> \<le> of_int (2 ^ 24)" using n by (simp only: of_int_le_iff)
  also have "\<dots> < pow2 128" by (simp add: pow2_def)
  finally show ?thesis using n by (intro f32_rep_dyadic [where m = n and j = 0]) (simp_all add: pow2_def)
qed

lemma f32_rep_0 [simp]: "f32_rep 0"
  using f32_rep_of_int [of 0] by simp

lemma of_int_abs_le: "\<bar>n\<bar> \<le> k \<Longrightarrow> \<bar>of_int n :: rat\<bar> \<le> of_int k"
  by (simp only: of_int_le_iff flip: of_int_abs)

lemma f32_rep_1 [simp]: "f32_rep 1"
  using f32_rep_of_int [of 1] by simp

lemma f32_rep_numeral: "(numeral w :: int) \<le> 2 ^ 24 \<Longrightarrow> f32_rep (numeral w)"
  using f32_rep_of_int [of "numeral w"] by simp

subsection \<open>The rounding theorem and its uses\<close>

lemma f32_round_rep: "f32_rep q \<Longrightarrow> f32_round q = Fin q"
  by (simp add: f32_round_def f32_rep_def)

lemma f32_round_Fin_rep: "f32_round q = Fin v \<Longrightarrow> f32_rep v"
  by (auto simp: f32_round_def f32_rep_def Let_def quantize_rep split: if_splits)

text \<open>Rounding never crosses a representable value, and does not overflow between two of them.\<close>

lemma f32_round_between:
  assumes "f32_rep a" "f32_rep b" "a \<le> q" "q \<le> b"
  obtains v where "f32_round q = Fin v" "a \<le> v" "v \<le> b" "f32_rep v"
proof -
  have ab: "a \<le> quantize q" "quantize q \<le> b"
    using assms by (auto intro: quantize_ge quantize_le)
  moreover have "\<bar>quantize q\<bar> < pow2 128"
    using ab assms(1,2) by (auto simp: f32_rep_def abs_if split: if_splits)
  ultimately show ?thesis
    using that [of "quantize q"] by (simp add: f32_round_def f32_rep_def quantize_rep)
qed

lemma f32_round_0 [simp]: "f32_round 0 = Fin 0"
  by (simp add: f32_round_rep)

lemma f32_of_int_exact: "\<bar>n\<bar> \<le> 2 ^ 24 \<Longrightarrow> f32_of_int n = Fin (of_int n)"
  by (simp add: f32_of_int_def f32_round_rep f32_rep_of_int)

text \<open>A float in a closed interval: a finite representable value between the bounds.\<close>

definition f32_in :: "rat \<Rightarrow> rat \<Rightarrow> f32 \<Rightarrow> bool" where
  "f32_in a b x = (case x of Fin v \<Rightarrow> f32_rep v \<and> a \<le> v \<and> v \<le> b | _ \<Rightarrow> False)"

lemma f32_inE:
  assumes "f32_in a b x" obtains v where "x = Fin v" "f32_rep v" "a \<le> v" "v \<le> b"
  using assms by (auto simp: f32_in_def split: f32.splits)

lemma f32_in_Fin [simp]: "f32_in a b (Fin v) \<longleftrightarrow> f32_rep v \<and> a \<le> v \<and> v \<le> b"
  by (simp add: f32_in_def)

lemma f32_in_round:
  "\<lbrakk>f32_rep a; f32_rep b; a \<le> q; q \<le> b\<rbrakk> \<Longrightarrow> f32_in a b (f32_round q)"
  by (erule (3) f32_round_between) simp

lemma f32_in_mono: "f32_in a b x \<Longrightarrow> c \<le> a \<Longrightarrow> b \<le> d \<Longrightarrow> f32_in c d x"
  by (auto elim!: f32_inE)

text \<open>A well-formed float: not a rational that no single has.\<close>

definition f32_ok :: "f32 \<Rightarrow> bool" where
  "f32_ok x = (case x of Fin v \<Rightarrow> f32_rep v | _ \<Rightarrow> True)"

lemma f32_ok_simps [simp]: "f32_ok FNan" "f32_ok (FInf s)" "f32_ok (Fin v) = f32_rep v"
  by (simp_all add: f32_ok_def)

lemma f32_ok_round [simp]: "f32_ok (f32_round q)"
  by (cases "f32_round q") (auto dest: f32_round_Fin_rep)

lemma f32_ok_ops [simp]:
  "f32_ok x \<Longrightarrow> f32_ok (fneg x)" "f32_ok x \<Longrightarrow> f32_ok (fabsf x)"
  "f32_ok x \<Longrightarrow> f32_ok y \<Longrightarrow> f32_ok (fadd x y)" "f32_ok x \<Longrightarrow> f32_ok y \<Longrightarrow> f32_ok (fsub x y)"
  "f32_ok x \<Longrightarrow> f32_ok y \<Longrightarrow> f32_ok (fmul x y)" "f32_ok x \<Longrightarrow> f32_ok y \<Longrightarrow> f32_ok (fdiv x y)"
  "f32_ok (f32_of_int n)"
  by (cases x; cases y; simp add: fsub_def f32_of_int_def)+

subsection \<open>Interval arithmetic\<close>

text \<open>
  Bounds through the operations: an operation on floats in known ranges stays in any
  representable range that contains the exact results. \<open>f32_mag B\<close> is the symmetric range.
\<close>

named_theorems f32_bounds \<open>ranges of float operations\<close>

abbreviation f32_mag :: "rat \<Rightarrow> f32 \<Rightarrow> bool" where "f32_mag B \<equiv> f32_in (- B) B"

lemma fadd_in:
  "\<lbrakk>f32_in a b x; f32_in c d y; lo \<le> a + c; b + d \<le> hi; f32_rep lo; f32_rep hi\<rbrakk> \<Longrightarrow>
    f32_in lo hi (fadd x y)"
  by (auto elim!: f32_inE intro!: f32_in_round)

lemma fneg_in: "f32_in a b x \<Longrightarrow> f32_in (- b) (- a) (fneg x)"
  by (auto elim!: f32_inE)

lemma fsub_in:
  "\<lbrakk>f32_in a b x; f32_in c d y; lo \<le> a - d; b - c \<le> hi; f32_rep lo; f32_rep hi\<rbrakk> \<Longrightarrow>
    f32_in lo hi (fsub x y)"
  unfolding fsub_def by (rule fadd_in [OF _ fneg_in]) auto

lemma fmul_in:
  assumes "f32_in a b x" "f32_in c d y" "f32_rep lo" "f32_rep hi"
    "\<And>u v. \<lbrakk>a \<le> u; u \<le> b; c \<le> v; v \<le> d\<rbrakk> \<Longrightarrow> lo \<le> u * v \<and> u * v \<le> hi"
  shows "f32_in lo hi (fmul x y)"
  using assms by (auto elim!: f32_inE intro!: f32_in_round)

lemma fdiv_in:
  assumes "f32_in a b x" "f32_in c d y" "0 < c" "f32_rep lo" "f32_rep hi"
    "\<And>u v. \<lbrakk>a \<le> u; u \<le> b; c \<le> v; v \<le> d\<rbrakk> \<Longrightarrow> lo \<le> u / v \<and> u / v \<le> hi"
  shows "f32_in lo hi (fdiv x y)"
proof -
  obtain u v where x: "x = Fin u" "f32_rep u" "a \<le> u" "u \<le> b"
    and y: "y = Fin v" "f32_rep v" "c \<le> v" "v \<le> d"
    using assms(1,2) by (auto elim!: f32_inE)
  have "v \<noteq> 0" using assms(3) y by auto
  then show ?thesis using assms(4-6) x y by (auto intro!: f32_in_round)
qed

lemma fmul_mag:
  assumes "f32_mag A x" "f32_mag B y" "A * B \<le> C" "f32_rep C"
  shows "f32_mag C (fmul x y)"
proof (rule fmul_in [OF assms(1,2)])
  fix u v :: rat assume uv: "- A \<le> u" "u \<le> A" "- B \<le> v" "v \<le> B"
  then have "\<bar>u\<bar> * \<bar>v\<bar> \<le> A * B" by (intro mult_mono) auto
  then show "- C \<le> u * v \<and> u * v \<le> C" using assms(3) by (auto simp flip: abs_mult)
qed (use assms in auto)

lemma fadd_mag:
  "\<lbrakk>f32_mag A x; f32_mag B y; A + B \<le> C; f32_rep C\<rbrakk> \<Longrightarrow> f32_mag C (fadd x y)"
  by (erule (1) fadd_in) auto

lemma fsub_mag:
  "\<lbrakk>f32_mag A x; f32_mag B y; A + B \<le> C; f32_rep C\<rbrakk> \<Longrightarrow> f32_mag C (fsub x y)"
  by (erule (1) fsub_in) auto

lemma f32_rep_pow2 [simp]: "f32_rep (2 ^ k)" if "k < 128"
proof -
  have "f32_rep (of_int 1 * pow2 (int k))" using that
    by (intro f32_rep_dyadic [where m = 1 and j = "int k"]) (auto simp: abs_of_pos)
  then show ?thesis by (simp add: pow2_nat)
qed

lemma f32_rep_big [simp]:
  "f32_rep 33554432" "f32_rep 67108864" "f32_rep 134217728" "f32_rep 268435456"
  "f32_rep 536870912" "f32_rep 1073741824" "f32_rep 2147483648" "f32_rep 4294967296"
  using f32_rep_pow2 [of 25] f32_rep_pow2 [of 26] f32_rep_pow2 [of 27] f32_rep_pow2 [of 28]
    f32_rep_pow2 [of 29] f32_rep_pow2 [of 30] f32_rep_pow2 [of 31] f32_rep_pow2 [of 32] by simp_all

declare f32_rep_numeral [simp]

text \<open>\<^verbatim>\<open>if (x > m) x = m; else if (x < -m) x = -m;\<close>\<close>

lemma f32_clamp_mag:
  "\<lbrakk>f32_mag C x; f32_rep m; 0 \<le> m\<rbrakk> \<Longrightarrow>
    f32_mag m (if fgt x (Fin m) then Fin m else if flt x (fneg (Fin m)) then fneg (Fin m) else x)"
  by (auto elim!: f32_inE)

text \<open>Adding something nonnegative never decreases a float.\<close>

lemma fadd_ge:
  assumes "x = Fin u" "f32_rep u" "f32_in 0 b y"
  shows "fle x (fadd x y)"
proof -
  obtain v where v: "y = Fin v" "0 \<le> v" using assms(3) by (auto elim!: f32_inE)
  have ge: "u \<le> quantize (u + v)" using assms v by (intro quantize_ge) auto
  moreover have "- pow2 128 < u" using assms(2) by (auto simp: f32_rep_def abs_less_iff)
  ultimately have "pow2 128 \<le> \<bar>quantize (u + v)\<bar> \<Longrightarrow> 0 \<le> quantize (u + v)" by linarith
  then show ?thesis using ge v assms(1) by (auto simp: f32_round_def Let_def)
qed

text \<open>The rounding error is at most half a unit in the last place.\<close>

lemma quantize_error:
  assumes "\<bar>q\<bar> < pow2 (k + 24)" "-149 \<le> k"
  shows "\<bar>quantize q - q\<bar> \<le> pow2 k / 2"
proof -
  define p where "p = pow2 (qexp q)"
  have p: "0 < p" "p \<le> pow2 k" using qexp_le [OF assms] by (simp_all add: p_def)
  have "\<bar>quantize q - q\<bar> = \<bar>of_int (rne (q / p)) - q / p\<bar> * p"
    using p(1) by (simp add: quantize_def p_def abs_mult algebra_simps flip: abs_of_pos [OF p(1)] )
      (simp add: field_simps abs_mult_pos' flip: abs_mult_pos)
  also have "\<dots> \<le> 1 / 2 * p" using rne_error p(1) by (intro mult_right_mono) auto
  finally show ?thesis using p by linarith
qed

text \<open>A rounding between two representable values, with its error.\<close>

lemma f32_round_near:
  assumes "f32_rep a" "f32_rep b" "a \<le> q" "q \<le> b" "\<bar>q\<bar> < pow2 (k + 24)" "-149 \<le> k"
  obtains v where "f32_round q = Fin v" "f32_rep v" "a \<le> v" "v \<le> b" "\<bar>v - q\<bar> \<le> pow2 k / 2"
proof -
  obtain v where v: "f32_round q = Fin v" "a \<le> v" "v \<le> b" "f32_rep v"
    using assms(1-4) by (rule f32_round_between)
  then have "v = quantize q" by (auto simp: f32_round_def Let_def split: if_splits)
  then have "\<bar>v - q\<bar> \<le> pow2 k / 2" using quantize_error [OF assms(5,6)] by simp
  then show ?thesis using that v by blast
qed

lemma f32_in_of_int:
  assumes "0 \<le> n" "n \<le> k" "k \<le> 2 ^ 24" shows "f32_in 0 (of_int k) (f32_of_int n)"
  using assms by (subst f32_of_int_exact) (auto intro: f32_rep_of_int)

lemma fadd_ints:
  assumes "0 \<le> a" "0 \<le> b" "a + b \<le> 2 ^ 24"
  shows "fadd (f32_of_int a) (f32_of_int b) = f32_of_int (a + b)"
proof -
  have "f32_of_int a = Fin (of_int a)" "f32_of_int b = Fin (of_int b)"
    using assms by (auto intro: f32_of_int_exact)
  then show ?thesis by (simp add: f32_of_int_def)
qed

end
