(* ===== verification/Pid.thy ===== *)
theory Pid
  imports Float32
begin

text \<open>
  The PID controllers (\<^verbatim>\<open>Software/Mypid.c\<close>): the record \<^verbatim>\<open>Mypid\<close>, the initial gains, the positional
  and the incremental forms, and their variants with an output limit.

  \<open>PID_iOut_Max\<close> is what drives the wheels: its output is proved to stay within the limit and its
  state within a range that makes the arithmetic exact enough never to overflow. The positional
  variants compute the limit before they overwrite the output, so the limit has no effect.
\<close>

record Mypid =
  Target :: f32
  Actual :: f32
  Error0 :: f32
  Error1 :: f32
  Error_Sum :: f32
  Kp :: f32
  Ki :: f32
  Kd :: f32
  Out :: f32

definition Mypid0 :: Mypid where
  "Mypid0 = \<lparr>Target = Fin 0, Actual = Fin 0, Error0 = Fin 0, Error1 = Fin 0, Error_Sum = Fin 0,
     Kp = Fin 0, Ki = Fin 0, Kd = Fin 0, Out = Fin 0\<rparr>"

definition pid_init :: "f32 \<Rightarrow> f32 \<Rightarrow> f32 \<Rightarrow> f32 \<Rightarrow> Mypid \<Rightarrow> Mypid" where
  "pid_init target kp ki kd p = p\<lparr>Target := target, Actual := flit 0, Kp := kp, Ki := ki, Kd := kd,
     Error0 := flit 0, Error1 := flit 0, Error_Sum := flit 0, Out := flit 0\<rparr>"

text \<open>The code's common expression \<^verbatim>\<open>Kp * Error0 + Ki * Error_Sum + Kd * (Error0 - Error1)\<close>.\<close>

definition pid_positional :: "Mypid \<Rightarrow> f32" where
  "pid_positional p = fadd (fadd (fmul (Kp p) (Error0 p)) (fmul (Ki p) (Error_Sum p)))
     (fmul (Kd p) (fsub (Error0 p) (Error1 p)))"

text \<open>\<^verbatim>\<open>if (PID->Out > Max) PID->Out = Max; if (PID->Out < -Max) PID->Out = -Max;\<close>\<close>

definition pid_limit :: "f32 \<Rightarrow> Mypid \<Rightarrow> Mypid" where
  "pid_limit mx p = (let p = (if fgt (Out p) mx then p\<lparr>Out := mx\<rparr> else p) in
     if flt (Out p) (fneg mx) then p\<lparr>Out := fneg mx\<rparr> else p)"

definition PID_pOut :: "Mypid \<Rightarrow> f32 \<Rightarrow> f32 \<times> Mypid" where
  "PID_pOut p actual = (let
     p = p\<lparr>Actual := actual\<rparr>;
     p = p\<lparr>Error0 := fsub (Target p) (Actual p)\<rparr>;
     p = p\<lparr>Error_Sum := fadd (Error_Sum p) (Error0 p)\<rparr>;
     p = p\<lparr>Out := pid_positional p\<rparr>;
     p = p\<lparr>Error1 := Error0 p\<rparr>
   in (Out p, p))"

definition PID_pOut_Max :: "Mypid \<Rightarrow> f32 \<Rightarrow> f32 \<Rightarrow> f32 \<times> Mypid" where
  "PID_pOut_Max p actual mx = (let
     p = p\<lparr>Actual := actual\<rparr>;
     p = p\<lparr>Error0 := fsub (Target p) (Actual p)\<rparr>;
     p = p\<lparr>Error_Sum := fadd (Error_Sum p) (Error0 p)\<rparr>;
     p = pid_limit mx p;
     p = p\<lparr>Out := pid_positional p\<rparr>;
     p = p\<lparr>Error1 := Error0 p\<rparr>
   in (Out p, p))"

definition PID_pOut_bujinMax :: "Mypid \<Rightarrow> f32 \<Rightarrow> f32 \<Rightarrow> f32 \<times> Mypid" where
  "PID_pOut_bujinMax p actual mx = (let
     p = p\<lparr>Error_Sum := fadd (Error_Sum p) (Error0 p)\<rparr>;
     p = pid_limit mx p;
     p = p\<lparr>Out := pid_positional p\<rparr>;
     p = p\<lparr>Error1 := Error0 p\<rparr>
   in (Out p, p))"

definition pid_increment :: "Mypid \<Rightarrow> f32" where
  "pid_increment p = fadd (fmul (Kp p) (fsub (Error0 p) (Error1 p))) (fmul (Ki p) (Error0 p))"

definition PID_iOut :: "Mypid \<Rightarrow> f32 \<Rightarrow> f32 \<times> Mypid" where
  "PID_iOut p actual = (let
     p = p\<lparr>Actual := actual\<rparr>;
     p = p\<lparr>Error0 := fsub (Target p) (Actual p)\<rparr>;
     p = p\<lparr>Out := fadd (Out p) (pid_increment p)\<rparr>;
     p = p\<lparr>Error1 := Error0 p\<rparr>
   in (Out p, p))"

definition PID_iOut_Max :: "Mypid \<Rightarrow> f32 \<Rightarrow> f32 \<Rightarrow> f32 \<times> Mypid" where
  "PID_iOut_Max p actual mx = (let
     p = p\<lparr>Actual := actual\<rparr>;
     p = p\<lparr>Error0 := fsub (Target p) (Actual p)\<rparr>;
     p = p\<lparr>Out := fadd (Out p) (pid_increment p)\<rparr>;
     p = (if fgt (Out p) mx then p\<lparr>Out := mx\<rparr>
          else if flt (Out p) (fneg mx) then p\<lparr>Out := fneg mx\<rparr> else p);
     p = p\<lparr>Error1 := Error0 p\<rparr>
   in (Out p, p))"

subsection \<open>The limited incremental controller\<close>

text \<open>
  A controller state from which no operation can overflow: targets and measurements up to
  \<open>2\<^sup>2\<^sup>0\<close>, gains up to 8, the output within the limit.
\<close>

definition pid_safe :: "rat \<Rightarrow> Mypid \<Rightarrow> bool" where
  "pid_safe M p \<longleftrightarrow> f32_mag (2 ^ 20) (Target p) \<and> f32_mag (2 ^ 21) (Error1 p) \<and>
     f32_mag (2 ^ 3) (Kp p) \<and> f32_mag (2 ^ 3) (Ki p) \<and> f32_mag M (Out p)"

lemma pid_safe_target [simp]:
  "pid_safe M p \<Longrightarrow> f32_mag (2 ^ 20) t \<Longrightarrow> pid_safe M (p\<lparr>Target := t\<rparr>)"
  by (simp add: pid_safe_def)

lemma PID_iOut_Max_fields:
  "Target (snd (PID_iOut_Max p a M)) = Target p" "Kp (snd (PID_iOut_Max p a M)) = Kp p"
  "Ki (snd (PID_iOut_Max p a M)) = Ki p" "Error1 (snd (PID_iOut_Max p a M)) = fsub (Target p) a"
  "Out (snd (PID_iOut_Max p a M)) = fst (PID_iOut_Max p a M)"
  by (simp_all add: PID_iOut_Max_def Let_def)

lemma PID_iOut_Max_out:
  "fst (PID_iOut_Max p a M) = (let x = fst (PID_iOut p a) in
     if fgt x M then M else if flt x (fneg M) then fneg M else x)"
  by (simp add: PID_iOut_Max_def PID_iOut_def pid_increment_def Let_def)

lemma PID_iOut_mag:
  assumes "pid_safe M p" "f32_mag (2 ^ 20) a" "M \<le> 2 ^ 20"
  shows "f32_mag (2 ^ 27) (fst (PID_iOut p a))"
proof -
  note s = assms(1) [unfolded pid_safe_def]
  have e: "f32_mag (2 ^ 21) (fsub (Target p) a)"
    by (rule fsub_mag [where A = "2 ^ 20" and B = "2 ^ 20"]) (use s assms in auto)
  have d: "f32_mag (2 ^ 22) (fsub (fsub (Target p) a) (Error1 p))"
    by (rule fsub_mag [OF e, where B = "2 ^ 21"]) (use s in auto)
  have kd: "f32_mag (2 ^ 25) (fmul (Kp p) (fsub (fsub (Target p) a) (Error1 p)))"
    by (rule fmul_mag [OF _ d, where A = "2 ^ 3"]) (use s in auto)
  have ke: "f32_mag (2 ^ 24) (fmul (Ki p) (fsub (Target p) a))"
    by (rule fmul_mag [OF _ e, where A = "2 ^ 3"]) (use s in auto)
  have i: "f32_mag (2 ^ 26) (pid_increment (p\<lparr>Actual := a, Error0 := fsub (Target p) a\<rparr>))"
    using fadd_mag [OF kd ke, of "2 ^ 26"] by (simp add: pid_increment_def)
  have o: "f32_mag (2 ^ 20) (Out p)" by (rule f32_in_mono [where a = "- M" and b = M]) (use s assms in auto)
  show ?thesis using fadd_mag [OF o i, of "2 ^ 27"] by (simp add: PID_iOut_def Let_def)
qed

lemma PID_iOut_Max_safe:
  assumes "pid_safe M p" "f32_mag (2 ^ 20) a" "M \<le> 2 ^ 20" "f32_rep M" "0 \<le> M"
  shows "f32_mag M (fst (PID_iOut_Max p a (Fin M)))" "pid_safe M (snd (PID_iOut_Max p a (Fin M)))"
proof -
  show m: "f32_mag M (fst (PID_iOut_Max p a (Fin M)))"
    unfolding PID_iOut_Max_out Let_def
    by (rule f32_clamp_mag [OF PID_iOut_mag [OF assms(1-3)]]) (use assms in auto)
  have "f32_mag (2 ^ 21) (fsub (Target p) a)"
    by (rule fsub_mag [where A = "2 ^ 20" and B = "2 ^ 20"]) (use assms in \<open>auto simp: pid_safe_def\<close>)
  then show "pid_safe M (snd (PID_iOut_Max p a (Fin M)))"
    using assms(1) m by (simp add: pid_safe_def PID_iOut_Max_fields)
qed

definition pid_run :: "rat \<Rightarrow> (f32 \<times> f32) list \<Rightarrow> Mypid \<Rightarrow> Mypid" where
  "pid_run M tas p = fold (\<lambda>(t, a) p. snd (PID_iOut_Max (p\<lparr>Target := t\<rparr>) a (Fin M))) tas p"

text \<open>
  C7 (bounds). Started from any state in range and fed any bounded measurements and bounded
  targets, the controller of the wheels returns a finite value within its limit at every one of
  any number of steps.
\<close>

theorem PID_iOut_Max_run_bounded:
  assumes "pid_safe M p" "M \<le> 2 ^ 20" "f32_rep M" "0 \<le> M"
    and "\<forall>(t, a)\<in>set tas. f32_mag (2 ^ 20) t \<and> f32_mag (2 ^ 20) a"
  shows "f32_mag M (Out (pid_run M tas p)) \<and> pid_safe M (pid_run M tas p)"
proof -
  have "pid_safe M (pid_run M tas p)"
    unfolding pid_run_def
    by (rule fold_invariant) (use assms PID_iOut_Max_safe(2) in \<open>auto simp: split_beta\<close>)
  then show ?thesis by (simp add: pid_safe_def)
qed

subsection \<open>The limit of the positional controllers\<close>

lemma pid_limit_fields [simp]:
  "Error0 (pid_limit M p) = Error0 p" "Error1 (pid_limit M p) = Error1 p"
  "Error_Sum (pid_limit M p) = Error_Sum p" "Kp (pid_limit M p) = Kp p"
  "Ki (pid_limit M p) = Ki p" "Kd (pid_limit M p) = Kd p" "Target (pid_limit M p) = Target p"
  "Actual (pid_limit M p) = Actual p"
  by (simp_all add: pid_limit_def Let_def)

lemma pid_limit_out: "(pid_limit M p)\<lparr>Out := x\<rparr> = p\<lparr>Out := x\<rparr>"
  by (simp add: pid_limit_def Let_def)

lemma PID_pOut_Max_is_PID_pOut_eq: "PID_pOut_Max p actual mx = PID_pOut p actual"
proof -
  have "pid_positional (pid_limit mx q) = pid_positional q" for q
    by (simp add: pid_positional_def)
  then show ?thesis
    by (simp add: PID_pOut_Max_def PID_pOut_def Let_def pid_limit_out)
qed

text \<open>
  \<^verbatim>\<open>PID_pOut_Max\<close> is \<^verbatim>\<open>PID_pOut\<close>: it limits the output of the previous step and
  then overwrites it, so its argument \<^verbatim>\<open>Max\<close> changes neither the result nor the state.
\<close>

theorem PID_pOut_Max_is_PID_pOut: "PID_pOut_Max p actual mx = PID_pOut p actual"
  by (rule PID_pOut_Max_is_PID_pOut_eq)

text \<open>
  The stepper variant ignores both its measurement and its limit: it repeats
  the positional step with whatever error is stored.
\<close>

theorem PID_pOut_bujinMax_ignores_arguments:
  "PID_pOut_bujinMax p a M = PID_pOut_bujinMax p b N"
proof -
  have "pid_positional (pid_limit M q) = pid_positional q" for q M
    by (simp add: pid_positional_def)
  then show ?thesis by (simp add: PID_pOut_bujinMax_def Let_def pid_limit_out)
qed

theorem PID_iOut_Max_run_bounded_witness:
  "f32_mag 4199 (Out (pid_run 4199 [(Fin 300, Fin 0), (Fin (-300), Fin 32767)]
      (pid_init (Fin 0) (flit (17/100)) (flit (6/100)) (flit (8/100)) Mypid0))) \<and>
   pid_safe 4199 (pid_run 4199 [(Fin 300, Fin 0), (Fin (-300), Fin 32767)]
      (pid_init (Fin 0) (flit (17/100)) (flit (6/100)) (flit (8/100)) Mypid0))"
  by (rule PID_iOut_Max_run_bounded) (simp_all add: pid_init_def pid_safe_def f32_in_round)

end
