(* ===== verification/Hal.thy ===== *)
theory Hal
  imports Prelude
begin

text \<open>
  The peripherals the firmware drives through the STM32 HAL: the output registers of the GPIO
  ports (\<^verbatim>\<open>HAL_GPIO_WritePin\<close>, \<^verbatim>\<open>HAL_GPIO_TogglePin\<close>), the compare and counter registers of the
  timers, and the record of the configuration calls made by the modules' \<^verbatim>\<open>Init\<close> functions, in
  order. \<open>hw\<close> is the root of the firmware's state: the modules' globals extend it.
\<close>

datatype gpio_port = GPIOA | GPIOB | GPIOC | GPIOD | GPIOE
datatype tim = TIM1 | TIM3 | TIM4 | TIM12
datatype gpio_mode = OUTPUT_PP | OUTPUT_OD | AF_PP | IT_RISING_FALLING | ANALOG
datatype gpio_pull = NOPULL | PULLUP
datatype gpio_speed = SPEED_LOW | SPEED_MEDIUM | SPEED_HIGH | SPEED_VERY_HIGH
datatype ic_polarity = RISING | FALLING

datatype hal_call =
    RCC_GPIO_ENABLE gpio_port
  | RCC_TIM_ENABLE tim
  | RCC_ADC1_ENABLE
  | RCC_SYSCFG_ENABLE
  | NVIC_SetPriority nat nat nat
  | NVIC_EnableIRQ nat
  | GPIO_Init gpio_port u16 gpio_mode gpio_pull gpio_speed "nat option"
  | TIM_PWM_Init tim nat nat
  | TIM_PWM_ConfigChannel tim nat u16
  | TIM_PWM_Start tim nat
  | TIM_Encoder_Init tim nat nat ic_polarity ic_polarity nat
  | TIM_Encoder_Start tim

record hw =
  ODR :: "gpio_port \<Rightarrow> u16"
  CCR :: "tim \<times> nat \<Rightarrow> u16"
  CNT :: "tim \<Rightarrow> u16"
  hal_log :: "hal_call list"

definition hw0 :: hw where
  "hw0 = \<lparr>ODR = (\<lambda>_. 0), CCR = (\<lambda>_. 0), CNT = (\<lambda>_. 0), hal_log = []\<rparr>"

definition GPIO_PIN :: "nat \<Rightarrow> u16" where
  "GPIO_PIN n = push_bit n 1"

text \<open>A set or reset through \<^verbatim>\<open>BSRR\<close> changes the pins of the mask only.\<close>

definition HAL_GPIO_WritePin :: "gpio_port \<Rightarrow> u16 \<Rightarrow> bool \<Rightarrow> 'a hw_scheme \<Rightarrow> 'a hw_scheme" where
  "HAL_GPIO_WritePin p m s w =
     w\<lparr>ODR := (ODR w)(p := if s then ODR w p OR m else ODR w p AND NOT m)\<rparr>"

definition HAL_GPIO_TogglePin :: "gpio_port \<Rightarrow> u16 \<Rightarrow> 'a hw_scheme \<Rightarrow> 'a hw_scheme" where
  "HAL_GPIO_TogglePin p m w =
     (if ODR w p AND m = m then HAL_GPIO_WritePin p m False w else HAL_GPIO_WritePin p m True w)"

text \<open>\<^verbatim>\<open>__HAL_TIM_SET_COMPARE\<close>, \<^verbatim>\<open>__HAL_TIM_SET_COUNTER\<close>, \<^verbatim>\<open>__HAL_TIM_GET_COUNTER\<close>: 16-bit registers.\<close>

definition HAL_TIM_SET_COMPARE :: "tim \<Rightarrow> nat \<Rightarrow> u16 \<Rightarrow> 'a hw_scheme \<Rightarrow> 'a hw_scheme" where
  "HAL_TIM_SET_COMPARE t c v w = w\<lparr>CCR := (CCR w)((t, c) := v)\<rparr>"

definition HAL_TIM_SET_COUNTER :: "tim \<Rightarrow> u16 \<Rightarrow> 'a hw_scheme \<Rightarrow> 'a hw_scheme" where
  "HAL_TIM_SET_COUNTER t v w = w\<lparr>CNT := (CNT w)(t := v)\<rparr>"

definition HAL_TIM_GET_COUNTER :: "tim \<Rightarrow> 'a hw_scheme \<Rightarrow> u16" where
  "HAL_TIM_GET_COUNTER t w = CNT w t"

text \<open>A configuration call; configuring a PWM channel also loads its first compare value.\<close>

definition hal :: "hal_call \<Rightarrow> 'a hw_scheme \<Rightarrow> 'a hw_scheme" where
  "hal c w = (let w = w\<lparr>hal_log := hal_log w @ [c]\<rparr> in
     case c of TIM_PWM_ConfigChannel t ch v \<Rightarrow> HAL_TIM_SET_COMPARE t ch v w | _ \<Rightarrow> w)"

definition hal_calls :: "hal_call list \<Rightarrow> 'a hw_scheme \<Rightarrow> 'a hw_scheme" where
  "hal_calls cs w = fold hal cs w"

text \<open>A pin driven high, and the pins a configuration trace has claimed.\<close>

definition pin_high :: "'a hw_scheme \<Rightarrow> gpio_port \<Rightarrow> nat \<Rightarrow> bool" where
  "pin_high w p n = bit (ODR w p) n"

fun claims :: "hal_call \<Rightarrow> (gpio_port \<times> u16) list" where
  "claims (GPIO_Init p m _ _ _ _) = [(p, m)]"
| "claims _ = []"

subsection \<open>Facts\<close>

named_theorems hw_simps \<open>effects of the HAL operations on the registers\<close>

lemma pin_high_write [hw_simps]:
  "n < 16 \<Longrightarrow> k < 16 \<Longrightarrow> pin_high (HAL_GPIO_WritePin p (GPIO_PIN k) s w) q n =
     (if p = q \<and> k = n then s else pin_high w q n)"
  by (auto simp: pin_high_def HAL_GPIO_WritePin_def GPIO_PIN_def bit_simps)

lemma pin_high_toggle [hw_simps]:
  assumes "n < 16" "k < 16"
  shows "pin_high (HAL_GPIO_TogglePin p (GPIO_PIN k) w) q n =
     (if p = q \<and> k = n then \<not> pin_high w q n else pin_high w q n)"
proof -
  have "ODR w p AND GPIO_PIN k = GPIO_PIN k \<longleftrightarrow> pin_high w p k"
  proof
    assume "ODR w p AND GPIO_PIN k = GPIO_PIN k"
    then have "bit (ODR w p AND GPIO_PIN k) k = bit (GPIO_PIN k) k" by simp
    then show "pin_high w p k" using assms by (simp add: GPIO_PIN_def bit_simps pin_high_def)
  next
    assume "pin_high w p k"
    then show "ODR w p AND GPIO_PIN k = GPIO_PIN k"
      by (intro bit_word_eqI) (auto simp: GPIO_PIN_def bit_simps pin_high_def)
  qed
  then show ?thesis using assms by (auto simp: HAL_GPIO_TogglePin_def hw_simps)
qed

lemma HAL_GPIO_WritePin_fields [hw_simps]:
  "CCR (HAL_GPIO_WritePin p m s w) = CCR w" "CNT (HAL_GPIO_WritePin p m s w) = CNT w"
  "hal_log (HAL_GPIO_WritePin p m s w) = hal_log w" "hw.more (HAL_GPIO_WritePin p m s w) = hw.more w"
  by (simp_all add: HAL_GPIO_WritePin_def)

lemma HAL_TIM_SET_COMPARE_fields [hw_simps]:
  "CCR (HAL_TIM_SET_COMPARE t c v w) = (CCR w)((t, c) := v)"
  "ODR (HAL_TIM_SET_COMPARE t c v w) = ODR w" "CNT (HAL_TIM_SET_COMPARE t c v w) = CNT w"
  "hal_log (HAL_TIM_SET_COMPARE t c v w) = hal_log w"
  "hw.more (HAL_TIM_SET_COMPARE t c v w) = hw.more w"
  by (simp_all add: HAL_TIM_SET_COMPARE_def)

lemma pin_high_compare [hw_simps]:
  "pin_high (HAL_TIM_SET_COMPARE t c v w) p n = pin_high w p n"
  by (simp add: pin_high_def HAL_TIM_SET_COMPARE_def)

lemma hal_more [hw_simps]: "hw.more (hal c w) = hw.more w"
  by (simp add: hal_def HAL_TIM_SET_COMPARE_def Let_def split: hal_call.split)

lemma hal_calls_more [hw_simps]: "hw.more (hal_calls cs w) = hw.more w"
  unfolding hal_calls_def by (induction cs arbitrary: w) (simp_all add: hw_simps)

lemma hal_odr [hw_simps]: "ODR (hal c w) = ODR w"
  by (simp add: hal_def HAL_TIM_SET_COMPARE_def Let_def split: hal_call.split)

lemma hal_calls_odr [hw_simps]: "ODR (hal_calls cs w) = ODR w"
  unfolding hal_calls_def by (induction cs arbitrary: w) (simp_all add: hw_simps)

lemma hal_calls_log [hw_simps]: "hal_log (hal_calls cs w) = hal_log w @ cs"
proof -
  have "hal_log (hal c v) = hal_log v @ [c]" for c and v :: "'a hw_scheme"
    by (simp add: hal_def HAL_TIM_SET_COMPARE_def Let_def split: hal_call.split)
  then show ?thesis unfolding hal_calls_def by (induction cs arbitrary: w) simp_all
qed

lemma hal_cnt [hw_simps]: "CNT (hal c w) = CNT w"
  by (simp add: hal_def HAL_TIM_SET_COMPARE_def Let_def split: hal_call.split)

lemma hal_calls_cnt [hw_simps]: "CNT (hal_calls cs w) = CNT w"
  unfolding hal_calls_def by (induction cs arbitrary: w) (simp_all add: hw_simps)

text \<open>The whole effect of a configuration trace: only compare values and the trace change.\<close>

lemma hal_calls_frame:
  obtains l c where "hal_calls cs w = w\<lparr>CCR := c, hal_log := l\<rparr>"
proof -
  have "hal_calls cs w = w\<lparr>CCR := CCR (hal_calls cs w), hal_log := hal_log (hal_calls cs w)\<rparr>"
    by (rule hw.equality) (simp_all add: hw_simps)
  then show ?thesis using that by blast
qed

lemma hal_frame:
  obtains l c where "hal x w = w\<lparr>CCR := c, hal_log := l\<rparr>"
  using hal_calls_frame [of "[x]" w] by (auto simp: hal_calls_def)

end
