(* ===== verification/Vl53.thy ===== *)
theory Vl53
  imports Prelude
begin

text \<open>
  The distance sensor's frame decoder (\<^verbatim>\<open>VL53_DataProc\<close> in \<^verbatim>\<open>Software/VL53_DMA.c\<close>). A frame is
  seven characters: \<^verbatim>\<open>e:\<close>, four digits padded with blanks on the left, \<^verbatim>\<open>m\<close>. The decoder reads
  through a pointer into the receive thread's buffer: \<open>m\<close> is that buffer and \<open>base\<close> the pointer.
\<close>

definition VL53pack_head_1 :: u8 where "VL53pack_head_1 = 0x65"
definition VL53pack_head_2 :: u8 where "VL53pack_head_2 = 0x3a"
definition VL53pack_tail :: u8 where "VL53pack_tail = 0x6D"
definition VL53pack_num :: nat where "VL53pack_num = 7"

lemmas vl53_consts = VL53pack_head_1_def VL53pack_head_2_def VL53pack_tail_def VL53pack_num_def

record vl53_st =
  receive_qian :: u8
  receive_bai :: u8
  receive_shi :: u8
  receive_ge :: u8
  Distance :: u16

definition vl53_init :: vl53_st where
  "vl53_init = \<lparr>receive_qian = 0, receive_bai = 0, receive_shi = 0, receive_ge = 0, Distance = 0\<rparr>"

text \<open>One character to a digit: a blank counts as zero, anything else is shifted down by \<^verbatim>\<open>'0'\<close>.\<close>

definition vl53_digit :: "u8 \<Rightarrow> u8" where
  "vl53_digit b = (if b = 0x20 then 0 else b - 0x30)"

definition vl53_take :: "bytes \<Rightarrow> nat \<Rightarrow> vl53_st \<Rightarrow> vl53_st option" where
  "vl53_take m p s =
     Option.bind (rd m (p + 2)) (\<lambda>q. Option.bind (rd m (p + 3)) (\<lambda>b.
     Option.bind (rd m (p + 4)) (\<lambda>h. Option.bind (rd m (p + 5)) (\<lambda>g.
       Some (s\<lparr>receive_qian := vl53_digit q, receive_bai := vl53_digit b,
               receive_shi := vl53_digit h, receive_ge := vl53_digit g\<rparr>)))))"

definition vl53_at :: "bytes \<Rightarrow> nat \<Rightarrow> nat \<Rightarrow> nat \<Rightarrow> vl53_st \<Rightarrow> vl53_st option" where
  "vl53_at m base Size i s =
     if_opt (and_then (Some (i + VL53pack_num - 1 < Size))
            (and_then (rd_eq m (base + i) VL53pack_head_1)
            (and_then (rd_eq m (base + i + 1) VL53pack_head_2)
                      (rd_eq m (base + i + VL53pack_num - 1) VL53pack_tail))))
       (vl53_take m (base + i) s) (Some s)"

definition vl53_distance :: "vl53_st \<Rightarrow> u16" where
  "vl53_distance s = of_nat (unat (receive_qian s) * 1000 + unat (receive_bai s) * 100 +
     unat (receive_shi s) * 10 + unat (receive_ge s))"

definition VL53_DataProc :: "bytes \<Rightarrow> nat \<Rightarrow> nat \<Rightarrow> vl53_st \<Rightarrow> vl53_st option" where
  "VL53_DataProc m base Size s =
     Option.bind (for_each (vl53_at m base Size) [0..<Size - 1] s) (\<lambda>s1.
       Some (s1\<lparr>Distance := vl53_distance s1\<rparr>))"

subsection \<open>Abstract frames\<close>

definition vl53_frame :: "bytes \<Rightarrow> bool" where
  "vl53_frame f \<longleftrightarrow> length f = 7 \<and> f ! 0 = 0x65 \<and> f ! 1 = 0x3a \<and> f ! 6 = 0x6D"

definition vl53_apply :: "bytes \<Rightarrow> vl53_st \<Rightarrow> vl53_st" where
  "vl53_apply f s = (let s1 = s\<lparr>receive_qian := vl53_digit (f ! 2), receive_bai := vl53_digit (f ! 3),
       receive_shi := vl53_digit (f ! 4), receive_ge := vl53_digit (f ! 5)\<rparr>
     in s1\<lparr>Distance := vl53_distance s1\<rparr>)"

text \<open>
  On one whole frame inside the buffer the decoder reads nothing but the frame, and has the effect
  of the abstract decoder.
\<close>

lemma VL53_DataProc_frame:
  assumes "base + 7 \<le> length m" "vl53_frame (take 7 (drop base m))"
  shows "VL53_DataProc m base 7 s = Some (vl53_apply (take 7 (drop base m)) s)"
proof -
  have nth: "take 7 (drop base m) ! k = m ! (base + k)" if "k < 7" for k
    using assms(1) that by simp
  have f: "m ! base = 0x65" "m ! (base + 1) = 0x3a" "m ! (base + 6) = 0x6D"
    using assms(2) nth [of 0] nth [of 1] nth [of 6] by (simp_all add: vl53_frame_def)
  have idx: "[0..<7 - 1] = 0 # [1..<6]" by (simp add: upt_rec)
  have first: "vl53_at m base 7 0 s = vl53_take m base s"
    using assms(1) f by (simp add: vl53_at_def vl53_consts arr_simps add.commute)
  have rest: "for_each (vl53_at m base 7) [1..<6] s' = Some s'" for s'
    by (rule for_each_skip) (auto simp: vl53_at_def vl53_consts arr_simps)
  show ?thesis
    unfolding VL53_DataProc_def idx
    using assms(1) rest
    by (simp add: first vl53_take_def arr_simps vl53_apply_def Let_def nth)
qed

text \<open>The sensor's frame for a distance below ten metres: blanks for leading zeros.\<close>

definition vl53_char :: "bool \<Rightarrow> nat \<Rightarrow> u8" where
  "vl53_char blank d = (if blank \<and> d = 0 then 0x20 else 0x30 + of_nat d)"

definition vl53_encode :: "nat \<Rightarrow> bytes" where
  "vl53_encode n = [0x65, 0x3a, vl53_char True (n div 1000),
     vl53_char (n < 1000) (n div 100 mod 10), vl53_char (n < 100) (n div 10 mod 10),
     0x30 + of_nat (n mod 10), 0x6D]"

lemma vl53_digit_char: "d < 10 \<Longrightarrow> unat (vl53_digit (vl53_char b d)) = d"
proof -
  assume d: "d < 10"
  have u: "unat (0x30 + of_nat d :: u8) = 0x30 + d"
    using d by (simp add: unat_word_ariths unat_of_nat)
  have ne: "(0x30 + of_nat d :: u8) \<noteq> 0x20"
  proof
    assume "(0x30 + of_nat d :: u8) = 0x20"
    then have "unat (0x30 + of_nat d :: u8) = unat (0x20 :: u8)" by (rule arg_cong)
    then show False unfolding u by simp
  qed
  show ?thesis using d ne by (simp add: vl53_digit_def vl53_char_def unat_of_nat)
qed

lemma vl53_encode_frame [simp]: "vl53_frame (vl53_encode n)"
  by (simp add: vl53_frame_def vl53_encode_def)

lemma vl53_apply_distance:
  "Distance (vl53_apply [h1, h2, a, b, c, d, t] s) =
     of_nat (unat (vl53_digit a) * 1000 + unat (vl53_digit b) * 100 + unat (vl53_digit c) * 10 +
       unat (vl53_digit d))"
  by (simp add: vl53_apply_def Let_def vl53_distance_def)

lemma decimal_digits4:
  "(n::nat) div 1000 * 1000 + n div 100 mod 10 * 100 + n div 10 mod 10 * 10 + n mod 10 = n"
proof -
  have *: "c * 1000 + r2 * 100 + r1 * 10 + r0 = m"
    if "a * 10 + r0 = m" "b * 10 + r1 = a" "c * 10 + r2 = b" for a b c r0 r1 r2 m :: nat
    using that by linarith
  have "n div 1000 = n div 10 div 10 div 10" "n div 100 = n div 10 div 10"
    by (simp_all flip: div_mult2_eq)
  then show ?thesis
    using * [OF div_mult_mod_eq [of n 10] div_mult_mod_eq [of "n div 10" 10]
      div_mult_mod_eq [of "n div 10 div 10" 10]]
    by (simp only:)
qed

lemma vl53_encode_distance:
  assumes "n < 10000"
  shows "Distance (vl53_apply (vl53_encode n) s) = of_nat n"
proof -
  have u: "0x30 + of_nat (n mod 10) = vl53_char False (n mod 10)" by (simp add: vl53_char_def)
  have "unat (vl53_digit (vl53_char True (n div 1000))) = n div 1000"
    "unat (vl53_digit (vl53_char (n < 1000) (n div 100 mod 10))) = n div 100 mod 10"
    "unat (vl53_digit (vl53_char (n < 100) (n div 10 mod 10))) = n div 10 mod 10"
    "unat (vl53_digit (vl53_char False (n mod 10))) = n mod 10"
    by (rule vl53_digit_char, use assms in linarith)
      (rule vl53_digit_char, rule mod_less_divisor, rule zero_less_numeral)+
  then have "Distance (vl53_apply (vl53_encode n) s) =
      of_nat (n div 1000 * 1000 + n div 100 mod 10 * 100 + n div 10 mod 10 * 10 + n mod 10)"
    unfolding vl53_encode_def vl53_apply_distance u by (simp only:)
  then show ?thesis unfolding decimal_digits4 .
qed

end
