(* ===== verification/Globals.thy ===== *)
theory Globals
  imports Hal Float32 Vl53
begin

text \<open>
  The variables the modules share through their headers (\<^verbatim>\<open>extern\<close>), with their initial values:
  the command flags of the host link (\<^verbatim>\<open>usart5.c\<close>), of the camera link (\<^verbatim>\<open>usart4.c\<close>) and of the
  motion modes (\<^verbatim>\<open>SportMode.c\<close>), the attitude and the clock of the IMU (\<^verbatim>\<open>Usart2DMA_IMU.c\<close>), the
  alarm flags of the sensors and the values on display. Variables that are \<^verbatim>\<open>static\<close> to one module
  are fields of that module's own extension.
\<close>

record globals = hw +
  Motor_flag :: u8
  MaixMode_flag :: u8
  Water_flag :: u8
  My_temp :: f32
  My_humi :: f32
  OLED_MQ2ppm :: f32
  OLED_MQ135ppm :: f32
  OLED_SoilPercent :: f32
  Obspack :: bytes
  Source_X :: u16
  Source_Y :: u16
  blade_state :: u8
  Soil_PlantType :: u8
  lightONOFF_flag :: u8
  finding_flag :: u8
  Plantleaf_insflag :: u8
  Modestate_light :: u8
  starttime_cnt :: u16
  mystate :: u8
  Roll :: f32
  Pitch :: f32
  Yaw :: f32
  Year :: u8
  Month :: u8
  Day :: u8
  Hour :: u8
  Minute :: u8
  Second :: u8
  vl53 :: vl53_st
  MQ2ppm :: f32
  MQ2_AlarmFlag :: u8
  ppm135 :: f32
  MQ135_AlarmFlag :: u8
  percentSoil :: f32
  Soil_AlarmFlag :: u8
  DHT11_AlarmFlag :: u8

definition UART4_MODE_SHADE :: u8 where "UART4_MODE_SHADE = 1"
definition UART4_MODE_HALF_SHADE :: u8 where "UART4_MODE_HALF_SHADE = 2"
definition UART4_MODE_SUN :: u8 where "UART4_MODE_SUN = 3"

lemmas plant_types = UART4_MODE_SHADE_def UART4_MODE_HALF_SHADE_def UART4_MODE_SUN_def

definition globals0 :: globals where
  "globals0 = hw.extend hw0 (globals.fields
     1 2 1 (Fin 0) (Fin 0) (Fin 0) (Fin 0) (Fin 0) [0xAA, 0x20, 0, 0, 0, 0, 0x55]
     0 0 3 UART4_MODE_SHADE 0 0 1 1 0 0
     (Fin 0) (Fin 0) (Fin 0) 0 0 0 0 0 0 vl53_init
     (Fin 0) 0 (Fin 0) 0 (Fin 0) 0 0)"

end
