(* ===== verification/MotorEncoder.thy ===== *)
theory MotorEncoder
  imports Globals
begin

text \<open>
  The wheel encoders (\<^verbatim>\<open>Software/MotorEncoder.c\<close>): configuration of the two counters, and the
  10 ms sampling that turns a count into a speed and adds it to the mileage.

  The two reads of the counter in one sampling see the same value. A count read as \<^verbatim>\<open>int16_t\<close> is
  signed; the mileage is subtracted for negative counts and added for the others, so it measures
  the distance driven in either direction.
\<close>

record encoders = globals +
  Encoder_Speed1 :: int
  Encoder_Speed2 :: int
  Milleage1 :: f32
  Milleage2 :: f32
  Milleage :: f32
  Milleage1_flag :: u8
  Milleage2_flag :: u8
  encoder1_inited :: bool
  encoder2_inited :: bool

definition encoders0 :: encoders where
  "encoders0 = globals.extend globals0
     (encoders.fields 0 0 (Fin 0) (Fin 0) (Fin 0) 1 2 False False)"

definition encoder_gpio_init_pd12_pd13 :: "'a hw_scheme \<Rightarrow> 'a hw_scheme" where
  "encoder_gpio_init_pd12_pd13 = hal_calls
     [RCC_GPIO_ENABLE GPIOD,
      GPIO_Init GPIOD (GPIO_PIN 12 OR GPIO_PIN 13) AF_PP PULLUP SPEED_VERY_HIGH (Some 2)]"

definition encoder_gpio_init_pa6_pa7 :: "'a hw_scheme \<Rightarrow> 'a hw_scheme" where
  "encoder_gpio_init_pa6_pa7 = hal_calls
     [RCC_GPIO_ENABLE GPIOA,
      GPIO_Init GPIOA (GPIO_PIN 6 OR GPIO_PIN 7) AF_PP PULLUP SPEED_VERY_HIGH (Some 2)]"

definition Encoder1_Init :: "'a encoders_scheme \<Rightarrow> 'a encoders_scheme" where
  "Encoder1_Init w = (if encoder1_inited w then w else let
     w = hal (RCC_TIM_ENABLE TIM4) w;
     w = encoder_gpio_init_pd12_pd13 w;
     w = hal (TIM_Encoder_Init TIM4 (1 - 1) (65535 - 1) RISING FALLING 6) w;
     w = HAL_TIM_SET_COUNTER TIM4 0 w;
     w = hal (TIM_Encoder_Start TIM4) w
   in w\<lparr>encoder1_inited := True\<rparr>)"

definition Encoder2_Init :: "'a encoders_scheme \<Rightarrow> 'a encoders_scheme" where
  "Encoder2_Init w = (if encoder2_inited w then w else let
     w = hal (RCC_TIM_ENABLE TIM3) w;
     w = encoder_gpio_init_pa6_pa7 w;
     w = hal (TIM_Encoder_Init TIM3 (1 - 1) (65535 - 1) RISING RISING 6) w;
     w = HAL_TIM_SET_COUNTER TIM3 0 w;
     w = hal (TIM_Encoder_Start TIM3) w
   in w\<lparr>encoder2_inited := True\<rparr>)"

definition Encoder_Init :: "'a encoders_scheme \<Rightarrow> 'a encoders_scheme" where
  "Encoder_Init w = Encoder2_Init (Encoder1_Init w)"

text \<open>\<^verbatim>\<open>(int16_t)CNT * 204.1f / 60000.0f\<close>\<close>

definition count_to_mileage :: "int \<Rightarrow> f32" where
  "count_to_mileage n = fdiv (fmul (f32_of_int n) (flit (2041/10))) (flit 60000)"

text \<open>
  The sampling functions take pointers to the speed, the mileage and the mode; the model takes and
  returns their values.
\<close>

definition GetSpeed_Milleage_1 ::
  "int \<times> f32 \<times> u8 \<Rightarrow> 'a hw_scheme \<Rightarrow> (int \<times> f32 \<times> u8) \<times> 'a hw_scheme" where
  "GetSpeed_Milleage_1 smm w = (let (speed, mil, mode) = smm in
     ((if mode = 0 then (speed, flit 0, 1)
       else let speed = sint (HAL_TIM_GET_COUNTER TIM4 w);
                m = count_to_mileage (sint (HAL_TIM_GET_COUNTER TIM4 w))
            in (speed, if speed < 0 then fsub mil m else fadd mil m, mode)),
      HAL_TIM_SET_COUNTER TIM4 0 w))"

definition GetSpeed_Milleage_2 ::
  "int \<times> f32 \<times> u8 \<Rightarrow> 'a hw_scheme \<Rightarrow> (int \<times> f32 \<times> u8) \<times> 'a hw_scheme" where
  "GetSpeed_Milleage_2 smm w = (let (speed, mil, mode) = smm in
     ((if mode = 0 then (speed, flit 0, 1)
       else let speed = sint (HAL_TIM_GET_COUNTER TIM3 w);
                m = count_to_mileage (sint (HAL_TIM_GET_COUNTER TIM3 w))
            in (speed, if speed < 0 then fsub mil m else fadd mil m, mode)),
      HAL_TIM_SET_COUNTER TIM3 0 w))"

text \<open>The scheduler's calls on the globals.\<close>

definition sample_encoder1 :: "'a encoders_scheme \<Rightarrow> 'a encoders_scheme" where
  "sample_encoder1 w = (let ((s, m, f), w) =
       GetSpeed_Milleage_1 (Encoder_Speed1 w, Milleage1 w, Milleage1_flag w) w
     in w\<lparr>Encoder_Speed1 := s, Milleage1 := m, Milleage1_flag := f\<rparr>)"

definition sample_encoder2 :: "'a encoders_scheme \<Rightarrow> 'a encoders_scheme" where
  "sample_encoder2 w = (let ((s, m, f), w) =
       GetSpeed_Milleage_2 (Encoder_Speed2 w, Milleage2 w, Milleage2_flag w) w
     in w\<lparr>Encoder_Speed2 := s, Milleage2 := m, Milleage2_flag := f\<rparr>)"

subsection \<open>Facts\<close>

lemma count_to_mileage_sign:
  assumes "- (2 ^ 15) \<le> n" "n < 2 ^ 15"
  shows "0 \<le> n \<Longrightarrow> f32_in 0 512 (count_to_mileage n)"
    "n \<le> 0 \<Longrightarrow> f32_in (- 512) 0 (count_to_mileage n)"
proof -
  have n: "f32_of_int n = Fin (of_int n)" "f32_rep (of_int n)"
    using assms by (auto intro!: f32_of_int_exact f32_rep_of_int)
  have k: "f32_in 0 256 (flit (2041/10))" by (rule f32_in_round) simp_all
  have d: "f32_in 60000 60000 (flit 60000)" by (simp add: f32_round_rep)
  have b: "- (2 ^ 15) \<le> (of_int n :: rat)" "of_int n \<le> (2 ^ 15 :: rat)"
    using assms by (metis of_int_le_iff of_int_minus of_int_numeral of_int_power,
      metis of_int_le_iff of_int_numeral of_int_power less_imp_le)
  show "f32_in 0 512 (count_to_mileage n)" if "0 \<le> n"
  proof -
    have "f32_in 0 (2 ^ 23) (fmul (f32_of_int n) (flit (2041/10)))"
    proof (rule fmul_in [OF _ k])
      show "f32_in 0 (2 ^ 15) (f32_of_int n)" using n b that by simp
      fix u v :: rat assume "0 \<le> u" "u \<le> 2 ^ 15" "0 \<le> v" "v \<le> 256"
      then show "0 \<le> u * v \<and> u * v \<le> 2 ^ 23" using mult_mono [of u "2 ^ 15" v 256] by simp
    qed simp_all
    then show ?thesis
      unfolding count_to_mileage_def by (rule fdiv_in [OF _ d]) (auto simp: field_simps)
  qed
  show "f32_in (- 512) 0 (count_to_mileage n)" if "n \<le> 0"
  proof -
    have "f32_in (- (2 ^ 23)) 0 (fmul (f32_of_int n) (flit (2041/10)))"
    proof (rule fmul_in [OF _ k])
      show "f32_in (- (2 ^ 15)) 0 (f32_of_int n)" using n b that by simp
      fix u v :: rat assume "- (2 ^ 15) \<le> u" "u \<le> 0" "0 \<le> v" "v \<le> 256"
      then show "- (2 ^ 23) \<le> u * v \<and> u * v \<le> 0"
        using mult_mono [of "- u" "2 ^ 15" v 256] by (simp add: mult_nonpos_nonneg)
    qed simp_all
    then show ?thesis
      unfolding count_to_mileage_def by (rule fdiv_in [OF _ d]) (auto simp: field_simps)
  qed
qed

lemma sint_u16_bounds: "- (2 ^ 15) \<le> sint (c :: u16)" "sint (c :: u16) < 2 ^ 15"
  using sint_greater_eq [of c] sint_less [of c] by simp_all

text \<open>One sampling never takes distance away, whichever way the wheel turns.\<close>

definition mileage_step :: "u16 \<Rightarrow> f32 \<Rightarrow> f32" where
  "mileage_step c mil = (if sint c < 0 then fsub mil (count_to_mileage (sint c))
     else fadd mil (count_to_mileage (sint c)))"

lemma mileage_step_ge:
  assumes "mil = Fin u" "f32_rep u"
  shows "fle mil (mileage_step c mil)"
proof (cases "sint c < 0")
  case True
  then have "f32_in 0 512 (fneg (count_to_mileage (sint c)))"
    using fneg_in [OF count_to_mileage_sign(2) [OF sint_u16_bounds [of c]]] by simp
  then show ?thesis using True fadd_ge [OF assms] by (simp add: mileage_step_def fsub_def)
next
  case False
  then have "f32_in 0 512 (count_to_mileage (sint c))"
    using count_to_mileage_sign(1) [OF sint_u16_bounds [of c]] by simp
  then show ?thesis using False fadd_ge [OF assms] by (simp add: mileage_step_def)
qed

lemma GetSpeed_Milleage_1_step:
  "mode \<noteq> 0 \<Longrightarrow> fst (GetSpeed_Milleage_1 (s, mil, mode) w) = (sint (CNT w TIM4), mileage_step (CNT w TIM4) mil, mode)"
  by (simp add: GetSpeed_Milleage_1_def mileage_step_def HAL_TIM_GET_COUNTER_def Let_def)

lemma GetSpeed_Milleage_2_step:
  "mode \<noteq> 0 \<Longrightarrow> fst (GetSpeed_Milleage_2 (s, mil, mode) w) = (sint (CNT w TIM3), mileage_step (CNT w TIM3) mil, mode)"
  by (simp add: GetSpeed_Milleage_2_def mileage_step_def HAL_TIM_GET_COUNTER_def Let_def)

text \<open>
  For every count of either encoder, the mileage after a sampling is at least the
  mileage before it (a reversing wheel adds distance too), and the counter restarts from zero.
\<close>

theorem mileage_never_decreases:
  assumes "Milleage1 w = Fin u" "f32_rep u" "Milleage1_flag w \<noteq> 0"
  shows "fle (Milleage1 w) (Milleage1 (sample_encoder1 w)) \<and>
    Encoder_Speed1 (sample_encoder1 w) = sint (CNT w TIM4) \<and> CNT (sample_encoder1 w) TIM4 = 0 \<and>
    Milleage2 (sample_encoder1 w) = Milleage2 w"
proof -
  have "sample_encoder1 w = (HAL_TIM_SET_COUNTER TIM4 0 w)\<lparr>Encoder_Speed1 := sint (CNT w TIM4),
      Milleage1 := mileage_step (CNT w TIM4) (Milleage1 w), Milleage1_flag := Milleage1_flag w\<rparr>"
    using assms(3)
    by (simp add: sample_encoder1_def GetSpeed_Milleage_1_def mileage_step_def
        HAL_TIM_GET_COUNTER_def Let_def)
  then show ?thesis
    using mileage_step_ge [OF assms(1,2), of "CNT w TIM4"] by (simp add: HAL_TIM_SET_COUNTER_def)
qed

theorem mileage_never_decreases_witness:
  "fle (Milleage1 (encoders0\<lparr>CNT := (\<lambda>_. 0xFFF0)\<rparr>))
      (Milleage1 (sample_encoder1 (encoders0\<lparr>CNT := (\<lambda>_. 0xFFF0)\<rparr>))) \<and>
    Encoder_Speed1 (sample_encoder1 (encoders0\<lparr>CNT := (\<lambda>_. 0xFFF0)\<rparr>)) =
      sint (CNT (encoders0\<lparr>CNT := (\<lambda>_. 0xFFF0)\<rparr>) TIM4) \<and>
    CNT (sample_encoder1 (encoders0\<lparr>CNT := (\<lambda>_. 0xFFF0)\<rparr>)) TIM4 = 0 \<and>
    Milleage2 (sample_encoder1 (encoders0\<lparr>CNT := (\<lambda>_. 0xFFF0)\<rparr>)) =
      Milleage2 (encoders0\<lparr>CNT := (\<lambda>_. 0xFFF0)\<rparr>)"
  by (rule mileage_never_decreases [where u = 0])
    (simp_all add: encoders0_def globals0_def globals.defs encoders.defs hw.defs hw0_def)

end
