(* ===== verification/Motor.thy ===== *)
theory Motor
  imports Pid MotorEncoder
begin

text \<open>
  The wheel drive: the controllers as globals with their initial parameters (\<^verbatim>\<open>PID_Init\<close> in
  \<^verbatim>\<open>Software/Mypid.c\<close>) and the TB6612 H-bridge driver (\<^verbatim>\<open>Software/TB6612.c\<close>): timer set-up, duty
  cycle and direction pins, and the speed loop with its acceleration and deceleration ramps.

  \<open>int32_t\<close> values are integers; \<open>neg32\<close> is the negation instruction, which leaves the least value
  as it is.
\<close>

record motors = encoders +
  Pid_Motor1Speed :: Mypid
  Pid_Motor2Speed :: Mypid
  Pid_BuJinMotor1_x :: Mypid
  Pid_BuJinMotor2_y :: Mypid
  Pid_Trun :: Mypid
  motor_pwm_inited :: bool

definition motors0 :: motors where
  "motors0 = encoders.extend encoders0 (motors.fields Mypid0 Mypid0 Mypid0 Mypid0 Mypid0 False)"

definition PID_Init :: "'a motors_scheme \<Rightarrow> 'a motors_scheme" where
  "PID_Init w = w\<lparr>
     Pid_Motor1Speed := pid_init (flit 0) (flit (17/100)) (flit (60/1000)) (flit (8/100)) (Pid_Motor1Speed w),
     Pid_Motor2Speed := pid_init (flit 0) (flit (20/100)) (flit (42/1000)) (flit (12/1000)) (Pid_Motor2Speed w),
     Pid_BuJinMotor1_x := pid_init (flit 320) (flit 0) (flit 0) (flit 0) (Pid_BuJinMotor1_x w),
     Pid_BuJinMotor2_y := pid_init (flit 240) (flit 0) (flit 0) (flit 0) (Pid_BuJinMotor2_y w),
     Pid_Trun := pid_init (flit 0) (flit 5) (flit 0) (flit 0) (Pid_Trun w)\<rparr>"

definition AIN_SET :: "'a hw_scheme \<Rightarrow> 'a hw_scheme" where
  "AIN_SET w = HAL_GPIO_WritePin GPIOE (GPIO_PIN 8) False (HAL_GPIO_WritePin GPIOE (GPIO_PIN 7) True w)"

definition AIN_RESET :: "'a hw_scheme \<Rightarrow> 'a hw_scheme" where
  "AIN_RESET w = HAL_GPIO_WritePin GPIOE (GPIO_PIN 7) False (HAL_GPIO_WritePin GPIOE (GPIO_PIN 8) True w)"

definition BIN_SET :: "'a hw_scheme \<Rightarrow> 'a hw_scheme" where
  "BIN_SET w = HAL_GPIO_WritePin GPIOE (GPIO_PIN 10) False (HAL_GPIO_WritePin GPIOE (GPIO_PIN 12) True w)"

definition BIN_RESET :: "'a hw_scheme \<Rightarrow> 'a hw_scheme" where
  "BIN_RESET w = HAL_GPIO_WritePin GPIOE (GPIO_PIN 12) False (HAL_GPIO_WritePin GPIOE (GPIO_PIN 10) True w)"

definition PWM_Init :: "'a motors_scheme \<Rightarrow> 'a motors_scheme" where
  "PWM_Init w = (if motor_pwm_inited w then w else let
     w = hal_calls
       [RCC_GPIO_ENABLE GPIOB, RCC_GPIO_ENABLE GPIOE, RCC_TIM_ENABLE TIM12,
        GPIO_Init GPIOE (GPIO_PIN 7 OR GPIO_PIN 8 OR GPIO_PIN 10 OR GPIO_PIN 12) OUTPUT_PP PULLUP SPEED_VERY_HIGH None,
        GPIO_Init GPIOB (GPIO_PIN 14 OR GPIO_PIN 15) AF_PP PULLUP SPEED_VERY_HIGH (Some 9),
        TIM_PWM_Init TIM12 (1 - 1) (4200 - 1),
        TIM_PWM_ConfigChannel TIM12 1 0, TIM_PWM_ConfigChannel TIM12 2 0,
        TIM_PWM_Start TIM12 1, TIM_PWM_Start TIM12 2] w;
     w = AIN_SET w;
     w = BIN_SET w;
     w = HAL_TIM_SET_COMPARE TIM12 1 0 w;
     w = HAL_TIM_SET_COMPARE TIM12 2 0 w
   in w\<lparr>motor_pwm_inited := True\<rparr>)"

definition neg32 :: "int \<Rightarrow> int" where
  "neg32 n = (if n = - (2 ^ 31) then n else - n)"

definition Motor_SetCCR :: "int \<Rightarrow> int \<Rightarrow> 'a motors_scheme \<Rightarrow> 'a motors_scheme" where
  "Motor_SetCCR MotorCCR1 MotorCCR2 w = (let
     w = (if motor_pwm_inited w then w else PWM_Init w);
     (MotorCCR1, w) = (if 0 \<le> MotorCCR1 then (MotorCCR1, AIN_SET w) else (neg32 MotorCCR1, AIN_RESET w));
     MotorCCR1 = (if 4199 < MotorCCR1 then 4199 else MotorCCR1);
     (MotorCCR2, w) = (if 0 \<le> MotorCCR2 then (MotorCCR2, BIN_SET w) else (neg32 MotorCCR2, BIN_RESET w));
     MotorCCR2 = (if 4199 < MotorCCR2 then 4199 else MotorCCR2)
   in HAL_TIM_SET_COMPARE TIM12 2 (word_of_int MotorCCR2)
        (HAL_TIM_SET_COMPARE TIM12 1 (word_of_int MotorCCR1) w))"

text \<open>The common tail of the three speed functions: one controller step per wheel, then the bridge.\<close>

definition motor_speed_loop :: "'a motors_scheme \<Rightarrow> 'a motors_scheme" where
  "motor_speed_loop w = (let
     (o1, p1) = PID_iOut_Max (Pid_Motor1Speed w) (f32_of_int (Encoder_Speed1 w)) (f32_of_int 4199);
     (o2, p2) = PID_iOut_Max (Pid_Motor2Speed w) (f32_of_int (Encoder_Speed2 w)) (f32_of_int 4199)
   in Motor_SetCCR (f32_to_s32 o1) (f32_to_s32 o2) (w\<lparr>Pid_Motor1Speed := p1, Pid_Motor2Speed := p2\<rparr>))"

definition set_targets :: "f32 \<Rightarrow> f32 \<Rightarrow> 'a motors_scheme \<Rightarrow> 'a motors_scheme" where
  "set_targets t1 t2 w = w\<lparr>Pid_Motor1Speed := (Pid_Motor1Speed w)\<lparr>Target := t1\<rparr>,
     Pid_Motor2Speed := (Pid_Motor2Speed w)\<lparr>Target := t2\<rparr>\<rparr>"

definition Motor_PidTarget :: "f32 \<Rightarrow> f32 \<Rightarrow> 'a motors_scheme \<Rightarrow> 'a motors_scheme" where
  "Motor_PidTarget Speed1 Speed2 w = motor_speed_loop (set_targets Speed1 Speed2 w)"

text \<open>The ramp of one wheel: the target moves by 40 towards the wanted speed and never past it.\<close>

definition acce_target :: "f32 \<Rightarrow> f32 \<Rightarrow> f32" where
  "acce_target speed t = (let
     t = (if fge speed (Fin 0) then
            let t = (if flt t speed then fadd t (flit 40) else t) in
            if fge t speed then speed else t
          else t)
   in if flt speed (Fin 0) then
        let t = (if fgt t speed then fsub t (flit 40) else t) in
        if fle t speed then speed else t
      else t)"

definition dece_target :: "f32 \<Rightarrow> f32 \<Rightarrow> f32" where
  "dece_target speed t = (let
     t = (if fge speed (Fin 0) then
            let t = (if fgt t speed then fsub t (flit 40) else t) in
            if fle t speed then speed else t
          else t)
   in if flt speed (Fin 0) then
        let t = (if flt t speed then fadd t (flit 40) else t) in
        if fge t speed then speed else t
      else t)"

definition Motor_PidTarget_Acce :: "f32 \<Rightarrow> f32 \<Rightarrow> 'a motors_scheme \<Rightarrow> 'a motors_scheme" where
  "Motor_PidTarget_Acce Speed1 Speed2 w = motor_speed_loop (set_targets
     (acce_target Speed1 (Target (Pid_Motor1Speed w))) (acce_target Speed2 (Target (Pid_Motor2Speed w))) w)"

definition Motor_PidTarget_Dece :: "f32 \<Rightarrow> f32 \<Rightarrow> 'a motors_scheme \<Rightarrow> 'a motors_scheme" where
  "Motor_PidTarget_Dece Speed1 Speed2 w = motor_speed_loop (set_targets
     (dece_target Speed1 (Target (Pid_Motor1Speed w))) (dece_target Speed2 (Target (Pid_Motor2Speed w))) w)"

definition Motor_Stop :: "'a motors_scheme \<Rightarrow> 'a motors_scheme" where
  "Motor_Stop = Motor_PidTarget (f32_of_int 0) (f32_of_int 0)"

subsection \<open>The bridge\<close>

lemma unat_u16_of_int: "0 \<le> n \<Longrightarrow> n < 65536 \<Longrightarrow> unat (word_of_int n :: u16) = nat n"
  by (simp add: unat_eq_nat_uint unsigned_of_int take_bit_int_eq_self)

definition duty :: "int \<Rightarrow> int" where
  "duty c = min \<bar>c\<bar> 4199"

text \<open>The state of one half bridge: forward pin, reverse pin and compare value.\<close>

definition bridge_is :: "'a hw_scheme \<Rightarrow> int \<Rightarrow> int \<Rightarrow> bool" where
  "bridge_is w c1 c2 \<longleftrightarrow>
     CCR w (TIM12, 1) = word_of_int (duty c1) \<and> CCR w (TIM12, 2) = word_of_int (duty c2) \<and>
     pin_high w GPIOE 7 = (0 \<le> c1) \<and> pin_high w GPIOE 8 = (c1 < 0) \<and>
     pin_high w GPIOE 12 = (0 \<le> c2) \<and> pin_high w GPIOE 10 = (c2 < 0)"

lemma dir_pins:
  "pin_high (AIN_SET w) p n = (if p = GPIOE \<and> n = 7 then True else if p = GPIOE \<and> n = 8 then False else pin_high w p n)"
  "pin_high (AIN_RESET w) p n = (if p = GPIOE \<and> n = 7 then False else if p = GPIOE \<and> n = 8 then True else pin_high w p n)"
  "pin_high (BIN_SET w) p n = (if p = GPIOE \<and> n = 12 then True else if p = GPIOE \<and> n = 10 then False else pin_high w p n)"
  "pin_high (BIN_RESET w) p n = (if p = GPIOE \<and> n = 12 then False else if p = GPIOE \<and> n = 10 then True else pin_high w p n)"
  if "n < 16"
  using that by (auto simp: AIN_SET_def AIN_RESET_def BIN_SET_def BIN_RESET_def hw_simps)

lemma dir_fields:
  "CCR (AIN_SET w) = CCR w" "CCR (AIN_RESET w) = CCR w" "CCR (BIN_SET w) = CCR w" "CCR (BIN_RESET w) = CCR w"
  "hw.more (AIN_SET w) = hw.more w" "hw.more (AIN_RESET w) = hw.more w"
  "hw.more (BIN_SET w) = hw.more w" "hw.more (BIN_RESET w) = hw.more w"
  by (simp_all add: AIN_SET_def AIN_RESET_def BIN_SET_def BIN_RESET_def hw_simps)

lemmas motor_defs = dir_pins dir_fields hw_simps

lemma Motor_SetCCR_bridge:
  assumes "- (2 ^ 31) < c1" "- (2 ^ 31) < c2"
  shows "bridge_is (Motor_SetCCR c1 c2 w) c1 c2"
proof -
  define v where "v = (if motor_pwm_inited w then w else PWM_Init w)"
  have d: "(if 4199 < (if 0 \<le> c then c else neg32 c) then 4199 else (if 0 \<le> c then c else neg32 c)) = duty c"
    if "- (2 ^ 31) < c" for c using that by (auto simp: duty_def neg32_def)
  have "Motor_SetCCR c1 c2 w =
      HAL_TIM_SET_COMPARE TIM12 2 (word_of_int (duty c2)) (HAL_TIM_SET_COMPARE TIM12 1 (word_of_int (duty c1))
        ((if 0 \<le> c2 then BIN_SET else BIN_RESET) ((if 0 \<le> c1 then AIN_SET else AIN_RESET) v)))"
    using d [OF assms(1)] d [OF assms(2)]
    by (auto simp: Motor_SetCCR_def Let_def v_def)
  then show ?thesis by (simp add: bridge_is_def motor_defs)
qed

text \<open>
  C6 (functional). Whatever duty cycles are asked for, apart from the least \<open>int32_t\<close>, the bridge
  ends up with the requested directions, with exactly one direction pin of each wheel high, and
  with the magnitude limited to 4199 of the 4200 counts of the timer; a drive that was never
  initialised is initialised first.
\<close>

theorem Motor_SetCCR_effect:
  assumes "- (2 ^ 31) < c1" "- (2 ^ 31) < c2"
  shows "CCR (Motor_SetCCR c1 c2 w) (TIM12, 1) = word_of_int (min \<bar>c1\<bar> 4199) \<and>
    CCR (Motor_SetCCR c1 c2 w) (TIM12, 2) = word_of_int (min \<bar>c2\<bar> 4199) \<and>
    pin_high (Motor_SetCCR c1 c2 w) GPIOE 7 = (0 \<le> c1) \<and>
    pin_high (Motor_SetCCR c1 c2 w) GPIOE 8 = (c1 < 0) \<and>
    pin_high (Motor_SetCCR c1 c2 w) GPIOE 12 = (0 \<le> c2) \<and>
    pin_high (Motor_SetCCR c1 c2 w) GPIOE 10 = (c2 < 0)"
  using Motor_SetCCR_bridge [OF assms, of w] unfolding bridge_is_def duty_def .

theorem Motor_SetCCR_effect_witness:
  "CCR (Motor_SetCCR (-5000) 20 motors0) (TIM12, 1) = word_of_int (min \<bar>-5000\<bar> 4199) \<and>
    CCR (Motor_SetCCR (-5000) 20 motors0) (TIM12, 2) = word_of_int (min \<bar>20\<bar> 4199) \<and>
    pin_high (Motor_SetCCR (-5000) 20 motors0) GPIOE 7 = (0 \<le> (-5000 :: int)) \<and>
    pin_high (Motor_SetCCR (-5000) 20 motors0) GPIOE 8 = ((-5000 :: int) < 0) \<and>
    pin_high (Motor_SetCCR (-5000) 20 motors0) GPIOE 12 = (0 \<le> (20 :: int)) \<and>
    pin_high (Motor_SetCCR (-5000) 20 motors0) GPIOE 10 = ((20 :: int) < 0)"
  by (rule Motor_SetCCR_effect) simp_all

subsection \<open>The ramps\<close>

lemma f32_fin_40: "flit 40 = Fin 40" by (simp add: f32_round_rep)

lemma f32_round_int: "\<bar>n\<bar> \<le> 2 ^ 24 \<Longrightarrow> f32_round (of_int n) = Fin (of_int n)"
  by (simp add: f32_round_rep f32_rep_of_int)

lemma acce_target_int:
  assumes "\<bar>s\<bar> \<le> 2 ^ 20" "\<bar>t\<bar> \<le> 2 ^ 20"
  shows "acce_target (Fin (of_int s)) (Fin (of_int t)) = Fin (of_int
    (if 0 \<le> s then (if t < s then min (t + 40) s else s) else (if s < t then max (t - 40) s else s)))"
proof -
  have a: "f32_round (of_int t + 40) = Fin (of_int (t + 40))" using assms f32_round_int [of "t + 40"] by simp
  have b: "f32_round (of_int t - 40) = Fin (of_int (t - 40))" using assms f32_round_int [of "t - 40"] by simp
  have c: "(of_int t + 40 < (of_int s :: rat)) = (t + 40 < s)" "(of_int s \<le> (of_int t + 40 :: rat)) = (s \<le> t + 40)"
    "(of_int s < (of_int t - 40 :: rat)) = (s < t - 40)" "(of_int t - 40 \<le> (of_int s :: rat)) = (t - 40 \<le> s)"
    by linarith+
  show ?thesis
    using assms by (auto simp: acce_target_def Let_def f32_fin_40 a b c fsub_def min_def max_def)
qed

lemma dece_target_int:
  assumes "\<bar>s\<bar> \<le> 2 ^ 20" "\<bar>t\<bar> \<le> 2 ^ 20"
  shows "dece_target (Fin (of_int s)) (Fin (of_int t)) = Fin (of_int
    (if 0 \<le> s then (if s < t then max (t - 40) s else s) else (if t < s then min (t + 40) s else s)))"
proof -
  have a: "f32_round (of_int t + 40) = Fin (of_int (t + 40))" using assms f32_round_int [of "t + 40"] by simp
  have b: "f32_round (of_int t - 40) = Fin (of_int (t - 40))" using assms f32_round_int [of "t - 40"] by simp
  have c: "(of_int t + 40 < (of_int s :: rat)) = (t + 40 < s)" "(of_int s \<le> (of_int t + 40 :: rat)) = (s \<le> t + 40)"
    "(of_int s < (of_int t - 40 :: rat)) = (s < t - 40)" "(of_int t - 40 \<le> (of_int s :: rat)) = (t - 40 \<le> s)"
    by linarith+
  show ?thesis
    using assms by (auto simp: dece_target_def Let_def f32_fin_40 a b c fsub_def min_def max_def)
qed

text \<open>
  Whole numbers: \<open>approach\<close> is the target after \<open>k\<close> moves of 40 towards \<open>s\<close>. A ramp of either function
  only moves in the direction it is meant for (\<^verbatim>\<open>Acce\<close> away from zero, \<^verbatim>\<open>Dece\<close> towards zero and beyond);
  started on the other side it jumps to the wanted speed at once.
\<close>

definition approach :: "int \<Rightarrow> int \<Rightarrow> nat \<Rightarrow> int" where
  "approach s t k = (if t \<le> s then min (t + 40 * int k) s else max (t - 40 * int k) s)"

definition acce_ramp :: "int \<Rightarrow> int \<Rightarrow> nat \<Rightarrow> int" where
  "acce_ramp s t k = (if (0 \<le> s) = (t \<le> s) then approach s t k else s)"

definition dece_ramp :: "int \<Rightarrow> int \<Rightarrow> nat \<Rightarrow> int" where
  "dece_ramp s t k = (if (0 \<le> s) = (s \<le> t) then approach s t k else s)"

lemmas ramp_defs = acce_ramp_def dece_ramp_def approach_def

lemma ramp_steps:
  "acce_ramp s (acce_ramp s t 1) k = acce_ramp s t (Suc k)"
  "dece_ramp s (dece_ramp s t 1) k = dece_ramp s t (Suc k)"
  by (auto simp: ramp_defs)

lemma ramp_mag:
  "\<bar>s\<bar> \<le> b \<Longrightarrow> \<bar>t\<bar> \<le> b \<Longrightarrow> \<bar>acce_ramp s t k\<bar> \<le> b" "\<bar>s\<bar> \<le> b \<Longrightarrow> \<bar>t\<bar> \<le> b \<Longrightarrow> \<bar>dece_ramp s t k\<bar> \<le> b"
  by (auto simp: ramp_defs)

lemma ramp_target:
  assumes "\<bar>s\<bar> \<le> 2 ^ 20" "\<bar>t\<bar> \<le> 2 ^ 20"
  shows "acce_target (Fin (of_int s)) (Fin (of_int t)) = Fin (of_int (acce_ramp s t 1))"
    "dece_target (Fin (of_int s)) (Fin (of_int t)) = Fin (of_int (dece_ramp s t 1))"
  unfolding acce_target_int [OF assms] dece_target_int [OF assms]
  by (auto simp: ramp_defs)

subsection \<open>The closed speed loop\<close>

text \<open>
  What can happen to the drive: the four speed commands, a direct duty cycle, a sampling of the
  encoders after the wheels turned by any amount, and a reset of the mileage flags. \<open>drive_step\<close>
  is one of them.
\<close>

lemma PWM_Init_frame:
  obtains o1 c l b where "PWM_Init w = w\<lparr>ODR := o1, CCR := c, hal_log := l, motor_pwm_inited := b\<rparr>"
proof (cases "motor_pwm_inited w")
  case True
  then have "PWM_Init w = w\<lparr>ODR := ODR w, CCR := CCR w, hal_log := hal_log w, motor_pwm_inited := motor_pwm_inited w\<rparr>"
    by (simp add: PWM_Init_def)
  then show ?thesis using that by blast
next
  case False
  let ?cs = "[RCC_GPIO_ENABLE GPIOB, RCC_GPIO_ENABLE GPIOE, RCC_TIM_ENABLE TIM12,
        GPIO_Init GPIOE (GPIO_PIN 7 OR GPIO_PIN 8 OR GPIO_PIN 10 OR GPIO_PIN 12) OUTPUT_PP PULLUP SPEED_VERY_HIGH None,
        GPIO_Init GPIOB (GPIO_PIN 14 OR GPIO_PIN 15) AF_PP PULLUP SPEED_VERY_HIGH (Some 9),
        TIM_PWM_Init TIM12 (1 - 1) (4200 - 1),
        TIM_PWM_ConfigChannel TIM12 1 0, TIM_PWM_ConfigChannel TIM12 2 0,
        TIM_PWM_Start TIM12 1, TIM_PWM_Start TIM12 2]"
  obtain l c where f: "hal_calls ?cs w = w\<lparr>CCR := c, hal_log := l\<rparr>" by (rule hal_calls_frame)
  have "PWM_Init w = w\<lparr>ODR := ODR (PWM_Init w), CCR := CCR (PWM_Init w), hal_log := l, motor_pwm_inited := True\<rparr>"
    using False by (simp only: PWM_Init_def Let_def f if_False)
      (simp add: AIN_SET_def BIN_SET_def HAL_GPIO_WritePin_def HAL_TIM_SET_COMPARE_def)
  then show ?thesis by (rule that)
qed

text \<open>The bridge driver changes nothing of the firmware's state but its own registers.\<close>

lemma Motor_SetCCR_frame:
  obtains o1 c l b where
    "Motor_SetCCR c1 c2 w = w\<lparr>ODR := o1, CCR := c, hal_log := l, motor_pwm_inited := b\<rparr>"
proof -
  obtain o1 c l b where f: "(if motor_pwm_inited w then w else PWM_Init w) =
      w\<lparr>ODR := o1, CCR := c, hal_log := l, motor_pwm_inited := b\<rparr>"
  proof (cases "motor_pwm_inited w")
    case True
    then have "(if motor_pwm_inited w then w else PWM_Init w) = w\<lparr>ODR := ODR w, CCR := CCR w,
        hal_log := hal_log w, motor_pwm_inited := motor_pwm_inited w\<rparr>" by simp
    then show ?thesis using that by blast
  next
    case False
    then show ?thesis using that by (metis PWM_Init_frame)
  qed
  have "Motor_SetCCR c1 c2 w = w\<lparr>ODR := ODR (Motor_SetCCR c1 c2 w), CCR := CCR (Motor_SetCCR c1 c2 w),
      hal_log := l, motor_pwm_inited := b\<rparr>"
    by (cases "0 \<le> c1"; cases "0 \<le> c2"; simp only: Motor_SetCCR_def Let_def f if_True if_False prod.case;
      simp add: AIN_SET_def AIN_RESET_def BIN_SET_def BIN_RESET_def HAL_GPIO_WritePin_def HAL_TIM_SET_COMPARE_def)
  then show ?thesis by (rule that)
qed

lemma motor_speed_loop_frame:
  obtains o1 c l b p1 p2 where
    "motor_speed_loop w = w\<lparr>ODR := o1, CCR := c, hal_log := l, motor_pwm_inited := b,
      Pid_Motor1Speed := p1, Pid_Motor2Speed := p2\<rparr>"
proof -
  obtain x1 p1 where 1: "PID_iOut_Max (Pid_Motor1Speed w) (f32_of_int (Encoder_Speed1 w)) (f32_of_int 4199) = (x1, p1)"
    by fastforce
  obtain x2 p2 where 2: "PID_iOut_Max (Pid_Motor2Speed w) (f32_of_int (Encoder_Speed2 w)) (f32_of_int 4199) = (x2, p2)"
    by fastforce
  obtain o1 c l b where "Motor_SetCCR (f32_to_s32 x1) (f32_to_s32 x2) (w\<lparr>Pid_Motor1Speed := p1, Pid_Motor2Speed := p2\<rparr>) =
      w\<lparr>Pid_Motor1Speed := p1, Pid_Motor2Speed := p2\<rparr>\<lparr>ODR := o1, CCR := c, hal_log := l, motor_pwm_inited := b\<rparr>"
    by (rule Motor_SetCCR_frame)
  then have "motor_speed_loop w = w\<lparr>ODR := o1, CCR := c, hal_log := l, motor_pwm_inited := b,
      Pid_Motor1Speed := p1, Pid_Motor2Speed := p2\<rparr>"
    by (simp add: motor_speed_loop_def 1 2)
  then show ?thesis by (rule that)
qed

lemma Motor_PidTarget_frame:
  obtains o1 c l b p1 p2 where
    "Motor_PidTarget s1 s2 w = w\<lparr>ODR := o1, CCR := c, hal_log := l, motor_pwm_inited := b,
      Pid_Motor1Speed := p1, Pid_Motor2Speed := p2\<rparr>"
proof -
  obtain o1 c l b p1 p2 where "motor_speed_loop (set_targets s1 s2 w) = (set_targets s1 s2 w)\<lparr>ODR := o1, CCR := c,
      hal_log := l, motor_pwm_inited := b, Pid_Motor1Speed := p1, Pid_Motor2Speed := p2\<rparr>"
    by (rule motor_speed_loop_frame)
  then show ?thesis using that by (simp add: Motor_PidTarget_def set_targets_def)
qed

inductive drive_step :: "motors \<Rightarrow> motors \<Rightarrow> bool" where
  target: "f32_mag (2 ^ 20) s1 \<Longrightarrow> f32_mag (2 ^ 20) s2 \<Longrightarrow> drive_step w (Motor_PidTarget s1 s2 w)"
| acce: "f32_mag (2 ^ 20) s1 \<Longrightarrow> f32_mag (2 ^ 20) s2 \<Longrightarrow> drive_step w (Motor_PidTarget_Acce s1 s2 w)"
| dece: "f32_mag (2 ^ 20) s1 \<Longrightarrow> f32_mag (2 ^ 20) s2 \<Longrightarrow> drive_step w (Motor_PidTarget_Dece s1 s2 w)"
| stop: "drive_step w (Motor_Stop w)"
| direct: "- (2 ^ 31) < c1 \<Longrightarrow> - (2 ^ 31) < c2 \<Longrightarrow> drive_step w (Motor_SetCCR c1 c2 w)"
| sample1: "drive_step w (sample_encoder1 (HAL_TIM_SET_COUNTER TIM4 c w))"
| sample2: "drive_step w (sample_encoder2 (HAL_TIM_SET_COUNTER TIM3 c w))"

inductive_cases drive_stepE: "drive_step w w'"

definition loop_safe :: "'a motors_scheme \<Rightarrow> bool" where
  "loop_safe w \<longleftrightarrow> pid_safe 4199 (Pid_Motor1Speed w) \<and> pid_safe 4199 (Pid_Motor2Speed w) \<and>
     \<bar>Encoder_Speed1 w\<bar> \<le> 2 ^ 15 \<and> \<bar>Encoder_Speed2 w\<bar> \<le> 2 ^ 15"

definition bridge_ok :: "'a hw_scheme \<Rightarrow> bool" where
  "bridge_ok w \<longleftrightarrow> CCR w (TIM12, 1) \<le> 4199 \<and> CCR w (TIM12, 2) \<le> 4199 \<and>
     pin_high w GPIOE 7 \<noteq> pin_high w GPIOE 8 \<and> pin_high w GPIOE 12 \<noteq> pin_high w GPIOE 10"

lemma bridge_is_ok: "bridge_is w c1 c2 \<Longrightarrow> bridge_ok w"
proof -
  have "(word_of_int (duty c) :: u16) \<le> 4199" for c
    using unat_u16_of_int [of "duty c"] by (simp add: word_le_nat_alt duty_def)
  then show "bridge_is w c1 c2 \<Longrightarrow> bridge_ok w" by (auto simp: bridge_is_def bridge_ok_def)
qed

lemma hw_more_fields:
  "hw.more w = hw.more w' \<Longrightarrow> Pid_Motor1Speed w = Pid_Motor1Speed w'"
  "hw.more w = hw.more w' \<Longrightarrow> Pid_Motor2Speed w = Pid_Motor2Speed w'"
  "hw.more w = hw.more w' \<Longrightarrow> Encoder_Speed1 w = Encoder_Speed1 w'"
  "hw.more w = hw.more w' \<Longrightarrow> Encoder_Speed2 w = Encoder_Speed2 w'"
  for w w' :: "'a motors_scheme"
  by (cases w; cases w'; simp)+

lemma PWM_Init_keeps:
  "Pid_Motor1Speed (PWM_Init w) = Pid_Motor1Speed w" "Pid_Motor2Speed (PWM_Init w) = Pid_Motor2Speed w"
  "Encoder_Speed1 (PWM_Init w) = Encoder_Speed1 w" "Encoder_Speed2 (PWM_Init w) = Encoder_Speed2 w"
  by (auto simp: PWM_Init_def Let_def motor_defs intro!: hw_more_fields)

lemma Motor_SetCCR_keeps:
  "Pid_Motor1Speed (Motor_SetCCR c1 c2 w) = Pid_Motor1Speed w"
  "Pid_Motor2Speed (Motor_SetCCR c1 c2 w) = Pid_Motor2Speed w"
  "Encoder_Speed1 (Motor_SetCCR c1 c2 w) = Encoder_Speed1 w"
  "Encoder_Speed2 (Motor_SetCCR c1 c2 w) = Encoder_Speed2 w"
proof -
  define v where "v = (if motor_pwm_inited w then w else PWM_Init w)"
  have "hw.more (Motor_SetCCR c1 c2 w) = hw.more v"
    by (simp add: Motor_SetCCR_def Let_def motor_defs v_def split: prod.splits)
  from hw_more_fields [OF this] show
    "Pid_Motor1Speed (Motor_SetCCR c1 c2 w) = Pid_Motor1Speed w"
    "Pid_Motor2Speed (Motor_SetCCR c1 c2 w) = Pid_Motor2Speed w"
    "Encoder_Speed1 (Motor_SetCCR c1 c2 w) = Encoder_Speed1 w"
    "Encoder_Speed2 (Motor_SetCCR c1 c2 w) = Encoder_Speed2 w"
    by (simp_all add: v_def PWM_Init_keeps)
qed

lemma f32_to_s32_mag:
  assumes "f32_mag 4199 x" shows "- (2 ^ 31) < f32_to_s32 x"
proof -
  obtain v where v: "x = Fin v" "- 4199 \<le> v" "v \<le> 4199" using assms by (auto elim!: f32_inE)
  have "- 4199 \<le> rtrunc v"
  proof (cases "0 \<le> v")
    case False
    have "\<lfloor>- v\<rfloor> \<le> 4199" using v by (simp add: floor_le_iff)
    then show ?thesis using False by (simp add: rtrunc_def)
  qed (simp add: rtrunc_def order_trans [of _ 0])
  then show ?thesis by (simp add: v clamp_int_def)
qed

lemma encoder_speed_mag: "\<bar>n\<bar> \<le> 2 ^ 15 \<Longrightarrow> f32_mag (2 ^ 20) (f32_of_int n)"
proof -
  assume n: "\<bar>n\<bar> \<le> 2 ^ 15"
  then have "- (2 ^ 20) \<le> n" "n \<le> 2 ^ 20" by simp_all
  then have "of_int (- (2 ^ 20)) \<le> (of_int n :: rat)" "(of_int n :: rat) \<le> of_int (2 ^ 20)"
    by (simp_all only: of_int_le_iff)
  then show ?thesis using n by (simp add: f32_of_int_exact f32_rep_of_int)
qed

lemma motor_speed_loop_safe:
  assumes "loop_safe w"
  shows "loop_safe (motor_speed_loop w)" "bridge_ok (motor_speed_loop w)"
proof -
  obtain o1 p1 where 1: "PID_iOut_Max (Pid_Motor1Speed w) (f32_of_int (Encoder_Speed1 w)) (Fin 4199) = (o1, p1)"
    by fastforce
  obtain o2 p2 where 2: "PID_iOut_Max (Pid_Motor2Speed w) (f32_of_int (Encoder_Speed2 w)) (Fin 4199) = (o2, p2)"
    by fastforce
  have m: "f32_of_int 4199 = Fin 4199" using f32_of_int_exact [of 4199] by simp
  have p1: "f32_mag 4199 o1" "pid_safe 4199 p1"
    using PID_iOut_Max_safe [OF _ encoder_speed_mag, of 4199 "Pid_Motor1Speed w" "Encoder_Speed1 w"] 1 assms
    by (auto simp: loop_safe_def)
  have p2: "f32_mag 4199 o2" "pid_safe 4199 p2"
    using PID_iOut_Max_safe [OF _ encoder_speed_mag, of 4199 "Pid_Motor2Speed w" "Encoder_Speed2 w"] 2 assms
    by (auto simp: loop_safe_def)
  have e: "motor_speed_loop w = Motor_SetCCR (f32_to_s32 o1) (f32_to_s32 o2)
      (w\<lparr>Pid_Motor1Speed := p1, Pid_Motor2Speed := p2\<rparr>)"
    by (simp add: motor_speed_loop_def m 1 2)
  show "loop_safe (motor_speed_loop w)"
    using assms p1 p2 by (simp add: e loop_safe_def Motor_SetCCR_keeps)
  show "bridge_ok (motor_speed_loop w)"
    unfolding e by (rule bridge_is_ok [OF Motor_SetCCR_bridge]) (use p1 p2 f32_to_s32_mag in auto)
qed

lemma loop_safe_targets:
  "loop_safe w \<Longrightarrow> f32_mag (2 ^ 20) (Target (Pid_Motor1Speed w))"
  "loop_safe w \<Longrightarrow> f32_mag (2 ^ 20) (Target (Pid_Motor2Speed w))"
  by (simp_all add: loop_safe_def pid_safe_def)

lemma set_targets_safe:
  "loop_safe w \<Longrightarrow> f32_mag (2 ^ 20) t1 \<Longrightarrow> f32_mag (2 ^ 20) t2 \<Longrightarrow> loop_safe (set_targets t1 t2 w)"
  by (simp add: loop_safe_def set_targets_def pid_safe_def)

lemma ramp_between:
  assumes "f32_mag (2 ^ 20) s" "f32_mag (2 ^ 20) t"
  shows "f32_mag (2 ^ 20) (acce_target s t)" "f32_mag (2 ^ 20) (dece_target s t)"
proof -
  obtain u v where s: "s = Fin u" "f32_rep u" "- (2 ^ 20) \<le> u" "u \<le> 2 ^ 20"
    and t: "t = Fin v" "f32_rep v" "- (2 ^ 20) \<le> v" "v \<le> 2 ^ 20" using assms by (auto elim!: f32_inE)
  have "f32_in v (2 ^ 21) (f32_round (v + 40))" "f32_in (- (2 ^ 21)) v (f32_round (v - 40))"
    using t by (auto intro!: f32_in_round)
  then obtain a b where ab: "f32_round (v + 40) = Fin a" "f32_rep a" "v \<le> a"
      "f32_round (v - 40) = Fin b" "f32_rep b" "b \<le> v" by (auto elim!: f32_inE)
  show "f32_mag (2 ^ 20) (acce_target s t)" "f32_mag (2 ^ 20) (dece_target s t)"
    using s t ab by (auto simp: acce_target_def dece_target_def Let_def f32_fin_40 fsub_def)
qed

lemma sample_encoder1_eq:
  "sample_encoder1 w = w\<lparr>CNT := (CNT w)(TIM4 := 0), Encoder_Speed1 :=
     (if Milleage1_flag w = 0 then Encoder_Speed1 w else sint (CNT w TIM4)), Milleage1 :=
     (if Milleage1_flag w = 0 then Fin 0 else mileage_step (CNT w TIM4) (Milleage1 w)),
     Milleage1_flag := (if Milleage1_flag w = 0 then 1 else Milleage1_flag w)\<rparr>"
  by (simp add: sample_encoder1_def GetSpeed_Milleage_1_def HAL_TIM_SET_COUNTER_def HAL_TIM_GET_COUNTER_def
      Let_def mileage_step_def)

lemma sample_encoder2_eq:
  "sample_encoder2 w = w\<lparr>CNT := (CNT w)(TIM3 := 0), Encoder_Speed2 :=
     (if Milleage2_flag w = 0 then Encoder_Speed2 w else sint (CNT w TIM3)), Milleage2 :=
     (if Milleage2_flag w = 0 then Fin 0 else mileage_step (CNT w TIM3) (Milleage2 w)),
     Milleage2_flag := (if Milleage2_flag w = 0 then 1 else Milleage2_flag w)\<rparr>"
  by (simp add: sample_encoder2_def GetSpeed_Milleage_2_def HAL_TIM_SET_COUNTER_def HAL_TIM_GET_COUNTER_def
      Let_def mileage_step_def)

lemma loop_safe_speed1:
  "loop_safe w \<Longrightarrow> loop_safe (w\<lparr>CNT := c, Encoder_Speed1 := (if b then Encoder_Speed1 w else sint (n :: u16)),
     Milleage1 := m, Milleage1_flag := f\<rparr>)"
  using sint_u16_bounds [of n] by (auto simp: loop_safe_def)

lemma loop_safe_speed2:
  "loop_safe w \<Longrightarrow> loop_safe (w\<lparr>CNT := c, Encoder_Speed2 := (if b then Encoder_Speed2 w else sint (n :: u16)),
     Milleage2 := m, Milleage2_flag := f\<rparr>)"
  using sint_u16_bounds [of n] by (auto simp: loop_safe_def)

lemma loop_safe_cnt: "loop_safe (HAL_TIM_SET_COUNTER t c w) = loop_safe w"
  by (simp add: loop_safe_def HAL_TIM_SET_COUNTER_def)

lemma bridge_ok_eq: "CCR w = CCR w' \<Longrightarrow> ODR w = ODR w' \<Longrightarrow> bridge_ok w = bridge_ok w'"
  by (simp add: bridge_ok_def pin_high_def)

lemma bridge_ok_cnt: "bridge_ok (HAL_TIM_SET_COUNTER t c w) = bridge_ok w"
  by (rule bridge_ok_eq) (simp_all add: HAL_TIM_SET_COUNTER_def)

lemma sample_encoder_safe:
  assumes "loop_safe w" "bridge_ok w"
  shows "loop_safe (sample_encoder1 w) \<and> bridge_ok (sample_encoder1 w)"
    "loop_safe (sample_encoder2 w) \<and> bridge_ok (sample_encoder2 w)"
proof -
  note e = sample_encoder1_eq [of w]
  have "bridge_ok (sample_encoder1 w) = bridge_ok w" by (rule bridge_ok_eq) (simp_all add: e)
  then show "loop_safe (sample_encoder1 w) \<and> bridge_ok (sample_encoder1 w)"
    unfolding e using loop_safe_speed1 [OF assms(1)] assms(2) by blast
next
  note e = sample_encoder2_eq [of w]
  have "bridge_ok (sample_encoder2 w) = bridge_ok w" by (rule bridge_ok_eq) (simp_all add: e)
  then show "loop_safe (sample_encoder2 w) \<and> bridge_ok (sample_encoder2 w)"
    unfolding e using loop_safe_speed2 [OF assms(1)] assms(2) by blast
qed

lemma speed_command_safe:
  assumes "loop_safe w" "f32_mag (2 ^ 20) t1" "f32_mag (2 ^ 20) t2"
  shows "loop_safe (motor_speed_loop (set_targets t1 t2 w)) \<and> bridge_ok (motor_speed_loop (set_targets t1 t2 w))"
  using motor_speed_loop_safe [OF set_targets_safe [OF assms]] by blast

lemma drive_step_safe:
  assumes "drive_step w w'" "loop_safe w" "bridge_ok w"
  shows "loop_safe w' \<and> bridge_ok w'"
  using assms
proof (cases rule: drive_step.cases)
  case (target s1 s2)
  then show ?thesis using speed_command_safe [OF assms(2)] by (simp only: Motor_PidTarget_def)
next
  case (acce s1 s2)
  then show ?thesis
    using speed_command_safe [OF assms(2)] ramp_between(1) loop_safe_targets [OF assms(2)]
    by (simp only: Motor_PidTarget_Acce_def)
next
  case (dece s1 s2)
  then show ?thesis
    using speed_command_safe [OF assms(2)] ramp_between(2) loop_safe_targets [OF assms(2)]
    by (simp only: Motor_PidTarget_Dece_def)
next
  case stop
  have "f32_mag (2 ^ 20) (f32_of_int 0)" by (simp add: f32_of_int_exact)
  then show ?thesis using stop speed_command_safe [OF assms(2)]
    by (simp only: Motor_Stop_def Motor_PidTarget_def)
next
  case (direct c1 c2)
  then show ?thesis
    using assms(2) bridge_is_ok [OF Motor_SetCCR_bridge]
    by (simp add: loop_safe_def Motor_SetCCR_keeps)
next
  case (sample1 c)
  then show ?thesis
    using sample_encoder_safe(1) [of "HAL_TIM_SET_COUNTER TIM4 c w"] assms(2,3)
    by (simp only: loop_safe_cnt bridge_ok_cnt)
next
  case (sample2 c)
  then show ?thesis
    using sample_encoder_safe(2) [of "HAL_TIM_SET_COUNTER TIM3 c w"] assms(2,3)
    by (simp only: loop_safe_cnt bridge_ok_cnt)
qed

text \<open>
  C5 (safety). From the state after \<^verbatim>\<open>PWM_Init\<close> and \<^verbatim>\<open>PID_Init\<close>, whatever sequence of speed commands,
  direct duty cycles and encoder counts follows, the compare values of both wheels never exceed
  4199, exactly one direction pin of each wheel is high, and the controllers stay in the range in
  which nothing overflows.
\<close>

theorem drive_always_safe:
  assumes "drive_step\<^sup>*\<^sup>* (PID_Init (PWM_Init motors0)) w"
  shows "CCR w (TIM12, 1) \<le> 4199 \<and> CCR w (TIM12, 2) \<le> 4199 \<and>
    pin_high w GPIOE 7 \<noteq> pin_high w GPIOE 8 \<and> pin_high w GPIOE 12 \<noteq> pin_high w GPIOE 10 \<and>
    f32_mag 4199 (Out (Pid_Motor1Speed w)) \<and> f32_mag 4199 (Out (Pid_Motor2Speed w))"
proof -
  have "loop_safe (PID_Init (PWM_Init motors0)) \<and> bridge_ok (PID_Init (PWM_Init motors0))"
    by (simp add: loop_safe_def bridge_ok_def PID_Init_def PWM_Init_def Let_def motors0_def pid_safe_def
        pid_init_def f32_in_round motors.defs encoders0_def encoders.defs globals0_def globals.defs
        hw0_def hw.defs pin_high_def AIN_SET_def BIN_SET_def HAL_GPIO_WritePin_def GPIO_PIN_def
        bit_simps HAL_TIM_SET_COMPARE_def hal_calls_def hal_def)
  with assms have "loop_safe w \<and> bridge_ok w"
    by (induction rule: rtranclp_induct) (auto dest: drive_step_safe)
  then show ?thesis by (auto simp: loop_safe_def bridge_ok_def pid_safe_def)
qed

theorem drive_always_safe_witness:
  "CCR (Motor_SetCCR 9999 (-1) (PID_Init (PWM_Init motors0))) (TIM12, 1) \<le> 4199 \<and>
   CCR (Motor_SetCCR 9999 (-1) (PID_Init (PWM_Init motors0))) (TIM12, 2) \<le> 4199 \<and>
   pin_high (Motor_SetCCR 9999 (-1) (PID_Init (PWM_Init motors0))) GPIOE 7 \<noteq>
     pin_high (Motor_SetCCR 9999 (-1) (PID_Init (PWM_Init motors0))) GPIOE 8 \<and>
   pin_high (Motor_SetCCR 9999 (-1) (PID_Init (PWM_Init motors0))) GPIOE 12 \<noteq>
     pin_high (Motor_SetCCR 9999 (-1) (PID_Init (PWM_Init motors0))) GPIOE 10 \<and>
   f32_mag 4199 (Out (Pid_Motor1Speed (Motor_SetCCR 9999 (-1) (PID_Init (PWM_Init motors0))))) \<and>
   f32_mag 4199 (Out (Pid_Motor2Speed (Motor_SetCCR 9999 (-1) (PID_Init (PWM_Init motors0)))))"
  by (rule drive_always_safe) (rule r_into_rtranclp, rule drive_step.direct, simp_all)

subsection \<open>The ramps over many periods\<close>

text \<open>One period of a ramp: the encoders are read and the speed function is called.\<close>

definition read_speeds :: "int \<times> int \<Rightarrow> 'a motors_scheme \<Rightarrow> 'a motors_scheme" where
  "read_speeds e w = w\<lparr>Encoder_Speed1 := fst e, Encoder_Speed2 := snd e\<rparr>"

definition acce_period :: "int \<Rightarrow> int \<Rightarrow> int \<times> int \<Rightarrow> 'a motors_scheme \<Rightarrow> 'a motors_scheme" where
  "acce_period s1 s2 e w = Motor_PidTarget_Acce (Fin (of_int s1)) (Fin (of_int s2)) (read_speeds e w)"

definition dece_period :: "int \<Rightarrow> int \<Rightarrow> int \<times> int \<Rightarrow> 'a motors_scheme \<Rightarrow> 'a motors_scheme" where
  "dece_period s1 s2 e w = Motor_PidTarget_Dece (Fin (of_int s1)) (Fin (of_int s2)) (read_speeds e w)"

definition targets_are :: "int \<Rightarrow> int \<Rightarrow> 'a motors_scheme \<Rightarrow> bool" where
  "targets_are t1 t2 w \<longleftrightarrow>
     Target (Pid_Motor1Speed w) = Fin (of_int t1) \<and> Target (Pid_Motor2Speed w) = Fin (of_int t2)"

lemma motor_speed_loop_targets:
  "Target (Pid_Motor1Speed (motor_speed_loop w)) = Target (Pid_Motor1Speed w)"
  "Target (Pid_Motor2Speed (motor_speed_loop w)) = Target (Pid_Motor2Speed w)"
proof -
  obtain x1 p1 where 1: "PID_iOut_Max (Pid_Motor1Speed w) (f32_of_int (Encoder_Speed1 w)) (f32_of_int 4199) = (x1, p1)"
    by fastforce
  obtain x2 p2 where 2: "PID_iOut_Max (Pid_Motor2Speed w) (f32_of_int (Encoder_Speed2 w)) (f32_of_int 4199) = (x2, p2)"
    by fastforce
  have t: "Target p1 = Target (Pid_Motor1Speed w)" "Target p2 = Target (Pid_Motor2Speed w)"
    using PID_iOut_Max_fields(1) 1 2 by (metis snd_conv)+
  obtain o1 c l b where "Motor_SetCCR (f32_to_s32 x1) (f32_to_s32 x2) (w\<lparr>Pid_Motor1Speed := p1, Pid_Motor2Speed := p2\<rparr>) =
      w\<lparr>Pid_Motor1Speed := p1, Pid_Motor2Speed := p2\<rparr>\<lparr>ODR := o1, CCR := c, hal_log := l, motor_pwm_inited := b\<rparr>"
    by (rule Motor_SetCCR_frame)
  then show "Target (Pid_Motor1Speed (motor_speed_loop w)) = Target (Pid_Motor1Speed w)"
    "Target (Pid_Motor2Speed (motor_speed_loop w)) = Target (Pid_Motor2Speed w)"
    by (simp_all add: motor_speed_loop_def 1 2 t)
qed

lemma period_targets:
  assumes "targets_are t1 t2 w" "\<bar>s1\<bar> \<le> 2 ^ 20" "\<bar>s2\<bar> \<le> 2 ^ 20" "\<bar>t1\<bar> \<le> 2 ^ 20" "\<bar>t2\<bar> \<le> 2 ^ 20"
  shows "targets_are (acce_ramp s1 t1 1) (acce_ramp s2 t2 1) (acce_period s1 s2 e w)"
    "targets_are (dece_ramp s1 t1 1) (dece_ramp s2 t2 1) (dece_period s1 s2 e w)"
  using assms ramp_target [of s1 t1] ramp_target [of s2 t2]
  by (simp_all add: targets_are_def acce_period_def dece_period_def read_speeds_def Motor_PidTarget_Acce_def
      Motor_PidTarget_Dece_def motor_speed_loop_targets set_targets_def)

lemma acce_periods:
  assumes "targets_are t1 t2 w" "\<bar>s1\<bar> \<le> 2 ^ 20" "\<bar>s2\<bar> \<le> 2 ^ 20" "\<bar>t1\<bar> \<le> 2 ^ 20" "\<bar>t2\<bar> \<le> 2 ^ 20"
  shows "targets_are (acce_ramp s1 t1 (Suc (length es))) (acce_ramp s2 t2 (Suc (length es)))
    (fold (acce_period s1 s2) (e # es) w)"
  using assms
proof (induction es arbitrary: e t1 t2 w)
  case Nil
  then show ?case using period_targets(1) [OF Nil] by simp
next
  case (Cons e' es)
  from Cons.IH [OF period_targets(1) [OF Cons.prems, of e] Cons.prems(2,3) ramp_mag(1) ramp_mag(1), of e'] Cons.prems
  show ?case by (simp add: ramp_steps [unfolded One_nat_def])
qed

lemma dece_periods:
  assumes "targets_are t1 t2 w" "\<bar>s1\<bar> \<le> 2 ^ 20" "\<bar>s2\<bar> \<le> 2 ^ 20" "\<bar>t1\<bar> \<le> 2 ^ 20" "\<bar>t2\<bar> \<le> 2 ^ 20"
  shows "targets_are (dece_ramp s1 t1 (Suc (length es))) (dece_ramp s2 t2 (Suc (length es)))
    (fold (dece_period s1 s2) (e # es) w)"
  using assms
proof (induction es arbitrary: e t1 t2 w)
  case Nil
  then show ?case using period_targets(2) [OF Nil] by simp
next
  case (Cons e' es)
  from Cons.IH [OF period_targets(2) [OF Cons.prems, of e] Cons.prems(2,3) ramp_mag(2) ramp_mag(2), of e'] Cons.prems
  show ?case by (simp add: ramp_steps [unfolded One_nat_def])
qed

text \<open>
  C25 (functional). The two ramps over any number of periods, whatever the encoders read in them, for
  every pair of whole speeds and targets up to \<open>2 ^ 20\<close> of either sign: each wheel's target is a
  function of that wheel's own speed alone. After \<open>k\<close> calls of \<^verbatim>\<open>Motor_PidTarget_Acce\<close> it has moved from
  \<open>t\<close> by \<open>40 k\<close> towards a wanted speed \<open>s\<close>, and never past it, when that means speeding up (\<open>t\<close> not above a
  forward \<open>s\<close>, or above a reverse one), and is \<open>s\<close> from the first call on otherwise;
  \<^verbatim>\<open>Motor_PidTarget_Dece\<close> is the mirror image. Either way the wanted speed is
  reached once \<open>40 k\<close> covers the distance, and then kept.
\<close>

theorem ramps_reach_target:
  assumes "\<bar>s1\<bar> \<le> 2 ^ 20" "\<bar>s2\<bar> \<le> 2 ^ 20" "\<bar>t1\<bar> \<le> 2 ^ 20" "\<bar>t2\<bar> \<le> 2 ^ 20"
    and "Target (Pid_Motor1Speed w) = Fin (of_int t1)" "Target (Pid_Motor2Speed w) = Fin (of_int t2)" "es \<noteq> []"
  shows "Target (Pid_Motor1Speed (fold (acce_period s1 s2) es w)) = Fin (of_int (acce_ramp s1 t1 (length es))) \<and>
    Target (Pid_Motor2Speed (fold (acce_period s1 s2) es w)) = Fin (of_int (acce_ramp s2 t2 (length es))) \<and>
    Target (Pid_Motor1Speed (fold (dece_period s1 s2) es w)) = Fin (of_int (dece_ramp s1 t1 (length es))) \<and>
    Target (Pid_Motor2Speed (fold (dece_period s1 s2) es w)) = Fin (of_int (dece_ramp s2 t2 (length es)))"
proof -
  obtain e es' where es: "es = e # es'" using assms(7) by (cases es) auto
  have w: "targets_are t1 t2 w" using assms by (simp add: targets_are_def)
  show ?thesis
    using acce_periods [OF w assms(1-4), of es' e] dece_periods [OF w assms(1-4), of es' e]
    unfolding targets_are_def es length_Cons by blast
qed

text \<open>The program's own call, \<^verbatim>\<open>Motor_PidTarget_Acce(300, -300)\<close> from rest, over three periods.\<close>

theorem ramps_reach_target_witness:
  "Target (Pid_Motor1Speed (fold (acce_period 300 (-300)) [(0, 0), (20, -10), (60, -50)] (PID_Init motors0))) = Fin 120 \<and>
    Target (Pid_Motor2Speed (fold (acce_period 300 (-300)) [(0, 0), (20, -10), (60, -50)] (PID_Init motors0))) = Fin (-120) \<and>
    Target (Pid_Motor1Speed (fold (dece_period 300 (-300)) [(0, 0), (20, -10), (60, -50)] (PID_Init motors0))) = Fin 300 \<and>
    Target (Pid_Motor2Speed (fold (dece_period 300 (-300)) [(0, 0), (20, -10), (60, -50)] (PID_Init motors0))) = Fin (-300)"
proof -
  have "Target (Pid_Motor1Speed (PID_Init motors0)) = Fin (of_int 0)"
    "Target (Pid_Motor2Speed (PID_Init motors0)) = Fin (of_int 0)"
    by (simp_all add: PID_Init_def pid_init_def f32_round_rep)
  then show ?thesis
    using ramps_reach_target [of 300 "-300" 0 0 "PID_Init motors0" "[(0, 0), (20, -10), (60, -50)]"]
    by (simp add: ramp_defs del: fold_simps fold.simps)
qed

end
