(* ===== verification/CarTurn.thy ===== *)
theory CarTurn
  imports Motor
begin

text \<open>
  Heading control (\<^verbatim>\<open>Software/CarTurn.c\<close>): driving straight on a heading, turning on the spot to a
  heading, and the reduction of a heading to one turn.

  The yaw is read from the IMU's global. The literals \<open>180\<close> and \<open>360\<close> are integers that C converts
  to \<^verbatim>\<open>float\<close>.
\<close>

record turns = motors +
  Turn_Out :: f32
  Yaw_Read :: f32
  Turn_EndTargetLeft :: f32
  Turn_EndTargetRight :: f32

definition turns0 :: turns where
  "turns0 = motors.extend motors0 (turns.fields (Fin 0) (Fin 0) (Fin 0) (Fin 0))"

text \<open>The measured yaw is moved by a full turn when that brings it closer to the target.\<close>

definition yaw_near :: "f32 \<Rightarrow> f32 \<Rightarrow> f32" where
  "yaw_near target yaw =
     (if flt yaw (fsub target (f32_of_int 180)) then fadd yaw (f32_of_int 360)
      else if fgt yaw (fadd target (f32_of_int 180)) then fsub yaw (f32_of_int 360) else yaw)"

definition Car_Goline :: "f32 \<Rightarrow> int \<Rightarrow> 'a turns_scheme \<Rightarrow> 'a turns_scheme" where
  "Car_Goline Target_Yaw Turn_Speed w = (let
     w = w\<lparr>Pid_Trun := (Pid_Trun w)\<lparr>Target := Target_Yaw\<rparr>, Yaw_Read := yaw_near Target_Yaw (Yaw w)\<rparr>;
     (out, p) = PID_pOut (Pid_Trun w) (Yaw_Read w);
     w = w\<lparr>Pid_Trun := p, Turn_Out := out,
           Turn_EndTargetLeft := fsub (f32_of_int Turn_Speed) out,
           Turn_EndTargetRight := fadd (f32_of_int Turn_Speed) out\<rparr>
   in Motor_PidTarget (Turn_EndTargetLeft w) (Turn_EndTargetRight w) w)"

definition Car_Turn :: "f32 \<Rightarrow> 'a turns_scheme \<Rightarrow> 'a turns_scheme" where
  "Car_Turn Target_Yaw w = (let
     Turn_Speed = 0;
     w = w\<lparr>Pid_Trun := (Pid_Trun w)\<lparr>Target := Target_Yaw\<rparr>, Yaw_Read := yaw_near Target_Yaw (Yaw w)\<rparr>;
     (out, p) = PID_pOut_Max (Pid_Trun w) (Yaw_Read w) (f32_of_int 200);
     w = w\<lparr>Pid_Trun := p, Turn_Out := out,
           Turn_EndTargetLeft := fsub (f32_of_int Turn_Speed) out,
           Turn_EndTargetRight := fadd (f32_of_int Turn_Speed) out\<rparr>
   in Motor_PidTarget (Turn_EndTargetLeft w) (Turn_EndTargetRight w) w)"

definition wrap_yaw :: "f32 \<Rightarrow> f32" where
  "wrap_yaw change_range = (let
     c = (if fgt change_range (flit 180) then fsub change_range (flit 360) else change_range)
   in if \<not> fgt c (flit (-180)) then fadd c (flit 360) else c)"

definition Yaw_change :: "f32 \<Rightarrow> 'a turns_scheme \<Rightarrow> 'a turns_scheme" where
  "Yaw_change change_range w = Car_Turn (wrap_yaw change_range) w"

subsection \<open>Headings\<close>

lemma turn_lits [simp]:
  "f32_of_int 180 = Fin 180" "f32_of_int 360 = Fin 360" "f32_of_int 200 = Fin 200" "f32_of_int 0 = Fin 0"
  "flit 180 = Fin 180" "flit 360 = Fin 360" "flit (- 180) = Fin (- 180)" "flit 5 = Fin 5"
  using f32_of_int_exact [of 180] f32_of_int_exact [of 360] f32_of_int_exact [of 200] f32_of_int_exact [of 0]
  by (simp_all add: f32_round_rep)

lemma rep_big_multiple:
  assumes "f32_rep v" "128 \<le> \<bar>v\<bar>" shows "\<exists>m. v = of_int m * pow2 (- 16)"
  using rep_multiple [of v "-16"] assms by (auto simp: pow2_def)

text \<open>Shifting a heading by a full turn is exact.\<close>

lemma shift_exact:
  assumes "f32_rep v" "128 \<le> \<bar>v\<bar>" "\<bar>v + d\<bar> \<le> 180" "d = 360 \<or> d = - 360"
  shows "f32_rep (v + d)"
proof -
  obtain m where m: "v = of_int m * pow2 (- 16)" using rep_big_multiple assms(1,2) by blast
  define n where "n = (if d = 360 then m + 360 * 2 ^ 16 else m - 360 * 2 ^ 16)"
  have n: "v + d = of_int n * pow2 (- 16)"
    using assms(4) by (auto simp: n_def m pow2_def field_simps)
  have "\<bar>of_int n * pow2 (- 16)\<bar> \<le> 180" using assms(3) by (simp only: flip: n)
  then have "\<bar>of_int n :: rat\<bar> \<le> 180 * 65536" by (simp add: pow2_def abs_mult field_simps)
  then have "\<bar>n\<bar> \<le> 180 * 65536" by linarith
  then show ?thesis
    using assms(3) by (intro f32_rep_dyadic [OF n]) (auto simp: pow2_def)
qed

lemma wrap_yaw_Fin:
  assumes "f32_rep r" "- 540 < r" "r \<le> 540"
  shows "wrap_yaw (Fin r) = Fin (if 180 < r then (if r = 540 then 180 else r - 360) else if r \<le> - 180 then r + 360 else r)"
proof -
  consider "r = 540" | "180 < r" "r < 540" | "r \<le> - 180" | "- 180 < r" "r \<le> 180" using assms by linarith
  then show ?thesis
  proof cases
    case 2
    then have "f32_rep (r + - 360)" using assms by (intro shift_exact) (auto simp: abs_le_iff)
    with 2 show ?thesis by (simp add: wrap_yaw_def fsub_def f32_round_rep)
  next
    case 3
    then have "f32_rep (r + 360)" using assms by (intro shift_exact) (auto simp: abs_le_iff)
    with 3 show ?thesis by (simp add: wrap_yaw_def fsub_def f32_round_rep)
  qed (simp_all add: wrap_yaw_def fsub_def f32_round_rep)
qed

text \<open>
  \<^verbatim>\<open>Yaw_change\<close> turns to the same heading reduced to the half-open turn
  (-180, 180]: for every heading less than one and a half turns away from zero the argument given
  to \<^verbatim>\<open>Car_Turn\<close> is in that range and differs from the requested one by exactly a full turn or
  nothing.
\<close>

theorem Yaw_change_reduces:
  assumes "f32_rep r" "- 540 < r" "r \<le> 540"
  shows "\<exists>c. Yaw_change (Fin r) w = Car_Turn (Fin c) w \<and> - 180 < c \<and> c \<le> 180 \<and> c - r \<in> {0, 360, - 360}"
  using wrap_yaw_Fin [OF assms] assms
  by (intro exI [of _ "if 180 < r then (if r = 540 then 180 else r - 360) else if r \<le> - 180 then r + 360 else r"])
    (simp add: Yaw_change_def)

theorem Yaw_change_reduces_witness:
  "\<exists>c. Yaw_change (Fin 270) turns0 = Car_Turn (Fin c) turns0 \<and> - 180 < c \<and> c \<le> 180 \<and>
     c - 270 \<in> {0, 360, - 360}"
  by (rule Yaw_change_reduces) simp_all

subsection \<open>Turning\<close>

lemma round_near:
  assumes "\<bar>q\<bar> < 512" obtains v where "f32_round q = Fin v" "f32_rep v" "\<bar>v - q\<bar> \<le> 1 / 65536"
proof -
  obtain v where v: "f32_round q = Fin v" "f32_rep v"
    by (rule f32_round_between [of "- 512" 512 q]) (use assms in auto)
  then have "v = quantize q" by (auto simp: f32_round_def Let_def split: if_splits)
  then have "\<bar>v - q\<bar> \<le> 1 / 65536"
    using quantize_error [of q "- 15"] assms by (simp add: pow2_def)
  then show ?thesis using v that by blast
qed

lemma yaw_near_error:
  assumes "f32_mag 180 t" "f32_mag 180 y"
  shows "f32_mag 181 (fsub t (yaw_near t y))"
proof -
  obtain T Y where t: "t = Fin T" "f32_rep T" "- 180 \<le> T" "T \<le> 180"
    and y: "y = Fin Y" "f32_rep Y" "- 180 \<le> Y" "Y \<le> 180" using assms by (auto elim!: f32_inE)
  obtain lo where lo: "f32_round (T - 180) = Fin lo" "\<bar>lo - (T - 180)\<bar> \<le> 1 / 65536"
    using round_near [of "T - 180"] t by auto
  obtain hi where hi: "f32_round (T + 180) = Fin hi" "\<bar>hi - (T + 180)\<bar> \<le> 1 / 65536"
    using round_near [of "T + 180"] t by auto
  consider "Y < lo" | "lo \<le> Y" "hi < Y" | "lo \<le> Y" "Y \<le> hi" by linarith
  then have "\<exists>z. yaw_near t y = Fin z \<and> \<bar>T - z\<bar> \<le> 181"
  proof cases
    case 1
    then have "\<bar>Y + 360\<bar> < 512" using t y lo by linarith
    then obtain u where u: "f32_round (Y + 360) = Fin u" "\<bar>u - (Y + 360)\<bar> \<le> 1 / 65536"
      by (rule round_near)
    then have "\<bar>T - u\<bar> \<le> 181" using t y lo 1 by linarith
    then show ?thesis using t y lo u 1 by (simp add: yaw_near_def fsub_def)
  next
    case 2
    then have "\<bar>Y - 360\<bar> < 512" using t y hi by linarith
    then obtain d where d: "f32_round (Y - 360) = Fin d" "\<bar>d - (Y - 360)\<bar> \<le> 1 / 65536"
      by (rule round_near)
    then have "\<bar>T - d\<bar> \<le> 181" using t y hi 2 by linarith
    then show ?thesis using t y lo hi d 2 by (simp add: yaw_near_def fsub_def)
  next
    case 3
    then have "\<bar>T - Y\<bar> \<le> 181" using lo hi by linarith
    then show ?thesis using t y lo hi 3 by (simp add: yaw_near_def fsub_def)
  qed
  then obtain z where "yaw_near t y = Fin z" "\<bar>T - z\<bar> \<le> 181" by blast
  then show ?thesis using t by (auto simp: fsub_def intro!: f32_in_round)
qed

text \<open>
  The integral of the turning controller is never reset. It cannot run away either: from \<open>2 ^ 33\<close> on
  an error of half a turn is less than half a unit in the last place and is rounded away.
\<close>

lemma f32_rep_2_33_34 [simp]: "f32_rep 8589934592" "f32_rep 17179869184"
  using f32_rep_pow2 [of 33] f32_rep_pow2 [of 34] by (simp_all add: pow2_def)

lemma sum_saturates:
  assumes "f32_mag (2 ^ 33) s" "f32_mag 181 e"
  shows "f32_mag (2 ^ 33) (fadd s e)"
proof -
  obtain S E where s: "s = Fin S" "f32_rep S" "- (2 ^ 33) \<le> S" "S \<le> 2 ^ 33"
    and e: "e = Fin E" "- 181 \<le> E" "E \<le> 181" using assms by (auto elim!: f32_inE)
  have "f32_mag (2 ^ 34) (f32_round (S + E))" using s e by (intro f32_in_round) auto
  then obtain v where v: "f32_round (S + E) = Fin v" "f32_rep v" "\<bar>v\<bar> \<le> 2 ^ 34" by (auto elim!: f32_inE simp: abs_le_iff)
  have "\<bar>v - (S + E)\<bar> \<le> pow2 10 / 2"
  proof -
    have "v = quantize (S + E)" using v(1) by (auto simp: f32_round_def Let_def split: if_splits)
    moreover have "\<bar>S + E\<bar> < pow2 34" using s e by (simp add: pow2_def abs_less_iff)
    ultimately show ?thesis using quantize_error [of "S + E" 10] by simp
  qed
  then have near: "\<bar>v\<bar> \<le> 2 ^ 33 + 181 + 512" using s e by (simp add: pow2_def abs_le_iff)
  have "\<bar>v\<bar> \<le> 2 ^ 33"
  proof (rule ccontr)
    assume big: "\<not> \<bar>v\<bar> \<le> 2 ^ 33"
    then obtain n where n: "v = of_int n * pow2 10" using rep_multiple [OF v(2), of 10] by (auto simp: pow2_def)
    then have "\<bar>v\<bar> = of_int \<bar>n\<bar> * 1024" by (simp add: pow2_def abs_mult)
    with big near have "(of_int \<bar>n\<bar> :: rat) * 1024 > 2 ^ 23 * 1024" "(of_int \<bar>n\<bar> :: rat) * 1024 < (2 ^ 23 + 1) * 1024" by simp_all
    then have "(of_int (2 ^ 23) :: rat) < of_int \<bar>n\<bar>" "of_int \<bar>n\<bar> < (of_int (2 ^ 23 + 1) :: rat)" by simp_all
    then show False by (simp only: of_int_less_iff)
  qed
  then show ?thesis using s(1) e(1) v by (simp add: abs_le_iff)
qed


text \<open>The turning controller with the gains of \<^verbatim>\<open>PID_Init\<close>, in the range it never leaves.\<close>

definition trun_ok :: "Mypid \<Rightarrow> bool" where
  "trun_ok p \<longleftrightarrow> Kp p = Fin 5 \<and> Ki p = Fin 0 \<and> Kd p = Fin 0 \<and> f32_mag (2 ^ 33) (Error_Sum p) \<and>
     f32_mag 181 (Error1 p)"

lemma trun_ok_target: "trun_ok (p\<lparr>Target := t\<rparr>) = trun_ok p"
  by (simp add: trun_ok_def)

lemma PID_pOut_trun:
  assumes "trun_ok p" "f32_mag 181 (fsub (Target p) a)"
  shows "fst (PID_pOut p a) = fmul (Fin 5) (fsub (Target p) a)"
    "f32_mag 905 (fst (PID_pOut p a))" "trun_ok (snd (PID_pOut p a))"
proof -
  define e where "e = fsub (Target p) a"
  have s: "f32_mag (2 ^ 33) (fadd (Error_Sum p) e)"
    by (rule sum_saturates) (use assms in \<open>auto simp: trun_ok_def e_def\<close>)
  have d: "f32_mag 362 (fsub e (Error1 p))"
    by (rule fsub_mag [where A = 181 and B = 181]) (use assms in \<open>auto simp: trun_ok_def e_def\<close>)
  have k: "f32_mag 905 (fmul (Fin 5) e)"
    by (rule fmul_mag [where A = 5 and B = 181]) (use assms in \<open>auto simp: e_def\<close>)
  then obtain v where v: "fmul (Fin 5) e = Fin v" "f32_rep v" by (auto elim!: f32_inE)
  show o: "fst (PID_pOut p a) = fmul (Fin 5) (fsub (Target p) a)"
    using assms(1) s d v
    by (auto simp: PID_pOut_def pid_positional_def Let_def trun_ok_def f32_round_rep
        simp flip: e_def elim!: f32_inE)
  show "f32_mag 905 (fst (PID_pOut p a))" using k by (simp add: o e_def)
  show "trun_ok (snd (PID_pOut p a))"
    using assms s by (simp add: PID_pOut_def Let_def trun_ok_def e_def)
qed

lemma Car_Turn_fields:
  "Turn_Out (Car_Turn t w) = fst (PID_pOut ((Pid_Trun w)\<lparr>Target := t\<rparr>) (yaw_near t (Yaw w)))"
  "Pid_Trun (Car_Turn t w) = snd (PID_pOut ((Pid_Trun w)\<lparr>Target := t\<rparr>) (yaw_near t (Yaw w)))"
  "Turn_EndTargetLeft (Car_Turn t w) = fsub (Fin 0) (Turn_Out (Car_Turn t w))"
  "Turn_EndTargetRight (Car_Turn t w) = fadd (Fin 0) (Turn_Out (Car_Turn t w))"
proof -
  obtain out p where p: "PID_pOut ((Pid_Trun w)\<lparr>Target := t\<rparr>) (yaw_near t (Yaw w)) = (out, p)" by fastforce
  define v where "v = w\<lparr>Yaw_Read := yaw_near t (Yaw w), Pid_Trun := p, Turn_Out := out,
    Turn_EndTargetLeft := fsub (Fin 0) out, Turn_EndTargetRight := fadd (Fin 0) out\<rparr>"
  have e: "Car_Turn t w = Motor_PidTarget (fsub (Fin 0) out) (fadd (Fin 0) out) v"
    by (simp add: Car_Turn_def Let_def PID_pOut_Max_is_PID_pOut_eq p v_def)
  obtain o1 c l b p1 p2 where f: "Car_Turn t w = v\<lparr>ODR := o1, CCR := c, hal_log := l, motor_pwm_inited := b,
      Pid_Motor1Speed := p1, Pid_Motor2Speed := p2\<rparr>"
    unfolding e by (rule Motor_PidTarget_frame)
  show "Turn_Out (Car_Turn t w) = fst (PID_pOut ((Pid_Trun w)\<lparr>Target := t\<rparr>) (yaw_near t (Yaw w)))"
    "Pid_Trun (Car_Turn t w) = snd (PID_pOut ((Pid_Trun w)\<lparr>Target := t\<rparr>) (yaw_near t (Yaw w)))"
    "Turn_EndTargetLeft (Car_Turn t w) = fsub (Fin 0) (Turn_Out (Car_Turn t w))"
    "Turn_EndTargetRight (Car_Turn t w) = fadd (Fin 0) (Turn_Out (Car_Turn t w))"
    by (simp_all add: f v_def p)
qed

text \<open>The sign of five times an error, after rounding.\<close>

lemma round_five:
  assumes "f32_rep e" "\<bar>e\<bar> \<le> 181"
  obtains r where "f32_round (5 * e) = Fin r" "\<bar>r - 5 * e\<bar> \<le> 1 / 32768" "sgn r = sgn e" "f32_rep r"
proof -
  obtain r where r: "f32_round (5 * e) = Fin r" "f32_rep r"
    by (rule f32_round_between [of "- 1024" 1024 "5 * e"]) (use assms in \<open>auto simp: abs_le_iff\<close>)
  have q: "r = quantize (5 * e)" using r(1) by (auto simp: f32_round_def Let_def split: if_splits)
  have "\<bar>r - 5 * e\<bar> \<le> 1 / 32768"
    using quantize_error [of "5 * e" "- 14"] assms(2) by (simp add: q pow2_def abs_mult)
  moreover have "sgn r = sgn e"
  proof -
    consider "e = 0" | "0 < e" | "e < 0" by linarith
    then show ?thesis
    proof cases
      case 2
      obtain r' where "f32_round (5 * e) = Fin r'" "e \<le> r'"
        by (rule f32_round_between [of e 1024 "5 * e"]) (use assms 2 in \<open>auto simp: abs_le_iff\<close>)
      with 2 r show ?thesis by simp
    next
      case 3
      obtain r' where "f32_round (5 * e) = Fin r'" "r' \<le> e"
        by (rule f32_round_between [of "- 1024" e "5 * e"]) (use assms 3 in \<open>auto simp: abs_le_iff\<close>)
      with 3 r show ?thesis by simp
    qed (use r in simp)
  qed
  ultimately show ?thesis using r that by blast
qed

text \<open>The error is the heading difference reduced to one turn, up to two roundings.\<close>

lemma yaw_near_short:
  assumes "f32_rep T" "\<bar>T\<bar> \<le> 180" "f32_rep Y" "\<bar>Y\<bar> \<le> 180"
  obtains E n where "fsub (Fin T) (yaw_near (Fin T) (Fin Y)) = Fin E" "f32_rep E"
    "\<bar>E - (T - Y - 360 * of_int n)\<bar> \<le> 1 / 32768" "\<bar>E\<bar> \<le> 180 + 1 / 16384"
proof -
  have b: "- 180 \<le> T" "T \<le> 180" "- 180 \<le> Y" "Y \<le> 180" using assms(2,4) by (simp_all add: abs_le_iff)
  obtain lo where lo: "f32_round (T - 180) = Fin lo" "\<bar>lo - (T - 180)\<bar> \<le> 1 / 65536"
    using round_near [of "T - 180"] b by (auto simp: abs_less_iff)
  obtain hi where hi: "f32_round (T + 180) = Fin hi" "\<bar>hi - (T + 180)\<bar> \<le> 1 / 65536"
    using round_near [of "T + 180"] b by (auto simp: abs_less_iff)
  have "\<exists>z n. yaw_near (Fin T) (Fin Y) = Fin z \<and> \<bar>z - (Y + 360 * of_int (n :: int))\<bar> \<le> 1 / 65536 \<and>
    \<bar>T - z\<bar> \<le> 180 + 1 / 32768"
  proof -
    consider "Y < lo" | "lo \<le> Y" "hi < Y" | "lo \<le> Y" "Y \<le> hi" by linarith
    then show ?thesis
    proof cases
      case 1
      then have "\<bar>Y + 360\<bar> < 512" using b lo by linarith
      then obtain u where u: "f32_round (Y + 360) = Fin u" "\<bar>u - (Y + 360)\<bar> \<le> 1 / 65536"
        by (rule round_near)
      moreover have "yaw_near (Fin T) (Fin Y) = Fin u" using lo u 1 by (simp add: yaw_near_def fsub_def)
      moreover have "\<bar>T - u\<bar> \<le> 180 + 1 / 32768" using b lo u 1 by linarith
      ultimately show ?thesis by (intro exI [of _ u] exI [of _ 1]) simp
    next
      case 2
      then have "\<bar>Y - 360\<bar> < 512" using b hi by linarith
      then obtain u where u: "f32_round (Y - 360) = Fin u" "\<bar>u - (Y - 360)\<bar> \<le> 1 / 65536"
        by (rule round_near)
      moreover have "yaw_near (Fin T) (Fin Y) = Fin u" using lo hi u 2 by (simp add: yaw_near_def fsub_def)
      moreover have "\<bar>T - u\<bar> \<le> 180 + 1 / 32768" using b hi u 2 by linarith
      ultimately show ?thesis by (intro exI [of _ u] exI [of _ "- 1"]) simp
    next
      case 3
      then have "\<bar>T - Y\<bar> \<le> 180 + 1 / 32768" using lo hi by linarith
      moreover have "yaw_near (Fin T) (Fin Y) = Fin Y" using lo hi 3 by (simp add: yaw_near_def fsub_def)
      ultimately show ?thesis by (intro exI [of _ Y] exI [of _ 0]) simp
    qed
  qed
  then obtain z n where z: "yaw_near (Fin T) (Fin Y) = Fin z" "\<bar>z - (Y + 360 * of_int (n :: int))\<bar> \<le> 1 / 65536"
    "\<bar>T - z\<bar> \<le> 180 + 1 / 32768" by blast
  then have "\<bar>T - z\<bar> < 512" by linarith
  then obtain E where E: "f32_round (T - z) = Fin E" "f32_rep E" "\<bar>E - (T - z)\<bar> \<le> 1 / 65536" by (rule round_near)
  show ?thesis
  proof (rule that [of E n])
    show "fsub (Fin T) (yaw_near (Fin T) (Fin Y)) = Fin E" using z(1) E(1) by (simp add: fsub_def)
    show "\<bar>E - (T - Y - 360 * of_int n)\<bar> \<le> 1 / 32768" using z(2) E(3) by linarith
    show "\<bar>E\<bar> \<le> 180 + 1 / 16384" using z(3) E(3) by linarith
  qed (rule E(2))
qed

lemma Motor_PidTarget_targets:
  "Target (Pid_Motor1Speed (Motor_PidTarget l r w)) = l" "Target (Pid_Motor2Speed (Motor_PidTarget l r w)) = r"
  by (simp_all add: Motor_PidTarget_def motor_speed_loop_targets set_targets_def)

text \<open>The wheels' targets are those the turn has computed: the left wheel is motor 1.\<close>

lemma Car_Turn_wheels:
  "Target (Pid_Motor1Speed (Car_Turn t w)) = fsub (Fin 0) (Turn_Out (Car_Turn t w))"
  "Target (Pid_Motor2Speed (Car_Turn t w)) = fadd (Fin 0) (Turn_Out (Car_Turn t w))"
  unfolding Car_Turn_fields(1)
  by (simp_all add: Car_Turn_def Let_def PID_pOut_Max_is_PID_pOut_eq split_beta Motor_PidTarget_targets)

text \<open>
  C26 (functional). With the gains of \<^verbatim>\<open>PID_Init\<close> and the wanted heading and the measured yaw within half
  a turn, \<^verbatim>\<open>Car_Turn\<close> turns to the wanted heading the short way round: the error \<open>E\<close> it acts on is the
  wanted heading less the yaw, up to whole turns and to two roundings (1/32768 of a degree), and is at most
  half a turn (and 1/16384 of a degree); the output is five times that error and has its sign; the right
  wheel (motor 2) gets it as its target and the left wheel (motor 1) its negation. So the car turns
  left, towards larger yaw, exactly when the error is positive.
\<close>

theorem Car_Turn_short_way:
  assumes "trun_ok (Pid_Trun w)" "t = Fin T" "f32_rep T" "\<bar>T\<bar> \<le> 180" "Yaw w = Fin Y" "f32_rep Y" "\<bar>Y\<bar> \<le> 180"
  shows "\<exists>E r n. Error0 (Pid_Trun (Car_Turn t w)) = Fin E \<and>
    \<bar>E - (T - Y - 360 * of_int (n :: int))\<bar> \<le> 1 / 32768 \<and> \<bar>E\<bar> \<le> 180 + 1 / 16384 \<and>
    Turn_Out (Car_Turn t w) = Fin r \<and> \<bar>r - 5 * E\<bar> \<le> 1 / 32768 \<and> sgn r = sgn E \<and>
    Target (Pid_Motor1Speed (Car_Turn t w)) = Fin (- r) \<and> Target (Pid_Motor2Speed (Car_Turn t w)) = Fin r"
proof -
  obtain E n where E: "fsub t (yaw_near t (Yaw w)) = Fin E" "f32_rep E"
    "\<bar>E - (T - Y - 360 * of_int n)\<bar> \<le> 1 / 32768" "\<bar>E\<bar> \<le> 180 + 1 / 16384"
    unfolding assms(2,5) by (rule yaw_near_short [OF assms(3,4,6,7)])
  then have E': "\<bar>E\<bar> \<le> 181" by linarith
  then obtain r where r: "f32_round (5 * E) = Fin r" "\<bar>r - 5 * E\<bar> \<le> 1 / 32768" "sgn r = sgn E" "f32_rep r"
    by (rule round_five [OF E(2)])
  have ok: "trun_ok ((Pid_Trun w)\<lparr>Target := t\<rparr>)" using assms(1) by (simp add: trun_ok_target)
  have "Turn_Out (Car_Turn t w) = Fin r"
    using PID_pOut_trun(1) [OF ok, of "yaw_near t (Yaw w)"] E(1,2) E' r(1) by (simp add: Car_Turn_fields abs_le_iff)
  moreover have "Error0 (Pid_Trun (Car_Turn t w)) = Fin E"
    using E(1) by (simp add: Car_Turn_fields PID_pOut_def Let_def)
  ultimately show ?thesis
    using E r by (intro exI [of _ E] exI [of _ r] exI [of _ n]) (simp add: Car_Turn_wheels fsub_def f32_round_rep)
qed

lemma trun_step:
  assumes "trun_ok p" "f32_mag 180 t" "f32_mag 180 y" "PID_pOut (p\<lparr>Target := t\<rparr>) (yaw_near t y) = (out, p')"
  shows "f32_mag 905 out" "trun_ok p'" "Target p' = t"
proof -
  have e: "f32_mag 181 (fsub (Target (p\<lparr>Target := t\<rparr>)) (yaw_near t y))" using yaw_near_error [OF assms(2,3)] by simp
  have "trun_ok (p\<lparr>Target := t\<rparr>)" using assms(1) by (simp add: trun_ok_target)
  from PID_pOut_trun(2,3) [OF this e] show "f32_mag 905 out" "trun_ok p'" by (simp_all add: assms(4))
  show "Target p' = t" using assms(4) by (auto simp: PID_pOut_def Let_def)
qed

lemma drive_targets_safe:
  assumes "loop_safe w" "f32_mag 905 out" "\<bar>n\<bar> \<le> 1000"
  shows "loop_safe (Motor_PidTarget (fsub (f32_of_int n) out) (fadd (f32_of_int n) out) w)"
    "bridge_ok (Motor_PidTarget (fsub (f32_of_int n) out) (fadd (f32_of_int n) out) w)"
proof -
  have n: "f32_mag 1000 (f32_of_int n)"
  proof -
    have "\<bar>of_int n :: rat\<bar> \<le> of_int 1000" by (rule of_int_abs_le [OF assms(3)])
    then show ?thesis using assms(3) f32_of_int_exact [of n] f32_rep_of_int [of n] by (simp add: abs_le_iff)
  qed
  have "f32_mag (2 ^ 20) (fsub (f32_of_int n) out)" "f32_mag (2 ^ 20) (fadd (f32_of_int n) out)"
    by (rule fsub_mag [OF n assms(2)] fadd_mag [OF n assms(2)]; simp)+
  from speed_command_safe [OF assms(1) this] show
    "loop_safe (Motor_PidTarget (fsub (f32_of_int n) out) (fadd (f32_of_int n) out) w)"
    "bridge_ok (Motor_PidTarget (fsub (f32_of_int n) out) (fadd (f32_of_int n) out) w)"
    by (simp_all add: Motor_PidTarget_def)
qed

lemma steer_frame:
  assumes "v = Motor_PidTarget l r (w\<lparr>Yaw_Read := yr, Pid_Trun := p, Turn_Out := out,
    Turn_EndTargetLeft := el, Turn_EndTargetRight := er\<rparr>)"
  obtains o1 c h b p1 p2 where "v = w\<lparr>Yaw_Read := yr, Pid_Trun := p, Turn_Out := out, Turn_EndTargetLeft := el, Turn_EndTargetRight := er,
     ODR := o1, CCR := c, hal_log := h, motor_pwm_inited := b, Pid_Motor1Speed := p1, Pid_Motor2Speed := p2\<rparr>"
proof -
  define u where "u = w\<lparr>Yaw_Read := yr, Pid_Trun := p, Turn_Out := out, Turn_EndTargetLeft := el, Turn_EndTargetRight := er\<rparr>"
  obtain o1 c h b p1 p2 where f: "Motor_PidTarget l r u = u\<lparr>ODR := o1, CCR := c, hal_log := h, motor_pwm_inited := b,
      Pid_Motor1Speed := p1, Pid_Motor2Speed := p2\<rparr>"
    by (rule Motor_PidTarget_frame)
  show ?thesis using assms f that by (simp add: u_def)
qed

lemma Car_Turn_step:
  assumes "loop_safe w" "trun_ok (Pid_Trun w)" "f32_mag 180 t" "f32_mag 180 (Yaw w)"
  shows "loop_safe (Car_Turn t w)" "bridge_ok (Car_Turn t w)" "trun_ok (Pid_Trun (Car_Turn t w))"
    "Target (Pid_Trun (Car_Turn t w)) = t" "turns.more (Car_Turn t w) = turns.more w" "Yaw (Car_Turn t w) = Yaw w"
    "vl53 (Car_Turn t w) = vl53 w" "mystate (Car_Turn t w) = mystate w"
proof -
  obtain out p where p: "PID_pOut ((Pid_Trun w)\<lparr>Target := t\<rparr>) (yaw_near t (Yaw w)) = (out, p)" by fastforce
  note s = trun_step [OF assms(2-4) p]
  define v where "v = w\<lparr>Yaw_Read := yaw_near t (Yaw w), Pid_Trun := p, Turn_Out := out,
    Turn_EndTargetLeft := fsub (f32_of_int 0) out, Turn_EndTargetRight := fadd (f32_of_int 0) out\<rparr>"
  have e: "Car_Turn t w = Motor_PidTarget (fsub (f32_of_int 0) out) (fadd (f32_of_int 0) out) v"
    by (simp add: Car_Turn_def Let_def PID_pOut_Max_is_PID_pOut_eq p v_def)
  have "loop_safe v" using assms(1) by (simp add: v_def loop_safe_def)
  from drive_targets_safe [OF this s(1), of 0]
  show "loop_safe (Car_Turn t w)" "bridge_ok (Car_Turn t w)" by (simp_all add: e)
  obtain o1 c h b p1 p2 where f: "Car_Turn t w = w\<lparr>Yaw_Read := yaw_near t (Yaw w), Pid_Trun := p, Turn_Out := out,
     Turn_EndTargetLeft := fsub (f32_of_int 0) out, Turn_EndTargetRight := fadd (f32_of_int 0) out, ODR := o1, CCR := c,
     hal_log := h, motor_pwm_inited := b, Pid_Motor1Speed := p1, Pid_Motor2Speed := p2\<rparr>"
    by (rule steer_frame [OF e [unfolded v_def]])
  show "trun_ok (Pid_Trun (Car_Turn t w))" "Target (Pid_Trun (Car_Turn t w)) = t"
    "turns.more (Car_Turn t w) = turns.more w" "Yaw (Car_Turn t w) = Yaw w"
    "vl53 (Car_Turn t w) = vl53 w" "mystate (Car_Turn t w) = mystate w"
    using s by (simp_all add: f)
qed

lemma Car_Goline_step:
  assumes "loop_safe w" "trun_ok (Pid_Trun w)" "f32_mag 180 t" "f32_mag 180 (Yaw w)" "\<bar>n\<bar> \<le> 1000"
  shows "loop_safe (Car_Goline t n w)" "bridge_ok (Car_Goline t n w)" "trun_ok (Pid_Trun (Car_Goline t n w))"
    "turns.more (Car_Goline t n w) = turns.more w" "Yaw (Car_Goline t n w) = Yaw w"
    "vl53 (Car_Goline t n w) = vl53 w" "mystate (Car_Goline t n w) = mystate w"
proof -
  obtain out p where p: "PID_pOut ((Pid_Trun w)\<lparr>Target := t\<rparr>) (yaw_near t (Yaw w)) = (out, p)" by fastforce
  note s = trun_step [OF assms(2-4) p]
  define v where "v = w\<lparr>Yaw_Read := yaw_near t (Yaw w), Pid_Trun := p, Turn_Out := out,
    Turn_EndTargetLeft := fsub (f32_of_int n) out, Turn_EndTargetRight := fadd (f32_of_int n) out\<rparr>"
  have e: "Car_Goline t n w = Motor_PidTarget (fsub (f32_of_int n) out) (fadd (f32_of_int n) out) v"
    by (simp add: Car_Goline_def Let_def p v_def)
  have "loop_safe v" using assms(1) by (simp add: v_def loop_safe_def)
  from drive_targets_safe [OF this s(1) assms(5)]
  show "loop_safe (Car_Goline t n w)" "bridge_ok (Car_Goline t n w)" by (simp_all add: e)
  obtain o1 c h b p1 p2 where f: "Car_Goline t n w = w\<lparr>Yaw_Read := yaw_near t (Yaw w), Pid_Trun := p, Turn_Out := out,
     Turn_EndTargetLeft := fsub (f32_of_int n) out, Turn_EndTargetRight := fadd (f32_of_int n) out, ODR := o1, CCR := c,
     hal_log := h, motor_pwm_inited := b, Pid_Motor1Speed := p1, Pid_Motor2Speed := p2\<rparr>"
    by (rule steer_frame [OF e [unfolded v_def]])
  show "trun_ok (Pid_Trun (Car_Goline t n w))" "turns.more (Car_Goline t n w) = turns.more w"
    "Yaw (Car_Goline t n w) = Yaw w" "vl53 (Car_Goline t n w) = vl53 w" "mystate (Car_Goline t n w) = mystate w"
    using s by (simp_all add: f)
qed

definition turning :: "f32 \<Rightarrow> turns" where
  "turning y = (PID_Init turns0)\<lparr>Yaw := y\<rparr>"

theorem Car_Turn_short_way_witness:
  "\<exists>E r n. Error0 (Pid_Trun (Car_Turn (Fin 170) (turning (Fin (-170))))) = Fin E \<and>
    \<bar>E - (170 - - 170 - 360 * of_int (n :: int))\<bar> \<le> 1 / 32768 \<and> \<bar>E\<bar> \<le> 180 + 1 / 16384 \<and>
    Turn_Out (Car_Turn (Fin 170) (turning (Fin (-170)))) = Fin r \<and> \<bar>r - 5 * E\<bar> \<le> 1 / 32768 \<and> sgn r = sgn E \<and>
    Target (Pid_Motor1Speed (Car_Turn (Fin 170) (turning (Fin (-170))))) = Fin (- r) \<and>
    Target (Pid_Motor2Speed (Car_Turn (Fin 170) (turning (Fin (-170))))) = Fin r"
  by (rule Car_Turn_short_way) (simp_all add: turning_def PID_Init_def pid_init_def trun_ok_def)

text \<open>
  The limit of 200 that \<^verbatim>\<open>Car_Turn\<close> passes for the turning speed is not kept: half a
  turn away from the target the wheels are sent to 900.
\<close>

theorem Car_Turn_exceeds_limit:
  "Turn_Out (Car_Turn (Fin 180) (turning (Fin 0))) = Fin 900"
  by (simp add: Car_Turn_fields turning_def PID_Init_def pid_init_def PID_pOut_def pid_positional_def Let_def
      yaw_near_def fsub_def f32_round_rep)

end
