(* ===== verification/Queue_Contract.thy ===== *)
theory Queue_Contract
  imports Prelude
begin

text \<open>
  The contract of a bounded first-in first-out buffer as its users see it. The operations return
  an \<open>option\<close>: \<open>None\<close> is an access outside the storage, which a provider must exclude under its
  invariant. The client lemmas, for any provider, are proved here once.
\<close>

locale fifo_queue =
  fixes clear :: "'q \<Rightarrow> 'q"
    and enq :: "'a \<Rightarrow> 'q \<Rightarrow> 'q option"
    and deq :: "'q \<Rightarrow> ('a \<times> 'q) option"
    and is_empty :: "'q \<Rightarrow> bool"
    and len :: "'q \<Rightarrow> nat"
    and contents :: "'q \<Rightarrow> 'a list"
    and invar :: "'q \<Rightarrow> bool"
    and capacity :: nat
  assumes clear_ok: "invar q \<Longrightarrow> invar (clear q) \<and> contents (clear q) = []"
    and enq_ok: "\<lbrakk>invar q; length (contents q) < capacity\<rbrakk> \<Longrightarrow>
      \<exists>q'. enq x q = Some q' \<and> invar q' \<and> contents q' = contents q @ [x]"
    and deq_ok: "\<lbrakk>invar q; contents q = x # xs\<rbrakk> \<Longrightarrow>
      \<exists>q'. deq q = Some (x, q') \<and> invar q' \<and> contents q' = xs"
    and empty_ok: "invar q \<Longrightarrow> is_empty q = (contents q = [])"
    and len_ok: "invar q \<Longrightarrow> len q = length (contents q)"
    and capacity_bound: "invar q \<Longrightarrow> length (contents q) \<le> capacity"
begin

primrec enq_all :: "'a list \<Rightarrow> 'q \<Rightarrow> 'q option" where
  "enq_all [] q = Some q"
| "enq_all (x # xs) q = Option.bind (enq x q) (enq_all xs)"

primrec deq_n :: "nat \<Rightarrow> 'q \<Rightarrow> ('a list \<times> 'q) option" where
  "deq_n 0 q = Some ([], q)"
| "deq_n (Suc n) q = Option.bind (deq q) (\<lambda>(x, q').
     Option.bind (deq_n n q') (\<lambda>(xs, q''). Some (x # xs, q'')))"

lemma enq_all_ok:
  assumes "invar q" "length (contents q) + length xs \<le> capacity"
  shows "\<exists>q'. enq_all xs q = Some q' \<and> invar q' \<and> contents q' = contents q @ xs"
  using assms
proof (induction xs arbitrary: q)
  case (Cons x xs)
  then obtain q1 where q1: "enq x q = Some q1" "invar q1" "contents q1 = contents q @ [x]"
    using enq_ok [of q x] by auto
  with Cons.prems have "length (contents q1) + length xs \<le> capacity" by simp
  from Cons.IH [OF q1(2) this] q1 show ?case by auto
qed simp

lemma deq_n_ok:
  assumes "invar q" "contents q = xs @ ys"
  shows "\<exists>q'. deq_n (length xs) q = Some (xs, q') \<and> invar q' \<and> contents q' = ys"
  using assms
proof (induction xs arbitrary: q)
  case (Cons x xs)
  then obtain q1 where q1: "deq q = Some (x, q1)" "invar q1" "contents q1 = xs @ ys"
    using deq_ok [of q x "xs @ ys"] by auto
  from Cons.IH [OF q1(2,3)] q1 show ?case by auto
qed simp

text \<open>What goes in comes out, in order, whatever was queued before.\<close>

lemma enq_all_deq_n:
  assumes "invar q" "contents q = []" "length xs \<le> capacity"
  shows "\<exists>q1 q2. enq_all xs q = Some q1 \<and> len q1 = length xs \<and>
    deq_n (length xs) q1 = Some (xs, q2) \<and> is_empty q2"
proof -
  obtain q1 where q1: "enq_all xs q = Some q1" "invar q1" "contents q1 = xs @ []"
    using enq_all_ok [of q xs] assms by auto
  obtain q2 where "deq_n (length xs) q1 = Some (xs, q2)" "invar q2" "contents q2 = []"
    using deq_n_ok [OF q1(2,3)] by auto
  with q1 show ?thesis by (auto simp: len_ok empty_ok)
qed

lemma not_empty_deq: "\<lbrakk>invar q; \<not> is_empty q\<rbrakk> \<Longrightarrow> \<exists>x q'. deq q = Some (x, q') \<and> len q = Suc (len q')"
proof -
  assume q: "invar q" "\<not> is_empty q"
  then obtain x xs where "contents q = x # xs" by (cases "contents q") (auto simp: empty_ok)
  with deq_ok [OF q(1) this] q(1) show ?thesis by (auto simp: len_ok)
qed

end

end
