(* ===== verification/Rt_Serial.thy ===== *)
theory Rt_Serial
  imports Prelude Queue_Contract
begin

text \<open>
  The part of RT-Thread's device layer the drivers under \<^verbatim>\<open>Hardware/\<close> rest on: the generic device
  calls of \<^verbatim>\<open>rt-thread/src/device.c\<close> on a serial device, and that device's interrupt driven
  receive path and polled transmit path (\<^verbatim>\<open>rt-thread/components/drivers/serial/serial.c\<close>, built
  without \<^verbatim>\<open>RT_SERIAL_USING_DMA\<close>). The hardware is the list of bytes waiting in the receive
  register and the log of the bytes put out.
\<close>

subsection \<open>Constants of \<^verbatim>\<open>rtdef.h\<close> and \<^verbatim>\<open>rtconfig.h\<close>\<close>

type_synonym rt_err_t = int

definition RT_EOK :: rt_err_t where "RT_EOK = 0"
definition RT_ERROR :: rt_err_t where "RT_ERROR = 1"
definition RT_ENOSYS :: rt_err_t where "RT_ENOSYS = 6"
definition RT_EBUSY :: rt_err_t where "RT_EBUSY = 7"
definition RT_EIO :: rt_err_t where "RT_EIO = 8"

definition RT_DEVICE_FLAG_RDWR :: u16 where "RT_DEVICE_FLAG_RDWR = 0x003"
definition RT_DEVICE_FLAG_STANDALONE :: u16 where "RT_DEVICE_FLAG_STANDALONE = 0x008"
definition RT_DEVICE_FLAG_ACTIVATED :: u16 where "RT_DEVICE_FLAG_ACTIVATED = 0x010"
definition RT_DEVICE_FLAG_STREAM :: u16 where "RT_DEVICE_FLAG_STREAM = 0x040"
definition RT_DEVICE_FLAG_INT_RX :: u16 where "RT_DEVICE_FLAG_INT_RX = 0x100"
definition RT_DEVICE_FLAG_DMA_RX :: u16 where "RT_DEVICE_FLAG_DMA_RX = 0x200"
definition RT_DEVICE_FLAG_INT_TX :: u16 where "RT_DEVICE_FLAG_INT_TX = 0x400"
definition RT_DEVICE_FLAG_DMA_TX :: u16 where "RT_DEVICE_FLAG_DMA_TX = 0x800"
definition RT_DEVICE_OFLAG_RDWR :: u16 where "RT_DEVICE_OFLAG_RDWR = 0x003"
definition RT_DEVICE_OFLAG_OPEN :: u16 where "RT_DEVICE_OFLAG_OPEN = 0x008"

lemmas rt_consts = RT_EOK_def RT_ERROR_def RT_ENOSYS_def RT_EBUSY_def RT_EIO_def
  RT_DEVICE_FLAG_RDWR_def RT_DEVICE_FLAG_STANDALONE_def RT_DEVICE_FLAG_ACTIVATED_def
  RT_DEVICE_FLAG_STREAM_def RT_DEVICE_FLAG_INT_RX_def RT_DEVICE_FLAG_DMA_RX_def
  RT_DEVICE_FLAG_INT_TX_def RT_DEVICE_FLAG_DMA_TX_def RT_DEVICE_OFLAG_RDWR_def
  RT_DEVICE_OFLAG_OPEN_def

text \<open>\<^verbatim>\<open>flags & mask\<close> used as a truth value.\<close>

definition has :: "u16 \<Rightarrow> u16 \<Rightarrow> bool" where
  "has w m = (w AND m \<noteq> 0)"

definition RT_SERIAL_RB_BUFSZ :: nat where "RT_SERIAL_RB_BUFSZ = 64"

subsection \<open>The receive ring\<close>

record rt_serial_rx_fifo =
  rbuf :: bytes
  put_index :: u16
  get_index :: u16
  is_full :: bool

definition rx_fifo_new :: rt_serial_rx_fifo where
  "rx_fifo_new = \<lparr>rbuf = replicate RT_SERIAL_RB_BUFSZ 0, put_index = 0, get_index = 0, is_full = False\<rparr>"

definition wrap_index :: "u16 \<Rightarrow> u16" where
  "wrap_index i = (if RT_SERIAL_RB_BUFSZ \<le> unat i then 0 else i)"

text \<open>One character of the receive interrupt: store it, and drop the oldest one when full.\<close>

definition rx_fifo_put :: "u8 \<Rightarrow> rt_serial_rx_fifo \<Rightarrow> rt_serial_rx_fifo option" where
  "rx_fifo_put ch f =
     Option.bind (wr (rbuf f) (unat (put_index f)) ch) (\<lambda>b.
       let p = wrap_index (put_index f + 1); f1 = f\<lparr>rbuf := b, put_index := p\<rparr> in
       Some (if p = get_index f
             then f1\<lparr>get_index := wrap_index (get_index f + 1), is_full := True\<rparr>
             else f1))"

definition rx_fifo_nodata :: "rt_serial_rx_fifo \<Rightarrow> bool" where
  "rx_fifo_nodata f = (get_index f = put_index f \<and> \<not> is_full f)"

definition rx_fifo_get :: "rt_serial_rx_fifo \<Rightarrow> (u8 \<times> rt_serial_rx_fifo) option" where
  "rx_fifo_get f =
     Option.bind (rd (rbuf f) (unat (get_index f))) (\<lambda>ch.
       Some (ch, f\<lparr>get_index := wrap_index (get_index f + 1), is_full := False\<rparr>))"

text \<open>\<^verbatim>\<open>_serial_int_rx\<close>: at most \<open>n\<close> characters, stopping when there is no data.\<close>

fun serial_int_rx :: "nat \<Rightarrow> rt_serial_rx_fifo \<Rightarrow> (bytes \<times> rt_serial_rx_fifo) option" where
  "serial_int_rx 0 f = Some ([], f)"
| "serial_int_rx (Suc n) f =
     (if rx_fifo_nodata f then Some ([], f)
      else Option.bind (rx_fifo_get f) (\<lambda>(ch, f1).
        Option.bind (serial_int_rx n f1) (\<lambda>(cs, f2). Some (ch # cs, f2))))"

text \<open>The receive branch of \<^verbatim>\<open>rt_hw_serial_isr\<close>: every waiting character, and the length reported.\<close>

fun serial_isr_rx :: "bytes \<Rightarrow> rt_serial_rx_fifo \<Rightarrow> rt_serial_rx_fifo option" where
  "serial_isr_rx [] f = Some f"
| "serial_isr_rx (ch # cs) f = Option.bind (rx_fifo_put ch f) (serial_isr_rx cs)"

definition isr_rx_length :: "rt_serial_rx_fifo \<Rightarrow> nat" where
  "isr_rx_length f =
     (if get_index f \<le> put_index f then unat (put_index f) - unat (get_index f)
      else RT_SERIAL_RB_BUFSZ - (unat (get_index f) - unat (put_index f)))"

subsection \<open>The ring as a queue\<close>

definition rx_fifo_wf :: "rt_serial_rx_fifo \<Rightarrow> bool" where
  "rx_fifo_wf f \<longleftrightarrow> length (rbuf f) = RT_SERIAL_RB_BUFSZ \<and>
     unat (put_index f) < RT_SERIAL_RB_BUFSZ \<and> unat (get_index f) < RT_SERIAL_RB_BUFSZ \<and>
     (is_full f \<longrightarrow> get_index f \<noteq> put_index f)"

definition rx_fifo_list :: "rt_serial_rx_fifo \<Rightarrow> bytes" where
  "rx_fifo_list f =
     map (\<lambda>i. rbuf f ! ((unat (get_index f) + i) mod RT_SERIAL_RB_BUFSZ)) [0..<isr_rx_length f]"

definition rx_fifo_clear :: "rt_serial_rx_fifo \<Rightarrow> rt_serial_rx_fifo" where
  "rx_fifo_clear f = rx_fifo_new"

lemma length_rx_fifo_list [simp]: "length (rx_fifo_list f) = isr_rx_length f"
  by (simp add: rx_fifo_list_def)

lemma unat_wrap_index:
  "unat i < RT_SERIAL_RB_BUFSZ \<Longrightarrow> unat (wrap_index (i + 1)) = (unat i + 1) mod RT_SERIAL_RB_BUFSZ"
  by (cases "unat i = 63") (auto simp: wrap_index_def RT_SERIAL_RB_BUFSZ_def unat_word_ariths)

lemma isr_rx_length_less: "rx_fifo_wf f \<Longrightarrow> isr_rx_length f < 64"
  by (auto simp: isr_rx_length_def rx_fifo_wf_def RT_SERIAL_RB_BUFSZ_def word_le_nat_alt)

lemma isr_rx_length_0: "rx_fifo_wf f \<Longrightarrow> (isr_rx_length f = 0) = (get_index f = put_index f)"
  by (auto simp: isr_rx_length_def rx_fifo_wf_def RT_SERIAL_RB_BUFSZ_def word_le_nat_alt
      word_unat_eq_iff)

lemma rx_fifo_put_list:
  assumes wf: "rx_fifo_wf f"
  shows "\<exists>f'. rx_fifo_put ch f = Some f' \<and> rx_fifo_wf f' \<and>
    rx_fifo_list f' = (if isr_rx_length f < 63 then rx_fifo_list f @ [ch] else tl (rx_fifo_list f) @ [ch])"
proof -
  have b: "length (rbuf f) = 64" "unat (put_index f) < 64" "unat (get_index f) < 64"
    using wf by (auto simp: rx_fifo_wf_def RT_SERIAL_RB_BUFSZ_def)
  define p where "p = wrap_index (put_index f + 1)"
  define g where "g = wrap_index (get_index f + 1)"
  have p: "unat p = (unat (put_index f) + 1) mod 64" and g: "unat g = (unat (get_index f) + 1) mod 64"
    using b unat_wrap_index by (simp_all add: p_def g_def RT_SERIAL_RB_BUFSZ_def)
  define f1 where "f1 = f\<lparr>rbuf := (rbuf f)[unat (put_index f) := ch], put_index := p\<rparr>"
  define f2 where "f2 = f1\<lparr>get_index := g, is_full := True\<rparr>"
  have put: "rx_fifo_put ch f = Some (if p = get_index f then f2 else f1)"
    using b by (simp add: rx_fifo_put_def arr_simps Let_def f1_def f2_def p_def g_def)
  have at: "(unat (get_index f) + isr_rx_length f) mod 64 = unat (put_index f)"
    using b by (auto simp: isr_rx_length_def RT_SERIAL_RB_BUFSZ_def word_le_nat_alt)
  have before: "unat (put_index f) \<noteq> (unat (get_index f) + i) mod 64" if "i < isr_rx_length f" for i
    using that b isr_rx_length_less [OF wf]
    by (auto simp: isr_rx_length_def RT_SERIAL_RB_BUFSZ_def word_le_nat_alt mod_if split: if_splits)
  show ?thesis
  proof (cases "p = get_index f")
    case False
    then have ne: "unat p \<noteq> unat (get_index f)" by (simp add: word_unat_eq_iff)
    then have len: "isr_rx_length f1 = Suc (isr_rx_length f)" and lt: "isr_rx_length f < 63"
      using b p by (auto simp: isr_rx_length_def f1_def RT_SERIAL_RB_BUFSZ_def word_le_nat_alt mod_Suc
          split: if_splits)
    have "rx_fifo_list f1 = rx_fifo_list f @ [ch]"
      using b at before
      by (auto simp: rx_fifo_list_def len RT_SERIAL_RB_BUFSZ_def nth_list_update_neq)
        (auto simp: f1_def)
    moreover have "rx_fifo_wf f1"
      using wf False b p by (auto simp: rx_fifo_wf_def f1_def RT_SERIAL_RB_BUFSZ_def)
    ultimately show ?thesis using False lt put by simp
  next
    case True
    then have eq: "unat (get_index f) = (unat (put_index f) + 1) mod 64" using p by simp
    have len: "isr_rx_length f = 63" "isr_rx_length f2 = 63"
      using b p g eq True
      by (auto simp: isr_rx_length_def f1_def f2_def RT_SERIAL_RB_BUFSZ_def word_le_nat_alt mod_Suc
          split: if_splits)
    have "rx_fifo_list f2 = tl (rx_fifo_list f) @ [ch]"
    proof (rule nth_equalityI)
      show "length (rx_fifo_list f2) = length (tl (rx_fifo_list f) @ [ch])" using len by simp
    next
      fix i assume "i < length (rx_fifo_list f2)"
      then have i: "i < 63" using len by simp
      have "rx_fifo_list f2 ! i = (rbuf f)[unat (put_index f) := ch] ! ((unat g + i) mod 64)"
        using i len by (simp add: rx_fifo_list_def f2_def f1_def RT_SERIAL_RB_BUFSZ_def)
      also have "(unat g + i) mod 64 = (unat (get_index f) + Suc i) mod 64"
        using g by (simp add: mod_simps)
      also have "(rbuf f)[unat (put_index f) := ch] ! ((unat (get_index f) + Suc i) mod 64) =
          (tl (rx_fifo_list f) @ [ch]) ! i"
      proof (cases "i < 62")
        case True
        then show ?thesis using before [of "Suc i"] len
          by (simp add: nth_append nth_tl nth_list_update_neq)
            (simp add: rx_fifo_list_def RT_SERIAL_RB_BUFSZ_def)
      next
        case False
        with i have "i = 62" by simp
        then show ?thesis using at len b by (simp add: nth_append)
      qed
      finally show "rx_fifo_list f2 ! i = (tl (rx_fifo_list f) @ [ch]) ! i" .
    qed
    moreover have "rx_fifo_wf f2"
      using wf True b p g eq
      by (auto simp: rx_fifo_wf_def f1_def f2_def RT_SERIAL_RB_BUFSZ_def word_unat_eq_iff mod_Suc
          split: if_splits)
    ultimately show ?thesis using True len put by simp
  qed
qed

lemma rx_fifo_get_list:
  assumes wf: "rx_fifo_wf f" and l: "rx_fifo_list f = x # xs"
  shows "\<exists>f'. rx_fifo_get f = Some (x, f') \<and> rx_fifo_wf f' \<and> rx_fifo_list f' = xs"
proof -
  have b: "length (rbuf f) = 64" "unat (put_index f) < 64" "unat (get_index f) < 64"
    using wf by (auto simp: rx_fifo_wf_def RT_SERIAL_RB_BUFSZ_def)
  define g where "g = wrap_index (get_index f + 1)"
  have g: "unat g = (unat (get_index f) + 1) mod 64"
    using b unat_wrap_index by (simp add: g_def RT_SERIAL_RB_BUFSZ_def)
  define f' where "f' = f\<lparr>get_index := g, is_full := False\<rparr>"
  have get: "rx_fifo_get f = Some (rbuf f ! unat (get_index f), f')"
    using b by (simp add: rx_fifo_get_def arr_simps f'_def g_def)
  have "0 < isr_rx_length f" using l length_rx_fifo_list [of f] by simp
  then have len: "isr_rx_length f = Suc (isr_rx_length f')"
    using b g by (auto simp: isr_rx_length_def f'_def RT_SERIAL_RB_BUFSZ_def word_le_nat_alt mod_Suc
        split: if_splits)
  have "rx_fifo_list f = rbuf f ! unat (get_index f) # rx_fifo_list f'"
    using b g unfolding rx_fifo_list_def len
    by (simp add: upt_conv_Cons map_Suc_upt [symmetric] f'_def RT_SERIAL_RB_BUFSZ_def mod_simps
        del: upt_Suc)
  moreover have "rx_fifo_wf f'"
    using wf b g by (simp add: rx_fifo_wf_def f'_def RT_SERIAL_RB_BUFSZ_def)
  ultimately show ?thesis using l get by simp
qed

lemma rx_fifo_nodata_iff: "rx_fifo_wf f \<Longrightarrow> rx_fifo_nodata f = (rx_fifo_list f = [])"
  using isr_rx_length_0 [of f]
  by (auto simp: rx_fifo_nodata_def rx_fifo_wf_def simp flip: length_0_conv)

interpretation rxq: fifo_queue rx_fifo_clear rx_fifo_put rx_fifo_get rx_fifo_nodata isr_rx_length
  rx_fifo_list rx_fifo_wf 63
proof
  fix q :: rt_serial_rx_fifo and x y :: u8 and xs
  assume q: "rx_fifo_wf q"
  show "rx_fifo_wf (rx_fifo_clear q) \<and> rx_fifo_list (rx_fifo_clear q) = []"
    by (simp add: rx_fifo_wf_def rx_fifo_clear_def rx_fifo_new_def rx_fifo_list_def
        isr_rx_length_def RT_SERIAL_RB_BUFSZ_def)
  show "rx_fifo_nodata q = (rx_fifo_list q = [])" by (rule rx_fifo_nodata_iff [OF q])
  show "isr_rx_length q = length (rx_fifo_list q)" by simp
  show "length (rx_fifo_list q) \<le> 63" using isr_rx_length_less [OF q] by simp
  show "\<exists>q'. rx_fifo_put x q = Some q' \<and> rx_fifo_wf q' \<and> rx_fifo_list q' = rx_fifo_list q @ [x]"
    if "length (rx_fifo_list q) < 63"
    using rx_fifo_put_list [OF q, of x] that by simp
  show "\<exists>q'. rx_fifo_get q = Some (y, q') \<and> rx_fifo_wf q' \<and> rx_fifo_list q' = xs"
    if "rx_fifo_list q = y # xs"
    by (rule rx_fifo_get_list [OF q that])
qed

text \<open>A read returns the oldest characters, as many as asked for and available.\<close>

lemma serial_int_rx_list:
  "rx_fifo_wf f \<Longrightarrow> \<exists>f'. serial_int_rx n f = Some (take n (rx_fifo_list f), f') \<and>
     rx_fifo_wf f' \<and> rx_fifo_list f' = drop n (rx_fifo_list f)"
proof (induction n arbitrary: f)
  case (Suc n)
  show ?case
  proof (cases "rx_fifo_list f")
    case Nil
    then show ?thesis using Suc.prems by (simp add: rx_fifo_nodata_iff)
  next
    case (Cons x xs)
    obtain f1 where f1: "rx_fifo_get f = Some (x, f1)" "rx_fifo_wf f1" "rx_fifo_list f1 = xs"
      using rx_fifo_get_list [OF Suc.prems Cons] by blast
    obtain f2 where "serial_int_rx n f1 = Some (take n xs, f2)" "rx_fifo_wf f2"
      "rx_fifo_list f2 = drop n xs"
      using Suc.IH [OF f1(2)] f1(3) by auto
    then show ?thesis using f1 Cons Suc.prems by (simp add: rx_fifo_nodata_iff)
  qed
qed simp

text \<open>The interrupt keeps the newest 63 characters.\<close>

definition newest :: "nat \<Rightarrow> 'a list \<Rightarrow> 'a list" where
  "newest n xs = drop (length xs - n) xs"

lemma serial_isr_rx_list:
  "rx_fifo_wf f \<Longrightarrow> \<exists>f'. serial_isr_rx cs f = Some f' \<and> rx_fifo_wf f' \<and>
     rx_fifo_list f' = newest 63 (rx_fifo_list f @ cs)"
proof (induction cs arbitrary: f)
  case Nil
  then show ?case using isr_rx_length_less [OF Nil] by (simp add: newest_def)
next
  case (Cons c cs)
  obtain f1 where f1: "rx_fifo_put c f = Some f1" "rx_fifo_wf f1"
    "rx_fifo_list f1 = (if isr_rx_length f < 63 then rx_fifo_list f @ [c] else tl (rx_fifo_list f) @ [c])"
    using rx_fifo_put_list [OF Cons.prems] by blast
  have len: "length (rx_fifo_list f) \<le> 63" using isr_rx_length_less [OF Cons.prems] by simp
  have "newest 63 (rx_fifo_list f1 @ cs) = newest 63 (rx_fifo_list f @ c # cs)"
  proof (cases "isr_rx_length f < 63")
    case True
    then show ?thesis using f1(3) by simp
  next
    case False
    then have "length (rx_fifo_list f) = 63" using len by simp
    then obtain x xs where "rx_fifo_list f = x # xs" "length xs = 62" by (cases "rx_fifo_list f") auto
    then show ?thesis using f1(3) False by (simp add: newest_def Suc_diff_le)
  qed
  with Cons.IH [OF f1(2)] f1(1) show ?case by auto
qed

end
