(* ===== verification/Rt_Device.thy ===== *)
theory Rt_Device
  imports Rt_Serial
begin

text \<open>
  The generic device calls of \<^verbatim>\<open>rt-thread/src/device.c\<close> on a serial device, and the kernel state the
  UART drivers see: the registered devices, the heap (which decides whether a thread can be
  created) and the threads started.
\<close>

record rt_serial =
  dflag :: u16
  open_flag :: u16
  ref_count :: u8
  serial_rx :: "rt_serial_rx_fifo option"
  serial_tx :: bool
  rx_indicate :: "string option"
  configure_result :: rt_err_t
  baud_rate :: u32
  hw_rx :: bytes
  hw_tx :: bytes

text \<open>\<^verbatim>\<open>rt_serial_init\<close>\<close>

definition rt_serial_init :: "rt_serial \<Rightarrow> rt_err_t \<times> rt_serial" where
  "rt_serial_init d = (configure_result d, d\<lparr>serial_rx := None, serial_tx := False\<rparr>)"

text \<open>\<^verbatim>\<open>rt_serial_open\<close> (without \<^verbatim>\<open>RT_SERIAL_USING_DMA\<close>; the allocations are asserted to succeed)\<close>

definition rt_serial_open :: "rt_serial \<Rightarrow> u16 \<Rightarrow> rt_err_t \<times> rt_serial" where
  "rt_serial_open d oflag =
    (if has oflag RT_DEVICE_FLAG_DMA_RX \<and> \<not> has (dflag d) RT_DEVICE_FLAG_DMA_RX then (- RT_EIO, d)
     else if has oflag RT_DEVICE_FLAG_DMA_TX \<and> \<not> has (dflag d) RT_DEVICE_FLAG_DMA_TX then (- RT_EIO, d)
     else if has oflag RT_DEVICE_FLAG_INT_RX \<and> \<not> has (dflag d) RT_DEVICE_FLAG_INT_RX then (- RT_EIO, d)
     else if has oflag RT_DEVICE_FLAG_INT_TX \<and> \<not> has (dflag d) RT_DEVICE_FLAG_INT_TX then (- RT_EIO, d)
     else
       let stream_flag = (if has oflag RT_DEVICE_FLAG_STREAM \<or> has (open_flag d) RT_DEVICE_FLAG_STREAM
                          then RT_DEVICE_FLAG_STREAM else 0);
           f1 = oflag AND 0xff;
           f2 = (if has oflag RT_DEVICE_FLAG_INT_RX then f1 OR RT_DEVICE_FLAG_INT_RX else f1);
           rx = (case serial_rx d of
                   None \<Rightarrow> if has oflag RT_DEVICE_FLAG_INT_RX then Some rx_fifo_new else None
                 | Some f \<Rightarrow> Some f);
           f3 = (if has oflag RT_DEVICE_FLAG_INT_TX then f2 OR RT_DEVICE_FLAG_INT_TX else f2);
           tx = (serial_tx d \<or> has oflag RT_DEVICE_FLAG_INT_TX)
       in (RT_EOK, d\<lparr>open_flag := f3 OR stream_flag, serial_rx := rx, serial_tx := tx\<rparr>))"

definition rt_device_open :: "rt_serial \<Rightarrow> u16 \<Rightarrow> rt_err_t \<times> rt_serial" where
  "rt_device_open d oflag =
    (let (r0, d0) = (if has (dflag d) RT_DEVICE_FLAG_ACTIVATED then (RT_EOK, d)
                     else let (r, d') = rt_serial_init d in
                       if r \<noteq> RT_EOK then (r, d')
                       else (r, d'\<lparr>dflag := dflag d' OR RT_DEVICE_FLAG_ACTIVATED\<rparr>)) in
     if r0 \<noteq> RT_EOK then (r0, d0)
     else if has (dflag d0) RT_DEVICE_FLAG_STANDALONE \<and> has (open_flag d0) RT_DEVICE_OFLAG_OPEN
     then (- RT_EBUSY, d0)
     else let (r1, d1) = rt_serial_open d0 oflag in
       if r1 = RT_EOK \<or> r1 = - RT_ENOSYS
       then (r1, d1\<lparr>open_flag := open_flag d1 OR RT_DEVICE_OFLAG_OPEN, ref_count := ref_count d1 + 1\<rparr>)
       else (r1, d1))"

text \<open>\<^verbatim>\<open>rt_device_close\<close> through \<^verbatim>\<open>rt_serial_close\<close>: the last user gives the ring back (\<open>None\<close>: the ring is missing).\<close>

definition rt_serial_close :: "rt_serial \<Rightarrow> rt_serial option" where
  "rt_serial_close d =
    (if 1 < ref_count d then Some d
     else if has (open_flag d) RT_DEVICE_FLAG_INT_RX \<and> serial_rx d = None then None
     else let d = (if has (open_flag d) RT_DEVICE_FLAG_INT_RX
                   then d\<lparr>serial_rx := None, open_flag := open_flag d AND NOT RT_DEVICE_FLAG_INT_RX\<rparr> else d)
       in if \<not> has (open_flag d) RT_DEVICE_FLAG_INT_TX then Some d
          else if \<not> serial_tx d then None
          else Some (d\<lparr>serial_tx := False, open_flag := open_flag d AND NOT RT_DEVICE_FLAG_INT_TX\<rparr>))"

definition rt_device_close :: "rt_serial \<Rightarrow> (rt_err_t \<times> rt_serial) option" where
  "rt_device_close d =
    (if ref_count d = 0 then Some (- RT_ERROR, d)
     else if ref_count d - 1 \<noteq> 0 then Some (RT_EOK, d\<lparr>ref_count := ref_count d - 1\<rparr>)
     else Option.bind (rt_serial_close (d\<lparr>ref_count := ref_count d - 1\<rparr>)) (\<lambda>d. Some (RT_EOK, d\<lparr>open_flag := 0\<rparr>)))"

text \<open>\<^verbatim>\<open>_serial_poll_tx\<close>: a carriage return before each line feed in stream mode.\<close>

fun serial_poll_tx :: "bool \<Rightarrow> bytes \<Rightarrow> bytes" where
  "serial_poll_tx stream [] = []"
| "serial_poll_tx stream (c # cs) =
     (if c = 0x0A \<and> stream then [0x0D, c] else [c]) @ serial_poll_tx stream cs"

text \<open>
  \<^verbatim>\<open>rt_device_write\<close> through \<^verbatim>\<open>rt_serial_write\<close>. The interrupt driven and the polled transmit paths put
  the same characters out in the same order.
\<close>

definition rt_device_write :: "rt_serial \<Rightarrow> bytes \<Rightarrow> nat \<times> rt_serial" where
  "rt_device_write d cs =
    (if ref_count d = 0 then (0, d)
     else (length cs,
       d\<lparr>hw_tx := hw_tx d @ serial_poll_tx (has (open_flag d) RT_DEVICE_FLAG_STREAM) cs\<rparr>))"

text \<open>
  \<^verbatim>\<open>rt_device_read\<close> through \<^verbatim>\<open>rt_serial_read\<close>: from the ring when the device was opened for interrupt
  receive, else by polling the receive register until it is empty (or a line feed in stream mode).
\<close>

fun serial_poll_rx :: "bool \<Rightarrow> nat \<Rightarrow> bytes \<Rightarrow> bytes \<times> bytes" where
  "serial_poll_rx stream 0 hw = ([], hw)"
| "serial_poll_rx stream (Suc n) [] = ([], [])"
| "serial_poll_rx stream (Suc n) (c # hw) =
     (if stream \<and> c = 0x0A then ([c], hw)
      else let (cs, hw') = serial_poll_rx stream n hw in (c # cs, hw'))"

definition rt_device_read :: "rt_serial \<Rightarrow> nat \<Rightarrow> (bytes \<times> rt_serial) option" where
  "rt_device_read d n =
    (if ref_count d = 0 then Some ([], d)
     else if has (open_flag d) RT_DEVICE_FLAG_INT_RX
     then Option.bind (serial_rx d) (\<lambda>f.
       Option.bind (serial_int_rx n f) (\<lambda>(cs, f'). Some (cs, d\<lparr>serial_rx := Some f'\<rparr>)))
     else let (cs, hw) = serial_poll_rx (has (open_flag d) RT_DEVICE_FLAG_STREAM) n (hw_rx d)
       in Some (cs, d\<lparr>hw_rx := hw\<rparr>))"

text \<open>
  The receive event of \<^verbatim>\<open>rt_hw_serial_isr\<close>: the waiting characters go to the ring, and the callback
  to invoke, if any, is returned with the length it is told.
\<close>

definition rt_hw_serial_isr_rx :: "rt_serial \<Rightarrow> ((string \<times> nat) option \<times> rt_serial) option" where
  "rt_hw_serial_isr_rx d =
    Option.bind (serial_rx d) (\<lambda>f.
      Option.bind (serial_isr_rx (hw_rx d) f) (\<lambda>f'.
        let n = isr_rx_length f' in
        Some (case rx_indicate d of
                None \<Rightarrow> None
              | Some cb \<Rightarrow> if n \<noteq> 0 then Some (cb, n) else None,
              d\<lparr>serial_rx := Some f', hw_rx := []\<rparr>)))"

definition rt_device_set_rx_indicate :: "rt_serial \<Rightarrow> string \<Rightarrow> rt_serial" where
  "rt_device_set_rx_indicate d cb = d\<lparr>rx_indicate := Some cb\<rparr>"

subsection \<open>The kernel as the drivers see it\<close>

text \<open>
  \<open>console_device\<close> is \<^verbatim>\<open>_console_device\<close> of \<^verbatim>\<open>kservice.c\<close> and \<open>shell\<close> the part of \<^verbatim>\<open>struct finsh_shell\<close> the
  devices see (\<open>None\<close> before \<^verbatim>\<open>finsh_system_init\<close>); \<open>delays\<close> lists the sleeps the drivers asked for, in
  milliseconds.
\<close>

record finsh_shell =
  sh_device :: "string option"
  sh_rx_sem :: u16

record rtk =
  devs :: "string \<rightharpoonup> rt_serial"
  heap_ok :: bool
  threads :: "string list"
  console_device :: "string option"
  shell :: "finsh_shell option"
  delays :: "nat list"

definition rt_device_find :: "rtk \<Rightarrow> string \<Rightarrow> string option" where
  "rt_device_find k name = (if devs k name = None then None else Some name)"

text \<open>A thread object is created when the heap can hold it; \<^verbatim>\<open>rt_thread_startup\<close> makes it run.\<close>

definition rt_thread_create :: "rtk \<Rightarrow> string \<Rightarrow> string option" where
  "rt_thread_create k name = (if heap_ok k then Some name else None)"

definition rt_thread_startup :: "string \<Rightarrow> rtk \<Rightarrow> rtk" where
  "rt_thread_startup name k = k\<lparr>threads := threads k @ [name]\<rparr>"

text \<open>\<^verbatim>\<open>rt_thread_mdelay\<close> called by a driver.\<close>

definition driver_mdelay :: "nat \<Rightarrow> rtk \<Rightarrow> rtk" where
  "driver_mdelay ms k = k\<lparr>delays := delays k @ [ms]\<rparr>"

definition rt_sem_release :: "u16 \<Rightarrow> u16" where
  "rt_sem_release v = (if unat v < 65535 then v + 1 else v)"

subsection \<open>Facts\<close>

lemma has_simps [simp]:
  "has RT_DEVICE_OFLAG_RDWR RT_DEVICE_FLAG_INT_RX = False"
  "has RT_DEVICE_OFLAG_RDWR RT_DEVICE_FLAG_INT_TX = False"
  "has RT_DEVICE_OFLAG_RDWR RT_DEVICE_FLAG_DMA_RX = False"
  "has RT_DEVICE_OFLAG_RDWR RT_DEVICE_FLAG_DMA_TX = False"
  "has RT_DEVICE_OFLAG_RDWR RT_DEVICE_FLAG_STREAM = False"
  "has (RT_DEVICE_OFLAG_RDWR OR RT_DEVICE_FLAG_INT_RX) RT_DEVICE_FLAG_INT_RX = True"
  "has (RT_DEVICE_OFLAG_RDWR OR RT_DEVICE_FLAG_INT_RX) RT_DEVICE_FLAG_INT_TX = False"
  "has (RT_DEVICE_OFLAG_RDWR OR RT_DEVICE_FLAG_INT_RX) RT_DEVICE_FLAG_DMA_RX = False"
  "has (RT_DEVICE_OFLAG_RDWR OR RT_DEVICE_FLAG_INT_RX) RT_DEVICE_FLAG_DMA_TX = False"
  "has (RT_DEVICE_OFLAG_RDWR OR RT_DEVICE_FLAG_INT_RX) RT_DEVICE_FLAG_STREAM = False"
  by (simp_all add: has_def rt_consts)

lemma has_or [simp]: "has (a OR m) m \<longleftrightarrow> m \<noteq> 0"
proof -
  have "(a OR m) AND m = m" by (rule bit_word_eqI) (auto simp: bit_simps)
  then show ?thesis by (simp add: has_def)
qed

lemma serial_poll_tx_raw [simp]: "serial_poll_tx False cs = cs"
  by (induction cs) auto

text \<open>An opened device keeps its ring well formed, and a write appends to what was sent.\<close>

definition serial_wf :: "rt_serial \<Rightarrow> bool" where
  "serial_wf d \<longleftrightarrow> (\<forall>f. serial_rx d = Some f \<longrightarrow> rx_fifo_wf f) \<and>
     (has (open_flag d) RT_DEVICE_FLAG_INT_RX \<and> ref_count d \<noteq> 0 \<longrightarrow> serial_rx d \<noteq> None)"

lemma rx_fifo_new_wf [simp]: "rx_fifo_wf rx_fifo_new"
  by (simp add: rx_fifo_wf_def rx_fifo_new_def RT_SERIAL_RB_BUFSZ_def)

lemma rt_device_write_tx:
  "snd (rt_device_write d cs) = (if ref_count d = 0 then d else
     d\<lparr>hw_tx := hw_tx d @ serial_poll_tx (has (open_flag d) RT_DEVICE_FLAG_STREAM) cs\<rparr>)"
  by (simp add: rt_device_write_def)

text \<open>
  Reading a device opened for interrupt receive never faults and returns at most 63 characters,
  the oldest ones in the ring.
\<close>

lemma rt_device_read_ring:
  assumes "serial_wf d" "serial_rx d = Some f" "ref_count d \<noteq> 0" "has (open_flag d) RT_DEVICE_FLAG_INT_RX"
  shows "\<exists>f'. rt_device_read d n = Some (take n (rx_fifo_list f), d\<lparr>serial_rx := Some f'\<rparr>) \<and>
    rx_fifo_wf f' \<and> rx_fifo_list f' = drop n (rx_fifo_list f)"
proof -
  have "rx_fifo_wf f" using assms(1,2) by (simp add: serial_wf_def)
  with serial_int_rx_list [OF this, of n] assms(2-4) show ?thesis
    by (auto simp: rt_device_read_def)
qed

text \<open>
  The receive path end to end: what the interrupt stored is what the next read hands out,
  complete and in order, as long as no more than 63 characters wait.
\<close>

lemma isr_then_read:
  assumes "serial_wf d" "serial_rx d = Some f" "ref_count d \<noteq> 0"
    "has (open_flag d) RT_DEVICE_FLAG_INT_RX"
    "length (rx_fifo_list f) + length (hw_rx d) \<le> 63" "63 \<le> n"
  shows "\<exists>cb d' d''. rt_hw_serial_isr_rx d = Some (cb, d') \<and>
    rt_device_read d' n = Some (rx_fifo_list f @ hw_rx d, d'')"
proof -
  have wf: "rx_fifo_wf f" using assms(1,2) by (simp add: serial_wf_def)
  obtain f' where f': "serial_isr_rx (hw_rx d) f = Some f'" "rx_fifo_wf f'"
    "rx_fifo_list f' = newest 63 (rx_fifo_list f @ hw_rx d)"
    using serial_isr_rx_list [OF wf] by blast
  then have l: "rx_fifo_list f' = rx_fifo_list f @ hw_rx d" using assms(5) by (simp add: newest_def)
  define d' where "d' = d\<lparr>serial_rx := Some f', hw_rx := []\<rparr>"
  have isr: "\<exists>cb. rt_hw_serial_isr_rx d = Some (cb, d')"
    using assms(2) f'(1) by (simp add: rt_hw_serial_isr_rx_def d'_def Let_def)
  have "serial_wf d'" using f'(2) by (simp add: serial_wf_def d'_def)
  then obtain d'' where "rt_device_read d' n = Some (take n (rx_fifo_list f'), d'')"
    using rt_device_read_ring [of d' f' n] assms(3,4) by (auto simp: d'_def)
  moreover have "take n (rx_fifo_list f') = rx_fifo_list f @ hw_rx d"
    using l assms(5,6) by simp
  ultimately show ?thesis using isr by auto
qed

end
