(* ===== verification/Uart_Port.thy ===== *)
theory Uart_Port
  imports Prelude Rt_Device
begin

text \<open>
  What the UART drivers \<^verbatim>\<open>Hardware/usart1_port.c\<close>, \<^verbatim>\<open>usart2_port.c\<close>, \<^verbatim>\<open>uart4_port.c\<close>,
  \<^verbatim>\<open>uart5_port.c\<close> and \<^verbatim>\<open>usart6_port.c\<close> have in common: the same text up to the names. The per-port
  theories instantiate these definitions with the device, callback and thread names and with their
  own parser.

  Counters that the code keeps in a \<^verbatim>\<open>uint16_t\<close> and that never exceed 400 are natural numbers here.
  A data pointer with its size is the list of the bytes it points to; \<open>None\<close> is \<^verbatim>\<open>RT_NULL\<close>.
\<close>

definition MAX_LEN :: nat where "MAX_LEN = 400"
definition TX_LEN :: nat where "TX_LEN = 200"

record uart_port =
  port_dev :: "string option"
  rx_sem :: u16
  rx_sem_inited :: bool
  rx_thread :: "string option"
  BufferA :: bytes
  BufferB :: bytes
  ActiveBuffer :: u8
  RX_BUF :: bytes
  rx_len :: u8
  parse_buf :: bytes
  parse_len :: nat

definition uart_port0 :: uart_port where
  "uart_port0 = \<lparr>port_dev = None, rx_sem = 0, rx_sem_inited = False, rx_thread = None,
     BufferA = replicate TX_LEN 0, BufferB = replicate TX_LEN 0, ActiveBuffer = 0,
     RX_BUF = replicate MAX_LEN 0, rx_len = 0, parse_buf = replicate MAX_LEN 0, parse_len = 0\<rparr>"

definition uart_port_wf :: "uart_port \<Rightarrow> bool" where
  "uart_port_wf p \<longleftrightarrow> length (BufferA p) = TX_LEN \<and> length (BufferB p) = TX_LEN \<and>
     length (RX_BUF p) = MAX_LEN \<and> length (parse_buf p) = MAX_LEN \<and> parse_len p \<le> MAX_LEN"

lemma uart_port0_wf [simp]: "uart_port_wf uart_port0"
  by (simp add: uart_port_wf_def uart_port0_def)

subsection \<open>Opening the port\<close>

text \<open>
  \<^verbatim>\<open>xxx_port_open\<close>: find the device, initialise the semaphore (\<^verbatim>\<open>rt_sem_init\<close> always succeeds), open
  the device unless somebody has, install the callback, start the receive thread. Every step is
  done once; a failing step returns \<^verbatim>\<open>-RT_ERROR\<close> and is tried again by the next call. A handle
  always comes from \<^verbatim>\<open>rt_device_find\<close> and no device is ever unregistered.
\<close>

definition open_device :: "string \<Rightarrow> u16 \<Rightarrow> rtk \<Rightarrow> (rt_err_t \<times> rtk)" where
  "open_device h oflag k = (case devs k h of
     None \<Rightarrow> (- RT_ERROR, k)
   | Some d \<Rightarrow>
       if \<not> has (open_flag d) RT_DEVICE_OFLAG_OPEN
       then let (r, d') = rt_device_open d oflag in (r, k\<lparr>devs := (devs k)(h \<mapsto> d')\<rparr>)
       else (RT_EOK, k))"

definition set_rx_indicate :: "string \<Rightarrow> string \<Rightarrow> rtk \<Rightarrow> rtk" where
  "set_rx_indicate h cb k = k\<lparr>devs := (devs k)(h := map_option (\<lambda>d. rt_device_set_rx_indicate d cb) (devs k h))\<rparr>"

definition uart_port_open ::
  "string \<Rightarrow> string \<Rightarrow> string \<Rightarrow> rtk \<times> uart_port \<Rightarrow> rt_err_t \<times> rtk \<times> uart_port" where
  "uart_port_open devname rx_ind thread kp = (let (k, p) = kp;
     dev = (case port_dev p of None \<Rightarrow> rt_device_find k devname | Some h \<Rightarrow> Some h);
     p1 = p\<lparr>port_dev := dev\<rparr> in
   case dev of None \<Rightarrow> (- RT_ERROR, k, p1)
   | Some h \<Rightarrow>
     let p2 = (if rx_sem_inited p1 then p1 else p1\<lparr>rx_sem := 0, rx_sem_inited := True\<rparr>);
         (r, k1) = open_device h (RT_DEVICE_OFLAG_RDWR OR RT_DEVICE_FLAG_INT_RX) k in
     if r \<noteq> RT_EOK then (- RT_ERROR, k1, p2)
     else let k2 = set_rx_indicate h rx_ind k1 in
       case rx_thread p2 of
         Some t \<Rightarrow> (RT_EOK, k2, p2)
       | None \<Rightarrow> (case rt_thread_create k2 thread of
           None \<Rightarrow> (- RT_ERROR, k2, p2)
         | Some t \<Rightarrow> (RT_EOK, rt_thread_startup t k2, p2\<lparr>rx_thread := Some t\<rparr>)))"

text \<open>\<^verbatim>\<open>xxx_Init\<close>: configure the baud rate once the port is open.\<close>

definition set_baud :: "string \<Rightarrow> u32 \<Rightarrow> rtk \<Rightarrow> rtk" where
  "set_baud h b k = k\<lparr>devs := (devs k)(h := map_option (\<lambda>d. d\<lparr>baud_rate := b\<rparr>) (devs k h))\<rparr>"

definition uart_port_init ::
  "string \<Rightarrow> string \<Rightarrow> string \<Rightarrow> u32 \<Rightarrow> rtk \<times> uart_port \<Rightarrow> rtk \<times> uart_port" where
  "uart_port_init devname rx_ind thread baud kp =
    (let (r, k, p) = uart_port_open devname rx_ind thread kp in
     if r \<noteq> RT_EOK then (k, p)
     else (case port_dev p of None \<Rightarrow> (k, p) | Some h \<Rightarrow> (set_baud h baud k, p)))"

subsection \<open>Sending\<close>

definition device_write :: "string \<Rightarrow> bytes \<Rightarrow> rtk \<Rightarrow> rtk" where
  "device_write h cs k =
     k\<lparr>devs := (devs k)(h := map_option (\<lambda>d. snd (rt_device_write d cs)) (devs k h))\<rparr>"

text \<open>
  \<^verbatim>\<open>xxx_SendData\<close>: at most 200 bytes go through one of two buffers, used in turn.
\<close>

definition uart_send ::
  "string \<Rightarrow> string \<Rightarrow> string \<Rightarrow> bytes option \<Rightarrow> rtk \<times> uart_port \<Rightarrow> rtk \<times> uart_port" where
  "uart_send devname rx_ind thread data kp =
    (case data of None \<Rightarrow> kp
     | Some cs \<Rightarrow>
       if cs = [] then kp
       else let (r, k, p) = uart_port_open devname rx_ind thread kp in
         if r \<noteq> RT_EOK then (k, p)
         else (case port_dev p of None \<Rightarrow> (k, p)
          | Some h \<Rightarrow>
            let out = take TX_LEN cs;
                p1 = (if ActiveBuffer p = 0 then p\<lparr>BufferA := blit out 0 (BufferA p)\<rparr>
                      else p\<lparr>BufferB := blit out 0 (BufferB p)\<rparr>)
            in (device_write h out k, p1\<lparr>ActiveBuffer := ActiveBuffer p XOR 1\<rparr>)))"

subsection \<open>Receiving\<close>

text \<open>\<^verbatim>\<open>xxx_rx_ind\<close>: the driver's callback wakes the thread.\<close>

definition uart_rx_ind :: "uart_port \<Rightarrow> uart_port" where
  "uart_rx_ind p = (if rx_sem_inited p then p\<lparr>rx_sem := rt_sem_release (rx_sem p)\<rparr> else p)"

text \<open>\<^verbatim>\<open>xxx_shift_left\<close>: drop \<open>count\<close> bytes from the front of the parse buffer. The bytes beyond the new
  length stay in memory.\<close>

definition uart_shift_left :: "bytes \<Rightarrow> nat \<Rightarrow> nat \<Rightarrow> bytes \<times> nat" where
  "uart_shift_left buf len count =
    (if len \<le> count then (buf, 0)
     else (blit (take (len - count) (drop count buf)) 0 buf, len - count))"

text \<open>
  One turn of the receive thread's inner loop: a nonempty \<open>chunk\<close> that \<^verbatim>\<open>rt_device_read\<close> returned is
  appended to the parse buffer (which is dropped first when it would not fit) and parsed.
  \<open>uart_rx_entry\<close> is one wake-up of the thread, \<open>chunks\<close> being what the successive reads return; an
  empty one ends the loop.
\<close>

type_synonym 's parser = "bytes \<Rightarrow> nat \<Rightarrow> 's \<Rightarrow> (bytes \<times> nat \<times> 's) option"

definition uart_rx_chunk :: "'s parser \<Rightarrow> bytes \<Rightarrow> uart_port \<times> 's \<Rightarrow> (uart_port \<times> 's) option" where
  "uart_rx_chunk parse chunk ps = (let (p, s) = ps;
     n = length chunk;
     len = (if MAX_LEN < parse_len p + n then 0 else parse_len p);
     p1 = p\<lparr>RX_BUF := blit chunk 0 (RX_BUF p), rx_len := of_nat n\<rparr> in
   if MAX_LEN < len + n then None
   else Option.bind (parse (blit chunk len (parse_buf p)) (len + n) s) (\<lambda>(buf, len', s').
     Some (p1\<lparr>parse_buf := buf, parse_len := len'\<rparr>, s')))"

definition uart_rx_entry :: "'s parser \<Rightarrow> bytes list \<Rightarrow> uart_port \<times> 's \<Rightarrow> (uart_port \<times> 's) option" where
  "uart_rx_entry parse chunks ps =
     for_each (uart_rx_chunk parse) (takeWhile (\<lambda>c. c \<noteq> []) chunks) ps"

subsection \<open>Facts about the buffers\<close>

lemma length_shift_left [simp]:
  "len \<le> length buf \<Longrightarrow> length (fst (uart_shift_left buf len count)) = length buf"
  by (simp add: uart_shift_left_def)

lemma shift_left_len [simp]: "snd (uart_shift_left buf len count) = len - count"
  by (simp add: uart_shift_left_def)

lemma shift_left_contents:
  "len \<le> length buf \<Longrightarrow>
     take (len - count) (fst (uart_shift_left buf len count)) = drop count (take len buf)"
  by (auto simp: uart_shift_left_def blit_def drop_take min_def)

lemma blit_contents:
  "len + length c \<le> length buf \<Longrightarrow> take (len + length c) (blit c len buf) = take len buf @ c"
  by (rule take_blit)

subsection \<open>The contract between the receive loop and a parser\<close>

text \<open>
  \<open>settled\<close> describes the unparsed bytes a parser may leave behind. The contract: from a settled
  remainder followed by a chunk of at most \<open>chunk_max\<close> bytes, the parser stays inside the buffer
  and leaves a settled remainder; \<open>step\<close> is its effect on the firmware's state as a function of the
  bytes alone.
\<close>

locale stream_parser =
  fixes parse :: "'s parser"
    and settled :: "bytes \<Rightarrow> bool"
    and chunk_max :: nat
  assumes settled_nil: "settled []"
    and parse_ok: "\<lbrakk>length buf = MAX_LEN; len \<le> MAX_LEN; take len buf = r @ c; settled r;
        length c \<le> chunk_max\<rbrakk> \<Longrightarrow>
      \<exists>buf' len' s'. parse buf len s = Some (buf', len', s') \<and> length buf' = MAX_LEN \<and>
        len' \<le> len \<and> settled (take len' buf')"
begin

definition port_settled :: "uart_port \<Rightarrow> bool" where
  "port_settled p \<longleftrightarrow> uart_port_wf p \<and> settled (take (parse_len p) (parse_buf p))"

lemma rx_chunk_ok:
  assumes "port_settled p" "length c \<le> chunk_max" "length c \<le> MAX_LEN"
  shows "\<exists>p' s'. uart_rx_chunk parse c (p, s) = Some (p', s') \<and> port_settled p'"
proof -
  define len where "len = (if MAX_LEN < parse_len p + length c then 0 else parse_len p)"
  have wf: "length (parse_buf p) = MAX_LEN" "length (RX_BUF p) = MAX_LEN"
    and fit: "len + length c \<le> MAX_LEN"
    using assms by (auto simp: port_settled_def uart_port_wf_def len_def)
  define buf where "buf = blit c len (parse_buf p)"
  have "take (len + length c) buf = take len (parse_buf p) @ c"
    using fit wf by (simp add: buf_def blit_contents)
  moreover have "settled (take len (parse_buf p))"
    using assms(1) settled_nil by (simp add: len_def port_settled_def)
  moreover have "length buf = MAX_LEN" using fit wf by (simp add: buf_def)
  ultimately obtain buf' len' s' where p: "parse buf (len + length c) s = Some (buf', len', s')"
    "length buf' = MAX_LEN" "len' \<le> len + length c" "settled (take len' buf')"
    using parse_ok fit assms(2) by metis
  then show ?thesis
    using fit assms wf
    by (auto simp: uart_rx_chunk_def Let_def port_settled_def uart_port_wf_def
        simp flip: len_def buf_def)
qed

text \<open>However the stream is cut into chunks, the receive thread never leaves its buffers.\<close>

lemma rx_entry_ok:
  assumes "port_settled p" "\<forall>c\<in>set chunks. length c \<le> chunk_max \<and> length c \<le> MAX_LEN"
  shows "\<exists>p' s'. uart_rx_entry parse chunks (p, s) = Some (p', s') \<and> port_settled p'"
proof -
  have "\<exists>ps'. for_each (uart_rx_chunk parse) (takeWhile (\<lambda>c. c \<noteq> []) chunks) (p, s) = Some ps' \<and>
      (\<lambda>(p, s). port_settled p) ps'"
  proof (rule for_each_invariant)
    show "case (p, s) of (p, s) \<Rightarrow> port_settled p" using assms(1) by simp
  next
    fix c and ps :: "uart_port \<times> 's"
    assume c: "c \<in> set (takeWhile (\<lambda>c. c \<noteq> []) chunks)" and "case ps of (p, s) \<Rightarrow> port_settled p"
    then obtain q t where q: "ps = (q, t)" "port_settled q" by (cases ps) auto
    have "c \<in> set chunks" using set_takeWhileD [OF c] by simp
    with rx_chunk_ok [OF q(2), of c t] assms(2) q(1)
    show "\<exists>s'. uart_rx_chunk parse c ps = Some s' \<and> (case s' of (p, s) \<Rightarrow> port_settled p)"
      by auto
  qed
  then show ?thesis by (auto simp: uart_rx_entry_def)
qed

lemma port0_settled [simp]: "port_settled uart_port0"
proof -
  have "parse_len uart_port0 = 0" by (simp add: uart_port0_def)
  then show ?thesis by (simp add: port_settled_def settled_nil)
qed

end

end
