(* ===== verification/Frame_Scan.thy ===== *)
theory Frame_Scan
  imports Uart_Port
begin

text \<open>
  The stream parser that \<^verbatim>\<open>usart1_try_parse\<close> (\<^verbatim>\<open>Hardware/usart1_port.c\<close>) and \<^verbatim>\<open>usart2_try_parse\<close>
  (\<^verbatim>\<open>Hardware/usart2_port.c\<close>) share: look for fixed-length frames in the receive buffer, hand each
  to its decoder, drop it with what lies before it, and keep the tail that may still be the start
  of a frame.

  The locale states what a frame test and a decoder must do; from it follow, once for both ports,
  that the scan stays inside the buffer, that it is the function \<open>frames_of\<close> on byte lists, and that
  the result does not depend on how the stream was cut into reads.
\<close>

text \<open>The scan from index \<open>i\<close>; the frame length \<open>L\<close> is a positive constant of the port.\<close>

function scan_frames :: "nat \<Rightarrow> (bytes \<Rightarrow> nat \<Rightarrow> bool option) \<Rightarrow> (bytes \<Rightarrow> nat \<Rightarrow> nat \<Rightarrow> 's \<Rightarrow> 's option) \<Rightarrow>
    nat \<Rightarrow> bytes \<Rightarrow> nat \<Rightarrow> 's \<Rightarrow> (bytes \<times> nat \<times> 's) option" where
  "scan_frames L test proc i buffer len s =
    (if 0 < L \<and> i + L \<le> len then
       if_opt (test buffer i)
         (Option.bind (proc buffer i L s) (\<lambda>s'.
            let (buffer', len') = uart_shift_left buffer len (i + L) in
            scan_frames L test proc 0 buffer' len' s'))
         (scan_frames L test proc (i + 1) buffer len s)
     else if 0 < i then
       let (buffer', len') = uart_shift_left buffer len i in Some (buffer', len', s)
     else Some (buffer, len, s))"
  by pat_completeness auto
termination
  by (relation "measures [\<lambda>(L, t, p, i, b, n, s). n, \<lambda>(L, t, p, i, b, n, s). n - i]")
    (auto simp: uart_shift_left_def split: if_splits)

declare scan_frames.simps [simp del]

subsection \<open>The frames of a byte stream\<close>

text \<open>The frames of a byte list, found left to right, and the rest that is too short for one.\<close>

function frames_of :: "nat \<Rightarrow> (bytes \<Rightarrow> bool) \<Rightarrow> bytes \<Rightarrow> bytes list \<times> bytes" where
  "frames_of L frame xs =
    (if L = 0 \<or> length xs < L then ([], xs)
     else if frame (take L xs)
     then (let (fs, r) = frames_of L frame (drop L xs) in (take L xs # fs, r))
     else frames_of L frame (tl xs))"
  by pat_completeness auto
termination
  by (relation "measure (\<lambda>(L, f, xs). length xs)") auto

declare frames_of.simps [simp del]

definition frames_effect :: "nat \<Rightarrow> (bytes \<Rightarrow> bool) \<Rightarrow> (bytes \<Rightarrow> 's \<Rightarrow> 's) \<Rightarrow> bytes \<Rightarrow> 's \<Rightarrow> 's" where
  "frames_effect L frame app xs s = fold app (fst (frames_of L frame xs)) s"

lemma frames_of_rest: "0 < L \<Longrightarrow> length (snd (frames_of L frame xs)) < L"
  by (induction L frame xs rule: frames_of.induct) (subst frames_of.simps, auto split: prod.splits)

lemma frames_of_frames: "f \<in> set (fst (frames_of L frame xs)) \<Longrightarrow> frame f \<and> length f = L"
proof (induction L frame xs rule: frames_of.induct)
  case (1 L frame xs)
  then show ?case
    by (auto simp: frames_of.simps [of L frame xs] split: prod.splits if_splits)
qed

text \<open>Reading a stream in two pieces finds the frames of the whole.\<close>

lemma frames_of_append:
  "frames_of L frame (xs @ ys) =
    (let (fs, r) = frames_of L frame xs; (gs, r') = frames_of L frame (r @ ys) in (fs @ gs, r'))"
proof (induction L frame xs rule: frames_of.induct)
  case (1 L frame xs)
  show ?case
  proof (cases "L = 0 \<or> length xs < L")
    case True
    then show ?thesis by (simp add: frames_of.simps [of L frame xs])
  next
    case False
    then have t: "take L (xs @ ys) = take L xs" "drop L (xs @ ys) = drop L xs @ ys"
      "tl (xs @ ys) = tl xs @ ys" "\<not> (L = 0 \<or> length (xs @ ys) < L)"
      by (auto simp: tl_append split: list.split)
    have whole: "frames_of L frame (xs @ ys) = (if frame (take L xs)
        then (let (fs, r) = frames_of L frame (drop L xs @ ys) in (take L xs # fs, r))
        else frames_of L frame (tl xs @ ys))"
      unfolding frames_of.simps [of L frame "xs @ ys"] using t by (simp only: if_False)
    have piece: "frames_of L frame xs = (if frame (take L xs)
        then (let (fs, r) = frames_of L frame (drop L xs) in (take L xs # fs, r))
        else frames_of L frame (tl xs))"
      unfolding frames_of.simps [of L frame xs] using False by (simp only: if_False)
    show ?thesis
    proof (cases "frame (take L xs)")
      case True
      obtain fs r where xs: "frames_of L frame (drop L xs) = (fs, r)" by fastforce
      obtain gs r' where ys: "frames_of L frame (r @ ys) = (gs, r')" by fastforce
      have "frames_of L frame (drop L xs @ ys) = (fs @ gs, r')"
        using "1.IH"(1) [OF False True] by (simp only: xs ys prod.case Let_def)
      then show ?thesis
        unfolding whole piece using True by (simp only: if_True xs ys prod.case Let_def append_Cons)
    next
      case no: False
      from "1.IH"(2) [OF False no] no show ?thesis
        unfolding whole piece by (simp only: if_False)
    qed
  qed
qed

lemma frames_effect_append:
  "frames_effect L frame app (xs @ ys) s =
    frames_effect L frame app (snd (frames_of L frame xs) @ ys) (frames_effect L frame app xs s)"
proof -
  obtain fs r where xs: "frames_of L frame xs = (fs, r)" by fastforce
  obtain gs r' where ys: "frames_of L frame (r @ ys) = (gs, r')" by fastforce
  have "frames_of L frame (xs @ ys) = (fs @ gs, r')"
    by (simp only: frames_of_append [of L frame xs ys] xs ys prod.case Let_def)
  then show ?thesis by (simp add: frames_effect_def xs ys)
qed

lemma frames_of_frame_list:
  "\<lbrakk>0 < L; \<forall>f\<in>set fs. frame f \<and> length f = L\<rbrakk> \<Longrightarrow> frames_of L frame (concat fs) = (fs, [])"
proof (induction fs)
  case (Cons f fs)
  then show ?case by (subst frames_of.simps) simp
qed (simp add: frames_of.simps [of L frame "[]"])

text \<open>The bytes a port holds that are not parsed yet.\<close>

definition pending :: "uart_port \<Rightarrow> bytes" where
  "pending p = take (parse_len p) (parse_buf p)"

lemma pending_port0 [simp]: "pending uart_port0 = []"
  by (simp add: pending_def uart_port0_def)

lemma drop_Suc_tl_drop: "drop (i + 1) xs = tl (drop i xs)"
  by (simp add: drop_Suc tl_drop)

subsection \<open>The contract of a fixed-length frame\<close>

locale frame_scanner =
  fixes L :: nat
    and test :: "bytes \<Rightarrow> nat \<Rightarrow> bool option"
    and proc :: "bytes \<Rightarrow> nat \<Rightarrow> nat \<Rightarrow> 's \<Rightarrow> 's option"
    and frame :: "bytes \<Rightarrow> bool"
    and app :: "bytes \<Rightarrow> 's \<Rightarrow> 's"
  assumes L_pos: "0 < L" and L_max: "L \<le> 100"
    and test_frame: "i + L \<le> length buf \<Longrightarrow> test buf i = Some (frame (take L (drop i buf)))"
    and proc_frame: "\<lbrakk>i + L \<le> length buf; frame (take L (drop i buf))\<rbrakk> \<Longrightarrow>
      proc buf i L s = Some (app (take L (drop i buf)) s)"
begin

lemma stream_rest: "length (snd (frames_of L frame xs)) < L"
  by (rule frames_of_rest [OF L_pos])

end

text \<open>The scan computes the frames of the bytes it is given and leaves their rest in front.\<close>

lemma scan_refines:
  assumes "frame_scanner L test proc frame app" "n \<le> length buf" "i \<le> n"
  shows "\<exists>buf' n'. scan_frames L test proc i buf n s =
      Some (buf', n', frames_effect L frame app (drop i (take n buf)) s) \<and>
    length buf' = length buf \<and> n' \<le> n \<and> take n' buf' = snd (frames_of L frame (drop i (take n buf)))"
  using assms
proof (induction L test proc i buf n s rule: scan_frames.induct)
  case (1 L test proc i buf n s)
  note L_pos = frame_scanner.L_pos [OF "1.prems"(1)]
    and test_frame = frame_scanner.test_frame [OF "1.prems"(1)]
    and proc_frame = frame_scanner.proc_frame [OF "1.prems"(1)]
  define xs where "xs = drop i (take n buf)"
  have len: "length xs = n - i" using "1.prems" by (simp add: xs_def)
  show ?case
  proof (cases "i + L \<le> n")
    case False
    then have short: "length xs < L" using len L_pos by linarith
    then have st: "frames_of L frame xs = ([], xs)" by (simp add: frames_of.simps [of L frame xs])
    show ?thesis
    proof (cases "0 < i")
      case True
      with False "1.prems" st show ?thesis
        using length_shift_left [of n buf i] shift_left_contents [of n buf i]
          shift_left_len [of buf n i]
        by (cases "uart_shift_left buf n i")
          (simp add: scan_frames.simps [of L test proc i buf n s] frames_effect_def xs_def)
    next
      case False
      with \<open>\<not> i + L \<le> n\<close> "1.prems" st show ?thesis
        by (simp add: scan_frames.simps [of L test proc 0 buf n s] frames_effect_def xs_def)
    qed
  next
    case True
    then have on: "0 < L \<and> i + L \<le> n" using L_pos by simp
    have tx: "take L xs = take L (drop i buf)" using True by (simp add: xs_def drop_take min_def)
    have cond: "test buf i = Some (frame (take L xs))"
      using True "1.prems"(2) test_frame [of i buf] by (simp add: tx)
    show ?thesis
    proof (cases "frame (take L xs)")
      case False
      have tl: "drop (i + 1) (take n buf) = tl xs" by (simp only: xs_def drop_Suc_tl_drop)
      have "frames_of L frame xs = frames_of L frame (tl xs)"
        using False on len by (subst frames_of.simps) auto
      moreover have "scan_frames L test proc i buf n s = scan_frames L test proc (i + 1) buf n s"
        using on False cond by (simp add: scan_frames.simps [of L test proc i buf n s] arr_simps)
      moreover have "\<exists>buf' n'. scan_frames L test proc (i + 1) buf n s =
            Some (buf', n', frames_effect L frame app (tl xs) s) \<and>
          length buf' = length buf \<and> n' \<le> n \<and> take n' buf' = snd (frames_of L frame (tl xs))"
        using "1.IH"(2) on "1.prems" unfolding tl by simp
      ultimately show ?thesis by (simp add: frames_effect_def flip: xs_def)
    next
      case fr: True
      obtain buf1 n1 where sh: "uart_shift_left buf n (i + L) = (buf1, n1)" by fastforce
      have n1: "n1 = n - (i + L)" "length buf1 = length buf" "take n1 buf1 = drop L xs"
        using sh "1.prems" length_shift_left [of n buf "i + L"] shift_left_len [of buf n "i + L"]
          shift_left_contents [of n buf "i + L"]
        by (auto simp: xs_def drop_take add.commute)
      have dp: "proc buf i L s = Some (app (take L xs) s)"
        using True "1.prems"(2) proc_frame [of i buf] fr by (simp add: tx)
      have scan: "scan_frames L test proc i buf n s = scan_frames L test proc 0 buf1 n1 (app (take L xs) s)"
        using on cond fr sh dp by (simp add: scan_frames.simps [of L test proc i buf n s] arr_simps)
      have "\<exists>buf' n'. scan_frames L test proc 0 buf1 n1 (app (take L xs) s) =
          Some (buf', n', frames_effect L frame app (drop 0 (take n1 buf1)) (app (take L xs) s)) \<and>
          length buf' = length buf1 \<and> n' \<le> n1 \<and> take n' buf' = snd (frames_of L frame (drop 0 (take n1 buf1)))"
        by (rule "1.IH"(1) [OF on _ sh [symmetric] refl]) (use "1.prems" n1 dp in auto)
      moreover have "frames_of L frame xs = (let (fs, r) = frames_of L frame (drop L xs) in (take L xs # fs, r))"
        using fr on len by (subst frames_of.simps) auto
      ultimately show ?thesis
        using n1 by (auto simp: scan frames_effect_def split: prod.splits simp flip: xs_def)
    qed
  qed
qed

subsection \<open>The receive thread over a fixed-length parser\<close>

sublocale frame_scanner \<subseteq> port: stream_parser "\<lambda>b n s. scan_frames L test proc 0 b n s" "\<lambda>r. length r < L" MAX_LEN
proof
  fix buf :: bytes and len r c and s :: 's
  assume l: "length buf = MAX_LEN" "len \<le> MAX_LEN"
  then obtain buf' n' where
    "scan_frames L test proc 0 buf len s = Some (buf', n', frames_effect L frame app (drop 0 (take len buf)) s)"
    "length buf' = MAX_LEN" "n' \<le> len" "take n' buf' = snd (frames_of L frame (drop 0 (take len buf)))"
    using scan_refines [OF frame_scanner_axioms, of len buf 0 s] by auto
  then show "\<exists>buf' len' s'. scan_frames L test proc 0 buf len s = Some (buf', len', s') \<and>
      length buf' = MAX_LEN \<and> len' \<le> len \<and> length (take len' buf') < L"
    using stream_rest [of "drop 0 (take len buf)"] by metis
qed (use L_pos in simp)

context frame_scanner
begin

lemma rx_chunk_effect:
  assumes "port.port_settled p" "length c \<le> 300"
  shows "\<exists>p'. uart_rx_chunk (scan_frames L test proc 0) c (p, s) =
      Some (p', frames_effect L frame app (pending p @ c) s) \<and>
    port.port_settled p' \<and> pending p' = snd (frames_of L frame (pending p @ c))"
proof -
  have wf: "length (parse_buf p) = MAX_LEN" "parse_len p < L" "parse_len p + length c \<le> MAX_LEN"
    using assms L_max by (auto simp: port.port_settled_def uart_port_wf_def MAX_LEN_def)
  define buf where "buf = blit c (parse_len p) (parse_buf p)"
  have t: "drop 0 (take (parse_len p + length c) buf) = pending p @ c"
    using wf by (simp add: buf_def blit_contents pending_def)
  have "parse_len p + length c \<le> length buf" using wf by (simp add: buf_def)
  from scan_refines [OF frame_scanner_axioms this, of 0 s] obtain buf' n' where
    "scan_frames L test proc 0 buf (parse_len p + length c) s =
      Some (buf', n', frames_effect L frame app (pending p @ c) s)"
    "take n' buf' = snd (frames_of L frame (pending p @ c))"
    unfolding t by blast
  then show ?thesis
    using port.rx_chunk_ok [OF assms(1), of c s] assms(2) wf
    by (auto simp: uart_rx_chunk_def Let_def pending_def MAX_LEN_def simp flip: buf_def)
qed

lemma rx_chunks_effect:
  assumes "port.port_settled p" "\<And>c. c \<in> set cs \<Longrightarrow> length c \<le> 300"
  shows "\<exists>p'. for_each (uart_rx_chunk (scan_frames L test proc 0)) cs (p, s) =
      Some (p', frames_effect L frame app (pending p @ concat cs) s) \<and>
    port.port_settled p' \<and> pending p' = snd (frames_of L frame (pending p @ concat cs))"
  using assms
proof (induction cs arbitrary: p s)
  case Nil
  then have "length (pending p) < L" by (simp add: port.port_settled_def pending_def)
  then have "frames_of L frame (pending p) = ([], pending p)" by (subst frames_of.simps) simp
  then show ?case using Nil by (simp add: frames_effect_def)
next
  case (Cons c cs)
  obtain p1 where p1: "uart_rx_chunk (scan_frames L test proc 0) c (p, s) =
      Some (p1, frames_effect L frame app (pending p @ c) s)"
    "port.port_settled p1" "pending p1 = snd (frames_of L frame (pending p @ c))"
    using rx_chunk_effect [OF Cons.prems(1), of c s] Cons.prems(2) by auto
  have "snd (frames_of L frame (pending p @ c @ concat cs)) = snd (frames_of L frame (pending p1 @ concat cs))"
    using frames_of_append [of L frame "pending p @ c" "concat cs"] p1(3)
    by (simp split: prod.splits)
  moreover have "frames_effect L frame app (pending p @ c @ concat cs) s =
      frames_effect L frame app (pending p1 @ concat cs) (frames_effect L frame app (pending p @ c) s)"
    using frames_effect_append [of L frame app "pending p @ c" "concat cs" s] p1(3) by simp
  ultimately show ?case
    using Cons.IH [OF p1(2), of "frames_effect L frame app (pending p @ c) s"] Cons.prems(2) p1(1) by simp
qed

text \<open>A wake-up of the receive thread applies the frames of the byte stream, however it was cut.\<close>

lemma rx_entry_effect:
  assumes "uart_port_wf p" "parse_len p < L" "\<forall>c\<in>set cs. c \<noteq> [] \<and> length c \<le> 300"
  shows "\<exists>p'. uart_rx_entry (scan_frames L test proc 0) cs (p, s) =
      Some (p', frames_effect L frame app (pending p @ concat cs) s) \<and>
    uart_port_wf p' \<and> parse_len p' < L \<and> pending p' = snd (frames_of L frame (pending p @ concat cs))"
proof -
  have tw: "takeWhile (\<lambda>c. c \<noteq> []) cs = cs" using assms(3) by (simp add: takeWhile_eq_all_conv)
  have "port.port_settled p" using assms(1,2) by (simp add: port.port_settled_def)
  from rx_chunks_effect [OF this, of cs s] assms(3) obtain p' where p':
    "for_each (uart_rx_chunk (scan_frames L test proc 0)) cs (p, s) =
      Some (p', frames_effect L frame app (pending p @ concat cs) s)"
    "port.port_settled p'" "pending p' = snd (frames_of L frame (pending p @ concat cs))" by auto
  then show ?thesis
    by (auto simp: uart_rx_entry_def tw port.port_settled_def uart_port_wf_def)
qed

end

end
