(* ===== verification/Usart1_Port.thy ===== *)
theory Usart1_Port
  imports Frame_Scan Vl53
begin

text \<open>
  The distance sensor's UART (\<^verbatim>\<open>Hardware/usart1_port.c\<close>): the test for the sensor's seven byte
  frames, the stream parser as an instance of \<open>scan_frames\<close>, and the port's instance of the common
  driver.
\<close>

definition usart1_shift_left :: "bytes \<Rightarrow> nat \<Rightarrow> nat \<Rightarrow> bytes \<times> nat" where
  "usart1_shift_left = uart_shift_left"

definition usart1_frame_at :: "bytes \<Rightarrow> nat \<Rightarrow> bool option" where
  "usart1_frame_at buffer i =
     and_then (rd_eq buffer i VL53pack_head_1)
       (and_then (rd_eq buffer (i + 1) VL53pack_head_2)
                 (rd_eq buffer (i + VL53pack_num - 1) VL53pack_tail))"

definition usart1_try_parse :: "vl53_st parser" where
  "usart1_try_parse buffer len s = scan_frames VL53pack_num usart1_frame_at VL53_DataProc 0 buffer len s"

subsection \<open>The driver\<close>

definition usart1_port_open :: "rtk \<times> uart_port \<Rightarrow> rt_err_t \<times> rtk \<times> uart_port" where
  "usart1_port_open = uart_port_open ''uart1'' ''usart1_rx_ind'' ''u1rx''"

definition USART1DMA_Init :: "u32 \<Rightarrow> rtk \<times> uart_port \<Rightarrow> rtk \<times> uart_port" where
  "USART1DMA_Init = uart_port_init ''uart1'' ''usart1_rx_ind'' ''u1rx''"

definition Usart1DMA_SendData :: "bytes option \<Rightarrow> rtk \<times> uart_port \<Rightarrow> rtk \<times> uart_port" where
  "Usart1DMA_SendData = uart_send ''uart1'' ''usart1_rx_ind'' ''u1rx''"

definition usart1_rx_ind :: "uart_port \<Rightarrow> uart_port" where
  "usart1_rx_ind = uart_rx_ind"

definition usart1_rx_entry :: "bytes list \<Rightarrow> uart_port \<times> vl53_st \<Rightarrow> (uart_port \<times> vl53_st) option" where
  "usart1_rx_entry = uart_rx_entry usart1_try_parse"

subsection \<open>The contract\<close>

interpretation vl53_rx: frame_scanner VL53pack_num usart1_frame_at VL53_DataProc vl53_frame vl53_apply
proof
  fix i and buf :: bytes assume l: "i + VL53pack_num \<le> length buf"
  then have "take VL53pack_num (drop i buf) ! k = buf ! (i + k)" if "k < 7" for k
    using that by (simp add: VL53pack_num_def)
  from this [of 0] this [of 1] this [of 6] l
  show "usart1_frame_at buf i = Some (vl53_frame (take VL53pack_num (drop i buf)))"
    by (simp add: usart1_frame_at_def vl53_frame_def vl53_consts arr_simps add.commute)
next
  fix i and buf :: bytes and s
  assume "i + VL53pack_num \<le> length buf" "vl53_frame (take VL53pack_num (drop i buf))"
  then show "VL53_DataProc buf i VL53pack_num s = Some (vl53_apply (take VL53pack_num (drop i buf)) s)"
    using VL53_DataProc_frame [of i buf s] by (simp add: VL53pack_num_def)
qed (simp_all add: VL53pack_num_def)

lemma usart1_rx_entry_eq: "usart1_rx_entry = uart_rx_entry (scan_frames VL53pack_num usart1_frame_at VL53_DataProc 0)"
  unfolding usart1_rx_entry_def by (rule arg_cong [of _ _ uart_rx_entry]) (simp add: usart1_try_parse_def fun_eq_iff)

definition vl53_frames :: "bytes \<Rightarrow> bytes list \<times> bytes" where
  "vl53_frames xs = frames_of VL53pack_num vl53_frame xs"

text \<open>
  C12 (refinement). The receive thread of the distance sensor, woken with any cut of the incoming
  stream into reads of at most 300 bytes, never leaves its buffers, keeps fewer than seven bytes
  over, and applies exactly the frames of the unparsed remainder followed by the new bytes, each
  once and in order: the result depends on the bytes and not on how they were cut.
\<close>

theorem usart1_chunking_irrelevant:
  assumes "uart_port_wf p" "parse_len p < 7" "\<forall>c\<in>set cs. c \<noteq> [] \<and> length c \<le> 300"
  shows "\<exists>p'. usart1_rx_entry cs (p, s) =
      Some (p', fold vl53_apply (fst (vl53_frames (pending p @ concat cs))) s) \<and>
    uart_port_wf p' \<and> parse_len p' < 7 \<and> pending p' = snd (vl53_frames (pending p @ concat cs))"
  using vl53_rx.rx_entry_effect [of p cs s] assms
  by (simp add: usart1_rx_entry_eq vl53_frames_def frames_effect_def VL53pack_num_def)

theorem usart1_chunking_irrelevant_witness:
  "\<exists>p'. usart1_rx_entry [[0x65, 0x3a], [0x20]] (uart_port0, vl53_init) =
      Some (p', fold vl53_apply (fst (vl53_frames (pending uart_port0 @ concat [[0x65, 0x3a], [0x20]]))) vl53_init) \<and>
    uart_port_wf p' \<and> parse_len p' < 7 \<and>
    pending p' = snd (vl53_frames (pending uart_port0 @ concat [[0x65, 0x3a], [0x20]]))"
  by (rule usart1_chunking_irrelevant) (simp_all add: uart_port0_def uart_port_wf_def TX_LEN_def MAX_LEN_def)

lemma fold_last:
  "ns \<noteq> [] \<Longrightarrow> fold f (map g ns) s = f (g (last ns)) (fold f (map g (butlast ns)) s)"
proof -
  assume "ns \<noteq> []"
  then have "map g ns = map g (butlast ns) @ [g (last ns)]"
    using append_butlast_last_id by (metis list.simps(8,9) map_append)
  then show ?thesis by (simp del: map_butlast)
qed

text \<open>
  Whatever distances below ten metres the sensor reports, and however the UART
  cuts its output, the firmware ends up with the last distance reported.
\<close>

theorem usart1_last_distance:
  assumes "\<forall>n\<in>set ns. n < 10000" "ns \<noteq> []" "concat cs = concat (map vl53_encode ns)"
    "\<forall>c\<in>set cs. c \<noteq> [] \<and> length c \<le> 300"
  shows "\<exists>p' s'. usart1_rx_entry cs (uart_port0, vl53_init) = Some (p', s') \<and>
    Distance s' = of_nat (last ns) \<and> parse_len p' = 0"
proof -
  have "\<forall>f\<in>set (map vl53_encode ns). vl53_frame f \<and> length f = VL53pack_num"
    by (simp add: VL53pack_num_def) (simp add: vl53_encode_def)
  then have fr: "frames_of VL53pack_num vl53_frame (concat (map vl53_encode ns)) = (map vl53_encode ns, [])"
    by (intro frames_of_frame_list) (auto simp: VL53pack_num_def)
  have "parse_len uart_port0 < VL53pack_num" by (simp add: uart_port0_def VL53pack_num_def)
  from vl53_rx.rx_entry_effect [OF uart_port0_wf this assms(4), of vl53_init] obtain p' where p':
    "usart1_rx_entry cs (uart_port0, vl53_init) = Some (p', fold vl53_apply (map vl53_encode ns) vl53_init)"
    "uart_port_wf p'" "pending p' = []"
    by (auto simp: usart1_rx_entry_eq frames_effect_def assms(3) fr)
  have "parse_len p' = 0"
    using p'(2,3) by (auto simp: pending_def uart_port_wf_def MAX_LEN_def)
  then show ?thesis
    using p'(1) vl53_encode_distance [of "last ns"] assms(1,2) by (simp add: fold_last)
qed

theorem usart1_last_distance_witness:
  "\<exists>p' s'. usart1_rx_entry [[0x65], [0x3a, 0x20, 0x33, 0x30, 0x37, 0x6D]] (uart_port0, vl53_init) =
      Some (p', s') \<and> Distance s' = of_nat (last [307]) \<and> parse_len p' = 0"
  by (rule usart1_last_distance) (simp_all add: vl53_encode_def vl53_char_def)

end
