(* ===== verification/Console.thy ===== *)
theory Console
  imports Rt_Device
begin

text \<open>
  What happens to the serial devices before \<^verbatim>\<open>main\<close>, and the console's life beside it. The board
  registers the six UARTs (\<^verbatim>\<open>drivers/drv_usart.c\<close>) and makes \<^verbatim>\<open>uart1\<close> the console
  (\<^verbatim>\<open>drivers/board.c\<close>, \<^verbatim>\<open>rt_console_set_device\<close> of \<^verbatim>\<open>rt-thread/src/kservice.c\<close>), which opens it in
  stream mode; the start of the components creates the shell's thread
  (\<^verbatim>\<open>rt-thread/components/finsh/shell.c\<close>), which opens it once more when it first runs, with interrupt
  receive, and reads commands from it.

  The transmit logs are empty when \<^verbatim>\<open>main\<close> begins: the version banner that the kernel prints before
  is not recorded (it holds the date of the build).
\<close>

subsection \<open>Registration\<close>

definition RT_CONSOLE_DEVICE_NAME :: string where "RT_CONSOLE_DEVICE_NAME = ''uart1''"

text \<open>The flags every UART is registered with; none uses DMA.\<close>

definition uart_dflag :: u16 where
  "uart_dflag = RT_DEVICE_FLAG_RDWR OR RT_DEVICE_FLAG_INT_RX OR RT_DEVICE_FLAG_INT_TX"

text \<open>A device just registered. Its configuration by \<^verbatim>\<open>stm32_configure\<close>, when it is first opened, succeeds.\<close>

definition serial_fresh :: rt_serial where
  "serial_fresh = \<lparr>dflag = uart_dflag, open_flag = 0, ref_count = 0, serial_rx = None, serial_tx = False,
     rx_indicate = None, configure_result = RT_EOK, baud_rate = 115200, hw_rx = [], hw_tx = []\<rparr>"

definition rt_hw_serial_register :: "string \<Rightarrow> u16 \<Rightarrow> rtk \<Rightarrow> rtk" where
  "rt_hw_serial_register name flag k =
     k\<lparr>devs := (devs k)(name \<mapsto> serial_fresh\<lparr>dflag := flag, rx_indicate := None, ref_count := 0, open_flag := 0\<rparr>)\<rparr>"

definition uart_obj :: "string list" where
  "uart_obj = [''uart1'', ''uart2'', ''uart3'', ''uart4'', ''uart5'', ''uart6'']"

definition rt_hw_usart_init :: "rtk \<Rightarrow> rtk" where
  "rt_hw_usart_init = fold (\<lambda>name. rt_hw_serial_register name uart_dflag) uart_obj"

subsection \<open>The console\<close>

definition open_named :: "string \<Rightarrow> u16 \<Rightarrow> rtk \<Rightarrow> rt_err_t \<times> rtk" where
  "open_named h oflag k = (case devs k h of None \<Rightarrow> (- RT_ERROR, k)
   | Some d \<Rightarrow> let (r, d') = rt_device_open d oflag in (r, k\<lparr>devs := (devs k)(h \<mapsto> d')\<rparr>))"

definition close_named :: "string \<Rightarrow> rtk \<Rightarrow> rtk option" where
  "close_named h k = (case devs k h of None \<Rightarrow> None
   | Some d \<Rightarrow> map_option (\<lambda>(r, d'). k\<lparr>devs := (devs k)(h \<mapsto> d')\<rparr>) (rt_device_close d))"

text \<open>\<^verbatim>\<open>rt_console_set_device\<close>; \<open>None\<close> only when closing the old console fails.\<close>

definition rt_console_set_device :: "string \<Rightarrow> rtk \<Rightarrow> rtk option" where
  "rt_console_set_device name k = (let old = console_device k; new = rt_device_find k name in
     if new = old then Some k
     else case new of None \<Rightarrow> Some k
     | Some h \<Rightarrow> Option.bind (case old of None \<Rightarrow> Some k | Some h' \<Rightarrow> close_named h' k) (\<lambda>k.
         Some ((snd (open_named h (RT_DEVICE_OFLAG_RDWR OR RT_DEVICE_FLAG_STREAM) k))\<lparr>console_device := Some h\<rparr>)))"

text \<open>
  \<^verbatim>\<open>rt_kputs\<close>, through which \<^verbatim>\<open>rt_kprintf\<close> prints as well: the text goes to the console with the
  stream flag set for the time of the writing.
\<close>

definition rt_kputs :: "string \<Rightarrow> rtk \<Rightarrow> rtk" where
  "rt_kputs str k = (case console_device k of None \<Rightarrow> k
   | Some h \<Rightarrow> (case devs k h of None \<Rightarrow> k
     | Some d \<Rightarrow> let d' = snd (rt_device_write (d\<lparr>open_flag := open_flag d OR RT_DEVICE_FLAG_STREAM\<rparr>) (map of_char str))
       in k\<lparr>devs := (devs k)(h \<mapsto> d'\<lparr>open_flag := open_flag d\<rparr>)\<rparr>))"

subsection \<open>The shell\<close>

text \<open>\<^verbatim>\<open>finsh_system_init\<close>: the shell's structure and its thread, when the heap can hold them.\<close>

definition finsh_system_init :: "rtk \<Rightarrow> rtk" where
  "finsh_system_init k =
    (if \<not> heap_ok k then rt_kputs (''no memory for shell'' @ [CHR 0x0A]) k
     else let k = k\<lparr>shell := Some \<lparr>sh_device = None, sh_rx_sem = 0\<rparr>\<rparr> in
       case rt_thread_create k ''tshell'' of None \<Rightarrow> k | Some t \<Rightarrow> rt_thread_startup t k)"

text \<open>\<^verbatim>\<open>finsh_set_device\<close>; \<open>None\<close> is a failed assertion: no shell, or no ring to give back.\<close>

definition finsh_set_device :: "string \<Rightarrow> rtk \<Rightarrow> rtk option" where
  "finsh_set_device name k = Option.bind (shell k) (\<lambda>sh. case rt_device_find k name of
     None \<Rightarrow> Some (rt_kputs (''finsh: can not find device: '' @ name @ [CHR 0x0A]) k)
   | Some h \<Rightarrow>
       if sh_device sh = Some h then Some k
       else let (r, k1) = open_named h (RT_DEVICE_OFLAG_RDWR OR RT_DEVICE_FLAG_INT_RX OR RT_DEVICE_FLAG_STREAM) k in
         if r \<noteq> RT_EOK then Some k1
         else Option.bind (case sh_device sh of None \<Rightarrow> Some k1
             | Some h' \<Rightarrow> map_option (\<lambda>k. k\<lparr>devs := (devs k)(h' := map_option (\<lambda>d. d\<lparr>rx_indicate := None\<rparr>) (devs k h'))\<rparr>)
                 (close_named h' k1)) (\<lambda>k2.
           Some (k2\<lparr>shell := Some (sh\<lparr>sh_device := Some h\<rparr>),
             devs := (devs k2)(h := map_option (\<lambda>d. rt_device_set_rx_indicate d ''finsh_rx_ind'') (devs k2 h))\<rparr>)))"

definition finsh_rx_ind :: "rtk \<Rightarrow> rtk" where
  "finsh_rx_ind k = k\<lparr>shell := map_option (\<lambda>sh. sh\<lparr>sh_rx_sem := rt_sem_release (sh_rx_sem sh)\<rparr>) (shell k)\<rparr>"

text \<open>The beginning of \<^verbatim>\<open>finsh_thread_entry\<close>, up to the prompt.\<close>

definition finsh_thread_start :: "rtk \<Rightarrow> rtk option" where
  "finsh_thread_start k = Option.bind (shell k) (\<lambda>sh.
     Option.bind (case sh_device sh of Some h \<Rightarrow> Some k
       | None \<Rightarrow> (case console_device k of None \<Rightarrow> Some k | Some c \<Rightarrow> finsh_set_device c k)) (\<lambda>k.
       Some (rt_kputs ''msh >'' k)))"

subsection \<open>From reset to \<^verbatim>\<open>main\<close>\<close>

definition kernel_reset :: rtk where
  "kernel_reset = \<lparr>devs = Map.empty, heap_ok = True, threads = [], console_device = None, shell = None, delays = []\<rparr>"

definition rt_hw_board_init :: "rtk \<Rightarrow> rtk option" where
  "rt_hw_board_init k = rt_console_set_device RT_CONSOLE_DEVICE_NAME (rt_hw_usart_init k)"

text \<open>The kernel when \<^verbatim>\<open>main\<close> begins; the board's start cannot fail.\<close>

definition rtk0 :: rtk where
  "rtk0 = (case rt_hw_board_init kernel_reset of None \<Rightarrow> kernel_reset | Some k \<Rightarrow> finsh_system_init k)"

subsection \<open>The console device, before and after the shell has opened it\<close>

definition console_flags :: u16 where
  "console_flags = RT_DEVICE_OFLAG_RDWR OR RT_DEVICE_FLAG_STREAM OR RT_DEVICE_OFLAG_OPEN"

definition shell_flags :: u16 where
  "shell_flags = console_flags OR RT_DEVICE_FLAG_INT_RX"

definition console_dev :: "bool \<Rightarrow> rt_serial \<Rightarrow> bool" where
  "console_dev sh d \<longleftrightarrow> dflag d = uart_dflag OR RT_DEVICE_FLAG_ACTIVATED \<and> ref_count d = (if sh then 2 else 1) \<and>
     open_flag d = (if sh then shell_flags else console_flags) \<and>
     (case serial_rx d of None \<Rightarrow> \<not> sh | Some f \<Rightarrow> sh \<and> rx_fifo_wf f)"

definition console_up :: "rtk \<Rightarrow> bool" where
  "console_up k \<longleftrightarrow> console_device k = Some ''uart1'' \<and> (\<exists>d sh. devs k ''uart1'' = Some d \<and> shell k = Some sh \<and>
     (sh_device sh = None \<or> sh_device sh = Some ''uart1'') \<and> console_dev (sh_device sh \<noteq> None) d)"

lemmas console_flag_defs = console_flags_def shell_flags_def uart_dflag_def

lemma flag_nonzero [simp]:
  "RT_DEVICE_FLAG_STREAM \<noteq> 0" "RT_DEVICE_FLAG_ACTIVATED \<noteq> 0" "RT_DEVICE_OFLAG_OPEN \<noteq> 0" "RT_DEVICE_FLAG_INT_RX \<noteq> 0" "\<not> has 0 m"
  by (simp_all add: has_def rt_consts)

lemma console_flag_facts [simp]:
  "has console_flags RT_DEVICE_OFLAG_OPEN" "has console_flags RT_DEVICE_FLAG_STREAM" "\<not> has console_flags RT_DEVICE_FLAG_INT_RX"
  "has shell_flags RT_DEVICE_OFLAG_OPEN" "has shell_flags RT_DEVICE_FLAG_STREAM" "has shell_flags RT_DEVICE_FLAG_INT_RX"
  "console_flags OR RT_DEVICE_FLAG_STREAM = console_flags" "shell_flags OR RT_DEVICE_FLAG_STREAM = shell_flags"
  by (simp_all add: has_def console_flag_defs rt_consts)

lemma uart_dflag_facts [simp]:
  "\<not> has uart_dflag RT_DEVICE_FLAG_ACTIVATED"
  "has (uart_dflag OR RT_DEVICE_FLAG_ACTIVATED) RT_DEVICE_FLAG_ACTIVATED"
  "\<not> has uart_dflag RT_DEVICE_FLAG_STANDALONE"
  "\<not> has (uart_dflag OR RT_DEVICE_FLAG_ACTIVATED) RT_DEVICE_FLAG_STANDALONE"
  "has (uart_dflag OR RT_DEVICE_FLAG_ACTIVATED) RT_DEVICE_FLAG_INT_RX"
  by (simp_all add: has_def console_flag_defs rt_consts)

lemma open_masks [simp]:
  "\<not> has (RT_DEVICE_OFLAG_RDWR OR RT_DEVICE_FLAG_STREAM) RT_DEVICE_FLAG_DMA_RX"
  "\<not> has (RT_DEVICE_OFLAG_RDWR OR RT_DEVICE_FLAG_STREAM) RT_DEVICE_FLAG_DMA_TX"
  "\<not> has (RT_DEVICE_OFLAG_RDWR OR RT_DEVICE_FLAG_STREAM) RT_DEVICE_FLAG_INT_RX"
  "\<not> has (RT_DEVICE_OFLAG_RDWR OR RT_DEVICE_FLAG_STREAM) RT_DEVICE_FLAG_INT_TX"
  "has (RT_DEVICE_OFLAG_RDWR OR RT_DEVICE_FLAG_STREAM) RT_DEVICE_FLAG_STREAM"
  "\<not> has (RT_DEVICE_OFLAG_RDWR OR RT_DEVICE_FLAG_INT_RX OR RT_DEVICE_FLAG_STREAM) RT_DEVICE_FLAG_DMA_RX"
  "\<not> has (RT_DEVICE_OFLAG_RDWR OR RT_DEVICE_FLAG_INT_RX OR RT_DEVICE_FLAG_STREAM) RT_DEVICE_FLAG_DMA_TX"
  "has (RT_DEVICE_OFLAG_RDWR OR RT_DEVICE_FLAG_INT_RX OR RT_DEVICE_FLAG_STREAM) RT_DEVICE_FLAG_INT_RX"
  "\<not> has (RT_DEVICE_OFLAG_RDWR OR RT_DEVICE_FLAG_INT_RX OR RT_DEVICE_FLAG_STREAM) RT_DEVICE_FLAG_INT_TX"
  "has (RT_DEVICE_OFLAG_RDWR OR RT_DEVICE_FLAG_INT_RX OR RT_DEVICE_FLAG_STREAM) RT_DEVICE_FLAG_STREAM"
  "((RT_DEVICE_OFLAG_RDWR OR RT_DEVICE_FLAG_STREAM) AND 255 OR RT_DEVICE_FLAG_STREAM) OR RT_DEVICE_OFLAG_OPEN = console_flags"
  "(((RT_DEVICE_OFLAG_RDWR OR RT_DEVICE_FLAG_INT_RX OR RT_DEVICE_FLAG_STREAM) AND 255 OR RT_DEVICE_FLAG_INT_RX) OR
     RT_DEVICE_FLAG_STREAM) OR RT_DEVICE_OFLAG_OPEN = shell_flags"
  by (simp_all add: has_def console_flag_defs rt_consts)

text \<open>The console opens the registered device, and the shell opens it again.\<close>

lemma console_opens:
  "rt_device_open serial_fresh (RT_DEVICE_OFLAG_RDWR OR RT_DEVICE_FLAG_STREAM) =
     (RT_EOK, serial_fresh\<lparr>dflag := uart_dflag OR RT_DEVICE_FLAG_ACTIVATED, open_flag := console_flags, ref_count := 1\<rparr>)"
  by (simp add: rt_device_open_def rt_serial_init_def rt_serial_open_def serial_fresh_def Let_def)

lemma shell_opens:
  assumes "console_dev False d"
  shows "rt_device_open d (RT_DEVICE_OFLAG_RDWR OR RT_DEVICE_FLAG_INT_RX OR RT_DEVICE_FLAG_STREAM) =
     (RT_EOK, d\<lparr>open_flag := shell_flags, serial_rx := Some rx_fifo_new, ref_count := 2\<rparr>)"
  using assms by (simp add: console_dev_def rt_device_open_def rt_serial_open_def Let_def split: option.splits)

text \<open>The device under the console is open, in stream mode, and has a user.\<close>

lemma console_devD:
  assumes "console_dev b d"
  shows "has (open_flag d) RT_DEVICE_OFLAG_OPEN" "has (open_flag d) RT_DEVICE_FLAG_STREAM" "ref_count d \<noteq> 0"
    "has (open_flag d) RT_DEVICE_FLAG_INT_RX = b"
  using assms by (cases b; simp add: console_dev_def)+

lemma console_dev_fields [simp]:
  "console_dev b (d\<lparr>hw_tx := t\<rparr>) = console_dev b d" "console_dev b (d\<lparr>hw_rx := t\<rparr>) = console_dev b d"
  "console_dev b (d\<lparr>rx_indicate := ri\<rparr>) = console_dev b d" "console_dev b (rt_device_set_rx_indicate d cb) = console_dev b d"
  by (simp_all add: console_dev_def rt_device_set_rx_indicate_def)

text \<open>What is written to it leaves with a carriage return before each line feed.\<close>

lemma console_write:
  "console_dev b d \<Longrightarrow> snd (rt_device_write d cs) = d\<lparr>hw_tx := hw_tx d @ serial_poll_tx True cs\<rparr>"
  by (simp add: rt_device_write_tx console_devD)

lemma kputs_console:
  assumes "console_device k = Some h" "devs k h = Some d" "console_dev b d"
  shows "rt_kputs s k = k\<lparr>devs := (devs k)(h \<mapsto> d\<lparr>hw_tx := hw_tx d @ serial_poll_tx True (map of_char s)\<rparr>)\<rparr>"
proof -
  have o: "open_flag d OR RT_DEVICE_FLAG_STREAM = open_flag d" using assms(3) by (simp add: console_dev_def)
  show ?thesis using assms(1,2) by (simp add: rt_kputs_def o console_write [OF assms(3)])
qed

lemma kputs_up:
  assumes "console_up k"
  shows "console_up (rt_kputs s k)" "n \<noteq> ''uart1'' \<Longrightarrow> devs (rt_kputs s k) n = devs k n" "heap_ok (rt_kputs s k) = heap_ok k"
    "shell (rt_kputs s k) = shell k" "threads (rt_kputs s k) = threads k"
proof -
  obtain d sh where d: "console_device k = Some ''uart1''" "devs k ''uart1'' = Some d" "shell k = Some sh"
    "sh_device sh = None \<or> sh_device sh = Some ''uart1''" "console_dev (sh_device sh \<noteq> None) d"
    using assms by (auto simp: console_up_def)
  note e = kputs_console [OF d(1,2,5), of s]
  show "console_up (rt_kputs s k)" using d by (simp add: e console_up_def)
  show "n \<noteq> ''uart1'' \<Longrightarrow> devs (rt_kputs s k) n = devs k n" "heap_ok (rt_kputs s k) = heap_ok k" "shell (rt_kputs s k) = shell k"
    "threads (rt_kputs s k) = threads k"
    by (simp_all add: e)
qed

text \<open>The shell's first step opens the console once; later it would find the device its own.\<close>

lemma shell_starts:
  assumes "console_up k" "devs k ''uart1'' = Some d" "shell k = Some sh" "sh_device sh = None"
  shows "finsh_thread_start k = Some (rt_kputs ''msh >'' (k\<lparr>shell := Some (sh\<lparr>sh_device := Some ''uart1''\<rparr>),
     devs := (devs k)(''uart1'' \<mapsto> d\<lparr>open_flag := shell_flags, serial_rx := Some rx_fifo_new, ref_count := 2,
       rx_indicate := Some ''finsh_rx_ind''\<rparr>)\<rparr>))"
proof -
  have d: "console_device k = Some ''uart1''" "console_dev False d" using assms by (simp_all add: console_up_def)
  have "open_named ''uart1'' (RT_DEVICE_OFLAG_RDWR OR RT_DEVICE_FLAG_INT_RX OR RT_DEVICE_FLAG_STREAM) k =
      (RT_EOK, k\<lparr>devs := (devs k)(''uart1'' \<mapsto> d\<lparr>open_flag := shell_flags, serial_rx := Some rx_fifo_new, ref_count := 2\<rparr>)\<rparr>)"
    by (simp add: open_named_def assms(2) shell_opens [OF d(2)])
  then show ?thesis
    using assms(2-4) d(1) by (simp add: finsh_thread_start_def finsh_set_device_def rt_device_find_def rt_device_set_rx_indicate_def)
qed

lemma shell_start_up:
  assumes "console_up k"
  shows "\<exists>k'. finsh_thread_start k = Some k' \<and> console_up k' \<and> heap_ok k' = heap_ok k \<and> (\<forall>n. n \<noteq> ''uart1'' \<longrightarrow> devs k' n = devs k n)"
proof -
  obtain d sh where d: "console_device k = Some ''uart1''" "devs k ''uart1'' = Some d" "shell k = Some sh"
    "sh_device sh = None \<or> sh_device sh = Some ''uart1''" "console_dev (sh_device sh \<noteq> None) d"
    using assms by (auto simp: console_up_def)
  show ?thesis
  proof (cases "sh_device sh")
    case None
    define k1 where "k1 = k\<lparr>shell := Some (sh\<lparr>sh_device := Some ''uart1''\<rparr>), devs := (devs k)(''uart1'' \<mapsto>
      d\<lparr>open_flag := shell_flags, serial_rx := Some rx_fifo_new, ref_count := 2, rx_indicate := Some ''finsh_rx_ind''\<rparr>)\<rparr>"
    have u: "console_up k1" using d None by (simp add: console_up_def k1_def console_dev_def)
    note p = kputs_up [OF u, where s = "''msh >''"]
    have "\<forall>n. n \<noteq> ''uart1'' \<longrightarrow> devs (rt_kputs ''msh >'' k1) n = devs k n" using p(2) by (simp add: k1_def)
    moreover have "heap_ok (rt_kputs ''msh >'' k1) = heap_ok k" using p(3) by (simp add: k1_def)
    ultimately show ?thesis using shell_starts [OF assms d(2,3) None] p(1) by (simp flip: k1_def)
  next
    case (Some h)
    then have "finsh_thread_start k = Some (rt_kputs ''msh >'' k)" using d by (simp add: finsh_thread_start_def)
    then show ?thesis using kputs_up [OF assms] by simp
  qed
qed

subsection \<open>The kernel when \<^verbatim>\<open>main\<close> begins\<close>

lemma rtk0_devs:
  "devs rtk0 n = (if n = ''uart1'' then Some (serial_fresh\<lparr>dflag := uart_dflag OR RT_DEVICE_FLAG_ACTIVATED, open_flag := console_flags,
      ref_count := 1\<rparr>) else if n \<in> set uart_obj then Some serial_fresh else None)" (is ?d)
  and rtk0_fields: "heap_ok rtk0" "console_device rtk0 = Some ''uart1''" "shell rtk0 = Some \<lparr>sh_device = None, sh_rx_sem = 0\<rparr>"
    "threads rtk0 = [''tshell'']" "delays rtk0 = []"
proof -
  have r: "serial_fresh\<lparr>dflag := uart_dflag, rx_indicate := None, ref_count := 0, open_flag := 0\<rparr> = serial_fresh"
    by (simp add: serial_fresh_def)
  define k1 where "k1 = rt_hw_usart_init kernel_reset"
  have k1: "k1 = kernel_reset\<lparr>devs := (\<lambda>n. if n \<in> set uart_obj then Some serial_fresh else None)\<rparr>"
    by (simp add: k1_def rt_hw_usart_init_def rt_hw_serial_register_def r uart_obj_def kernel_reset_def fun_eq_iff)
  have u: "devs k1 ''uart1'' = Some serial_fresh" "console_device k1 = None" by (simp_all add: k1 uart_obj_def kernel_reset_def)
  have "rt_hw_board_init kernel_reset = Some (k1\<lparr>devs := (devs k1)(''uart1'' \<mapsto> serial_fresh\<lparr>dflag := uart_dflag OR
      RT_DEVICE_FLAG_ACTIVATED, open_flag := console_flags, ref_count := 1\<rparr>), console_device := Some ''uart1''\<rparr>)"
    using u by (simp add: rt_hw_board_init_def rt_console_set_device_def rt_device_find_def open_named_def console_opens
        RT_CONSOLE_DEVICE_NAME_def Let_def flip: k1_def)
  then show ?d "heap_ok rtk0" "console_device rtk0 = Some ''uart1''" "shell rtk0 = Some \<lparr>sh_device = None, sh_rx_sem = 0\<rparr>"
    "threads rtk0 = [''tshell'']" "delays rtk0 = []"
    by (simp_all add: rtk0_def k1 kernel_reset_def finsh_system_init_def rt_thread_create_def rt_thread_startup_def uart_obj_def)
qed

lemma rtk0_console: "console_up rtk0"
  by (simp add: console_up_def rtk0_devs rtk0_fields console_dev_def serial_fresh_def)

end
