(* ===== verification/Uart_Send.thy ===== *)
theory Uart_Send
  imports Uart_Port Console
begin

text \<open>
  What a transmission through a port's driver does, whether or not the port was opened before: the
  first call opens the device and starts the receive thread, and every call puts the first 200
  bytes on the wire. The protocol theories use these lemmas only.
\<close>

text \<open>The bytes a device has sent.\<close>

definition tx_of :: "rtk \<Rightarrow> string \<Rightarrow> bytes" where
  "tx_of k name = (case devs k name of None \<Rightarrow> [] | Some d \<Rightarrow> hw_tx d)"

definition device_up :: "rtk \<Rightarrow> string \<Rightarrow> bool" where
  "device_up k name \<longleftrightarrow> (\<exists>d. devs k name = Some d \<and> has (open_flag d) RT_DEVICE_OFLAG_OPEN \<and>
     \<not> has (open_flag d) RT_DEVICE_FLAG_STREAM \<and> ref_count d \<noteq> 0)"

text \<open>A registered device nobody has opened, whose driver supports interrupt receive.\<close>

definition device_fresh :: "rtk \<Rightarrow> string \<Rightarrow> bool" where
  "device_fresh k name \<longleftrightarrow> (\<exists>d. devs k name = Some d \<and> dflag d = uart_dflag \<and>
     open_flag d = 0 \<and> ref_count d = 0 \<and> configure_result d = RT_EOK)"

definition port_up :: "string \<Rightarrow> rtk \<Rightarrow> uart_port \<Rightarrow> bool" where
  "port_up name k p \<longleftrightarrow> port_dev p = Some name \<and> rx_sem_inited p \<and> rx_thread p \<noteq> None \<and> device_up k name"

definition port_fresh :: "string \<Rightarrow> rtk \<Rightarrow> uart_port \<Rightarrow> bool" where
  "port_fresh name k p \<longleftrightarrow> port_dev p = None \<and> \<not> rx_sem_inited p \<and> rx_thread p = None \<and>
     device_fresh k name \<and> heap_ok k"

definition port_ready :: "string \<Rightarrow> rtk \<Rightarrow> uart_port \<Rightarrow> bool" where
  "port_ready name k p \<longleftrightarrow> port_up name k p \<or> port_fresh name k p"

lemma flag_facts:
  "has 0 RT_DEVICE_OFLAG_OPEN = False" "has 0 RT_DEVICE_FLAG_STREAM = False"
  by (simp_all add: has_def rt_consts)

lemma opened_flags:
  "has (((RT_DEVICE_OFLAG_RDWR OR RT_DEVICE_FLAG_INT_RX) AND 255 OR RT_DEVICE_FLAG_INT_RX) OR RT_DEVICE_OFLAG_OPEN) RT_DEVICE_FLAG_STREAM = False"
  "has ((RT_DEVICE_OFLAG_RDWR AND 255) OR RT_DEVICE_OFLAG_OPEN) RT_DEVICE_FLAG_STREAM = False"
  by (simp_all add: has_def rt_consts)

lemma open_fresh:
  assumes "devs k name = Some d" "dflag d = uart_dflag"
    "open_flag d = 0" "ref_count d = 0" "configure_result d = RT_EOK"
    "f = RT_DEVICE_OFLAG_RDWR OR RT_DEVICE_FLAG_INT_RX \<or> f = RT_DEVICE_OFLAG_RDWR"
  obtains d' where "rt_device_open d f = (RT_EOK, d')"
    "has (open_flag d') RT_DEVICE_OFLAG_OPEN" "\<not> has (open_flag d') RT_DEVICE_FLAG_STREAM"
    "ref_count d' = 1" "hw_tx d' = hw_tx d"
  using assms(6)
proof
  assume f: "f = RT_DEVICE_OFLAG_RDWR OR RT_DEVICE_FLAG_INT_RX"
  show ?thesis
    by (rule that [of "snd (rt_device_open d f)"])
      (use assms(2-5) in \<open>simp_all add: f rt_device_open_def rt_serial_init_def rt_serial_open_def flag_facts opened_flags Let_def\<close>)
next
  assume f: "f = RT_DEVICE_OFLAG_RDWR"
  show ?thesis
    by (rule that [of "snd (rt_device_open d f)"])
      (use assms(2-5) in \<open>simp_all add: f rt_device_open_def rt_serial_init_def rt_serial_open_def flag_facts opened_flags Let_def\<close>)
qed

text \<open>After any open of a ready port it is up, and nothing was sent.\<close>

lemma port_open_ready:
  assumes "port_ready name k p" "uart_port_open name ri th (k, p) = (r, k', p')"
  shows "r = RT_EOK \<and> port_up name k' p' \<and> tx_of k' = tx_of k \<and> ActiveBuffer p' = ActiveBuffer p \<and>
    (\<forall>n. n \<noteq> name \<longrightarrow> devs k' n = devs k n) \<and> heap_ok k' = heap_ok k"
  using assms(1) unfolding port_ready_def
proof
  assume up: "port_up name k p"
  then obtain d where d: "devs k name = Some d" "has (open_flag d) RT_DEVICE_OFLAG_OPEN"
    "\<not> has (open_flag d) RT_DEVICE_FLAG_STREAM" "ref_count d \<noteq> 0" and
    t: "port_dev p = Some name" "rx_sem_inited p" "rx_thread p \<noteq> None"
    by (auto simp: port_up_def device_up_def)
  then show ?thesis
    using assms(2)
    by (auto simp: uart_port_open_def open_device_def set_rx_indicate_def rt_device_set_rx_indicate_def Let_def
        port_up_def device_up_def tx_of_def fun_eq_iff split: option.splits if_splits)
next
  assume fr: "port_fresh name k p"
  then obtain d where d: "devs k name = Some d" "dflag d = uart_dflag"
     "open_flag d = 0" "ref_count d = 0" "configure_result d = RT_EOK"
    and t: "port_dev p = None" "\<not> rx_sem_inited p" "rx_thread p = None" "heap_ok k"
    by (auto simp: port_fresh_def device_fresh_def)
  obtain d' where o: "rt_device_open d (RT_DEVICE_OFLAG_RDWR OR RT_DEVICE_FLAG_INT_RX) = (RT_EOK, d')"
    "has (open_flag d') RT_DEVICE_OFLAG_OPEN" "\<not> has (open_flag d') RT_DEVICE_FLAG_STREAM"
    "ref_count d' = 1" "hw_tx d' = hw_tx d"
    using open_fresh [OF d] by blast
  show ?thesis
    using assms(2) d(1,3) t o
    by (auto simp: uart_port_open_def open_device_def set_rx_indicate_def rt_device_set_rx_indicate_def Let_def
        rt_device_find_def rt_thread_create_def rt_thread_startup_def flag_facts
        port_up_def device_up_def tx_of_def fun_eq_iff)
qed

text \<open>
  A transmission on a ready port: the first 200 bytes are sent, the port is up afterwards, the
  other devices are untouched.
\<close>

lemma uart_send_ready:
  assumes "port_ready name k p" "cs \<noteq> []" "uart_send name ri th (Some cs) (k, p) = (k', p')"
  shows "port_up name k' p' \<and> tx_of k' name = tx_of k name @ take TX_LEN cs \<and>
    (\<forall>n. n \<noteq> name \<longrightarrow> devs k' n = devs k n) \<and> heap_ok k' = heap_ok k"
proof -
  obtain r k1 p1 where o: "uart_port_open name ri th (k, p) = (r, k1, p1)" by (metis prod_cases3)
  note f = port_open_ready [OF assms(1) o]
  then obtain d where d: "devs k1 name = Some d" "has (open_flag d) RT_DEVICE_OFLAG_OPEN"
    "\<not> has (open_flag d) RT_DEVICE_FLAG_STREAM" "ref_count d \<noteq> 0" "port_dev p1 = Some name"
    by (auto simp: port_up_def device_up_def)
  have "tx_of k name = hw_tx d" using f d(1) by (simp add: tx_of_def flip: fun_eq_iff) (metis option.simps(5) tx_of_def)
  then show ?thesis
    using assms(2,3) f d o
    by (auto simp: uart_send_def Let_def device_write_def rt_device_write_tx port_up_def device_up_def tx_of_def
        split: if_splits)
qed

lemma uart_send_nothing: "uart_send name ri th (Some []) kp = kp" "uart_send name ri th None kp = kp"
  by (simp_all add: uart_send_def)

text \<open>
  The first transmission on a port opens the device, starts the receive thread and
  sends; later ones only send. Either way exactly the first 200 bytes go out, after what was sent
  before, and no other device is touched.
\<close>

theorem uart_send_sends:
  assumes "port_ready name k p" "cs \<noteq> []"
  shows "port_up name (fst (uart_send name ri th (Some cs) (k, p))) (snd (uart_send name ri th (Some cs) (k, p))) \<and>
    tx_of (fst (uart_send name ri th (Some cs) (k, p))) name = tx_of k name @ take TX_LEN cs \<and>
    (\<forall>n. n \<noteq> name \<longrightarrow> devs (fst (uart_send name ri th (Some cs) (k, p))) n = devs k n)"
  using uart_send_ready [OF assms prod.collapse [symmetric]] by blast

text \<open>What a port's receive thread works on; transmissions do not touch it.\<close>

definition inbox :: "uart_port \<Rightarrow> bytes \<times> nat \<times> bytes \<times> nat \<times> nat" where
  "inbox p = (parse_buf p, parse_len p, RX_BUF p, length (BufferA p), length (BufferB p))"

lemma send_inbox:
  assumes "uart_port_wf p" "uart_send n ri th data (k, p) = (k', p')" shows "inbox p' = inbox p"
proof -
  have o: "uart_port_open n ri th (k, p) = (r, k1, p1) \<Longrightarrow> inbox p1 = inbox p" for r k1 p1
    by (auto simp: uart_port_open_def inbox_def Let_def split: option.splits if_splits prod.splits)
  obtain r k1 p1 where 1: "uart_port_open n ri th (k, p) = (r, k1, p1)" by (cases "uart_port_open n ri th (k, p)") auto
  have "length (BufferA p1) = TX_LEN" "length (BufferB p1) = TX_LEN"
    using assms(1) o [OF 1] by (auto simp: inbox_def uart_port_wf_def)
  then show ?thesis
    using assms(2) o [OF 1] by (auto simp: uart_send_def 1 inbox_def Let_def split: option.splits if_splits)
qed

lemma send_sem:
  assumes "uart_send n ri th data (k, p) = (k', p')"
  shows "rx_sem p' = rx_sem p \<or> \<not> rx_sem_inited p \<and> rx_sem p' = 0"
proof -
  have o: "uart_port_open n ri th (k, p) = (r, k1, p1) \<Longrightarrow> rx_sem p1 = rx_sem p \<or> \<not> rx_sem_inited p \<and> rx_sem p1 = 0" for r k1 p1
    by (auto simp: uart_port_open_def Let_def split: option.splits if_splits prod.splits)
  obtain r k1 p1 where 1: "uart_port_open n ri th (k, p) = (r, k1, p1)" by (cases "uart_port_open n ri th (k, p)") auto
  show ?thesis using assms o [OF 1] by (auto simp: uart_send_def 1 Let_def split: option.splits if_splits)
qed

subsection \<open>The console's port\<close>

text \<open>
  \<^verbatim>\<open>uart1\<close> is open before its port's driver sees it, with the shell or without. The driver's own
  variables are as they were or fully set up.
\<close>

definition statics_up :: "string \<Rightarrow> uart_port \<Rightarrow> bool" where
  "statics_up name p \<longleftrightarrow> port_dev p = Some name \<and> rx_sem_inited p \<and> rx_thread p \<noteq> None"

definition statics_fresh :: "uart_port \<Rightarrow> bool" where
  "statics_fresh p \<longleftrightarrow> port_dev p = None \<and> \<not> rx_sem_inited p \<and> rx_thread p = None"

definition console_ready :: "rtk \<Rightarrow> uart_port \<Rightarrow> bool" where
  "console_ready k p \<longleftrightarrow> console_up k \<and> (statics_up ''uart1'' p \<or> statics_fresh p \<and> heap_ok k)"

lemma console_open_frame:
  assumes "console_ready k p" "devs k ''uart1'' = Some d" "uart_port_open ''uart1'' ri th (k, p) = (r, k', p')"
  shows "r = RT_EOK \<and> statics_up ''uart1'' p' \<and> ActiveBuffer p' = ActiveBuffer p \<and>
    (\<exists>ts. k' = k\<lparr>devs := (devs k)(''uart1'' \<mapsto> rt_device_set_rx_indicate d ri), threads := ts\<rparr>)"
proof -
  have o: "has (open_flag d) RT_DEVICE_OFLAG_OPEN"
    using assms(1,2) by (auto simp: console_ready_def console_up_def console_devD)
  have d: "open_device ''uart1'' f k = (RT_EOK, k)" for f by (simp add: open_device_def assms(2) o)
  have i: "set_rx_indicate ''uart1'' ri k = k\<lparr>devs := (devs k)(''uart1'' \<mapsto> rt_device_set_rx_indicate d ri)\<rparr>"
    by (simp add: set_rx_indicate_def assms(2))
  have up: ?thesis if "statics_up ''uart1'' p"
    using that assms(3) by (auto simp: uart_port_open_def statics_up_def d i intro!: exI [of _ "threads k"])
  have ?thesis if "statics_fresh p" "heap_ok k"
    using that assms(2,3) by (auto simp: uart_port_open_def statics_up_def statics_fresh_def rt_device_find_def d i rt_thread_create_def
      rt_thread_startup_def)
  then show ?thesis using up assms(1) by (auto simp: console_ready_def)
qed

text \<open>
  A transmission on the console's port takes the receive callback over, and its bytes leave in
  stream mode.
\<close>

lemma console_send:
  assumes "console_ready k p" "devs k ''uart1'' = Some d" "cs \<noteq> []" "uart_send ''uart1'' ri th (Some cs) (k, p) = (k', p')"
  shows "statics_up ''uart1'' p' \<and> (\<exists>ts. k' = k\<lparr>devs := (devs k)(''uart1'' \<mapsto>
    d\<lparr>rx_indicate := Some ri, hw_tx := hw_tx d @ serial_poll_tx True (take TX_LEN cs)\<rparr>), threads := ts\<rparr>)"
proof -
  obtain r k1 p1 where o: "uart_port_open ''uart1'' ri th (k, p) = (r, k1, p1)" by (metis prod_cases3)
  from console_open_frame [OF assms(1,2) o] obtain ts where f: "r = RT_EOK" "statics_up ''uart1'' p1"
    "k1 = k\<lparr>devs := (devs k)(''uart1'' \<mapsto> rt_device_set_rx_indicate d ri), threads := ts\<rparr>" by blast
  obtain b where b: "console_dev b d" using assms(1,2) by (auto simp: console_ready_def console_up_def)
  then have "console_dev b (rt_device_set_rx_indicate d ri)" by simp
  note w = console_write [OF this, of "take TX_LEN cs", unfolded rt_device_set_rx_indicate_def]
  have p: "port_dev p1 = Some ''uart1''" using f(2) by (simp add: statics_up_def)
  show ?thesis
    using assms(3,4) o f(1) p f(2)
    by (intro conjI exI [of _ ts])
      (auto simp: uart_send_def Let_def device_write_def f(3) w rt_device_set_rx_indicate_def statics_up_def split: if_splits)
qed

lemma console_send_ready:
  assumes "console_ready k p" "cs \<noteq> []" "uart_send ''uart1'' ri th (Some cs) (k, p) = (k', p')"
  shows "console_ready k' p'" "statics_up ''uart1'' p'" "tx_of k' ''uart1'' = tx_of k ''uart1'' @ serial_poll_tx True (take TX_LEN cs)"
    "n \<noteq> ''uart1'' \<Longrightarrow> devs k' n = devs k n" "heap_ok k' = heap_ok k"
proof -
  obtain d sh where d: "devs k ''uart1'' = Some d" "console_device k = Some ''uart1''" "shell k = Some sh"
    "sh_device sh = None \<or> sh_device sh = Some ''uart1''" "console_dev (sh_device sh \<noteq> None) d"
    using assms(1) by (auto simp: console_ready_def console_up_def)
  from console_send [OF assms(1) d(1) assms(2,3)] obtain ts where s: "statics_up ''uart1'' p'"
    "k' = k\<lparr>devs := (devs k)(''uart1'' \<mapsto> d\<lparr>rx_indicate := Some ri, hw_tx := hw_tx d @ serial_poll_tx True (take TX_LEN cs)\<rparr>),
       threads := ts\<rparr>" by blast
  show "console_ready k' p'" "statics_up ''uart1'' p'" "tx_of k' ''uart1'' = tx_of k ''uart1'' @ serial_poll_tx True (take TX_LEN cs)"
    "n \<noteq> ''uart1'' \<Longrightarrow> devs k' n = devs k n" "heap_ok k' = heap_ok k"
    using s d by (simp_all add: console_ready_def console_up_def tx_of_def)
qed

text \<open>The transmissions on the other lines leave the console alone, and the console's the other lines.\<close>

lemma send_kernel:
  "console_device (fst (uart_send name ri th data (k, p))) = console_device k"
  "shell (fst (uart_send name ri th data (k, p))) = shell k"
proof -
  have o: "console_device (fst (snd (uart_port_open name ri th (k, p)))) = console_device k"
      "shell (fst (snd (uart_port_open name ri th (k, p)))) = shell k"
    by (auto simp: uart_port_open_def open_device_def set_rx_indicate_def rt_thread_startup_def rt_thread_create_def Let_def
        split: option.split prod.split)
  obtain r k1 p1 where e: "uart_port_open name ri th (k, p) = (r, k1, p1)" by (metis prod_cases3)
  show "console_device (fst (uart_send name ri th data (k, p))) = console_device k"
    "shell (fst (uart_send name ri th data (k, p))) = shell k"
    using o by (auto simp: uart_send_def e device_write_def Let_def split: option.split)
qed

lemma console_elsewhere:
  assumes "devs k' ''uart1'' = devs k ''uart1''" "heap_ok k' = heap_ok k" "console_device k' = console_device k" "shell k' = shell k"
  shows "console_ready k' p = console_ready k p"
  using assms by (simp add: console_ready_def console_up_def)

subsection \<open>Before the first transmission\<close>

lemma rtk0_device_fresh:
  "n \<in> set [''uart2'', ''uart3'', ''uart4'', ''uart5'', ''uart6''] \<Longrightarrow> device_fresh rtk0 n"
  by (auto simp: device_fresh_def rtk0_devs uart_obj_def serial_fresh_def)

lemma rtk0_fresh:
  "n \<in> set [''uart2'', ''uart3'', ''uart4'', ''uart5'', ''uart6''] \<Longrightarrow> port_ready n rtk0 uart_port0"
  using rtk0_device_fresh [of n] rtk0_fields(1) by (simp add: port_ready_def port_fresh_def uart_port0_def)

lemma rtk0_tx [simp]: "tx_of rtk0 n = []"
  by (simp add: tx_of_def rtk0_devs serial_fresh_def)

lemma rtk0_console_ready: "console_ready rtk0 uart_port0"
  using rtk0_console rtk0_fields(1) by (simp add: console_ready_def statics_fresh_def uart_port0_def)

theorem uart_send_sends_witness:
  "port_up ''uart5'' (fst (uart_send ''uart5'' ''cb'' ''u5rx'' (Some [1, 2]) (rtk0, uart_port0)))
      (snd (uart_send ''uart5'' ''cb'' ''u5rx'' (Some [1, 2]) (rtk0, uart_port0))) \<and>
    tx_of (fst (uart_send ''uart5'' ''cb'' ''u5rx'' (Some [1, 2]) (rtk0, uart_port0))) ''uart5'' = [1, 2] \<and>
    devs (fst (uart_send ''uart5'' ''cb'' ''u5rx'' (Some [1, 2]) (rtk0, uart_port0))) ''uart4'' =
      devs rtk0 ''uart4''"
proof -
  have r: "port_ready ''uart5'' rtk0 uart_port0" by (simp add: rtk0_fresh)
  have "take TX_LEN [1, 2 :: u8] = [1, 2]" by (simp add: TX_LEN_def)
  with uart_send_sends [OF r, of "[1, 2]" "''cb''" "''u5rx''"] show ?thesis by simp
qed

end
