(* ===== verification/Imu.thy ===== *)
theory Imu
  imports Globals
begin

text \<open>
  The attitude sensor's frames (\<^verbatim>\<open>HWT101_DataProc\<close> in \<^verbatim>\<open>Software/Usart2DMA_IMU.c\<close>): eleven bytes
  starting with \<^verbatim>\<open>55 53\<close>, three little-endian 16-bit angles. As with the distance sensor, \<open>m\<close> is the
  receive thread's buffer and \<open>base\<close> the pointer into it.
\<close>

definition HWT101_FRAME_LEN :: nat where "HWT101_FRAME_LEN = 11"

text \<open>\<^verbatim>\<open>((int16_t)((int16_t)hi << 8 | (int16_t)lo)) / 32768.0f * 180.0f\<close>\<close>

definition imu_angle :: "u8 \<Rightarrow> u8 \<Rightarrow> f32" where
  "imu_angle hi lo = fmul (fdiv (f32_of_int (sint (join16 hi lo))) (flit 32768)) (flit 180)"

definition imu_take :: "bytes \<Rightarrow> nat \<Rightarrow> 'a globals_scheme \<Rightarrow> 'a globals_scheme option" where
  "imu_take m p w =
     Option.bind (rd m (p + 2)) (\<lambda>rl. Option.bind (rd m (p + 3)) (\<lambda>rh.
     Option.bind (rd m (p + 4)) (\<lambda>pl. Option.bind (rd m (p + 5)) (\<lambda>ph.
     Option.bind (rd m (p + 6)) (\<lambda>yl. Option.bind (rd m (p + 7)) (\<lambda>yh.
       Some (w\<lparr>Roll := imu_angle rh rl, Pitch := imu_angle ph pl, Yaw := imu_angle yh yl,
               Obspack := (Obspack w)[3 := yl, 2 := yh]\<rparr>)))))))"

definition imu_at :: "bytes \<Rightarrow> nat \<Rightarrow> nat \<Rightarrow> nat \<Rightarrow> 'a globals_scheme \<Rightarrow> 'a globals_scheme option" where
  "imu_at m base Size i w =
     if_opt (and_then (Some (i + 7 < Size)) (and_then (rd_eq m (base + i) 0x55) (rd_eq m (base + i + 1) 0x53)))
       (imu_take m (base + i) w) (Some w)"

definition HWT101_DataProc :: "bytes \<Rightarrow> nat \<Rightarrow> nat \<Rightarrow> 'a globals_scheme \<Rightarrow> 'a globals_scheme option" where
  "HWT101_DataProc m base Size w = for_each (imu_at m base Size) [0..<Size - 1] w"

subsection \<open>The abstract decoder\<close>

definition imu_frame :: "bytes \<Rightarrow> bool" where
  "imu_frame f \<longleftrightarrow> length f = 11 \<and> f ! 0 = 0x55 \<and> f ! 1 = 0x53"

definition imu_load :: "bytes \<Rightarrow> nat \<Rightarrow> 'a globals_scheme \<Rightarrow> 'a globals_scheme" where
  "imu_load f k w = w\<lparr>Roll := imu_angle (f ! (k + 3)) (f ! (k + 2)), Pitch := imu_angle (f ! (k + 5)) (f ! (k + 4)),
     Yaw := imu_angle (f ! (k + 7)) (f ! (k + 6)), Obspack := (Obspack w)[3 := f ! (k + 6), 2 := f ! (k + 7)]\<rparr>"

text \<open>
  What the decoder does with a whole frame: it takes the angles at offset 0, and again at offsets
  1 to 3 if the payload happens to contain the header there.
\<close>

definition imu_apply :: "bytes \<Rightarrow> 'a globals_scheme \<Rightarrow> 'a globals_scheme" where
  "imu_apply f w = fold (\<lambda>k w. if f ! k = 0x55 \<and> f ! (k + 1) = 0x53 then imu_load f k w else w) [0..<4] w"

lemma for_each_cong:
  "(\<And>x s. x \<in> set xs \<Longrightarrow> f x s = g x s) \<Longrightarrow> for_each f xs s = for_each g xs s"
  by (induction xs arbitrary: s) (auto intro!: Option.bind_cong)

lemma for_each_Some: "for_each (\<lambda>x s. Some (f x s)) xs s = Some (fold f xs s)"
  by (induction xs arbitrary: s) simp_all

lemma HWT101_DataProc_frame:
  assumes "base + 11 \<le> length m"
  shows "HWT101_DataProc m base 11 w = Some (imu_apply (take 11 (drop base m)) w)"
proof -
  have nth: "take 11 (drop base m) ! k = m ! (base + k)" if "k < 11" for k
    using assms that by simp
  have idx: "[0..<11 - 1] = [0..<4] @ [4..<10]" by (simp add: upt_rec)
  have rest: "for_each (imu_at m base 11) [4..<10] w' = Some w'" for w'
    by (rule for_each_skip) (auto simp: imu_at_def arr_simps)
  have "for_each (imu_at m base 11) [0..<4] w =
      for_each (\<lambda>k w. Some ((if take 11 (drop base m) ! k = 0x55 \<and> take 11 (drop base m) ! (k + 1) = 0x53
        then imu_load (take 11 (drop base m)) k w else w))) [0..<4] w"
  proof (rule for_each_cong)
    fix k and v :: "'a globals_scheme" assume "k \<in> set [0..<4]"
    then have k: "k < 4" by simp
    show "imu_at m base 11 k v = Some (if take 11 (drop base m) ! k = 0x55 \<and> take 11 (drop base m) ! (k + 1) = 0x53
        then imu_load (take 11 (drop base m)) k v else v)"
      using k assms by (simp add: imu_at_def imu_take_def arr_simps nth imu_load_def add.assoc)
  qed
  then show ?thesis
    by (simp only: HWT101_DataProc_def idx for_each_append for_each_Some imu_apply_def Option.bind.simps rest)
qed

text \<open>The float computation of an angle is exact, whatever the two bytes.\<close>

lemma imu_angle_exact: "imu_angle hi lo = Fin (of_int (sint (join16 hi lo)) * 180 / 32768)"
proof -
  define n where "n = sint (join16 hi lo)"
  have n: "\<bar>n\<bar> \<le> 2 ^ 15"
    using sint_greater_eq [of "join16 hi lo"] sint_less [of "join16 hi lo"] by (simp add: n_def abs_le_iff)
  have b: "\<bar>of_int n :: rat\<bar> \<le> 2 ^ 15" using of_int_abs_le [OF n] by simp
  have i: "f32_of_int n = Fin (of_int n)" using n by (intro f32_of_int_exact) simp
  have "f32_rep (of_int n / 32768)"
    using n b by (intro f32_rep_dyadic [of _ n "-15"]) (auto simp: pow2_def)
  moreover have "f32_rep (of_int n * 180 / 32768)"
    using n b by (intro f32_rep_dyadic [of _ "180 * n" "-15"]) (auto simp: pow2_def)
  ultimately show ?thesis
    by (simp add: imu_angle_def i f32_round_rep flip: n_def)
qed

lemma imu_angle_mag: "f32_mag 180 (imu_angle hi lo)"
proof -
  define n where "n = sint (join16 hi lo)"
  have n: "\<bar>n\<bar> \<le> 2 ^ 15"
    using sint_greater_eq [of "join16 hi lo"] sint_less [of "join16 hi lo"] by (simp add: n_def abs_le_iff)
  have b: "\<bar>of_int n :: rat\<bar> \<le> 2 ^ 15" using of_int_abs_le [OF n] by simp
  have "f32_rep (of_int n * 180 / 32768)"
    using n b by (intro f32_rep_dyadic [of _ "180 * n" "-15"]) (auto simp: pow2_def)
  then show ?thesis using b by (auto simp: imu_angle_exact abs_le_iff simp flip: n_def)
qed

lemma imu_apply_first: "imu_frame f \<Longrightarrow> imu_apply f w =
    fold (\<lambda>k w. if f ! k = 0x55 \<and> f ! (k + 1) = 0x53 then imu_load f k w else w) [1..<4] (imu_load f 0 w)"
  by (simp add: imu_apply_def imu_frame_def upt_rec)

text \<open>The angles a frame leaves behind are in range.\<close>

definition attitude_ok :: "'a globals_scheme \<Rightarrow> bool" where
  "attitude_ok w \<longleftrightarrow> f32_mag 180 (Roll w) \<and> f32_mag 180 (Pitch w) \<and> f32_mag 180 (Yaw w)"

lemma imu_apply_ok: "imu_frame f \<Longrightarrow> attitude_ok (imu_apply f w)"
  unfolding imu_apply_first
  by (rule fold_invariant) (auto simp: attitude_ok_def imu_load_def imu_angle_mag)

subsection \<open>Encoding\<close>

text \<open>The sensor's frame for three raw angles; the last three bytes are its version and checksum.\<close>

definition imu_encode :: "u16 \<Rightarrow> u16 \<Rightarrow> u16 \<Rightarrow> u8 \<Rightarrow> u8 \<Rightarrow> u8 \<Rightarrow> bytes" where
  "imu_encode r p y vl vh c = [0x55, 0x53, byte_at 0 r, byte_at 8 r, byte_at 0 p, byte_at 8 p,
     byte_at 0 y, byte_at 8 y, vl, vh, c]"

definition imu_degrees :: "u16 \<Rightarrow> f32" where
  "imu_degrees w = Fin (of_int (sint w) * 180 / 32768)"

lemma imu_encode_frame [simp]: "imu_frame (imu_encode r p y vl vh c)"
  by (simp add: imu_frame_def imu_encode_def)

lemma imu_angle_bytes: "imu_angle (byte_at 8 w) (byte_at 0 w) = imu_degrees w"
  by (simp add: imu_angle_exact imu_degrees_def byte_simps)

lemma imu_apply_cases:
  assumes "length f = 11"
  shows "imu_apply f w = (let
     w = (if f ! 0 = 0x55 \<and> f ! 1 = 0x53 then imu_load f 0 w else w);
     w = (if f ! 1 = 0x55 \<and> f ! 2 = 0x53 then imu_load f 1 w else w);
     w = (if f ! 2 = 0x55 \<and> f ! 3 = 0x53 then imu_load f 2 w else w)
   in (if f ! 3 = 0x55 \<and> f ! 4 = 0x53 then imu_load f 3 w else w))"
proof -
  have "[0..<4] = [0, 1, 2, 3::nat]" by (simp add: upt_rec)
  then show ?thesis by (simp add: imu_apply_def Let_def del: One_nat_def)
qed

text \<open>
  C24 (roundtrip). For every attitude the sensor can send, unless the roll and pitch bytes happen to
  contain the frame header, the decoder recovers the three angles exactly (no rounding) and copies
  the yaw into the obstacle packet, high byte first.
\<close>

theorem imu_decode_encode:
  assumes "r \<noteq> 0x5355" "\<not> (byte_at 8 r = 0x55 \<and> byte_at 0 p = 0x53)" "length (Obspack w) = 7"
  shows "\<exists>w'. HWT101_DataProc (imu_encode r p y vl vh c) 0 HWT101_FRAME_LEN w = Some w' \<and>
    Roll w' = imu_degrees r \<and> Pitch w' = imu_degrees p \<and> Yaw w' = imu_degrees y \<and>
    [Obspack w' ! 2, Obspack w' ! 3] = be16 y"
proof -
  have r: "\<not> (byte_at 0 r = 0x55 \<and> byte_at 8 r = 0x53)"
  proof
    assume "byte_at 0 r = 0x55 \<and> byte_at 8 r = 0x53"
    then have "join16 (byte_at 8 r) (byte_at 0 r) = join16 0x53 0x55" by simp
    moreover have "join16 0x53 0x55 = 0x5355" by (simp add: join16_def)
    ultimately show False using assms(1) by (simp add: byte_simps)
  qed
  let ?f = "imu_encode r p y vl vh c"
  have f: "length ?f = 11" "take 11 (drop 0 ?f) = ?f" by (simp_all add: imu_encode_def)
  have "HWT101_DataProc ?f 0 HWT101_FRAME_LEN w = Some (imu_apply ?f w)"
    using HWT101_DataProc_frame [of 0 ?f w] f by (simp add: HWT101_FRAME_LEN_def)
  moreover have "imu_apply ?f w = imu_load ?f 0 w"
    unfolding imu_apply_cases [OF f(1)] using r assms(2) by (auto simp: imu_encode_def Let_def)
  ultimately show ?thesis
    using assms(3) by (simp add: imu_load_def imu_encode_def imu_angle_bytes be16_def)
qed

theorem imu_decode_encode_witness:
  "\<exists>w'. HWT101_DataProc (imu_encode 0x4000 0xC000 0x2000 0 0 0) 0 HWT101_FRAME_LEN globals0 = Some w' \<and>
    Roll w' = imu_degrees 0x4000 \<and> Pitch w' = imu_degrees 0xC000 \<and> Yaw w' = imu_degrees 0x2000 \<and>
    [Obspack w' ! 2, Obspack w' ! 3] = be16 0x2000"
  by (rule imu_decode_encode) (simp_all add: byte_at_def globals0_def globals.defs hw.defs)

text \<open>
  The exception is real: the decoder looks for the header inside the payload too, so
  the roll whose two bytes are \<^verbatim>\<open>55 53\<close> is reported as the pitch, the pitch as the yaw, and the yaw
  as the sensor's version bytes.
\<close>

theorem imu_header_in_payload:
  "\<exists>w'. HWT101_DataProc (imu_encode 0x5355 0 y vl vh c) 0 HWT101_FRAME_LEN w = Some w' \<and>
    Roll w' = imu_degrees 0 \<and> Pitch w' = imu_degrees y \<and> Yaw w' = imu_angle vh vl"
proof -
  let ?f = "imu_encode 0x5355 0 y vl vh c"
  have f: "length ?f = 11" "take 11 (drop 0 ?f) = ?f" by (simp_all add: imu_encode_def)
  have b: "byte_at 0 (0x5355 :: u16) = 0x55" "byte_at 8 (0x5355 :: u16) = 0x53"
    by (simp_all add: byte_at_def)
  have "HWT101_DataProc ?f 0 HWT101_FRAME_LEN w = Some (imu_apply ?f w)"
    using HWT101_DataProc_frame [of 0 ?f w] f by (simp add: HWT101_FRAME_LEN_def)
  moreover have "imu_apply ?f w = imu_load ?f 2 (imu_load ?f 0 w)"
    unfolding imu_apply_cases [OF f(1)] by (simp add: imu_encode_def Let_def b)
  ultimately show ?thesis by (simp add: imu_load_def imu_encode_def imu_angle_bytes)
qed

end
