(* ===== verification/Usart2_Port.thy ===== *)
theory Usart2_Port
  imports Frame_Scan Uart_Send Imu
begin

text \<open>
  The attitude sensor's UART (\<^verbatim>\<open>Hardware/usart2_port.c\<close>): the stream parser for eleven byte frames
  and the port's instance of the common driver.
\<close>

definition usart2_shift_left :: "bytes \<Rightarrow> nat \<Rightarrow> nat \<Rightarrow> bytes \<times> nat" where
  "usart2_shift_left = uart_shift_left"

definition usart2_frame_at :: "bytes \<Rightarrow> nat \<Rightarrow> bool option" where
  "usart2_frame_at buffer i = and_then (rd_eq buffer i 0x55) (rd_eq buffer (i + 1) 0x53)"

definition usart2_try_parse :: "('a globals_scheme) parser" where
  "usart2_try_parse buffer len w = scan_frames HWT101_FRAME_LEN usart2_frame_at HWT101_DataProc 0 buffer len w"

definition usart2_port_open :: "rtk \<times> uart_port \<Rightarrow> rt_err_t \<times> rtk \<times> uart_port" where
  "usart2_port_open = uart_port_open ''uart2'' ''usart2_rx_ind'' ''u2rx''"

definition Usart2DMA_Init :: "u32 \<Rightarrow> rtk \<times> uart_port \<Rightarrow> rtk \<times> uart_port" where
  "Usart2DMA_Init = uart_port_init ''uart2'' ''usart2_rx_ind'' ''u2rx''"

definition Usart2DMA_SendData :: "bytes option \<Rightarrow> rtk \<times> uart_port \<Rightarrow> rtk \<times> uart_port" where
  "Usart2DMA_SendData = uart_send ''uart2'' ''usart2_rx_ind'' ''u2rx''"

definition usart2_rx_ind :: "uart_port \<Rightarrow> uart_port" where
  "usart2_rx_ind = uart_rx_ind"

definition usart2_rx_entry ::
  "bytes list \<Rightarrow> uart_port \<times> 'a globals_scheme \<Rightarrow> (uart_port \<times> 'a globals_scheme) option" where
  "usart2_rx_entry = uart_rx_entry usart2_try_parse"

interpretation imu_rx: frame_scanner HWT101_FRAME_LEN usart2_frame_at HWT101_DataProc imu_frame imu_apply
proof
  fix i and buf :: bytes assume l: "i + HWT101_FRAME_LEN \<le> length buf"
  then have "take HWT101_FRAME_LEN (drop i buf) ! k = buf ! (i + k)" if "k < 11" for k
    using that by (simp add: HWT101_FRAME_LEN_def)
  from this [of 0] this [of 1] l
  show "usart2_frame_at buf i = Some (imu_frame (take HWT101_FRAME_LEN (drop i buf)))"
    by (simp add: usart2_frame_at_def imu_frame_def HWT101_FRAME_LEN_def arr_simps)
next
  fix i and buf :: bytes and w :: "'a globals_scheme"
  assume "i + HWT101_FRAME_LEN \<le> length buf" "imu_frame (take HWT101_FRAME_LEN (drop i buf))"
  then show "HWT101_DataProc buf i HWT101_FRAME_LEN w = Some (imu_apply (take HWT101_FRAME_LEN (drop i buf)) w)"
    using HWT101_DataProc_frame [of i buf w] by (simp add: HWT101_FRAME_LEN_def)
qed (simp_all add: HWT101_FRAME_LEN_def)

lemma usart2_rx_entry_eq: "usart2_rx_entry = uart_rx_entry (scan_frames HWT101_FRAME_LEN usart2_frame_at HWT101_DataProc 0)"
  unfolding usart2_rx_entry_def by (rule arg_cong [of _ _ uart_rx_entry]) (simp add: usart2_try_parse_def fun_eq_iff)

lemma frames_attitude_ok:
  "attitude_ok w \<Longrightarrow> attitude_ok (fold imu_apply (fst (frames_of L imu_frame xs)) w)"
  by (rule fold_invariant) (use frames_of_frames imu_apply_ok in blast)+

text \<open>
  Whatever the attitude sensor sends (noise included), and however it is cut into
  reads, the receive thread stays inside its buffers and roll, pitch and yaw remain finite and
  within half a turn.
\<close>

theorem usart2_attitude_in_range:
  assumes "attitude_ok w" "\<forall>c\<in>set chunks. c \<noteq> [] \<and> length c \<le> 300"
  shows "\<exists>p' w'. usart2_rx_entry chunks (uart_port0, w) = Some (p', w') \<and> uart_port_wf p' \<and> attitude_ok w'"
proof -
  have "parse_len uart_port0 < HWT101_FRAME_LEN" by (simp add: uart_port0_def HWT101_FRAME_LEN_def)
  from imu_rx.rx_entry_effect [OF uart_port0_wf this assms(2), of w] frames_attitude_ok [OF assms(1)]
  show ?thesis by (auto simp: usart2_rx_entry_eq frames_effect_def)
qed

theorem usart2_attitude_in_range_witness:
  "\<exists>p' w'. usart2_rx_entry [[0x55, 0x53], replicate 20 0x53] (uart_port0, globals0) = Some (p', w') \<and>
     uart_port_wf p' \<and> attitude_ok w'"
  by (rule usart2_attitude_in_range)
    (simp_all add: attitude_ok_def globals0_def globals.defs hw.defs)

end
