(* ===== verification/Emm_V5.thy ===== *)
theory Emm_V5
  imports Uart_Send Float32
begin

text \<open>
  The stepper motors: the transmit-only port \<^verbatim>\<open>Hardware/usart3_port.c\<close> and the command frames of the
  Emm V5 driver (\<^verbatim>\<open>Software/Emm_V5.c\<close>).

  The header of each function documents its frame: address, function code, arguments most
  significant byte first, check byte \<^verbatim>\<open>6B\<close>. \<open>emm_frame\<close> is that layout as a function of an abstract
  command, and what each function of the driver sends is shown to be the frame of its command.
\<close>

text \<open>The device handle of the port and the kernel.\<close>

type_synonym usart3 = "rtk \<times> string option"

definition usart3_port_open :: "usart3 \<Rightarrow> rt_err_t \<times> usart3" where
  "usart3_port_open kp = (let (k, p) = kp;
     dev = (case p of None \<Rightarrow> rt_device_find k ''uart3'' | Some h \<Rightarrow> Some h) in
   case dev of None \<Rightarrow> (- RT_ERROR, k, dev)
   | Some h \<Rightarrow> let (r, k1) = open_device h RT_DEVICE_OFLAG_RDWR k in (r, k1, dev))"

definition usart_SendCmd :: "bytes option \<Rightarrow> u8 \<Rightarrow> usart3 \<Rightarrow> usart3" where
  "usart_SendCmd cmd len kp = (case cmd of None \<Rightarrow> kp
   | Some c \<Rightarrow> if len = 0 then kp else
      let (r, k, p) = usart3_port_open kp in
      if r \<noteq> RT_EOK then (k, p)
      else (case p of None \<Rightarrow> (k, p) | Some h \<Rightarrow> (device_write h (take (unat len) c) k, p)))"

subsection \<open>The commands\<close>

text \<open>\<^verbatim>\<open>uint8_t cmd[n] = {0};\<close> with its first bytes loaded.\<close>

definition load_cmd :: "nat \<Rightarrow> bytes \<Rightarrow> bytes option" where
  "load_cmd n bs = Some (blit bs 0 (replicate n 0))"

datatype SysParams_t = S_VER | S_RL | S_PID | S_VBUS | S_CPHA | S_ENCL | S_TPOS | S_VEL | S_CPOS
  | S_PERR | S_FLAG | S_Conf | S_State | S_ORG

definition Emm_V5_Reset_CurPos_To_Zero :: "u8 \<Rightarrow> usart3 \<Rightarrow> usart3" where
  "Emm_V5_Reset_CurPos_To_Zero addr = usart_SendCmd (load_cmd 16 [addr, 0x0A, 0x6D, 0x6B]) 4"

definition Emm_V5_Reset_Clog_Pro :: "u8 \<Rightarrow> usart3 \<Rightarrow> usart3" where
  "Emm_V5_Reset_Clog_Pro addr = usart_SendCmd (load_cmd 16 [addr, 0x0E, 0x52, 0x6B]) 4"

fun sys_param_code :: "SysParams_t \<Rightarrow> bytes" where
  "sys_param_code S_VER = [0x1F]"
| "sys_param_code S_RL = [0x20]"
| "sys_param_code S_PID = [0x21]"
| "sys_param_code S_VBUS = [0x24]"
| "sys_param_code S_CPHA = [0x27]"
| "sys_param_code S_ENCL = [0x31]"
| "sys_param_code S_TPOS = [0x33]"
| "sys_param_code S_VEL = [0x35]"
| "sys_param_code S_CPOS = [0x36]"
| "sys_param_code S_PERR = [0x37]"
| "sys_param_code S_FLAG = [0x3A]"
| "sys_param_code S_ORG = [0x3B]"
| "sys_param_code S_Conf = [0x42, 0x6C]"
| "sys_param_code S_State = [0x43, 0x7A]"

definition Emm_V5_Read_Sys_Params :: "u8 \<Rightarrow> SysParams_t \<Rightarrow> usart3 \<Rightarrow> usart3" where
  "Emm_V5_Read_Sys_Params addr s = (let c = [addr] @ sys_param_code s @ [0x6B] in
     usart_SendCmd (load_cmd 16 c) (of_nat (length c)))"

definition Emm_V5_Modify_Ctrl_Mode :: "u8 \<Rightarrow> bool \<Rightarrow> u8 \<Rightarrow> usart3 \<Rightarrow> usart3" where
  "Emm_V5_Modify_Ctrl_Mode addr svF ctrl_mode =
     usart_SendCmd (load_cmd 16 [addr, 0x46, 0x69, u8_of_bool svF, ctrl_mode, 0x6B]) 6"

definition Emm_V5_En_Control :: "u8 \<Rightarrow> bool \<Rightarrow> bool \<Rightarrow> usart3 \<Rightarrow> usart3" where
  "Emm_V5_En_Control addr state snF =
     usart_SendCmd (load_cmd 16 [addr, 0xF3, 0xAB, u8_of_bool state, u8_of_bool snF, 0x6B]) 6"

definition Emm_V5_Vel_Control :: "u8 \<Rightarrow> u8 \<Rightarrow> u16 \<Rightarrow> u8 \<Rightarrow> bool \<Rightarrow> usart3 \<Rightarrow> usart3" where
  "Emm_V5_Vel_Control addr dir vel acc snF =
     usart_SendCmd (load_cmd 16 [addr, 0xF6, dir, byte_at 8 vel, byte_at 0 vel, acc, u8_of_bool snF, 0x6B]) 8"

definition Emm_V5_Pos_Control :: "u8 \<Rightarrow> u8 \<Rightarrow> u16 \<Rightarrow> u8 \<Rightarrow> u32 \<Rightarrow> bool \<Rightarrow> bool \<Rightarrow> usart3 \<Rightarrow> usart3" where
  "Emm_V5_Pos_Control addr dir vel acc clk raF snF =
     usart_SendCmd (load_cmd 16 [addr, 0xFD, dir, byte_at 8 vel, byte_at 0 vel, acc,
       byte_at 24 clk, byte_at 16 clk, byte_at 8 clk, byte_at 0 clk, u8_of_bool raF, u8_of_bool snF, 0x6B]) 13"

definition Emm_V5_Stop_Now :: "u8 \<Rightarrow> bool \<Rightarrow> usart3 \<Rightarrow> usart3" where
  "Emm_V5_Stop_Now addr snF = usart_SendCmd (load_cmd 16 [addr, 0xFE, 0x98, u8_of_bool snF, 0x6B]) 5"

definition Emm_V5_Synchronous_motion :: "u8 \<Rightarrow> usart3 \<Rightarrow> usart3" where
  "Emm_V5_Synchronous_motion addr = usart_SendCmd (load_cmd 16 [addr, 0xFF, 0x66, 0x6B]) 4"

definition Emm_V5_Origin_Set_O :: "u8 \<Rightarrow> bool \<Rightarrow> usart3 \<Rightarrow> usart3" where
  "Emm_V5_Origin_Set_O addr svF = usart_SendCmd (load_cmd 16 [addr, 0x93, 0x88, u8_of_bool svF, 0x6B]) 5"

definition Emm_V5_Origin_Modify_Params ::
  "u8 \<Rightarrow> bool \<Rightarrow> u8 \<Rightarrow> u8 \<Rightarrow> u16 \<Rightarrow> u32 \<Rightarrow> u16 \<Rightarrow> u16 \<Rightarrow> u16 \<Rightarrow> bool \<Rightarrow> usart3 \<Rightarrow> usart3" where
  "Emm_V5_Origin_Modify_Params addr svF o_mode o_dir o_vel o_tm sl_vel sl_ma sl_ms potF =
     usart_SendCmd (load_cmd 32 [addr, 0x4C, 0xAE, u8_of_bool svF, o_mode, o_dir,
       byte_at 8 o_vel, byte_at 0 o_vel, byte_at 24 o_tm, byte_at 16 o_tm, byte_at 8 o_tm, byte_at 0 o_tm,
       byte_at 8 sl_vel, byte_at 0 sl_vel, byte_at 8 sl_ma, byte_at 0 sl_ma, byte_at 8 sl_ms, byte_at 0 sl_ms,
       u8_of_bool potF, 0x6B]) 20"

definition Emm_V5_Origin_Trigger_Return :: "u8 \<Rightarrow> u8 \<Rightarrow> bool \<Rightarrow> usart3 \<Rightarrow> usart3" where
  "Emm_V5_Origin_Trigger_Return addr o_mode snF =
     usart_SendCmd (load_cmd 16 [addr, 0x9A, o_mode, u8_of_bool snF, 0x6B]) 5"

definition Emm_V5_Origin_Interrupt :: "u8 \<Rightarrow> usart3 \<Rightarrow> usart3" where
  "Emm_V5_Origin_Interrupt addr = usart_SendCmd (load_cmd 16 [addr, 0x9C, 0x48, 0x6B]) 4"

subsection \<open>The movements the application uses\<close>

text \<open>\<^verbatim>\<open>int8_t\<close> speeds are words read as signed: the negation of -128 is -128 again.\<close>

definition BuJinMotor_X_Speed :: "u8 \<Rightarrow> u8 \<Rightarrow> usart3 \<Rightarrow> usart3" where
  "BuJinMotor_X_Speed Addr Speed = (let (Dir, Speed) = (if sint Speed < 0 then (0, - Speed) else (1, Speed))
     in Emm_V5_Vel_Control Addr Dir (scast Speed) 0 False)"

definition BuJinMotor_Y_Speed :: "u8 \<Rightarrow> u8 \<Rightarrow> usart3 \<Rightarrow> usart3" where
  "BuJinMotor_Y_Speed Addr Speed kp = (let (Dir, Speed) = (if sint Speed < 0 then (0, - Speed) else (1, Speed));
     (k, p) = Emm_V5_Vel_Control Addr Dir (scast Speed) 0 False kp
   in (driver_mdelay 5 k, p))"

definition BuJinMotor_Circle :: "u8 \<Rightarrow> u8 \<Rightarrow> u16 \<Rightarrow> u8 \<Rightarrow> usart3 \<Rightarrow> usart3" where
  "BuJinMotor_Circle Addr Dir Speed Circle =
     Emm_V5_Pos_Control Addr Dir Speed 0 (ucast Circle * 3200) False False"

definition pitch_clk :: "f32 \<Rightarrow> u16" where
  "pitch_clk pitch = f32_to_u16 (fmul (flit 3200) (fdiv pitch (flit 360)))"

definition BuJinMotor_PitchView :: "u8 \<Rightarrow> u8 \<Rightarrow> u16 \<Rightarrow> f32 \<Rightarrow> usart3 \<Rightarrow> usart3" where
  "BuJinMotor_PitchView Addr Dir Speed pitch =
     Emm_V5_Pos_Control 2 Dir Speed 0 (ucast (pitch_clk pitch)) True False"

text \<open>\<^verbatim>\<open>calculate_slope\<close>: the line through two points, unless they are too close; the result and \<open>(k, b)\<close>.\<close>

definition calculate_slope :: "f32 \<Rightarrow> f32 \<Rightarrow> f32 \<Rightarrow> f32 \<Rightarrow> f32 \<times> f32 \<Rightarrow> f32 \<times> f32 \<times> f32" where
  "calculate_slope x1 y1 x2 y2 kb =
     (if fge (fabsf (fsub x1 x2)) (flit (1 / 10 ^ 9))
      then let k = fdiv (fsub y2 y1) (fsub x2 x1) in (Fin 1, k, fsub y1 (fmul k x1))
      else (Fin 0, kb))"

subsection \<open>The protocol\<close>

datatype emm =
    Reset_CurPos
  | Reset_Clog
  | Read_Params SysParams_t
  | Modify_Ctrl_Mode bool u8
  | En_Control bool bool
  | Vel_Control u8 u16 u8 bool
  | Pos_Control u8 u16 u8 u32 bool bool
  | Stop_Now bool
  | Synchronous
  | Origin_Set_O bool
  | Origin_Modify bool u8 u8 u16 u32 u16 u16 u16 bool
  | Origin_Trigger u8 bool
  | Origin_Interrupt

text \<open>The body of a command: function code and arguments.\<close>

fun emm_body :: "emm \<Rightarrow> bytes" where
  "emm_body Reset_CurPos = [0x0A, 0x6D]"
| "emm_body Reset_Clog = [0x0E, 0x52]"
| "emm_body (Read_Params s) = sys_param_code s"
| "emm_body (Modify_Ctrl_Mode sv m) = [0x46, 0x69, u8_of_bool sv, m]"
| "emm_body (En_Control st sn) = [0xF3, 0xAB, u8_of_bool st, u8_of_bool sn]"
| "emm_body (Vel_Control dir vel acc sn) = [0xF6, dir] @ be16 vel @ [acc, u8_of_bool sn]"
| "emm_body (Pos_Control dir vel acc clk ra sn) =
     [0xFD, dir] @ be16 vel @ [acc] @ be32 clk @ [u8_of_bool ra, u8_of_bool sn]"
| "emm_body (Stop_Now sn) = [0xFE, 0x98, u8_of_bool sn]"
| "emm_body Synchronous = [0xFF, 0x66]"
| "emm_body (Origin_Set_O sv) = [0x93, 0x88, u8_of_bool sv]"
| "emm_body (Origin_Modify sv m d v t sv2 ma ms p) =
     [0x4C, 0xAE, u8_of_bool sv, m, d] @ be16 v @ be32 t @ be16 sv2 @ be16 ma @ be16 ms @ [u8_of_bool p]"
| "emm_body (Origin_Trigger m sn) = [0x9A, m, u8_of_bool sn]"
| "emm_body Origin_Interrupt = [0x9C, 0x48]"

definition emm_frame :: "u8 \<Rightarrow> emm \<Rightarrow> bytes" where
  "emm_frame addr c = addr # emm_body c @ [0x6B]"

text \<open>The code's function for each abstract command.\<close>

fun emm_send :: "u8 \<Rightarrow> emm \<Rightarrow> usart3 \<Rightarrow> usart3" where
  "emm_send a Reset_CurPos = Emm_V5_Reset_CurPos_To_Zero a"
| "emm_send a Reset_Clog = Emm_V5_Reset_Clog_Pro a"
| "emm_send a (Read_Params s) = Emm_V5_Read_Sys_Params a s"
| "emm_send a (Modify_Ctrl_Mode sv m) = Emm_V5_Modify_Ctrl_Mode a sv m"
| "emm_send a (En_Control st sn) = Emm_V5_En_Control a st sn"
| "emm_send a (Vel_Control dir vel acc sn) = Emm_V5_Vel_Control a dir vel acc sn"
| "emm_send a (Pos_Control dir vel acc clk ra sn) = Emm_V5_Pos_Control a dir vel acc clk ra sn"
| "emm_send a (Stop_Now sn) = Emm_V5_Stop_Now a sn"
| "emm_send a Synchronous = Emm_V5_Synchronous_motion a"
| "emm_send a (Origin_Set_O sv) = Emm_V5_Origin_Set_O a sv"
| "emm_send a (Origin_Modify sv m d v t sv2 ma ms p) = Emm_V5_Origin_Modify_Params a sv m d v t sv2 ma ms p"
| "emm_send a (Origin_Trigger m sn) = Emm_V5_Origin_Trigger_Return a m sn"
| "emm_send a Origin_Interrupt = Emm_V5_Origin_Interrupt a"

subsection \<open>What the functions send\<close>

definition usart3_ready :: "usart3 \<Rightarrow> bool" where
  "usart3_ready kp \<longleftrightarrow> (snd kp = Some ''uart3'' \<and> device_up (fst kp) ''uart3'') \<or>
     (snd kp = None \<and> device_fresh (fst kp) ''uart3'')"

lemma usart3_open_ready:
  assumes "usart3_ready (k, p)"
  obtains k1 where "usart3_port_open (k, p) = (RT_EOK, k1, Some ''uart3'')" "device_up k1 ''uart3''"
    "\<forall>n. tx_of k1 n = tx_of k n" "\<forall>n. n \<noteq> ''uart3'' \<longrightarrow> devs k1 n = devs k n" "heap_ok k1 = heap_ok k"
  using assms unfolding usart3_ready_def
proof
  assume "snd (k, p) = Some ''uart3'' \<and> device_up (fst (k, p)) ''uart3''"
  then show ?thesis
    using that [of k] by (auto simp: usart3_port_open_def open_device_def device_up_def)
next
  assume fr: "snd (k, p) = None \<and> device_fresh (fst (k, p)) ''uart3''"
  then obtain d where d: "devs k ''uart3'' = Some d" "dflag d = uart_dflag"
     "open_flag d = 0" "ref_count d = 0" "configure_result d = RT_EOK"
    by (auto simp: device_fresh_def)
  obtain d' where "rt_device_open d RT_DEVICE_OFLAG_RDWR = (RT_EOK, d')"
    "has (open_flag d') RT_DEVICE_OFLAG_OPEN" "\<not> has (open_flag d') RT_DEVICE_FLAG_STREAM"
    "ref_count d' = 1" "hw_tx d' = hw_tx d"
    using open_fresh [OF d] by blast
  then show ?thesis
    using that [of "k\<lparr>devs := (devs k)(''uart3'' \<mapsto> d')\<rparr>"] d fr
    by (auto simp: usart3_port_open_def open_device_def rt_device_find_def device_up_def tx_of_def flag_facts)
qed

lemma usart_SendCmd_ready:
  assumes "usart3_ready kp" "0 < n" "n < 256" "n \<le> length c"
  shows "usart3_ready (usart_SendCmd (Some c) (of_nat n) kp) \<and>
    tx_of (fst (usart_SendCmd (Some c) (of_nat n) kp)) ''uart3'' = tx_of (fst kp) ''uart3'' @ take n c \<and>
    (\<forall>m. m \<noteq> ''uart3'' \<longrightarrow> devs (fst (usart_SendCmd (Some c) (of_nat n) kp)) m = devs (fst kp) m) \<and>
    heap_ok (fst (usart_SendCmd (Some c) (of_nat n) kp)) = heap_ok (fst kp)"
proof -
  obtain k p where kp: "kp = (k, p)" by (cases kp)
  obtain k1 where o: "usart3_port_open (k, p) = (RT_EOK, k1, Some ''uart3'')" "device_up k1 ''uart3''"
    "\<forall>n. tx_of k1 n = tx_of k n" "\<forall>n. n \<noteq> ''uart3'' \<longrightarrow> devs k1 n = devs k n" "heap_ok k1 = heap_ok k"
    using usart3_open_ready assms(1) unfolding kp by blast
  then obtain d where d: "devs k1 ''uart3'' = Some d" "has (open_flag d) RT_DEVICE_OFLAG_OPEN"
    "\<not> has (open_flag d) RT_DEVICE_FLAG_STREAM" "ref_count d \<noteq> 0" by (auto simp: device_up_def)
  have n: "unat (of_nat n :: u8) = n" using assms(3) by (simp add: unat_of_nat)
  then have n0: "(of_nat n :: u8) \<noteq> 0" using assms(2) by (metis unat_0 less_numeral_extra(3))
  have s: "usart_SendCmd (Some c) (of_nat n) (k, p) = (device_write ''uart3'' (take n c) k1, Some ''uart3'')"
    using o n n0 by (simp add: usart_SendCmd_def)
  have "tx_of k ''uart3'' = hw_tx d" using o(3) d(1) by (metis option.simps(5) tx_of_def)
  then show ?thesis
    unfolding kp s using d o(4,5)
    by (simp add: device_write_def rt_device_write_tx usart3_ready_def device_up_def) (simp add: tx_of_def)
qed

lemma send_loaded:
  assumes "usart3_ready kp" "length bs \<le> n" "bs \<noteq> []" "n < 256"
  shows "tx_of (fst (usart_SendCmd (load_cmd n bs) (of_nat (length bs)) kp)) ''uart3'' = tx_of (fst kp) ''uart3'' @ bs"
    "usart3_ready (usart_SendCmd (load_cmd n bs) (of_nat (length bs)) kp)"
    "m \<noteq> ''uart3'' \<Longrightarrow> devs (fst (usart_SendCmd (load_cmd n bs) (of_nat (length bs)) kp)) m = devs (fst kp) m"
    "heap_ok (fst (usart_SendCmd (load_cmd n bs) (of_nat (length bs)) kp)) = heap_ok (fst kp)"
proof -
  have t: "take (length bs) (blit bs 0 (replicate n 0)) = bs" by (simp add: blit_def)
  have l: "length bs \<le> length (blit bs 0 (replicate n (0 :: u8)))" using assms(2) by simp
  note r = usart_SendCmd_ready [OF assms(1) _ _ l]
  show "tx_of (fst (usart_SendCmd (load_cmd n bs) (of_nat (length bs)) kp)) ''uart3'' = tx_of (fst kp) ''uart3'' @ bs"
    "usart3_ready (usart_SendCmd (load_cmd n bs) (of_nat (length bs)) kp)"
    "m \<noteq> ''uart3'' \<Longrightarrow> devs (fst (usart_SendCmd (load_cmd n bs) (of_nat (length bs)) kp)) m = devs (fst kp) m"
    "heap_ok (fst (usart_SendCmd (load_cmd n bs) (of_nat (length bs)) kp)) = heap_ok (fst kp)"
    using r assms(2-4) t unfolding load_cmd_def by simp_all
qed

lemma emm_send_eq:
  "emm_send a c kp = usart_SendCmd (load_cmd (case c of Origin_Modify _ _ _ _ _ _ _ _ _ \<Rightarrow> 32 | _ \<Rightarrow> 16) (emm_frame a c))
     (of_nat (length (emm_frame a c))) kp"
proof (cases c)
  case (Read_Params s)
  then show ?thesis by (simp add: emm_frame_def Emm_V5_Read_Sys_Params_def Let_def)
qed (simp_all add: emm_frame_def be16_def be32_def
    Emm_V5_Reset_CurPos_To_Zero_def Emm_V5_Reset_Clog_Pro_def Emm_V5_Modify_Ctrl_Mode_def
    Emm_V5_En_Control_def Emm_V5_Vel_Control_def Emm_V5_Pos_Control_def Emm_V5_Stop_Now_def
    Emm_V5_Synchronous_motion_def Emm_V5_Origin_Set_O_def Emm_V5_Origin_Modify_Params_def
    Emm_V5_Origin_Trigger_Return_def Emm_V5_Origin_Interrupt_def)

lemma emm_frame_length: "length (emm_frame a c) \<le> (case c of Origin_Modify _ _ _ _ _ _ _ _ _ \<Rightarrow> 32 | _ \<Rightarrow> 16)"
proof (cases c)
  case (Read_Params s)
  then show ?thesis by (cases s) (simp_all add: emm_frame_def)
qed (simp_all add: emm_frame_def be16_def be32_def)

lemma emm_send_ready:
  assumes "usart3_ready kp"
  shows "tx_of (fst (emm_send a c kp)) ''uart3'' = tx_of (fst kp) ''uart3'' @ emm_frame a c"
    "usart3_ready (emm_send a c kp)" "m \<noteq> ''uart3'' \<Longrightarrow> devs (fst (emm_send a c kp)) m = devs (fst kp) m"
    "heap_ok (fst (emm_send a c kp)) = heap_ok (fst kp)"
  unfolding emm_send_eq
  by (intro send_loaded assms emm_frame_length; simp add: emm_frame_def split: emm.split)+

text \<open>The console is no business of the stepper's port.\<close>

lemma emm_kernel:
  "console_device (fst (emm_send a c kp)) = console_device (fst kp)" "shell (fst (emm_send a c kp)) = shell (fst kp)"
proof -
  have o: "console_device (fst (snd (usart3_port_open kp))) = console_device (fst kp)"
      "shell (fst (snd (usart3_port_open kp))) = shell (fst kp)" for kp
    by (auto simp: usart3_port_open_def open_device_def Let_def split: option.split prod.split)
  have "console_device (fst (usart_SendCmd cmd n kp)) = console_device (fst kp) \<and> shell (fst (usart_SendCmd cmd n kp)) = shell (fst kp)"
    for cmd n
  proof -
    obtain r k p where e: "usart3_port_open kp = (r, k, p)" by (metis prod_cases3)
    show ?thesis using o [of kp] by (auto simp: usart_SendCmd_def e device_write_def split: option.split)
  qed
  then show "console_device (fst (emm_send a c kp)) = console_device (fst kp)" "shell (fst (emm_send a c kp)) = shell (fst kp)"
    unfolding emm_send_eq by blast+
qed

text \<open>The vertical axis gets the same command as the horizontal one, and its driver sleeps afterwards.\<close>

lemma Y_Speed_pauses:
  "BuJinMotor_Y_Speed a v kp = (driver_mdelay 5 (fst (BuJinMotor_X_Speed a v kp)), snd (BuJinMotor_X_Speed a v kp))"
  by (simp add: BuJinMotor_Y_Speed_def BuJinMotor_X_Speed_def Let_def split: prod.split)

text \<open>
  C16 (refinement). On a UART that is open, or registered and not yet opened, each of the driver's
  thirteen functions appends exactly the frame of its command to what the UART sends (no byte of
  the zero-filled command buffer more), touches no other device and leaves the port usable.
\<close>

theorem emm_send_sends_frame:
  assumes "usart3_ready kp"
  shows "tx_of (fst (emm_send a c kp)) ''uart3'' = tx_of (fst kp) ''uart3'' @ emm_frame a c \<and>
    usart3_ready (emm_send a c kp) \<and> (\<forall>m. m \<noteq> ''uart3'' \<longrightarrow> devs (fst (emm_send a c kp)) m = devs (fst kp) m)"
  using emm_send_ready [OF assms] by blast

theorem emm_send_sends_frame_witness:
  "tx_of (fst (emm_send 2 (Stop_Now True) (rtk0, None))) ''uart3'' = [0x02, 0xFE, 0x98, 0x01, 0x6B] \<and>
    usart3_ready (emm_send 2 (Stop_Now True) (rtk0, None)) \<and>
    devs (fst (emm_send 2 (Stop_Now True) (rtk0, None))) ''uart5'' = devs rtk0 ''uart5''"
proof -
  have r: "usart3_ready (rtk0, None)" by (simp add: usart3_ready_def rtk0_device_fresh)
  have "emm_frame 2 (Stop_Now True) = [0x02, 0xFE, 0x98, 0x01, 0x6B]" by (simp add: emm_frame_def)
  with emm_send_sends_frame [OF r, of 2 "Stop_Now True"] show ?thesis by simp
qed

end
