(* ===== verification/Command_Stream.thy ===== *)
theory Command_Stream
  imports Frame_Scan
begin

text \<open>
  The contract of the two parsers with frames of several lengths (\<^verbatim>\<open>Hardware/uart4_port.c\<close> and
  \<^verbatim>\<open>Hardware/uart5_port.c\<close>), as a sender sees it: a stream of encoded commands, cut into any reads
  of at most 63 bytes (what the kernel's ring can hold), has the effect of the commands, each once
  and in order.

  A provider shows two laws of its parser: a whole command in front of the buffer is applied and
  removed, and a part of one is left alone. The rest is proved here once.
\<close>

text \<open>A prefix of an encoded list of commands is some whole commands and a part of the next one.\<close>

lemma command_prefix:
  assumes "xs @ ys = concat (map enc cs)" "\<And>c. c \<in> set cs \<Longrightarrow> enc c \<noteq> []"
  shows "\<exists>cs1 cs2 part. cs = cs1 @ cs2 \<and> xs = concat (map enc cs1) @ part \<and>
    part @ ys = concat (map enc cs2) \<and>
    (part = [] \<or> (\<exists>c cs'. cs2 = c # cs' \<and> part = take (length part) (enc c) \<and> length part < length (enc c)))"
  using assms
proof (induction cs arbitrary: xs)
  case Nil
  then show ?case by (intro exI [of _ "[]"]) simp
next
  case (Cons c cs)
  show ?case
  proof (cases "length xs < length (enc c)")
    case True
    have "xs = take (length xs) (xs @ ys)" by simp
    also have "\<dots> = take (length xs) (enc c)" using Cons.prems(1) True by simp
    finally have "c # cs = [] @ (c # cs) \<and> xs = concat (map enc []) @ xs \<and> xs @ ys = concat (map enc (c # cs)) \<and>
      xs = take (length xs) (enc c) \<and> length xs < length (enc c)"
      using Cons.prems(1) True by simp
    then show ?thesis by blast
  next
    case False
    define xs' where "xs' = drop (length (enc c)) xs"
    have "take (length (enc c)) xs = take (length (enc c)) (xs @ ys)" using False by simp
    then have xs: "xs = enc c @ xs'"
      using Cons.prems(1) by (metis append_eq_conv_conj append_take_drop_id concat.simps(2) list.simps(9) xs'_def)
    then have "xs' @ ys = concat (map enc cs)" using Cons.prems(1) by simp
    from Cons.IH [OF this] Cons.prems(2) obtain cs1 cs2 part where i: "cs = cs1 @ cs2"
      "xs' = concat (map enc cs1) @ part" "part @ ys = concat (map enc cs2)"
      "part = [] \<or> (\<exists>c cs'. cs2 = c # cs' \<and> part = take (length part) (enc c) \<and> length part < length (enc c))"
      by auto
    then have "c # cs = (c # cs1) @ cs2 \<and> xs = concat (map enc (c # cs1)) @ part" using xs by simp
    with i(3,4) show ?thesis by blast
  qed
qed

locale command_stream =
  fixes parse :: "'s parser"
    and enc :: "'c \<Rightarrow> bytes"
    and valid :: "'c \<Rightarrow> bool"
    and app :: "'c \<Rightarrow> 's \<Rightarrow> 's"
  assumes some_valid: "\<exists>c. valid c"
    and enc_length: "0 < length (enc c)" "length (enc c) \<le> 30"
    and parse_front: "\<lbrakk>length buf = MAX_LEN; len \<le> 100; take len buf = enc c @ rest; valid c;
        uart_shift_left buf len (length (enc c)) = (buf', len')\<rbrakk> \<Longrightarrow>
      parse buf len s = parse buf' len' (app c s)"
    and parse_part: "\<lbrakk>length buf = MAX_LEN; len \<le> 100; valid c; len < length (enc c);
        take len buf = take len (enc c)\<rbrakk> \<Longrightarrow> parse buf len s = Some (buf, len, s)"
begin

lemma enc_nonempty: "enc c \<noteq> []"
  using enc_length(1) by auto

lemma parse_commands:
  assumes "length buf = MAX_LEN" "len \<le> 100" "take len buf = concat (map enc cs) @ part"
    "\<forall>c\<in>set cs. valid c" "\<exists>c. valid c \<and> part = take (length part) (enc c) \<and> length part < length (enc c)"
  shows "\<exists>buf'. parse buf len s = Some (buf', length part, fold app cs s) \<and> length buf' = MAX_LEN \<and>
    take (length part) buf' = part"
  using assms
proof (induction cs arbitrary: buf len s)
  case Nil
  then obtain c where c: "valid c" "part = take (length part) (enc c)" "length part < length (enc c)" by blast
  have l: "len = length part" using Nil.prems(1-3) by (auto simp: MAX_LEN_def dest: arg_cong [of _ _ length])
  have "parse buf len s = Some (buf, len, s)"
    by (rule parse_part [OF Nil.prems(1,2) c(1)]) (use c l Nil.prems(3) in auto)
  then show ?case using Nil.prems l by simp
next
  case (Cons c cs)
  obtain buf1 len1 where sh: "uart_shift_left buf len (length (enc c)) = (buf1, len1)" by fastforce
  have le: "len \<le> length buf" using Cons.prems(1,2) by (simp add: MAX_LEN_def)
  have t: "take len buf = enc c @ concat (map enc cs) @ part" using Cons.prems(3) by simp
  have n: "length buf1 = MAX_LEN" "len1 \<le> 100" "take len1 buf1 = concat (map enc cs) @ part"
    using length_shift_left [OF le, of "length (enc c)"] shift_left_contents [OF le, of "length (enc c)"]
      shift_left_len [of buf len "length (enc c)"] sh t Cons.prems(1,2) by auto
  have "parse buf len s = parse buf1 len1 (app c s)"
    by (rule parse_front [OF Cons.prems(1,2) t _ sh]) (use Cons.prems(4) in simp)
  then show ?case using Cons.IH [OF n _ Cons.prems(5), of "app c s"] Cons.prems(4) by simp
qed

text \<open>The port holds a proper part of the first of the commands still to come, or nothing.\<close>

definition expects :: "'c list \<Rightarrow> uart_port \<Rightarrow> bool" where
  "expects cs p \<longleftrightarrow> uart_port_wf p \<and> parse_len p < 30 \<and>
     (case cs of [] \<Rightarrow> parse_len p = 0 | c # _ \<Rightarrow> pending p = take (parse_len p) (enc c) \<and> parse_len p < length (enc c))"

lemma pending_length: "uart_port_wf p \<Longrightarrow> length (pending p) = parse_len p"
  by (simp add: pending_def uart_port_wf_def)

lemma rx_chunk_commands:
  assumes "uart_port_wf p" "parse_len p < 30" "length c \<le> 63" "pending p @ c = concat (map enc cs) @ part"
    "\<forall>c\<in>set cs. valid c" "valid d" "part = take (length part) (enc d)" "length part < length (enc d)"
  shows "\<exists>p'. uart_rx_chunk parse c (p, s) = Some (p', fold app cs s) \<and> uart_port_wf p' \<and>
    parse_len p' = length part \<and> pending p' = part"
proof -
  have wf: "length (parse_buf p) = MAX_LEN" "parse_len p + length c \<le> 100" "length (RX_BUF p) = MAX_LEN"
    using assms(1-3) by (auto simp: uart_port_wf_def)
  define buf where "buf = blit c (parse_len p) (parse_buf p)"
  have l: "length buf = MAX_LEN" "take (parse_len p + length c) buf = concat (map enc cs) @ part"
    using wf assms(4) by (simp_all add: buf_def blit_contents pending_def MAX_LEN_def)
  obtain buf' where b: "parse buf (parse_len p + length c) s = Some (buf', length part, fold app cs s)"
    "length buf' = MAX_LEN" "take (length part) buf' = part"
    using parse_commands [OF l(1) wf(2) l(2) assms(5), of s] assms(6-8) by blast
  have "length part \<le> MAX_LEN" using enc_length(2) [of d] assms(8) by (simp add: MAX_LEN_def)
  moreover have "length (blit c 0 (RX_BUF p)) = MAX_LEN" using wf by (simp add: MAX_LEN_def)
  moreover have "parse_len p + length c \<le> MAX_LEN" using wf(2) by (simp add: MAX_LEN_def)
  ultimately show ?thesis
    using b assms(1) by (simp add: uart_rx_chunk_def Let_def pending_def uart_port_wf_def flip: buf_def)
qed

lemma rx_chunks_commands:
  assumes "expects cs p" "\<forall>c\<in>set chunks. length c \<le> 63"
    "pending p @ concat chunks = concat (map enc cs)" "\<forall>c\<in>set cs. valid c"
  shows "\<exists>p'. for_each (uart_rx_chunk parse) chunks (p, s) = Some (p', fold app cs s) \<and>
    uart_port_wf p' \<and> parse_len p' = 0"
  using assms
proof (induction chunks arbitrary: p cs s)
  case Nil
  then have "uart_port_wf p" by (simp add: expects_def)
  note pending_length [OF this]
  then have "cs = []" using Nil.prems by (cases cs) (auto simp: expects_def)
  then show ?case using Nil by (simp add: expects_def)
next
  case (Cons c chunks)
  have wf: "uart_port_wf p" "parse_len p < 30" using Cons.prems(1) by (auto simp: expects_def)
  have "(pending p @ c) @ concat chunks = concat (map enc cs)" using Cons.prems(3) by simp
  from command_prefix [OF this enc_nonempty] obtain cs1 cs2 part where i: "cs = cs1 @ cs2"
    "pending p @ c = concat (map enc cs1) @ part" "part @ concat chunks = concat (map enc cs2)"
    "part = [] \<or> (\<exists>c cs'. cs2 = c # cs' \<and> part = take (length part) (enc c) \<and> length part < length (enc c))"
    by blast
  have v: "\<forall>c\<in>set cs1. valid c" "\<forall>c\<in>set cs2. valid c" using Cons.prems(4) i(1) by auto
  have "\<exists>d. valid d \<and> part = take (length part) (enc d) \<and> length part < length (enc d)"
  proof (cases "part = []")
    case True
    then show ?thesis using some_valid enc_length(1) by auto
  next
    case False
    then show ?thesis using i(4) v(2) by auto
  qed
  then obtain d where d: "valid d" "part = take (length part) (enc d)" "length part < length (enc d)" by blast
  obtain p1 where p1: "uart_rx_chunk parse c (p, s) = Some (p1, fold app cs1 s)" "uart_port_wf p1"
    "parse_len p1 = length part" "pending p1 = part"
    using rx_chunk_commands [OF wf _ i(2) v(1) d, of s] Cons.prems(2) by auto
  have "length part < 30" using d(3) enc_length(2) [of d] by simp
  then have "expects cs2 p1"
    using p1 i(3,4) by (cases cs2) (auto simp: expects_def enc_length enc_nonempty)
  from Cons.IH [OF this _ _ v(2), of "fold app cs1 s"] show ?case
    using p1 i Cons.prems(2) by simp
qed

text \<open>A wake-up of the receive thread on an encoded list of commands, however it was cut.\<close>

lemma rx_entry_commands:
  assumes "uart_port_wf p" "parse_len p = 0" "\<forall>c\<in>set chunks. c \<noteq> [] \<and> length c \<le> 63"
    "concat chunks = concat (map enc cs)" "\<forall>c\<in>set cs. valid c"
  shows "\<exists>p'. uart_rx_entry parse chunks (p, s) = Some (p', fold app cs s) \<and> uart_port_wf p' \<and> parse_len p' = 0"
proof -
  have tw: "takeWhile (\<lambda>c. c \<noteq> []) chunks = chunks" using assms(3) by (simp add: takeWhile_eq_all_conv)
  have "pending p = []" using assms(2) by (simp add: pending_def)
  then have "expects cs p" using assms(1,2) enc_length(1) by (auto simp: expects_def split: list.split)
  then show ?thesis
    using rx_chunks_commands [of cs p chunks s] assms \<open>pending p = []\<close> by (simp add: uart_rx_entry_def tw)
qed

end

end
