(* ===== verification/Header_Scan.thy ===== *)
theory Header_Scan
  imports Command_Stream
begin

text \<open>
  The stream parser that \<^verbatim>\<open>uart4_try_parse\<close> (\<^verbatim>\<open>Hardware/uart4_port.c\<close>) and \<^verbatim>\<open>uart5_try_parse\<close>
  (\<^verbatim>\<open>Hardware/uart5_port.c\<close>) share: skip to a header byte, try the frames that may start there, hand
  the first that matches to the decoder and start over behind it; when none matches, keep the bytes
  from the header on and stop. Without any header, the last byte is kept.

  The first locale is the memory contract (a parser over any bytes), the second adds what a sender's
  commands look like and yields the contract of \<open>command_stream\<close>.
\<close>

text \<open>\<open>matching\<close> is the length of the frame that starts at the header, if any; lengths are positive.\<close>

function header_scan :: "u8 \<Rightarrow> (bytes \<Rightarrow> nat \<Rightarrow> nat \<Rightarrow> nat option option) \<Rightarrow>
    (bytes \<Rightarrow> nat \<Rightarrow> nat \<Rightarrow> 's \<Rightarrow> 's option) \<Rightarrow> nat \<Rightarrow> bytes \<Rightarrow> nat \<Rightarrow> 's \<Rightarrow> (bytes \<times> nat \<times> 's) option" where
  "header_scan h matching proc i buffer len w =
    (if i < len then
       Option.bind (rd_eq buffer i h) (\<lambda>head.
       if \<not> head then header_scan h matching proc (i + 1) buffer len w
       else Option.bind (matching buffer len i) (\<lambda>m. case m of
           Some n \<Rightarrow> if n = 0 then None else
             Option.bind (proc buffer i n w) (\<lambda>w.
               let (buffer', len') = uart_shift_left buffer len (i + n) in
               header_scan h matching proc 0 buffer' len' w)
         | None \<Rightarrow> if 0 < i then let (buffer', len') = uart_shift_left buffer len i in Some (buffer', len', w)
             else Some (buffer, len, w)))
     else if 1 < len
     then Option.bind (rd buffer (len - 1)) (\<lambda>b. Option.bind (wr buffer 0 b) (\<lambda>buffer'. Some (buffer', 1, w)))
     else Some (buffer, len, w))"
  by pat_completeness auto
termination
  by (relation "measures [\<lambda>(h, m, p, i, b, n, w). n, \<lambda>(h, m, p, i, b, n, w). n - i]")
    (auto simp: uart_shift_left_def split: if_splits)

declare header_scan.simps [simp del]

lemma header_scan_end:
  assumes "length buf = MAX_LEN" "len \<le> MAX_LEN"
  shows "\<exists>buf' len'. header_scan h mt proc len buf len w = Some (buf', len', w) \<and> length buf' = MAX_LEN \<and>
    len' \<le> len \<and> len' \<le> 1"
proof (cases "1 < len")
  case True
  then show ?thesis
    using assms by (simp add: header_scan.simps [of h mt proc len buf len w] arr_simps MAX_LEN_def)
next
  case False
  then show ?thesis using assms by (simp add: header_scan.simps [of h mt proc len buf len w])
qed

text \<open>
  \<open>found\<close> is the matching as a function of the bytes from the header on; nine of them decide it. The
  decoder may look seven bytes past its frame.
\<close>

locale header_scanner =
  fixes h :: u8
    and matching :: "bytes \<Rightarrow> nat \<Rightarrow> nat \<Rightarrow> nat option option"
    and found :: "bytes \<Rightarrow> nat option"
    and proc :: "bytes \<Rightarrow> nat \<Rightarrow> nat \<Rightarrow> 's \<Rightarrow> 's option"
  assumes matching_found: "\<lbrakk>len \<le> length buf; i < len\<rbrakk> \<Longrightarrow> matching buf len i = Some (found (drop i (take len buf)))"
    and found_fits: "found r = Some n \<Longrightarrow> 0 < n \<and> n \<le> length r"
    and found_decided: "9 \<le> length r \<Longrightarrow> found r = None \<Longrightarrow> found (r @ c) = None"
    and proc_inside: "i + n + 7 \<le> length m \<Longrightarrow> \<exists>w'. proc m i n w = Some w'"
begin

definition stuck :: "bytes \<Rightarrow> bool" where
  "stuck r \<longleftrightarrow> 9 \<le> length r \<and> r ! 0 = h \<and> found r = None"

definition settled :: "bytes \<Rightarrow> bool" where
  "settled r \<longleftrightarrow> length r \<le> 8 \<or> stuck r"

text \<open>One turn of the scan inside the buffer.\<close>

lemma scan_turn:
  assumes "len \<le> length buf" "i < len"
  shows "header_scan h matching proc i buf len w =
    (if buf ! i \<noteq> h then header_scan h matching proc (i + 1) buf len w
     else case found (drop i (take len buf)) of
       Some n \<Rightarrow> Option.bind (proc buf i n w) (\<lambda>w.
         header_scan h matching proc 0 (fst (uart_shift_left buf len (i + n))) (len - (i + n)) w)
     | None \<Rightarrow> if 0 < i then Some (fst (uart_shift_left buf len i), len - i, w) else Some (buf, len, w))"
proof -
  have "rd_eq buf i h = Some (buf ! i = h)" using assms by (simp add: arr_simps)
  then show ?thesis
    using assms found_fits
    by (auto simp: header_scan.simps [of h matching proc i buf len w] matching_found split_beta split: option.split)
qed

lemma scan_stuck:
  assumes "len \<le> length buf" "stuck (take len buf)"
  shows "header_scan h matching proc 0 buf len w = Some (buf, len, w)"
proof -
  have "0 < len" "buf ! 0 = h" "found (take len buf) = None" using assms by (auto simp: stuck_def)
  then show ?thesis using scan_turn [OF assms(1), of 0 w] by simp
qed

text \<open>From any bytes, if seven more fit behind them, the parser stays inside the buffer.\<close>

lemma scan_safe:
  assumes "length buf = MAX_LEN" "len \<le> 390" "i \<le> len"
  shows "\<exists>buf' len' w'. header_scan h matching proc i buf len w = Some (buf', len', w') \<and>
    length buf' = MAX_LEN \<and> len' \<le> len \<and> settled (take len' buf')"
  using assms
proof (induction "len * 400 + (len - i)" arbitrary: i buf len w rule: less_induct)
  case (less i len buf w)
  have L: "length buf = 400" "len \<le> length buf" using less.prems by (simp_all add: MAX_LEN_def)
  have IH: "\<exists>b n v. header_scan h matching proc i' buf' len' w' = Some (b, n, v) \<and> length b = MAX_LEN \<and>
      n \<le> len \<and> settled (take n b)"
    if "len' < len \<or> len' = len \<and> len - i' < len - i" "length buf' = MAX_LEN" "i' \<le> len'" for i' buf' len' w'
  proof -
    have "len' * 400 + (len' - i') < len * 400 + (len - i)" "len' \<le> len" "len' \<le> 390"
      using that(1) less.prems(2) by auto
    from less.hyps [OF this(1) that(2) this(3) that(3), of w'] this(2) show ?thesis using order_trans by blast
  qed
  have shift: "length (fst (uart_shift_left buf len k)) = MAX_LEN"
      "take (len - k) (fst (uart_shift_left buf len k)) = drop k (take len buf)" for k
    using L less.prems by (simp_all add: shift_left_contents)
  show ?case
  proof (cases "i < len")
    case False
    then show ?thesis
      using header_scan_end [OF less.prems(1), of len h matching proc w] less.prems
      by (auto simp: settled_def MAX_LEN_def)
  next
    case i: True
    note turn = scan_turn [OF L(2) i, of w]
    consider "buf ! i \<noteq> h" | n where "buf ! i = h" "found (drop i (take len buf)) = Some n"
      | "buf ! i = h" "found (drop i (take len buf)) = None" by blast
    then show ?thesis
    proof cases
      case 1
      then show ?thesis using turn IH [of len "i + 1" buf w] i less.prems by simp
    next
      case 2
      then have n: "0 < n" "i + n \<le> len" using found_fits [OF 2(2)] L i by auto
      then obtain w1 where "proc buf i n w = Some w1" using proc_inside [of i n buf w] L less.prems by auto
      then show ?thesis
        using turn 2 IH [of "len - (i + n)" 0 "fst (uart_shift_left buf len (i + n))" w1] shift(1) n by simp
    next
      case 3
      have "settled (drop i (take len buf))"
        using 3 L by (cases "len - i \<le> 8") (auto simp: settled_def stuck_def)
      then show ?thesis using turn 3 shift [of i] less.prems by (cases "0 < i") simp_all
    qed
  qed
qed

end

sublocale header_scanner \<subseteq> port: stream_parser "\<lambda>b n w. header_scan h matching proc 0 b n w" settled 63
proof
  fix buf :: bytes and len r c and w :: 's
  assume l: "length buf = MAX_LEN" "len \<le> MAX_LEN" and t: "take len buf = r @ c"
    and s: "settled r" and c: "length c \<le> 63"
  have len: "len = length r + length c" using arg_cong [OF t, of length] l by simp
  show "\<exists>buf' len' w'. header_scan h matching proc 0 buf len w = Some (buf', len', w') \<and> length buf' = MAX_LEN \<and>
      len' \<le> len \<and> settled (take len' buf')"
  proof (cases "stuck r")
    case True
    then have st: "stuck (take len buf)" using found_decided [of r c] by (auto simp: t stuck_def nth_append)
    then show ?thesis using scan_stuck [of len buf w] l by (simp add: settled_def)
  next
    case False
    then have "len \<le> 390" using s c by (simp add: settled_def len)
    then show ?thesis using scan_safe [OF l(1), of len 0 w] by simp
  qed
qed (simp add: settled_def)

subsection \<open>Commands\<close>

locale header_commands = header_scanner h matching found proc
  for h :: u8 and matching :: "bytes \<Rightarrow> nat \<Rightarrow> nat \<Rightarrow> nat option option"
    and found :: "bytes \<Rightarrow> nat option" and proc :: "bytes \<Rightarrow> nat \<Rightarrow> nat \<Rightarrow> 's \<Rightarrow> 's option" +
  fixes enc :: "'c \<Rightarrow> bytes"
    and valid :: "'c \<Rightarrow> bool"
    and app :: "'c \<Rightarrow> 's \<Rightarrow> 's"
  assumes some_command: "\<exists>c. valid c"
    and enc_head: "enc c ! 0 = h" "0 < length (enc c)" "length (enc c) \<le> 30"
    and found_command: "valid c \<Longrightarrow> found (enc c @ rest) = Some (length (enc c))"
    and found_part: "\<lbrakk>valid c; 0 < k; k < length (enc c)\<rbrakk> \<Longrightarrow> found (take k (enc c)) = None"
    and proc_command: "\<lbrakk>valid c; take (length (enc c)) m = enc c; 40 \<le> length m\<rbrakk> \<Longrightarrow>
      proc m 0 (length (enc c)) w = Some (app c w)"

sublocale header_commands \<subseteq> cmds: command_stream "\<lambda>b n w. header_scan h matching proc 0 b n w" enc valid app
proof
  fix buf :: bytes and len c rest buf' len' and w :: 's
  assume a: "length buf = MAX_LEN" "len \<le> 100" "take len buf = enc c @ rest" "valid c"
    "uart_shift_left buf len (length (enc c)) = (buf', len')"
  have l: "len \<le> length buf" "length (enc c) \<le> len"
    using a(1-3) by (auto simp: MAX_LEN_def dest: arg_cong [of _ _ length])
  then have "0 < len" using enc_head(2) [of c] by linarith
  note turn = scan_turn [OF l(1) this, of w]
  have t: "take (length (enc c)) buf = enc c"
    using a(3) l(2) by (metis append_eq_conv_conj min.absorb1 take_take)
  have "buf ! 0 = h" using enc_head(1,2) [of c] t by (metis nth_take)
  moreover have "fst (uart_shift_left buf len (length (enc c))) = buf'" "len - length (enc c) = len'"
    using a(5) by (simp_all flip: shift_left_len [of buf])
  moreover have "proc buf 0 (length (enc c)) w = Some (app c w)"
    by (rule proc_command [OF a(4) t]) (simp add: a(1) MAX_LEN_def)
  ultimately show "header_scan h matching proc 0 buf len w = header_scan h matching proc 0 buf' len' (app c w)"
    using turn found_command [OF a(4), of rest] a(3) by simp
next
  fix buf :: bytes and len c and w :: 's
  assume a: "length buf = MAX_LEN" "len \<le> 100" "valid c" "len < length (enc c)" "take len buf = take len (enc c)"
  show "header_scan h matching proc 0 buf len w = Some (buf, len, w)"
  proof (cases "len = 0")
    case True
    then show ?thesis by (simp add: header_scan.simps [of h matching proc 0 buf 0 w])
  next
    case False
    then have l: "len \<le> length buf" "0 < len" using a(1,2) by (simp_all add: MAX_LEN_def)
    have "buf ! 0 = h" using enc_head(1) [of c] a(5) l(2) by (metis nth_take)
    moreover have "found (take len buf) = None" using found_part [OF a(3) l(2) a(4)] a(5) by simp
    ultimately show ?thesis using scan_turn [OF l, of w] by simp
  qed
qed (use some_command enc_head in auto)

end
