(* ===== verification/Uart4_Port.thy ===== *)
theory Uart4_Port
  imports Header_Scan Uart_Send Globals
begin

text \<open>
  The camera link: the message decoder \<^verbatim>\<open>Maixcam_DataProc\<close> (\<^verbatim>\<open>Software/usart4.c\<close>) and the port
  \<^verbatim>\<open>Hardware/uart4_port.c\<close>. Messages start with \<^verbatim>\<open>A3\<close> and end with \<^verbatim>\<open>C3\<close>: the position of the light
  source (\<^verbatim>\<open>B1\<close>, two 16-bit coordinates), the state of the leaf (\<^verbatim>\<open>B2\<close>), the kind of plant (\<^verbatim>\<open>B3\<close>)
  and the request for light (\<^verbatim>\<open>B4\<close>).
\<close>

definition UART4_FRAME_HEAD1 :: u8 where "UART4_FRAME_HEAD1 = 0xa3"
definition UART4_FRAME_HEAD2_LOC :: u8 where "UART4_FRAME_HEAD2_LOC = 0xb1"
definition UART4_FRAME_HEAD2_STA :: u8 where "UART4_FRAME_HEAD2_STA = 0xb2"
definition UART4_FRAME_HEAD2_TYP :: u8 where "UART4_FRAME_HEAD2_TYP = 0xb3"
definition UART4_FRAME_HEAD2_LED :: u8 where "UART4_FRAME_HEAD2_LED = 0xb4"
definition UART4_FRAME_TAIL1 :: u8 where "UART4_FRAME_TAIL1 = 0xc3"

lemmas cam_consts = UART4_FRAME_HEAD1_def UART4_FRAME_HEAD2_LOC_def UART4_FRAME_HEAD2_STA_def
  UART4_FRAME_HEAD2_TYP_def UART4_FRAME_HEAD2_LED_def UART4_FRAME_TAIL1_def

text \<open>\<^verbatim>\<open>d[i] == HEAD1 && d[i + 1] == h2 && d[i + k] == TAIL1\<close>\<close>

definition cam_frame_at :: "bytes \<Rightarrow> nat \<Rightarrow> u8 \<Rightarrow> nat \<Rightarrow> bool option" where
  "cam_frame_at m p h2 k = and_then (rd_eq m p UART4_FRAME_HEAD1)
     (and_then (rd_eq m (p + 1) h2) (rd_eq m (p + k) UART4_FRAME_TAIL1))"

definition cam_plant :: "u8 \<Rightarrow> 'a globals_scheme \<Rightarrow> 'a globals_scheme" where
  "cam_plant v w = (let
     w = (if v = 0x04 then w\<lparr>Soil_PlantType := UART4_MODE_SHADE\<rparr> else w);
     w = (if v = 0x05 then w\<lparr>Soil_PlantType := UART4_MODE_HALF_SHADE\<rparr> else w)
   in if v = 0x06 then w\<lparr>Soil_PlantType := UART4_MODE_SUN\<rparr> else w)"

definition cam_at :: "bytes \<Rightarrow> nat \<Rightarrow> nat \<Rightarrow> 'a globals_scheme \<Rightarrow> 'a globals_scheme option" where
  "cam_at m base i w = (let p = base + i in
     Option.bind (if_opt (cam_frame_at m p UART4_FRAME_HEAD2_LOC 6)
       (Option.bind (rd m (p + 2)) (\<lambda>xh. Option.bind (rd m (p + 3)) (\<lambda>xl.
        Option.bind (rd m (p + 4)) (\<lambda>yh. Option.bind (rd m (p + 5)) (\<lambda>yl.
          Some (w\<lparr>Source_X := join16 xh xl, Source_Y := join16 yh yl, finding_flag := 1, lightONOFF_flag := 0\<rparr>))))))
       (Some w)) (\<lambda>w.
     Option.bind (if_opt (cam_frame_at m p UART4_FRAME_HEAD2_STA 3)
       (Option.bind (rd m (p + 2)) (\<lambda>v. Some (w\<lparr>blade_state := v\<rparr>))) (Some w)) (\<lambda>w.
     Option.bind (if_opt (cam_frame_at m p UART4_FRAME_HEAD2_TYP 3)
       (Option.bind (rd m (p + 2)) (\<lambda>v. Some (cam_plant v w))) (Some w)) (\<lambda>w.
     if_opt (cam_frame_at m p UART4_FRAME_HEAD2_LED 2)
       (Some (w\<lparr>lightONOFF_flag := 1, finding_flag := 0\<rparr>)) (Some w)))))"

definition Maixcam_DataProc :: "bytes \<Rightarrow> nat \<Rightarrow> nat \<Rightarrow> 'a globals_scheme \<Rightarrow> 'a globals_scheme option" where
  "Maixcam_DataProc m base Size w = for_each (cam_at m base) [0..<Size - 1] w"

subsection \<open>The parser and the driver\<close>

definition uart4_shift_left :: "bytes \<Rightarrow> nat \<Rightarrow> nat \<Rightarrow> bytes \<times> nat" where
  "uart4_shift_left = uart_shift_left"

definition uart4_matching :: "bytes \<Rightarrow> nat \<Rightarrow> nat \<Rightarrow> nat option option" where
  "uart4_matching buffer len i =
     Option.bind (and_then (Some (i + 6 < len)) (and_then (rd_eq buffer (i + 1) UART4_FRAME_HEAD2_LOC)
       (rd_eq buffer (i + 6) UART4_FRAME_TAIL1))) (\<lambda>loc.
     if loc then Some (Some 7)
     else Option.bind (and_then (Some (i + 3 < len)) (and_then
       (or_else (rd_eq buffer (i + 1) UART4_FRAME_HEAD2_STA) (rd_eq buffer (i + 1) UART4_FRAME_HEAD2_TYP))
       (rd_eq buffer (i + 3) UART4_FRAME_TAIL1))) (\<lambda>st.
     if st then Some (Some 4)
     else Option.bind (and_then (Some (i + 2 < len)) (and_then (rd_eq buffer (i + 1) UART4_FRAME_HEAD2_LED)
       (rd_eq buffer (i + 2) UART4_FRAME_TAIL1))) (\<lambda>led.
     if led then Some (Some 3) else Some None)))"

definition uart4_try_parse :: "('a globals_scheme) parser" where
  "uart4_try_parse buffer len w =
     header_scan UART4_FRAME_HEAD1 uart4_matching Maixcam_DataProc 0 buffer len w"

definition uart4_port_open :: "rtk \<times> uart_port \<Rightarrow> rt_err_t \<times> rtk \<times> uart_port" where
  "uart4_port_open = uart_port_open ''uart4'' ''uart4_rx_ind'' ''u4rx''"

definition UART4DMA_Init :: "u32 \<Rightarrow> rtk \<times> uart_port \<Rightarrow> rtk \<times> uart_port" where
  "UART4DMA_Init = uart_port_init ''uart4'' ''uart4_rx_ind'' ''u4rx''"

definition UART4DMA_SendData :: "bytes option \<Rightarrow> rtk \<times> uart_port \<Rightarrow> rtk \<times> uart_port" where
  "UART4DMA_SendData = uart_send ''uart4'' ''uart4_rx_ind'' ''u4rx''"

definition uart4_rx_ind :: "uart_port \<Rightarrow> uart_port" where
  "uart4_rx_ind = uart_rx_ind"

definition uart4_rx_entry ::
  "bytes list \<Rightarrow> uart_port \<times> 'a globals_scheme \<Rightarrow> (uart_port \<times> 'a globals_scheme) option" where
  "uart4_rx_entry = uart_rx_entry uart4_try_parse"

lemma uart4_rx_entry_eq: "uart4_rx_entry =
    uart_rx_entry (\<lambda>b n w. header_scan UART4_FRAME_HEAD1 uart4_matching Maixcam_DataProc 0 b n w)"
  unfolding uart4_rx_entry_def by (rule arg_cong [of _ _ uart_rx_entry]) (simp add: uart4_try_parse_def fun_eq_iff)

subsection \<open>Memory safety\<close>

lemma cam_frame_at_inside:
  "p + k < length m \<Longrightarrow> 1 \<le> k \<Longrightarrow>
     cam_frame_at m p h2 k = Some (m ! p = 0xA3 \<and> m ! (p + 1) = h2 \<and> m ! (p + k) = 0xC3)"
  by (simp add: cam_frame_at_def arr_simps cam_consts)

lemma cam_at_inside:
  assumes "base + i + 6 < length m"
  shows "cam_at m base i w = Some (let p = base + i;
     w = (if m ! p = 0xA3 \<and> m ! (p + 1) = 0xB1 \<and> m ! (p + 6) = 0xC3
          then w\<lparr>Source_X := join16 (m ! (p + 2)) (m ! (p + 3)), Source_Y := join16 (m ! (p + 4)) (m ! (p + 5)),
                 finding_flag := 1, lightONOFF_flag := 0\<rparr> else w);
     w = (if m ! p = 0xA3 \<and> m ! (p + 1) = 0xB2 \<and> m ! (p + 3) = 0xC3 then w\<lparr>blade_state := m ! (p + 2)\<rparr> else w);
     w = (if m ! p = 0xA3 \<and> m ! (p + 1) = 0xB3 \<and> m ! (p + 3) = 0xC3 then cam_plant (m ! (p + 2)) w else w)
   in if m ! p = 0xA3 \<and> m ! (p + 1) = 0xB4 \<and> m ! (p + 2) = 0xC3
      then w\<lparr>lightONOFF_flag := 1, finding_flag := 0\<rparr> else w)"
proof -
  have f: "cam_frame_at m (base + i) h2 6 = Some (m ! (base + i) = 0xA3 \<and> m ! (base + i + 1) = h2 \<and> m ! (base + i + 6) = 0xC3)"
    "cam_frame_at m (base + i) h2 3 = Some (m ! (base + i) = 0xA3 \<and> m ! (base + i + 1) = h2 \<and> m ! (base + i + 3) = 0xC3)"
    "cam_frame_at m (base + i) h2 2 = Some (m ! (base + i) = 0xA3 \<and> m ! (base + i + 1) = h2 \<and> m ! (base + i + 2) = 0xC3)"
    for h2 using assms by (simp_all add: cam_frame_at_inside)
  have r: "rd m (base + i + 2) = Some (m ! (base + i + 2))" "rd m (base + i + 3) = Some (m ! (base + i + 3))"
    "rd m (base + i + 4) = Some (m ! (base + i + 4))" "rd m (base + i + 5) = Some (m ! (base + i + 5))"
    using assms by (simp_all only: rd_def) auto
  show ?thesis
    unfolding cam_at_def Let_def f r
    by (simp only: if_opt_Some Option.bind.simps UART4_FRAME_HEAD2_LOC_def UART4_FRAME_HEAD2_STA_def
        UART4_FRAME_HEAD2_TYP_def UART4_FRAME_HEAD2_LED_def if_distrib [of Some, symmetric]
        if_distrib [of "\<lambda>x. Option.bind x _"])
qed

lemma cam_at_no_message:
  "base + i + 1 < length m \<Longrightarrow> m ! (base + i) = 0xA3 \<longrightarrow> m ! (base + i + 1) \<notin> {0xB1, 0xB2, 0xB3, 0xB4} \<Longrightarrow>
     cam_at m base i w = Some w"
  by (auto simp: cam_at_def cam_frame_at_def cam_consts arr_simps Let_def)

lemma Maixcam_DataProc_inside:
  assumes "base + n + 7 \<le> length m"
  shows "\<exists>w'. Maixcam_DataProc m base n w = Some w'"
proof -
  have "\<exists>w'. for_each (cam_at m base) [0..<n - 1] w = Some w' \<and> True"
  proof (rule for_each_invariant)
    fix i and w :: "'a globals_scheme" assume "i \<in> set [0..<n - 1]"
    then have "base + i + 6 < length m" using assms by auto
    from cam_at_inside [OF this] show "\<exists>w'. cam_at m base i w = Some w' \<and> True" by blast
  qed simp
  then show ?thesis by (simp add: Maixcam_DataProc_def)
qed

definition cam_found :: "bytes \<Rightarrow> nat option" where
  "cam_found r = (if 7 \<le> length r \<and> r ! 1 = 0xB1 \<and> r ! 6 = 0xC3 then Some 7
     else if 4 \<le> length r \<and> (r ! 1 = 0xB2 \<or> r ! 1 = 0xB3) \<and> r ! 3 = 0xC3 then Some 4
     else if 3 \<le> length r \<and> r ! 1 = 0xB4 \<and> r ! 2 = 0xC3 then Some 3 else None)"

lemma uart4_matching_found:
  assumes "len \<le> length buf" "i < len"
  shows "uart4_matching buf len i = Some (cam_found (drop i (take len buf)))"
proof -
  have l: "and_then (Some (i + 6 < len)) (and_then (rd_eq buf (i + 1) UART4_FRAME_HEAD2_LOC)
       (rd_eq buf (i + 6) UART4_FRAME_TAIL1)) = Some (i + 6 < len \<and> buf ! (i + 1) = 0xB1 \<and> buf ! (i + 6) = 0xC3)"
    using assms by (cases "i + 6 < len") (auto simp: arr_simps cam_consts)
  have s: "and_then (Some (i + 3 < len)) (and_then
       (or_else (rd_eq buf (i + 1) UART4_FRAME_HEAD2_STA) (rd_eq buf (i + 1) UART4_FRAME_HEAD2_TYP))
       (rd_eq buf (i + 3) UART4_FRAME_TAIL1)) =
     Some (i + 3 < len \<and> (buf ! (i + 1) = 0xB2 \<or> buf ! (i + 1) = 0xB3) \<and> buf ! (i + 3) = 0xC3)"
    using assms by (cases "i + 3 < len") (auto simp: arr_simps cam_consts)
  have d: "and_then (Some (i + 2 < len)) (and_then (rd_eq buf (i + 1) UART4_FRAME_HEAD2_LED)
       (rd_eq buf (i + 2) UART4_FRAME_TAIL1)) = Some (i + 2 < len \<and> buf ! (i + 1) = 0xB4 \<and> buf ! (i + 2) = 0xC3)"
    using assms by (cases "i + 2 < len") (auto simp: arr_simps cam_consts)
  show ?thesis
    unfolding uart4_matching_def l s d using assms by (auto simp: cam_found_def)
qed

interpretation cam_rx: header_scanner UART4_FRAME_HEAD1 uart4_matching cam_found Maixcam_DataProc
proof
  show "uart4_matching buf len i = Some (cam_found (drop i (take len buf)))"
    if "len \<le> length buf" "i < len" for buf len i using uart4_matching_found that .
  show "0 < n \<and> n \<le> length r" if "cam_found r = Some n" for r n
    using that by (auto simp: cam_found_def split: if_splits)
  show "cam_found (r @ c) = None" if "9 \<le> length r" "cam_found r = None" for r c
    using that by (auto simp: cam_found_def nth_append split: if_splits)
qed (rule Maixcam_DataProc_inside)

text \<open>
  Whatever the camera sends and however it is cut into reads of at most 63 bytes, the
  receive thread never leaves its buffers.
\<close>

theorem uart4_never_leaves_buffers:
  assumes "\<forall>c\<in>set chunks. length c \<le> 63"
  shows "\<exists>p' w'. uart4_rx_entry chunks (uart_port0, w) = Some (p', w') \<and> uart_port_wf p'"
proof -
  have "\<forall>c\<in>set chunks. length c \<le> 63 \<and> length c \<le> MAX_LEN" using assms by (auto simp: MAX_LEN_def)
  from cam_rx.port.rx_entry_ok [OF cam_rx.port.port0_settled this, of w] show ?thesis
    by (auto simp: uart4_rx_entry_eq cam_rx.port.port_settled_def)
qed

theorem uart4_never_leaves_buffers_witness:
  "\<exists>p' w'. uart4_rx_entry [[0xA3, 0xB2], replicate 63 0xA3] (uart_port0, globals0) = Some (p', w') \<and> uart_port_wf p'"
  by (rule uart4_never_leaves_buffers) simp

subsection \<open>The messages\<close>

datatype cam_msg = Source u16 u16 | Leaf u8 | Plant u8 | Lamp

fun cam_enc :: "cam_msg \<Rightarrow> bytes" where
  "cam_enc (Source x y) = [0xA3, 0xB1, byte_at 8 x, byte_at 0 x, byte_at 8 y, byte_at 0 y, 0xC3]"
| "cam_enc (Leaf v) = [0xA3, 0xB2, v, 0xC3]"
| "cam_enc (Plant v) = [0xA3, 0xB3, v, 0xC3]"
| "cam_enc Lamp = [0xA3, 0xB4, 0xC3]"

fun cam_apply :: "cam_msg \<Rightarrow> 'a globals_scheme \<Rightarrow> 'a globals_scheme" where
  "cam_apply (Source x y) w = w\<lparr>Source_X := x, Source_Y := y, finding_flag := 1, lightONOFF_flag := 0\<rparr>"
| "cam_apply (Leaf v) w = w\<lparr>blade_state := v\<rparr>"
| "cam_apply (Plant v) w = (if v \<in> {4, 5, 6} then w\<lparr>Soil_PlantType := v - 3\<rparr> else w)"
| "cam_apply Lamp w = w\<lparr>lightONOFF_flag := 1, finding_flag := 0\<rparr>"

lemma cam_plant_effect: "cam_plant v w = cam_apply (Plant v) w"
  by (auto simp: cam_plant_def plant_types Let_def)

text \<open>Coordinates whose bytes do not contain the start of another message: all within the 640 by 480
  picture, for instance.\<close>

fun cam_valid :: "cam_msg \<Rightarrow> bool" where
  "cam_valid (Source x y) = (byte_at 8 x \<noteq> 0xA3 \<and> byte_at 8 y \<notin> {0xA3, 0xB1, 0xB2, 0xB3, 0xB4})"
| "cam_valid _ = True"

lemma cam_valid_picture:
  assumes "unat x < 640" "unat y < 480" shows "cam_valid (Source x y)"
proof -
  have hi: "unat (byte_at 8 (z :: u16)) < 3" if "unat z < 640" for z
  proof -
    have "unat (byte_at 8 z) = unat z div 256 mod 256"
      by (simp add: byte_at_def unsigned_ucast_eq take_bit_eq_mod drop_bit_eq_div unat_div_distrib)
    then show ?thesis using that by simp
  qed
  have "unat (byte_at 8 x) < 3" "unat (byte_at 8 y) < 3" using hi assms by simp_all
  then have "byte_at 8 x \<noteq> v" "byte_at 8 y \<noteq> v" if "3 \<le> unat v" for v :: u8 using that by auto
  from this [of "0xA3"] this [of "0xB1"] this [of "0xB2"] this [of "0xB3"] this [of "0xB4"] show ?thesis by simp
qed

lemma cam_skip:
  assumes "\<And>i. 1 \<le> i \<Longrightarrow> i < n \<Longrightarrow> i + 1 < length m \<and> (m ! i = 0xA3 \<longrightarrow> m ! (i + 1) \<notin> {0xB1, 0xB2, 0xB3, 0xB4})"
  shows "for_each (cam_at m 0) [1..<n] w = Some w"
  using assms by (intro for_each_skip cam_at_no_message) auto

lemma Maixcam_DataProc_valid:
  assumes "cam_valid c" "take (length (cam_enc c)) m = cam_enc c" "20 \<le> length m"
  shows "Maixcam_DataProc m 0 (length (cam_enc c)) w = Some (cam_apply c w)"
proof -
  have n: "m ! k = cam_enc c ! k" if "k < length (cam_enc c)" for k
    using nth_take [OF that, of m] assms(2) by simp
  have "6 < length m" using assms(3) by simp
  note first = cam_at_inside [of 0 0 m w, unfolded Let_def add_0, OF this]
  show ?thesis
  proof (cases c)
    case (Source x y)
    have m: "m ! 0 = 0xA3" "m ! 1 = 0xB1" "m ! 2 = byte_at 8 x" "m ! 3 = byte_at 0 x" "m ! 4 = byte_at 8 y"
      "m ! 5 = byte_at 0 y" "m ! 6 = 0xC3"
      using n [of 0] n [of 1] n [of 2] n [of 3] n [of 4] n [of 5] n [of 6] by (simp_all add: Source)
    have L: "length (cam_enc c) = 7" and i: "[0..<7 - 1] = 0 # [1..<6]" by (simp_all add: Source upt_rec)
    have "for_each (cam_at m 0) [1..<6] w' = Some w'" for w' :: "'a globals_scheme"
    proof (rule cam_skip)
      fix i :: nat assume "1 \<le> i" "i < 6"
      then have "i = 1 \<or> i = 2 \<or> i = 3 \<or> i = 4 \<or> i = 5" by auto
      then show "i + 1 < length m \<and> (m ! i = 0xA3 \<longrightarrow> m ! (i + 1) \<notin> {0xB1, 0xB2, 0xB3, 0xB4})"
        using m assms(1,3) by (auto simp: Source)
    qed
    then show ?thesis
      unfolding L Maixcam_DataProc_def i using first m by (simp add: Source byte_simps del: One_nat_def)
  next
    case (Leaf v)
    have m: "m ! 0 = 0xA3" "m ! 1 = 0xB2" "m ! 2 = v" "m ! 3 = 0xC3"
      using n [of 0] n [of 1] n [of 2] n [of 3] by (simp_all add: Leaf)
    have L: "length (cam_enc c) = 4" and i: "[0..<4 - 1] = 0 # [1..<3]" by (simp_all add: Leaf upt_rec)
    have "for_each (cam_at m 0) [1..<3] w' = Some w'" for w' :: "'a globals_scheme"
    proof (rule cam_skip)
      fix i :: nat assume "1 \<le> i" "i < 3"
      then have "i = 1 \<or> i = 2" by auto
      then show "i + 1 < length m \<and> (m ! i = 0xA3 \<longrightarrow> m ! (i + 1) \<notin> {0xB1, 0xB2, 0xB3, 0xB4})"
        using m assms(3) by auto
    qed
    then show ?thesis unfolding L Maixcam_DataProc_def i using first m by (simp add: Leaf del: One_nat_def)
  next
    case (Plant v)
    have m: "m ! 0 = 0xA3" "m ! 1 = 0xB3" "m ! 2 = v" "m ! 3 = 0xC3"
      using n [of 0] n [of 1] n [of 2] n [of 3] by (simp_all add: Plant)
    have L: "length (cam_enc c) = 4" and i: "[0..<4 - 1] = 0 # [1..<3]" by (simp_all add: Plant upt_rec)
    have "for_each (cam_at m 0) [1..<3] w' = Some w'" for w' :: "'a globals_scheme"
    proof (rule cam_skip)
      fix i :: nat assume "1 \<le> i" "i < 3"
      then have "i = 1 \<or> i = 2" by auto
      then show "i + 1 < length m \<and> (m ! i = 0xA3 \<longrightarrow> m ! (i + 1) \<notin> {0xB1, 0xB2, 0xB3, 0xB4})"
        using m assms(3) by auto
    qed
    then show ?thesis unfolding L Maixcam_DataProc_def i using first m by (simp add: Plant cam_plant_effect del: One_nat_def)
  next
    case Lamp
    have m: "m ! 0 = 0xA3" "m ! 1 = 0xB4" "m ! 2 = 0xC3"
      using n [of 0] n [of 1] n [of 2] by (simp_all add: Lamp)
    have L: "length (cam_enc c) = 3" and i: "[0..<3 - 1] = 0 # [1..<2]" by (simp_all add: Lamp upt_rec)
    have "for_each (cam_at m 0) [1..<2] w' = Some w'" for w' :: "'a globals_scheme"
    proof (rule cam_skip)
      fix i :: nat assume "1 \<le> i" "i < 2"
      then have "i = 1" by auto
      then show "i + 1 < length m \<and> (m ! i = 0xA3 \<longrightarrow> m ! (i + 1) \<notin> {0xB1, 0xB2, 0xB3, 0xB4})"
        using m assms(3) by auto
    qed
    then show ?thesis unfolding L Maixcam_DataProc_def i using first m by (simp add: Lamp del: One_nat_def)
  qed
qed

interpretation camera: header_commands UART4_FRAME_HEAD1 uart4_matching cam_found Maixcam_DataProc
  cam_enc cam_valid cam_apply
proof
  show "\<exists>c. cam_valid c" by (rule exI [of _ Lamp]) simp
  show "cam_enc c ! 0 = UART4_FRAME_HEAD1" "0 < length (cam_enc c)" "length (cam_enc c) \<le> 30" for c
    by (cases c; simp add: cam_consts)+
  show "cam_found (cam_enc c @ rest) = Some (length (cam_enc c))" if "cam_valid c" for c rest
    using that by (cases c) (simp_all add: cam_found_def)
  show "cam_found (take k (cam_enc c)) = None" if "cam_valid c" "0 < k" "k < length (cam_enc c)" for c k
    using that by (cases c) (auto simp: cam_found_def)
  show "Maixcam_DataProc m 0 (length (cam_enc c)) w = Some (cam_apply c w)"
    if "cam_valid c" "take (length (cam_enc c)) m = cam_enc c" "40 \<le> length m"
    for c m and w :: "'a globals_scheme"
    using Maixcam_DataProc_valid [OF that(1,2)] that(3) by simp
qed

text \<open>
  The camera is understood: for any list of messages (coordinates anywhere in the
  picture), cut by the UART in any way into reads of at most 63 bytes, every message takes effect
  once and in the order sent, the coordinates unchanged.
\<close>

theorem uart4_understands_camera:
  assumes "\<forall>c\<in>set msgs. cam_valid c" "concat chunks = concat (map cam_enc msgs)"
    "\<forall>c\<in>set chunks. c \<noteq> [] \<and> length c \<le> 63"
  shows "\<exists>p'. uart4_rx_entry chunks (uart_port0, w) = Some (p', fold cam_apply msgs w) \<and> parse_len p' = 0"
proof -
  have "parse_len uart_port0 = 0" by (simp add: uart_port0_def)
  from camera.cmds.rx_entry_commands [OF uart_port0_wf this assms(3,2,1), of w] show ?thesis
    by (auto simp: uart4_rx_entry_eq)
qed

theorem uart4_understands_camera_witness:
  "\<exists>p'. uart4_rx_entry [[0xA3, 0xB1, 0x01], [0x40, 0x00, 0xF0, 0xC3, 0xA3], [0xB4, 0xC3]] (uart_port0, globals0) =
      Some (p', fold cam_apply [Source 320 240, Lamp] globals0) \<and> parse_len p' = 0"
  by (rule uart4_understands_camera) (simp_all add: byte_at_def)

end
