(* ===== verification/Uart5_Port.thy ===== *)
theory Uart5_Port
  imports Header_Scan Uart_Send Globals
begin

text \<open>
  The host link: the command decoder \<^verbatim>\<open>PlantSoft_DataProc\<close> (\<^verbatim>\<open>Software/usart5.c\<close>) and the port
  \<^verbatim>\<open>Hardware/uart5_port.c\<close>. Commands are four bytes \<^verbatim>\<open>AA cmd value 55\<close>; the clock is nine,
  \<^verbatim>\<open>AA 60 year month day hour minute second 55\<close>.

  The decoder tests every index of the frame it is handed, each time looking up to eight bytes
  ahead, so it reads beyond the frame; \<open>None\<close> is a read outside the receive thread's buffer.
\<close>

definition PlantSoftpack_head_1 :: u8 where "PlantSoftpack_head_1 = 0xAA"
definition PlantSoftpack_tail :: u8 where "PlantSoftpack_tail = 0x55"
definition PlantSoft_CMD_MaixMode :: u8 where "PlantSoft_CMD_MaixMode = 0x10"
definition PlantSoft_CMD_WaterCtrl :: u8 where "PlantSoft_CMD_WaterCtrl = 0x20"
definition PlantSoft_CMD_LightCtrl :: u8 where "PlantSoft_CMD_LightCtrl = 0x30"
definition PlantSoft_CMD_SystemCtr :: u8 where "PlantSoft_CMD_SystemCtr = 0x40"
definition PlantSoft_CMD_Time :: u8 where "PlantSoft_CMD_Time = 0x60"
definition PlantSoft_CMD_PlantType :: u8 where "PlantSoft_CMD_PlantType = 0x70"

lemmas soft_consts = PlantSoftpack_head_1_def PlantSoftpack_tail_def PlantSoft_CMD_MaixMode_def
  PlantSoft_CMD_WaterCtrl_def PlantSoft_CMD_LightCtrl_def PlantSoft_CMD_SystemCtr_def
  PlantSoft_CMD_Time_def PlantSoft_CMD_PlantType_def

text \<open>The effect of a command byte and its value.\<close>

definition soft_maix :: "u8 \<Rightarrow> 'a globals_scheme \<Rightarrow> 'a globals_scheme" where
  "soft_maix v w = (let
     w = (if v = 1 then w\<lparr>MaixMode_flag := 1, Plantleaf_insflag := 1, starttime_cnt := 0\<rparr> else w)
   in if v = 2 then
        let w = (if Modestate_light w = 5 then w\<lparr>Modestate_light := 1\<rparr> else w)
        in w\<lparr>MaixMode_flag := 2, starttime_cnt := 0\<rparr>
      else w)"

definition soft_water :: "u8 \<Rightarrow> 'a globals_scheme \<Rightarrow> 'a globals_scheme" where
  "soft_water v w = (let w = (if v = 0 then w\<lparr>Water_flag := 0\<rparr> else w)
     in if v = 1 then w\<lparr>Water_flag := 1\<rparr> else w)"

definition soft_light :: "u8 \<Rightarrow> 'a globals_scheme \<Rightarrow> 'a globals_scheme" where
  "soft_light v w = (let w = (if v = 0 then w\<lparr>lightONOFF_flag := 0\<rparr> else w)
     in if v = 1 then w\<lparr>lightONOFF_flag := 1\<rparr> else w)"

definition soft_system :: "u8 \<Rightarrow> 'a globals_scheme \<Rightarrow> 'a globals_scheme" where
  "soft_system v w = (let w = (if v = 1 then w\<lparr>Motor_flag := 0\<rparr> else w)
     in if v = 0 then w\<lparr>Motor_flag := 1\<rparr> else w)"

definition soft_plant :: "u8 \<Rightarrow> 'a globals_scheme \<Rightarrow> 'a globals_scheme" where
  "soft_plant v w = (let
     w = (if v = 1 then w\<lparr>Soil_PlantType := UART4_MODE_SHADE\<rparr> else w);
     w = (if v = 2 then w\<lparr>Soil_PlantType := UART4_MODE_HALF_SHADE\<rparr> else w)
   in if v = 3 then w\<lparr>Soil_PlantType := UART4_MODE_SUN\<rparr> else w)"

definition soft_command :: "u8 \<Rightarrow> u8 \<Rightarrow> 'a globals_scheme \<Rightarrow> 'a globals_scheme" where
  "soft_command c v w = (let
     w = (if c = PlantSoft_CMD_MaixMode then soft_maix v w else w);
     w = (if c = PlantSoft_CMD_WaterCtrl then soft_water v w else w);
     w = (if c = PlantSoft_CMD_LightCtrl then soft_light v w else w);
     w = (if c = PlantSoft_CMD_SystemCtr then soft_system v w else w)
   in if c = PlantSoft_CMD_PlantType then soft_plant v w else w)"

definition soft_time :: "bytes \<Rightarrow> nat \<Rightarrow> 'a globals_scheme \<Rightarrow> 'a globals_scheme option" where
  "soft_time m p w =
     Option.bind (rd m (p + 2)) (\<lambda>y. Option.bind (rd m (p + 3)) (\<lambda>mo.
     Option.bind (rd m (p + 4)) (\<lambda>d. Option.bind (rd m (p + 5)) (\<lambda>h.
     Option.bind (rd m (p + 6)) (\<lambda>mi. Option.bind (rd m (p + 7)) (\<lambda>s.
       Some (w\<lparr>Year := y, Month := mo, Day := d, Hour := h, Minute := mi, Second := s\<rparr>)))))))"

definition soft_at :: "bytes \<Rightarrow> nat \<Rightarrow> nat \<Rightarrow> 'a globals_scheme \<Rightarrow> 'a globals_scheme option" where
  "soft_at m base i w =
     Option.bind
       (if_opt (and_then (rd_eq m (base + i) PlantSoftpack_head_1) (rd_eq m (base + i + 3) PlantSoftpack_tail))
          (Option.bind (rd m (base + i + 1)) (\<lambda>c. Option.bind (rd m (base + i + 2)) (\<lambda>v. Some (soft_command c v w))))
          (Some w))
       (\<lambda>w. if_opt (and_then (rd_eq m (base + i) PlantSoftpack_head_1)
                 (and_then (rd_eq m (base + i + 1) PlantSoft_CMD_Time) (rd_eq m (base + i + 8) PlantSoftpack_tail)))
          (soft_time m (base + i) w) (Some w))"

definition PlantSoft_DataProc :: "bytes \<Rightarrow> nat \<Rightarrow> nat \<Rightarrow> 'a globals_scheme \<Rightarrow> 'a globals_scheme option" where
  "PlantSoft_DataProc m base Size w = for_each (soft_at m base) [0..<Size - 1] w"

subsection \<open>The parser\<close>

definition uart5_shift_left :: "bytes \<Rightarrow> nat \<Rightarrow> nat \<Rightarrow> bytes \<times> nat" where
  "uart5_shift_left = uart_shift_left"

text \<open>The two frames that may start at a header: the clock is tried first.\<close>

definition uart5_matching :: "bytes \<Rightarrow> nat \<Rightarrow> nat \<Rightarrow> nat option option" where
  "uart5_matching buffer len i =
     Option.bind (and_then (Some (i + 8 < len)) (and_then (rd_eq buffer (i + 1) PlantSoft_CMD_Time)
       (rd_eq buffer (i + 8) PlantSoftpack_tail))) (\<lambda>t.
     if t then Some (Some 9)
     else Option.bind (and_then (Some (i + 3 < len)) (rd_eq buffer (i + 3) PlantSoftpack_tail)) (\<lambda>c.
       if c then Some (Some 4) else Some None))"

definition uart5_try_parse :: "('a globals_scheme) parser" where
  "uart5_try_parse buffer len w =
     header_scan PlantSoftpack_head_1 uart5_matching PlantSoft_DataProc 0 buffer len w"

subsection \<open>The driver\<close>

definition uart5_port_open :: "rtk \<times> uart_port \<Rightarrow> rt_err_t \<times> rtk \<times> uart_port" where
  "uart5_port_open = uart_port_open ''uart5'' ''uart5_rx_ind'' ''u5rx''"

definition UART5DMA_Init :: "u32 \<Rightarrow> rtk \<times> uart_port \<Rightarrow> rtk \<times> uart_port" where
  "UART5DMA_Init = uart_port_init ''uart5'' ''uart5_rx_ind'' ''u5rx''"

definition UART5DMA_SendData :: "bytes option \<Rightarrow> rtk \<times> uart_port \<Rightarrow> rtk \<times> uart_port" where
  "UART5DMA_SendData = uart_send ''uart5'' ''uart5_rx_ind'' ''u5rx''"

definition uart5_rx_ind :: "uart_port \<Rightarrow> uart_port" where
  "uart5_rx_ind = uart_rx_ind"

definition uart5_rx_entry ::
  "bytes list \<Rightarrow> uart_port \<times> 'a globals_scheme \<Rightarrow> (uart_port \<times> 'a globals_scheme) option" where
  "uart5_rx_entry = uart_rx_entry uart5_try_parse"

subsection \<open>Commands\<close>

datatype soft_cmd =
    Cmd u8 u8
  | Clock u8 u8 u8 u8 u8 u8

fun soft_enc :: "soft_cmd \<Rightarrow> bytes" where
  "soft_enc (Cmd c v) = [0xAA, c, v, 0x55]"
| "soft_enc (Clock y mo d h mi s) = [0xAA, 0x60, y, mo, d, h, mi, s, 0x55]"

text \<open>The table of the protocol: what each command with its value asks for. Everything else is ignored.\<close>

definition soft_effect :: "u8 \<Rightarrow> u8 \<Rightarrow> 'a globals_scheme \<Rightarrow> 'a globals_scheme" where
  "soft_effect c v w =
    (if (c, v) = (0x10, 1) then w\<lparr>MaixMode_flag := 1, Plantleaf_insflag := 1, starttime_cnt := 0\<rparr>
     else if (c, v) = (0x10, 2) then w\<lparr>MaixMode_flag := 2, starttime_cnt := 0,
       Modestate_light := if Modestate_light w = 5 then 1 else Modestate_light w\<rparr>
     else if c = 0x20 \<and> v \<in> {0, 1} then w\<lparr>Water_flag := v\<rparr>
     else if c = 0x30 \<and> v \<in> {0, 1} then w\<lparr>lightONOFF_flag := v\<rparr>
     else if c = 0x40 \<and> v \<in> {0, 1} then w\<lparr>Motor_flag := 1 - v\<rparr>
     else if c = 0x70 \<and> v \<in> {1, 2, 3} then w\<lparr>Soil_PlantType := v\<rparr>
     else w)"

lemma soft_command_effect: "soft_command c v w = soft_effect c v w"
  by (auto simp: soft_effect_def soft_command_def soft_maix_def soft_water_def soft_light_def soft_system_def soft_plant_def
    soft_consts plant_types Let_def)

fun soft_apply :: "soft_cmd \<Rightarrow> 'a globals_scheme \<Rightarrow> 'a globals_scheme" where
  "soft_apply (Cmd c v) w = soft_effect c v w"
| "soft_apply (Clock y mo d h mi s) w =
     w\<lparr>Year := y, Month := mo, Day := d, Hour := h, Minute := mi, Second := s\<rparr>"

text \<open>
  The commands the protocol defines: no byte of a command is a header, a four byte command is not
  the clock's, and a clock has no month 55.
\<close>

fun soft_valid :: "soft_cmd \<Rightarrow> bool" where
  "soft_valid (Cmd c v) = (c \<noteq> 0xAA \<and> v \<noteq> 0xAA \<and> c \<noteq> 0x60)"
| "soft_valid (Clock y mo d h mi s) = (0xAA \<notin> {y, mo, d, h, mi, s} \<and> mo \<noteq> 0x55)"

lemma soft_at_inside:
  assumes "base + i + 8 < length m"
  shows "soft_at m base i w = Some (
    let w = (if m ! (base + i) = 0xAA \<and> m ! (base + i + 3) = 0x55
             then soft_command (m ! (base + i + 1)) (m ! (base + i + 2)) w else w)
    in if m ! (base + i) = 0xAA \<and> m ! (base + i + 1) = 0x60 \<and> m ! (base + i + 8) = 0x55
       then w\<lparr>Year := m ! (base + i + 2), Month := m ! (base + i + 3), Day := m ! (base + i + 4),
              Hour := m ! (base + i + 5), Minute := m ! (base + i + 6), Second := m ! (base + i + 7)\<rparr>
       else w)"
  using assms by (simp add: soft_at_def soft_time_def soft_consts arr_simps Let_def)

lemma soft_at_no_head: "base + i < length m \<Longrightarrow> m ! (base + i) \<noteq> 0xAA \<Longrightarrow> soft_at m base i w = Some w"
  by (simp add: soft_at_def soft_consts arr_simps)

text \<open>The decoder reads inside the buffer when eight more bytes than the frame are in it.\<close>

lemma PlantSoft_DataProc_inside:
  assumes "base + n + 7 \<le> length m"
  shows "\<exists>w'. PlantSoft_DataProc m base n w = Some w'"
proof -
  have "\<exists>w'. for_each (soft_at m base) [0..<n - 1] w = Some w' \<and> True"
  proof (rule for_each_invariant)
    fix i and w :: "'a globals_scheme" assume "i \<in> set [0..<n - 1]"
    then have "base + i + 8 < length m" using assms by auto
    from soft_at_inside [OF this] show "\<exists>w'. soft_at m base i w = Some w' \<and> True" by blast
  qed simp
  then show ?thesis by (simp add: PlantSoft_DataProc_def)
qed

definition soft_found :: "bytes \<Rightarrow> nat option" where
  "soft_found r = (if 9 \<le> length r \<and> r ! 1 = 0x60 \<and> r ! 8 = 0x55 then Some 9
     else if 4 \<le> length r \<and> r ! 3 = 0x55 then Some 4 else None)"

lemma uart5_matching_found:
  assumes "len \<le> length buf" "i < len"
  shows "uart5_matching buf len i = Some (soft_found (drop i (take len buf)))"
proof -
  have t: "and_then (Some (i + 8 < len)) (and_then (rd_eq buf (i + 1) PlantSoft_CMD_Time)
        (rd_eq buf (i + 8) PlantSoftpack_tail)) = Some (i + 8 < len \<and> buf ! (i + 1) = 0x60 \<and> buf ! (i + 8) = 0x55)"
    using assms by (cases "i + 8 < len") (auto simp: arr_simps soft_consts)
  have c: "and_then (Some (i + 3 < len)) (rd_eq buf (i + 3) PlantSoftpack_tail) =
      Some (i + 3 < len \<and> buf ! (i + 3) = 0x55)"
    using assms by (cases "i + 3 < len") (auto simp: arr_simps soft_consts)
  show ?thesis
    unfolding uart5_matching_def t c using assms by (auto simp: soft_found_def)
qed

interpretation soft_rx: header_scanner PlantSoftpack_head_1 uart5_matching soft_found PlantSoft_DataProc
proof
  show "uart5_matching buf len i = Some (soft_found (drop i (take len buf)))"
    if "len \<le> length buf" "i < len" for buf len i using uart5_matching_found that .
  show "0 < n \<and> n \<le> length r" if "soft_found r = Some n" for r n
    using that by (auto simp: soft_found_def split: if_splits)
  show "soft_found (r @ c) = None" if "9 \<le> length r" "soft_found r = None" for r c
    using that by (auto simp: soft_found_def nth_append split: if_splits)
qed (rule PlantSoft_DataProc_inside)

lemma uart5_rx_entry_eq: "uart5_rx_entry =
    uart_rx_entry (\<lambda>b n w. header_scan PlantSoftpack_head_1 uart5_matching PlantSoft_DataProc 0 b n w)"
  unfolding uart5_rx_entry_def by (rule arg_cong [of _ _ uart_rx_entry]) (simp add: uart5_try_parse_def fun_eq_iff)

text \<open>
  Whatever bytes the host sends, and however they are cut into the reads of at most 63
  bytes the kernel's ring can deliver, the receive thread never reads or writes outside its
  buffers, although the command decoder looks up to eight bytes past the frame it is given.
\<close>

theorem uart5_never_leaves_buffers:
  assumes "\<forall>c\<in>set chunks. length c \<le> 63"
  shows "\<exists>p' w'. uart5_rx_entry chunks (uart_port0, w) = Some (p', w') \<and> uart_port_wf p'"
proof -
  have "\<forall>c\<in>set chunks. length c \<le> 63 \<and> length c \<le> MAX_LEN" using assms by (auto simp: MAX_LEN_def)
  from soft_rx.port.rx_entry_ok [OF soft_rx.port.port0_settled this, of w] show ?thesis
    by (auto simp: uart5_rx_entry_eq soft_rx.port.port_settled_def)
qed

theorem uart5_never_leaves_buffers_witness:
  "\<exists>p' w'. uart5_rx_entry [[0xAA, 0xAA, 0x60], replicate 63 0x55] (uart_port0, globals0) = Some (p', w') \<and>
     uart_port_wf p'"
  by (rule uart5_never_leaves_buffers) simp

subsection \<open>The protocol\<close>

lemma PlantSoft_DataProc_valid:
  assumes "soft_valid c" "take (length (soft_enc c)) m = soft_enc c" "20 \<le> length m"
  shows "PlantSoft_DataProc m 0 (length (soft_enc c)) w = Some (soft_apply c w)"
proof -
  have n: "m ! k = soft_enc c ! k" if "k < length (soft_enc c)" for k
    using nth_take [OF that, of m] assms(2) by simp
  show ?thesis
proof (cases c)
  case (Cmd cmd v)
  have m: "m ! 0 = 0xAA" "m ! 1 = cmd" "m ! 2 = v" "m ! 3 = 0x55"
    using n [of 0] n [of 1] n [of 2] n [of 3] by (simp_all add: Cmd)
  have L: "length (soft_enc c) = 4" by (simp add: Cmd)
  have f: "soft_at m 0 0 w = Some (soft_command cmd v w)"
    using soft_at_inside [of 0 0 m w, unfolded add_0] assms(1,3) m by (simp add: Cmd del: One_nat_def)
  have r: "for_each (soft_at m 0) [1..<3] w' = Some w'" for w' :: "'a globals_scheme"
  proof (rule for_each_skip)
    fix i assume "i \<in> set [1..<3]"
    then have "i = 1 \<or> i = 2" by auto
    then show "soft_at m 0 i w' = Some w'"
      using soft_at_no_head [of 0 i m w'] m assms(1,3) by (auto simp: Cmd)
  qed
  have i: "[0..<4 - 1] = 0 # [1..<3]" by (simp add: upt_rec)
  show ?thesis unfolding L PlantSoft_DataProc_def i using f r by (simp add: Cmd soft_command_effect)
next
  case (Clock y mo d h mi s)
  have m: "m ! 0 = 0xAA" "m ! 1 = 0x60" "m ! 2 = y" "m ! 3 = mo" "m ! 4 = d" "m ! 5 = h" "m ! 6 = mi"
    "m ! 7 = s" "m ! 8 = 0x55"
    using n [of 0] n [of 1] n [of 2] n [of 3] n [of 4] n [of 5] n [of 6] n [of 7] n [of 8]
    by (simp_all add: Clock)
  have L: "length (soft_enc c) = 9" by (simp add: Clock)
  have f: "soft_at m 0 0 w = Some (soft_apply c w)"
    using soft_at_inside [of 0 0 m w, unfolded add_0] assms(1,3) m by (simp add: Clock del: One_nat_def)
  have r: "for_each (soft_at m 0) [1..<8] w' = Some w'" for w' :: "'a globals_scheme"
  proof (rule for_each_skip)
    fix i assume "i \<in> set [1..<8]"
    then have "i = 1 \<or> i = 2 \<or> i = 3 \<or> i = 4 \<or> i = 5 \<or> i = 6 \<or> i = 7" by auto
    then show "soft_at m 0 i w' = Some w'"
      using soft_at_no_head [of 0 i m w'] m assms(1,3) by (auto simp: Clock)
  qed
  have i: "[0..<9 - 1] = 0 # [1..<8]" by (simp add: upt_rec)
  show ?thesis unfolding L PlantSoft_DataProc_def i using f r by (simp add: Clock)
qed
qed

interpretation soft_host: header_commands PlantSoftpack_head_1 uart5_matching soft_found PlantSoft_DataProc
  soft_enc soft_valid soft_apply
proof
  show "\<exists>c. soft_valid c" by (rule exI [of _ "Cmd 0 0"]) simp
  show "soft_enc c ! 0 = PlantSoftpack_head_1" "0 < length (soft_enc c)" "length (soft_enc c) \<le> 30" for c
    by (cases c; simp add: soft_consts)+
  show "soft_found (soft_enc c @ rest) = Some (length (soft_enc c))" if "soft_valid c" for c rest
    using that by (cases c) (simp_all add: soft_found_def)
  show "soft_found (take k (soft_enc c)) = None" if "soft_valid c" "0 < k" "k < length (soft_enc c)" for c k
  proof (cases c)
    case (Cmd cmd v)
    then show ?thesis using that by (simp add: soft_found_def)
  next
    case (Clock y mo d h mi s)
    then have "3 < k \<Longrightarrow> take k (soft_enc c) ! 3 = mo" using that by simp
    then show ?thesis using that Clock by (auto simp: soft_found_def)
  qed
  show "PlantSoft_DataProc m 0 (length (soft_enc c)) w = Some (soft_apply c w)"
    if "soft_valid c" "take (length (soft_enc c)) m = soft_enc c" "40 \<le> length m"
    for c m and w :: "'a globals_scheme"
    using PlantSoft_DataProc_valid [OF that(1,2)] that(3) by simp
qed

text \<open>
  C11 (functional). A host that sends commands of the protocol is obeyed: for any list of valid
  commands (mode, water, light, emergency stop, plant type, clock), cut by the UART in any way into
  reads of at most 63 bytes, the receive thread applies every command once, in the order sent, and
  has nothing left over.
\<close>

theorem uart5_obeys_host:
  assumes "\<forall>c\<in>set cmds. soft_valid c" "concat chunks = concat (map soft_enc cmds)"
    "\<forall>c\<in>set chunks. c \<noteq> [] \<and> length c \<le> 63"
  shows "\<exists>p'. uart5_rx_entry chunks (uart_port0, w) = Some (p', fold soft_apply cmds w) \<and> parse_len p' = 0"
proof -
  have "parse_len uart_port0 = 0" by (simp add: uart_port0_def)
  from soft_host.cmds.rx_entry_commands [OF uart_port0_wf this assms(3,2,1), of w] show ?thesis
    by (auto simp: uart5_rx_entry_eq)
qed

theorem uart5_obeys_host_witness:
  "\<exists>p'. uart5_rx_entry [[0xAA, 0x40], [0x01, 0x55, 0xAA], [0x60, 26, 5, 31, 12, 30, 0, 0x55]] (uart_port0, globals0) =
      Some (p', fold soft_apply [Cmd 0x40 1, Clock 26 5 31 12 30 0] globals0) \<and> parse_len p' = 0"
  by (rule uart5_obeys_host) simp_all

subsection \<open>A header the parser never gets past\<close>

lemma uart5_chunks_stuck:
  assumes "uart_port_wf p" "pending p @ concat chunks = ys" "length ys \<le> MAX_LEN"
    "ys = 0xAA # a # b # c # xs" "a \<noteq> 0x60" "c \<noteq> 0x55" "\<forall>ch\<in>set chunks. ch \<noteq> []"
  shows "\<exists>p'. for_each (uart_rx_chunk uart5_try_parse) chunks (p, w) = Some (p', w) \<and> uart_port_wf p' \<and> pending p' = ys"
  using assms
proof (induction chunks arbitrary: p)
  case (Cons ch chunks)
  have wf: "length (parse_buf p) = MAX_LEN" "parse_len p \<le> MAX_LEN" "length (RX_BUF p) = MAX_LEN"
    using Cons.prems(1) by (auto simp: uart_port_wf_def)
  have pl: "length (pending p) = parse_len p" using wf by (simp add: pending_def)
  have le: "parse_len p + length ch \<le> MAX_LEN"
    using Cons.prems(2,3) pl by (auto dest: arg_cong [of _ _ length])
  define buf where "buf = blit ch (parse_len p) (parse_buf p)"
  define len where "len = parse_len p + length ch"
  have t: "take len buf = pending p @ ch" "length buf = MAX_LEN"
    using wf le by (simp_all add: buf_def len_def blit_contents pending_def)
  have nth: "buf ! k = ys ! k" if "k < len" for k
  proof -
    have "buf ! k = (pending p @ ch) ! k" using t(1) that by (metis nth_take)
    also have "\<dots> = ys ! k"
      using that pl Cons.prems(2) by (simp add: len_def nth_append flip: append_assoc)
        (metis add_diff_cancel_left' append_assoc length_append less_diff_conv2 linorder_not_less nth_append)
    finally show ?thesis .
  qed
  have "ch \<noteq> []" using Cons.prems(7) by simp
  then have l: "0 < len" "len \<le> length buf" using le t(2) by (simp_all add: len_def)
  have "buf ! 0 = PlantSoftpack_head_1" "soft_found (drop 0 (take len buf)) = None"
    using nth [of 0] nth [of 1] nth [of 3] l Cons.prems(4-6) by (auto simp: soft_found_def soft_consts)
  then have "uart5_try_parse buf len w = Some (buf, len, w)"
    using soft_rx.scan_turn [OF l(2,1), of w] by (simp add: uart5_try_parse_def)
  moreover have "length (blit ch 0 (RX_BUF p)) = MAX_LEN" using wf le by simp
  ultimately obtain p1 where p1: "uart_rx_chunk uart5_try_parse ch (p, w) = Some (p1, w)" "uart_port_wf p1"
    "pending p1 = pending p @ ch"
    using le t Cons.prems(1) by (simp add: uart_rx_chunk_def Let_def pending_def uart_port_wf_def len_def buf_def)
  then show ?case using Cons.IH [OF p1(2)] Cons.prems by simp
qed simp

text \<open>
  A byte \<^verbatim>\<open>AA\<close> that does not start a command (one bit error, or noise) blocks
  the link: as long as fewer than 400 bytes have arrived since, whatever follows, emergency stops
  included, is kept in the buffer and not executed.
\<close>

theorem uart5_stray_header_blocks:
  assumes "concat chunks = 0xAA # a # b # c # xs" "a \<noteq> 0x60" "c \<noteq> 0x55" "length (concat chunks) \<le> 400"
    "\<forall>ch\<in>set chunks. ch \<noteq> []"
  shows "\<exists>p'. uart5_rx_entry chunks (uart_port0, w) = Some (p', w) \<and> pending p' = concat chunks"
proof -
  have tw: "takeWhile (\<lambda>c. c \<noteq> []) chunks = chunks" using assms(5) by (simp add: takeWhile_eq_all_conv)
  have "\<exists>p'. for_each (uart_rx_chunk uart5_try_parse) chunks (uart_port0, w) = Some (p', w) \<and> uart_port_wf p' \<and>
      pending p' = concat chunks"
    by (rule uart5_chunks_stuck [OF _ _ _ assms(1)]) (use assms in \<open>simp_all add: MAX_LEN_def\<close>)
  then show ?thesis by (auto simp: uart5_rx_entry_def uart_rx_entry_def tw)
qed

theorem uart5_stray_header_blocks_witness:
  "\<exists>p'. uart5_rx_entry [[0xAA, 0x00, 0x00, 0x00], soft_enc (Cmd 0x40 1)] (uart_port0, globals0) = Some (p', globals0) \<and>
     pending p' = concat [[0xAA, 0x00, 0x00, 0x00], soft_enc (Cmd 0x40 1)]"
  by (rule uart5_stray_header_blocks [of _ 0 0 0 "soft_enc (Cmd 0x40 1)"]) simp_all

end
