(* ===== verification/Usart6_Port.thy ===== *)
theory Usart6_Port
  imports Uart_Send
begin

text \<open>
  The voice module's UART (\<^verbatim>\<open>Hardware/usart6_port.c\<close>). What the module sends is read and dropped
  (\<^verbatim>\<open>USART6_DataProc\<close> in \<^verbatim>\<open>Software/usart6.c\<close> is empty), so its receive thread keeps no parse buffer.
\<close>

definition usart6_port_open :: "rtk \<times> uart_port \<Rightarrow> rt_err_t \<times> rtk \<times> uart_port" where
  "usart6_port_open = uart_port_open ''uart6'' ''usart6_rx_ind'' ''u6rx''"

definition USART6DMA_Init :: "u32 \<Rightarrow> rtk \<times> uart_port \<Rightarrow> rtk \<times> uart_port" where
  "USART6DMA_Init = uart_port_init ''uart6'' ''usart6_rx_ind'' ''u6rx''"

definition USART6DMA_SendData :: "bytes option \<Rightarrow> rtk \<times> uart_port \<Rightarrow> rtk \<times> uart_port" where
  "USART6DMA_SendData = uart_send ''uart6'' ''usart6_rx_ind'' ''u6rx''"

definition usart6_rx_ind :: "uart_port \<Rightarrow> uart_port" where
  "usart6_rx_ind = uart_rx_ind"

definition USART6_DataProc :: "bytes \<Rightarrow> u8 \<Rightarrow> 's \<Rightarrow> 's" where
  "USART6_DataProc data Size s = s"

definition usart6_rx_chunk :: "bytes \<Rightarrow> uart_port \<Rightarrow> uart_port option" where
  "usart6_rx_chunk chunk p =
     (if MAX_LEN < length chunk then None
      else let p = p\<lparr>RX_BUF := blit chunk 0 (RX_BUF p), rx_len := of_nat (length chunk)\<rparr>
        in Some (USART6_DataProc (RX_BUF p) (rx_len p) p))"

definition usart6_rx_entry :: "bytes list \<Rightarrow> uart_port \<Rightarrow> uart_port option" where
  "usart6_rx_entry chunks p = for_each usart6_rx_chunk (takeWhile (\<lambda>c. c \<noteq> []) chunks) p"

end
