(* ===== verification/Comm.thy ===== *)
theory Comm
  imports CarTurn Usart1_Port Usart2_Port Emm_V5 Uart4_Port
    Uart5_Port Usart6_Port
begin

text \<open>
  The firmware's state with the kernel and the static variables of the six UART drivers, and the
  drivers' calls on it. The modules above (\<^verbatim>\<open>usart4.c\<close>, \<^verbatim>\<open>usart5.c\<close>, \<^verbatim>\<open>usart6.c\<close>, \<^verbatim>\<open>SportMode.c\<close>) reach
  the UARTs through these.
\<close>

record comm = turns +
  rtos :: rtk
  port1 :: uart_port
  port2 :: uart_port
  port4 :: uart_port
  port5 :: uart_port
  port6 :: uart_port
  usart3_dev :: "string option"

definition comm_fields0 where
  "comm_fields0 = comm.fields rtk0 uart_port0 uart_port0 uart_port0 uart_port0 uart_port0 None"

definition comm0 :: comm where
  "comm0 = turns.extend turns0 comm_fields0"

definition imu_send :: "bytes \<Rightarrow> 'a comm_scheme \<Rightarrow> 'a comm_scheme" where
  "imu_send cs w = (let (k, p) = Usart2DMA_SendData (Some cs) (rtos w, port2 w) in w\<lparr>rtos := k, port2 := p\<rparr>)"

definition cam_send :: "bytes \<Rightarrow> 'a comm_scheme \<Rightarrow> 'a comm_scheme" where
  "cam_send cs w = (let (k, p) = UART4DMA_SendData (Some cs) (rtos w, port4 w) in w\<lparr>rtos := k, port4 := p\<rparr>)"

definition host_send :: "bytes \<Rightarrow> 'a comm_scheme \<Rightarrow> 'a comm_scheme" where
  "host_send cs w = (let (k, p) = UART5DMA_SendData (Some cs) (rtos w, port5 w) in w\<lparr>rtos := k, port5 := p\<rparr>)"

definition voice_send :: "bytes \<Rightarrow> 'a comm_scheme \<Rightarrow> 'a comm_scheme" where
  "voice_send cs w = (let (k, p) = USART6DMA_SendData (Some cs) (rtos w, port6 w) in w\<lparr>rtos := k, port6 := p\<rparr>)"

text \<open>A call of one of the stepper functions.\<close>

definition stepper :: "(usart3 \<Rightarrow> usart3) \<Rightarrow> 'a comm_scheme \<Rightarrow> 'a comm_scheme" where
  "stepper f w = (let (k, d) = f (rtos w, usart3_dev w) in w\<lparr>rtos := k, usart3_dev := d\<rparr>)"

text \<open>What each line carried so far.\<close>

abbreviation sent :: "string \<Rightarrow> 'a comm_scheme \<Rightarrow> bytes" where
  "sent n w \<equiv> tx_of (rtos w) n"

subsection \<open>Lines that are ready\<close>

text \<open>
  Every line is either open or registered and untouched. The transmissions keep this and append to
  their own line only.
\<close>

definition lines_ready :: "'a comm_scheme \<Rightarrow> bool" where
  "lines_ready w \<longleftrightarrow> port_ready ''uart2'' (rtos w) (port2 w) \<and> port_ready ''uart4'' (rtos w) (port4 w) \<and>
     port_ready ''uart5'' (rtos w) (port5 w) \<and> port_ready ''uart6'' (rtos w) (port6 w) \<and>
     usart3_ready (rtos w, usart3_dev w)"

lemma ready_elsewhere:
  assumes "devs k' n = devs k n" "heap_ok k' = heap_ok k"
  shows "port_ready n k' p = port_ready n k p" "tx_of k' n = tx_of k n"
  using assms by (simp_all add: port_ready_def port_up_def port_fresh_def device_up_def device_fresh_def tx_of_def)

lemma usart3_ready_elsewhere:
  assumes "devs k' ''uart3'' = devs k ''uart3''"
  shows "usart3_ready (k', d) = usart3_ready (k, d)"
  using assms by (simp add: usart3_ready_def device_up_def device_fresh_def)

lemma send_on_line:
  assumes "port_ready n k p" "cs \<noteq> []" "length cs \<le> TX_LEN" "uart_send n ri th (Some cs) (k, p) = (k', p')"
  shows "port_ready n k' p'" "tx_of k' n = tx_of k n @ cs"
    "m \<noteq> n \<Longrightarrow> port_ready m k' q = port_ready m k q" "m \<noteq> n \<Longrightarrow> tx_of k' m = tx_of k m"
    "''uart3'' \<noteq> n \<Longrightarrow> usart3_ready (k', d) = usart3_ready (k, d)"
    "''uart1'' \<noteq> n \<Longrightarrow> console_ready k' q = console_ready k q"
proof -
  have f: "port_up n k' p'" "tx_of k' n = tx_of k n @ take TX_LEN cs"
    "\<And>m. m \<noteq> n \<Longrightarrow> devs k' m = devs k m" "heap_ok k' = heap_ok k"
    using uart_send_ready [OF assms(1,2,4)] by blast+
  show "port_ready n k' p'" using f(1) by (simp add: port_ready_def)
  show "tx_of k' n = tx_of k n @ cs" using f(2) assms(3) by simp
  show "port_ready m k' q = port_ready m k q" if "m \<noteq> n" by (rule ready_elsewhere(1) [OF f(3) [OF that] f(4)])
  show "tx_of k' m = tx_of k m" if "m \<noteq> n" by (rule ready_elsewhere(2) [OF f(3) [OF that] f(4)])
  show "usart3_ready (k', d) = usart3_ready (k, d)" if "''uart3'' \<noteq> n"
    by (rule usart3_ready_elsewhere [OF f(3) [OF that]])
  have "console_device k' = console_device k" "shell k' = shell k"
    using send_kernel [of n ri th "Some cs" k p] by (simp_all add: assms(4))
  then show "console_ready k' q = console_ready k q" if "''uart1'' \<noteq> n" by (intro console_elsewhere f(3) f(4) that)
qed

lemmas port_sends = imu_send_def cam_send_def host_send_def voice_send_def Usart2DMA_SendData_def
  UART4DMA_SendData_def UART5DMA_SendData_def USART6DMA_SendData_def

lemma host_send_ready:
  assumes "lines_ready w" "cs \<noteq> []" "length cs \<le> TX_LEN"
  obtains k p where "host_send cs w = w\<lparr>rtos := k, port5 := p\<rparr>" "lines_ready (host_send cs w)"
    "sent ''uart5'' (host_send cs w) = sent ''uart5'' w @ cs"
    "\<And>n. n \<noteq> ''uart5'' \<Longrightarrow> sent n (host_send cs w) = sent n w"
proof -
  obtain k p where e: "uart_send ''uart5'' ''uart5_rx_ind'' ''u5rx'' (Some cs) (rtos w, port5 w) = (k, p)"
    by fastforce
  have r: "port_ready ''uart5'' (rtos w) (port5 w)" using assms(1) by (simp add: lines_ready_def)
  have h: "host_send cs w = w\<lparr>rtos := k, port5 := p\<rparr>" by (simp add: port_sends e)
  note f = send_on_line [OF r assms(2,3) e]
  show ?thesis by (rule that [OF h]) (use assms(1) f in \<open>simp_all add: h lines_ready_def\<close>)
qed

lemma cam_send_ready:
  assumes "lines_ready w" "cs \<noteq> []" "length cs \<le> TX_LEN"
  obtains k p where "cam_send cs w = w\<lparr>rtos := k, port4 := p\<rparr>" "lines_ready (cam_send cs w)"
    "sent ''uart4'' (cam_send cs w) = sent ''uart4'' w @ cs"
    "\<And>n. n \<noteq> ''uart4'' \<Longrightarrow> sent n (cam_send cs w) = sent n w"
proof -
  obtain k p where e: "uart_send ''uart4'' ''uart4_rx_ind'' ''u4rx'' (Some cs) (rtos w, port4 w) = (k, p)"
    by fastforce
  have r: "port_ready ''uart4'' (rtos w) (port4 w)" using assms(1) by (simp add: lines_ready_def)
  have h: "cam_send cs w = w\<lparr>rtos := k, port4 := p\<rparr>" by (simp add: port_sends e)
  note f = send_on_line [OF r assms(2,3) e]
  show ?thesis by (rule that [OF h]) (use assms(1) f in \<open>simp_all add: h lines_ready_def\<close>)
qed

lemma voice_send_ready:
  assumes "lines_ready w" "cs \<noteq> []" "length cs \<le> TX_LEN"
  obtains k p where "voice_send cs w = w\<lparr>rtos := k, port6 := p\<rparr>" "lines_ready (voice_send cs w)"
    "sent ''uart6'' (voice_send cs w) = sent ''uart6'' w @ cs"
    "\<And>n. n \<noteq> ''uart6'' \<Longrightarrow> sent n (voice_send cs w) = sent n w"
proof -
  obtain k p where e: "uart_send ''uart6'' ''usart6_rx_ind'' ''u6rx'' (Some cs) (rtos w, port6 w) = (k, p)"
    by fastforce
  have r: "port_ready ''uart6'' (rtos w) (port6 w)" using assms(1) by (simp add: lines_ready_def)
  have h: "voice_send cs w = w\<lparr>rtos := k, port6 := p\<rparr>" by (simp add: port_sends e)
  note f = send_on_line [OF r assms(2,3) e]
  show ?thesis by (rule that [OF h]) (use assms(1) f in \<open>simp_all add: h lines_ready_def\<close>)
qed

lemma imu_send_ready:
  assumes "lines_ready w" "cs \<noteq> []" "length cs \<le> TX_LEN"
  obtains k p where "imu_send cs w = w\<lparr>rtos := k, port2 := p\<rparr>" "lines_ready (imu_send cs w)"
    "sent ''uart2'' (imu_send cs w) = sent ''uart2'' w @ cs"
    "\<And>n. n \<noteq> ''uart2'' \<Longrightarrow> sent n (imu_send cs w) = sent n w"
proof -
  obtain k p where e: "uart_send ''uart2'' ''usart2_rx_ind'' ''u2rx'' (Some cs) (rtos w, port2 w) = (k, p)"
    by fastforce
  have r: "port_ready ''uart2'' (rtos w) (port2 w)" using assms(1) by (simp add: lines_ready_def)
  have h: "imu_send cs w = w\<lparr>rtos := k, port2 := p\<rparr>" by (simp add: port_sends e)
  note f = send_on_line [OF r assms(2,3) e]
  show ?thesis by (rule that [OF h]) (use assms(1) f in \<open>simp_all add: h lines_ready_def\<close>)
qed

lemma stepper_ready:
  assumes "lines_ready w"
  obtains k d where "stepper (emm_send a c) w = w\<lparr>rtos := k, usart3_dev := d\<rparr>"
    "lines_ready (stepper (emm_send a c) w)"
    "sent ''uart3'' (stepper (emm_send a c) w) = sent ''uart3'' w @ emm_frame a c"
    "\<And>n. n \<noteq> ''uart3'' \<Longrightarrow> sent n (stepper (emm_send a c) w) = sent n w"
proof -
  obtain k d where e: "emm_send a c (rtos w, usart3_dev w) = (k, d)" by fastforce
  have r: "usart3_ready (rtos w, usart3_dev w)" using assms(1) by (simp add: lines_ready_def)
  have f: "usart3_ready (k, d)" "tx_of k ''uart3'' = tx_of (rtos w) ''uart3'' @ emm_frame a c"
    "\<And>m. m \<noteq> ''uart3'' \<Longrightarrow> devs k m = devs (rtos w) m" "heap_ok k = heap_ok (rtos w)"
    using emm_send_ready [OF r, where a = a and c = c] by (simp_all add: e)
  have o: "port_ready m k q = port_ready m (rtos w) q" "tx_of k m = tx_of (rtos w) m" if "m \<noteq> ''uart3''" for m q
    by (rule ready_elsewhere [OF f(3) [OF that] f(4)])+
  have h: "stepper (emm_send a c) w = w\<lparr>rtos := k, usart3_dev := d\<rparr>" by (simp add: stepper_def e)
  show ?thesis
    by (rule that [OF h]) (use assms(1) f(1,2) o in \<open>simp_all add: h lines_ready_def\<close>)
qed

subsection \<open>The contract of a line\<close>

text \<open>
  What the modules rely on: a packet that fits the driver's buffers goes out complete, after what
  was sent before, and nothing goes out on another line.
\<close>

definition fits :: "bytes \<Rightarrow> bool" where
  "fits cs \<longleftrightarrow> cs \<noteq> [] \<and> length cs \<le> TX_LEN"

lemma fits_Cons [simp]: "fits (c # cs) \<longleftrightarrow> length cs < TX_LEN"
  by (auto simp: fits_def)

locale line =
  fixes send :: "bytes \<Rightarrow> 'w \<Rightarrow> 'w" and ready :: "'w \<Rightarrow> bool"
    and out :: "string \<Rightarrow> 'w \<Rightarrow> bytes" and name :: string
  assumes send_ready: "ready w \<Longrightarrow> fits cs \<Longrightarrow> ready (send cs w)"
    and send_own: "ready w \<Longrightarrow> fits cs \<Longrightarrow> out name (send cs w) = out name w @ cs"
    and send_other: "ready w \<Longrightarrow> fits cs \<Longrightarrow> n \<noteq> name \<Longrightarrow> out n (send cs w) = out n w"
begin

lemma send_if_ready: "ready w \<Longrightarrow> (b \<Longrightarrow> fits cs) \<Longrightarrow> ready (if b then send cs w else w)"
  by (simp add: send_ready)

lemma send_if_own:
  "ready w \<Longrightarrow> (b \<Longrightarrow> fits cs) \<Longrightarrow> out name (if b then send cs w else w) = out name w @ (if b then cs else [])"
  by (simp add: send_own)

lemma send_if_other:
  "ready w \<Longrightarrow> (b \<Longrightarrow> fits cs) \<Longrightarrow> n \<noteq> name \<Longrightarrow> out n (if b then send cs w else w) = out n w"
  by (simp add: send_other)

lemma send_all:
  assumes "ready w" "list_all fits css"
  shows "ready (fold send css w) \<and> out name (fold send css w) = out name w @ concat css \<and>
    (\<forall>n. n \<noteq> name \<longrightarrow> out n (fold send css w) = out n w)"
  using assms by (induction css arbitrary: w) (simp_all add: send_ready send_own send_other)

end

interpretation host: line host_send lines_ready sent "''uart5''"
  by unfold_locales (auto simp: fits_def elim: host_send_ready)

interpretation cam: line cam_send lines_ready sent "''uart4''"
  by unfold_locales (auto simp: fits_def elim: cam_send_ready)

interpretation voice: line voice_send lines_ready sent "''uart6''"
  by unfold_locales (auto simp: fits_def elim: voice_send_ready)

interpretation imu: line imu_send lines_ready sent "''uart2''"
  by unfold_locales (auto simp: fits_def elim: imu_send_ready)

lemma lines_ready_comm0: "lines_ready comm0"
  by (simp add: lines_ready_def comm0_def comm_fields0_def comm.defs turns.defs rtk0_fresh usart3_ready_def
      rtk0_device_fresh)

end
