(* ===== verification/Soft_Link.thy ===== *)
theory Soft_Link
  imports Comm
begin

text \<open>
  The upload to the host software (\<^verbatim>\<open>SendData_to_PlantSoft\<close> in \<^verbatim>\<open>Software/usart5.c\<close>): seven packets,
  refreshed on every ten-millisecond tick and sent in turn, one every fourth tick.
\<close>

record soft = comm +
  Soilpack :: bytes
  Temppack :: bytes
  Humipack :: bytes
  Airpack :: bytes
  Plantstatepack :: bytes
  PlantTypepack :: bytes
  soft_percentSoil :: u16
  airppm :: u16
  soft_cnt :: u8

definition soft_fields0 where
  "soft_fields0 = soft.fields [0xAA, 0x10, 0x10, 0, 0, 0x55] [0xAA, 0x10, 0x11, 0, 0, 0x55]
     [0xAA, 0x10, 0x12, 0, 0, 0x55] [0xAA, 0x10, 0x13, 0, 0, 0x55] [0xAA, 0x30, 0, 0x55] [0xAA, 0x70, 0, 0x55]
     0 0 0"

definition soft0 :: soft where
  "soft0 = comm.extend comm0 soft_fields0"

text \<open>\<^verbatim>\<open>(x >> 8) & 0xff\<close> and \<^verbatim>\<open>x & 0xff\<close> of a nonnegative \<^verbatim>\<open>int\<close>\<close>

definition hi8 :: "int \<Rightarrow> u8" where "hi8 x = of_int (x div 256)"
definition lo8 :: "int \<Rightarrow> u8" where "lo8 x = of_int x"

text \<open>\<^verbatim>\<open>(uint16_t)x * 10\<close>: the conversion binds tighter than the product.\<close>

definition tenfold :: "f32 \<Rightarrow> int" where
  "tenfold x = uint (f32_to_u16 x) * 10"

text \<open>\<^verbatim>\<open>pack[i] = hi; pack[i + 1] = lo;\<close>\<close>

definition put2 :: "bytes \<Rightarrow> nat \<Rightarrow> int \<Rightarrow> bytes" where
  "put2 pack i x = pack[i := hi8 x, i + 1 := lo8 x]"

definition refresh_packs :: "'a soft_scheme \<Rightarrow> 'a soft_scheme" where
  "refresh_packs w = (let
     percent = f32_to_u16 (fmul (OLED_SoilPercent w) (Fin 10));
     air = f32_to_u16 (OLED_MQ135ppm w) in
   w\<lparr>soft_percentSoil := percent, Soilpack := put2 (Soilpack w) 3 (uint percent),
     Temppack := put2 (Temppack w) 3 (tenfold (My_temp w)),
     Humipack := put2 (Humipack w) 3 (tenfold (My_humi w)),
     airppm := air, Airpack := put2 (Airpack w) 3 (uint air),
     Obspack := put2 (Obspack w) 4 (uint (Distance (vl53 w))),
     Plantstatepack := (Plantstatepack w)[2 := blade_state w],
     PlantTypepack := (PlantTypepack w)[2 := Soil_PlantType w]\<rparr>)"

text \<open>\<^verbatim>\<open>if (cnt == k * 4) UART5DMA_SendData(pack, sizeof(pack));\<close>\<close>

definition send_at :: "u8 \<Rightarrow> ('a soft_scheme \<Rightarrow> bytes) \<Rightarrow> 'a soft_scheme \<Rightarrow> 'a soft_scheme" where
  "send_at k pack w = (if soft_cnt w = k * 4 then host_send (pack w) w else w)"

definition SendData_to_PlantSoft :: "'a soft_scheme \<Rightarrow> 'a soft_scheme" where
  "SendData_to_PlantSoft w = (let
     w = refresh_packs w;
     w = w\<lparr>soft_cnt := soft_cnt w + 1\<rparr>;
     w = send_at 1 Soilpack w;
     w = send_at 2 Temppack w;
     w = send_at 3 Humipack w;
     w = send_at 4 Airpack w;
     w = send_at 5 Obspack w;
     w = send_at 6 Plantstatepack w;
     w = send_at 7 PlantTypepack w
   in w\<lparr>soft_cnt := soft_cnt w mod 28\<rparr>)"

subsection \<open>The packets\<close>

text \<open>The fixed bytes of the packets stay in place.\<close>

definition packs_wf :: "'a soft_scheme \<Rightarrow> bool" where
  "packs_wf w \<longleftrightarrow>
     (\<exists>a b. Soilpack w = [0xAA, 0x10, 0x10, a, b, 0x55]) \<and> (\<exists>a b. Temppack w = [0xAA, 0x10, 0x11, a, b, 0x55]) \<and>
     (\<exists>a b. Humipack w = [0xAA, 0x10, 0x12, a, b, 0x55]) \<and> (\<exists>a b. Airpack w = [0xAA, 0x10, 0x13, a, b, 0x55]) \<and>
     (\<exists>a b c d. Obspack w = [0xAA, 0x20, a, b, c, d, 0x55]) \<and> (\<exists>a. Plantstatepack w = [0xAA, 0x30, a, 0x55]) \<and>
     (\<exists>a. PlantTypepack w = [0xAA, 0x70, a, 0x55])"

text \<open>What the packets report, and the packet of turn \<open>k\<close> written from it.\<close>

record readings =
  r_soil :: f32
  r_temp :: f32
  r_humi :: f32
  r_air :: f32
  r_yaw_hi :: u8
  r_yaw_lo :: u8
  r_dist :: u16
  r_blade :: u8
  r_type :: u8

definition observe :: "readings \<Rightarrow> 'a soft_scheme \<Rightarrow> 'a soft_scheme" where
  "observe r w = w\<lparr>OLED_SoilPercent := r_soil r, My_temp := r_temp r, My_humi := r_humi r,
     OLED_MQ135ppm := r_air r, Obspack := (Obspack w)[2 := r_yaw_hi r, 3 := r_yaw_lo r],
     vl53 := (vl53 w)\<lparr>Distance := r_dist r\<rparr>, blade_state := r_blade r, Soil_PlantType := r_type r\<rparr>"

definition report :: "nat \<Rightarrow> readings \<Rightarrow> bytes" where
  "report k r = (
     if k = 1 then let x = uint (f32_to_u16 (fmul (r_soil r) (Fin 10))) in [0xAA, 0x10, 0x10, hi8 x, lo8 x, 0x55]
     else if k = 2 then [0xAA, 0x10, 0x11, hi8 (tenfold (r_temp r)), lo8 (tenfold (r_temp r)), 0x55]
     else if k = 3 then [0xAA, 0x10, 0x12, hi8 (tenfold (r_humi r)), lo8 (tenfold (r_humi r)), 0x55]
     else if k = 4 then let x = uint (f32_to_u16 (r_air r)) in [0xAA, 0x10, 0x13, hi8 x, lo8 x, 0x55]
     else if k = 5 then [0xAA, 0x20, r_yaw_hi r, r_yaw_lo r, hi8 (uint (r_dist r)), lo8 (uint (r_dist r)), 0x55]
     else if k = 6 then [0xAA, 0x30, r_blade r, 0x55]
     else [0xAA, 0x70, r_type r, 0x55])"

lemma fits_report [simp]: "fits (report k r)"
  by (simp add: report_def Let_def TX_LEN_def)

lemma refresh_packs_report:
  assumes "packs_wf w" "v = refresh_packs (observe r w)"
  shows "packs_wf v" "Soilpack v = report 1 r" "Temppack v = report 2 r" "Humipack v = report 3 r"
    "Airpack v = report 4 r" "Obspack v = report 5 r" "Plantstatepack v = report 6 r"
    "PlantTypepack v = report 7 r" "soft_cnt v = soft_cnt w" "lines_ready v = lines_ready w"
    "rtos v = rtos w"
  using assms
  by (auto simp: packs_wf_def refresh_packs_def put2_def report_def observe_def Let_def eval_nat_numeral lines_ready_def)

text \<open>One guarded transmission: the packets and the counter stay.\<close>

definition same_packs :: "'a soft_scheme \<Rightarrow> 'b soft_scheme \<Rightarrow> bool" where
  "same_packs v w \<longleftrightarrow> Soilpack v = Soilpack w \<and> Temppack v = Temppack w \<and> Humipack v = Humipack w \<and>
     Airpack v = Airpack w \<and> Obspack v = Obspack w \<and> Plantstatepack v = Plantstatepack w \<and>
     PlantTypepack v = PlantTypepack w \<and> soft_cnt v = soft_cnt w"

lemma send_at_same: "same_packs (send_at k pack w) w"
  by (auto simp: send_at_def host_send_def same_packs_def split: prod.split)

lemma send_at_line:
  assumes "lines_ready w" "fits (pack w)"
  shows "lines_ready (send_at k pack w)"
    "sent ''uart5'' (send_at k pack w) = sent ''uart5'' w @ (if soft_cnt w = k * 4 then pack w else [])"
    "n \<noteq> ''uart5'' \<Longrightarrow> sent n (send_at k pack w) = sent n w"
  using assms by (simp_all add: send_at_def host.send_ready host.send_own host.send_other)

text \<open>The seven guarded transmissions of a tick, in order.\<close>

definition turns_of_tick :: "(u8 \<times> ('a soft_scheme \<Rightarrow> bytes)) list" where
  "turns_of_tick = [(1, Soilpack), (2, Temppack), (3, Humipack), (4, Airpack), (5, Obspack),
     (6, Plantstatepack), (7, PlantTypepack)]"

definition send_turns :: "'a soft_scheme \<Rightarrow> 'a soft_scheme" where
  "send_turns w = fold (\<lambda>(k, pack). send_at k pack) turns_of_tick w"

lemma SendData_unfold:
  "SendData_to_PlantSoft w = (let v = send_turns ((refresh_packs w)\<lparr>soft_cnt := soft_cnt w + 1\<rparr>) in
     v\<lparr>soft_cnt := soft_cnt v mod 28\<rparr>)"
proof -
  have "soft_cnt (refresh_packs w) = soft_cnt w" by (simp add: refresh_packs_def Let_def)
  then show ?thesis by (simp add: SendData_to_PlantSoft_def send_turns_def turns_of_tick_def Let_def)
qed

lemma same_packs_trans: "same_packs u v \<Longrightarrow> same_packs v w \<Longrightarrow> same_packs u w"
  by (simp add: same_packs_def)

text \<open>A packet is due in turn \<open>k\<close> when the counter stands at \<open>4 * k\<close>.\<close>

definition due :: "u8 \<Rightarrow> u8 \<Rightarrow> bytes \<Rightarrow> bytes" where
  "due c k pack = (if c = k * 4 then pack else [])"

lemma sends_line:
  assumes "lines_ready v" "same_packs v w"
    "\<And>k pack u. (k, pack) \<in> set ts \<Longrightarrow> same_packs u w \<Longrightarrow> pack u = pack w \<and> fits (pack w)"
  shows "lines_ready (fold (\<lambda>(k, pack). send_at k pack) ts v) \<and>
    same_packs (fold (\<lambda>(k, pack). send_at k pack) ts v) w \<and>
    sent ''uart5'' (fold (\<lambda>(k, pack). send_at k pack) ts v) =
      sent ''uart5'' v @ concat (map (\<lambda>(k, pack). due (soft_cnt w) k (pack w)) ts)"
  using assms
proof (induction ts arbitrary: v)
  case Nil
  then show ?case by simp
next
  case (Cons t ts)
  obtain k pack where t: "t = (k, pack)" by fastforce
  have pk: "pack v = pack w" "fits (pack v)" using Cons.prems(2) Cons.prems(3) [of k pack v] t by auto
  note l = send_at_line [where pack = pack and w = v and k = k, OF Cons.prems(1) pk(2)]
  have "soft_cnt v = soft_cnt w" using Cons.prems(2) by (simp add: same_packs_def)
  then have d: "sent ''uart5'' (send_at k pack v) = sent ''uart5'' v @ due (soft_cnt w) k (pack w)"
    using l(2) pk(1) by (simp add: due_def)
  have "pack' u = pack' w \<and> fits (pack' w)" if "(k', pack') \<in> set ts" "same_packs u w" for k' pack' u
    using Cons.prems(3) [of k' pack' u] that by simp
  from Cons.IH [OF l(1) same_packs_trans [OF send_at_same Cons.prems(2)] this]
  show ?case by (simp add: t d)
qed

lemma send_turns_line:
  assumes "lines_ready w" "packs_wf w"
  shows "lines_ready (send_turns w)" "same_packs (send_turns w) w"
    "sent ''uart5'' (send_turns w) = sent ''uart5'' w @ concat (map (\<lambda>(k, pack). due (soft_cnt w) k (pack w)) turns_of_tick)"
proof -
  have "pack u = pack w \<and> fits (pack w)" if "(k, pack) \<in> set turns_of_tick" "same_packs u w" for k pack u
    using that assms(2) by (auto simp: turns_of_tick_def packs_wf_def same_packs_def TX_LEN_def)
  then show "lines_ready (send_turns w)" "same_packs (send_turns w) w"
    "sent ''uart5'' (send_turns w) = sent ''uart5'' w @ concat (map (\<lambda>(k, pack). due (soft_cnt w) k (pack w)) turns_of_tick)"
    using sends_line [where v = w and w = w and ts = turns_of_tick, OF assms(1)] unfolding send_turns_def by (auto simp: same_packs_def)
qed

text \<open>A tick: which packet goes out depends on the counter only.\<close>

definition due_report :: "nat \<Rightarrow> readings \<Rightarrow> bytes" where
  "due_report c r = (if c mod 4 = 0 then report (c div 4) r else [])"

lemma due_all:
  assumes "0 < c" "c \<le> 28"
  shows "concat (map (\<lambda>k. due (of_nat c) (of_nat k) (report k r)) [1, 2, 3, 4, 5, 6, 7]) = due_report c r"
proof -
  have "c \<in> set [1..<29]" using assms by simp
  then show ?thesis
    by (auto simp: due_def due_report_def upt_rec numeral_2_eq_2 [symmetric] numeral_3_eq_3 [symmetric]
        simp del: One_nat_def)
qed

lemma of_nat_mod28:
  assumes "n < 256"
  shows "(of_nat n :: u8) mod 28 = of_nat (n mod 28)"
proof -
  have "n mod 28 < 28" by simp
  then have "n mod 28 < 256" by (rule less_trans) simp
  then have "unat (of_nat (n mod 28) :: u8) = n mod 28" by (simp add: unat_of_nat take_bit_nat_def)
  moreover have "unat (of_nat n :: u8) = n" using assms by (simp add: unat_of_nat take_bit_nat_def)
  ultimately show ?thesis by (simp add: word_unat_eq_iff unat_mod_distrib)
qed

text \<open>One tick, whatever the readings.\<close>

definition upload_ok :: "nat \<Rightarrow> 'a soft_scheme \<Rightarrow> bool" where
  "upload_ok c w \<longleftrightarrow> packs_wf w \<and> lines_ready w \<and> soft_cnt w = of_nat c"

lemma tick:
  assumes "upload_ok c w" "c < 28"
  shows "upload_ok (Suc c mod 28) (SendData_to_PlantSoft (observe r w))"
    "sent ''uart5'' (SendData_to_PlantSoft (observe r w)) = sent ''uart5'' w @ due_report (Suc c) r"
proof -
  define v where "v = (refresh_packs (observe r w))\<lparr>soft_cnt := soft_cnt (observe r w) + 1\<rparr>"
  note f = refresh_packs_report [OF _ refl, of w r]
  have w: "packs_wf w" "lines_ready w" "soft_cnt w = of_nat c" using assms(1) by (simp_all add: upload_ok_def)
  have cnt: "soft_cnt v = of_nat (Suc c)" by (simp add: v_def observe_def w(3))
  have v: "lines_ready v" "packs_wf v" "rtos v = rtos w"
    using f [OF w(1)] w(2) by (simp_all add: v_def lines_ready_def packs_wf_def)
  have pk: "Soilpack v = report 1 r" "Temppack v = report 2 r" "Humipack v = report 3 r" "Airpack v = report 4 r"
    "Obspack v = report 5 r" "Plantstatepack v = report 6 r" "PlantTypepack v = report 7 r"
    using f [OF w(1)] by (simp_all add: v_def)
  note l = send_turns_line [OF v(1,2)]
  have e: "SendData_to_PlantSoft (observe r w) = (send_turns v)\<lparr>soft_cnt := soft_cnt (send_turns v) mod 28\<rparr>"
    by (simp add: SendData_unfold v_def Let_def)
  have c28: "(of_nat (Suc c) :: u8) mod 28 = of_nat (Suc c mod 28)"
    by (rule of_nat_mod28) (use assms(2) in simp)
  have "soft_cnt (send_turns v) = of_nat (Suc c)" using l(2) cnt by (simp add: same_packs_def)
  moreover have "packs_wf (send_turns v)" using l(2) v(2) by (simp add: same_packs_def packs_wf_def)
  ultimately show "upload_ok (Suc c mod 28) (SendData_to_PlantSoft (observe r w))"
    using l(1) c28 unfolding upload_ok_def e by (simp add: packs_wf_def lines_ready_def)
  have "concat (map (\<lambda>(k, pack). due (soft_cnt v) k (pack v)) turns_of_tick) =
      concat (map (\<lambda>k. due (of_nat (Suc c)) (of_nat k) (report k r)) [1, 2, 3, 4, 5, 6, 7])"
    by (simp add: turns_of_tick_def cnt pk)
  also have "\<dots> = due_report (Suc c) r" by (rule due_all) (use assms(2) in auto)
  finally show "sent ''uart5'' (SendData_to_PlantSoft (observe r w)) = sent ''uart5'' w @ due_report (Suc c) r"
    using l(3) v(3) unfolding e by simp
qed

definition upload :: "readings list \<Rightarrow> 'a soft_scheme \<Rightarrow> 'a soft_scheme" where
  "upload rs w = fold (\<lambda>r w. SendData_to_PlantSoft (observe r w)) rs w"

lemma upload_prefix:
  assumes "upload_ok 0 w" "length rs \<le> 28"
  shows "upload_ok (length rs mod 28) (upload rs w) \<and>
    sent ''uart5'' (upload rs w) = sent ''uart5'' w @ concat (map (\<lambda>i. due_report (Suc i) (rs ! i)) [0..<length rs])"
  using assms
proof (induction rs rule: rev_induct)
  case Nil
  then show ?case by (simp add: upload_def)
next
  case (snoc r rs)
  have IH: "upload_ok (length rs) (upload rs w)"
    "sent ''uart5'' (upload rs w) = sent ''uart5'' w @ concat (map (\<lambda>i. due_report (Suc i) (rs ! i)) [0..<length rs])"
    using snoc by simp_all
  have e: "upload (rs @ [r]) w = SendData_to_PlantSoft (observe r (upload rs w))" by (simp add: upload_def)
  have "length rs < 28" using snoc.prems(2) by simp
  note t = tick [OF IH(1) this, of r]
  have "concat (map (\<lambda>i. due_report (Suc i) ((rs @ [r]) ! i)) [0..<length rs]) =
      concat (map (\<lambda>i. due_report (Suc i) (rs ! i)) [0..<length rs])"
    by (rule arg_cong [where f = concat]) (simp add: nth_append)
  then show ?case using t IH(2) by (simp add: e)
qed

lemma due_report_round:
  "concat (map (\<lambda>i. due_report (Suc i) (f i)) [0..<28]) =
     report 1 (f 3) @ report 2 (f 7) @ report 3 (f 11) @ report 4 (f 15) @ report 5 (f 19) @
     report 6 (f 23) @ report 7 (f 27)"
proof -
  have "[0..<28] = [0, 1, 2, 3, 4, 5, 6, 7, 8, 9, 10, 11, 12, 13, 14, 15, 16, 17, 18, 19, 20, 21, 22, 23,
      24, 25, 26, 27 :: nat]"
    by code_simp
  then show ?thesis by (simp add: due_report_def numeral_2_eq_2 [symmetric])
qed

text \<open>
  C18 (liveness). Every 28 ticks (0.28 s) the host gets each of the seven reports exactly once, in
  the fixed order soil, temperature, humidity, air, heading and distance, leaf state, plant type,
  each with the readings of its own tick; afterwards the schedule stands at its start again, ready
  for the next round, whatever the readings were.
\<close>

theorem upload_round:
  assumes "upload_ok 0 w" "length rs = 28"
  shows "sent ''uart5'' (upload rs w) = sent ''uart5'' w @ report 1 (rs ! 3) @ report 2 (rs ! 7) @ report 3 (rs ! 11) @
      report 4 (rs ! 15) @ report 5 (rs ! 19) @ report 6 (rs ! 23) @ report 7 (rs ! 27) \<and>
    upload_ok 0 (upload rs w)"
  using upload_prefix [OF assms(1), of rs] assms(2) due_report_round [of "(!) rs"] by simp

lemma upload_ok_soft0: "upload_ok 0 soft0"
  using lines_ready_comm0
  by (simp add: upload_ok_def soft0_def soft_fields0_def soft.defs comm.defs comm0_def packs_wf_def lines_ready_def
      comm_fields0_def turns.defs turns0_def motors0_def encoders0_def globals0_def hw0_def motors.defs encoders.defs
      globals.defs hw.defs)

theorem upload_round_witness:
  fixes r defines "r \<equiv> \<lparr>r_soil = Fin 50, r_temp = Fin 25, r_humi = Fin 60, r_air = Fin 7, r_yaw_hi = 1, r_yaw_lo = 2,
     r_dist = 500, r_blade = 3, r_type = 1\<rparr>"
  shows "upload_ok 0 (upload (replicate 28 r) soft0) \<and>
    sent ''uart5'' (upload (replicate 28 r) soft0) = report 1 r @ report 2 r @ report 3 r @ report 4 r @ report 5 r @
      [0xAA, 0x30, 3, 0x55] @ [0xAA, 0x70, 1, 0x55]"
proof -
  have "sent ''uart5'' soft0 = []"
    by (simp add: soft0_def soft_fields0_def soft.defs comm0_def comm_fields0_def comm.defs turns.defs)
  moreover have "report 6 r = [0xAA, 0x30, 3, 0x55]" "report 7 r = [0xAA, 0x70, 1, 0x55]"
    by (simp_all add: report_def r_def)
  ultimately show ?thesis using upload_round [OF upload_ok_soft0, of "replicate 28 r"] by simp
qed

subsection \<open>What the host reads\<close>

text \<open>The 16-bit value of a report, most significant byte first.\<close>

definition host_value :: "bytes \<Rightarrow> int" where
  "host_value pack = uint (join16 (pack ! 3) (pack ! 4))"

lemma join_hi_lo:
  assumes "0 \<le> x" "x < 65536"
  shows "uint (join16 (hi8 x) (lo8 x)) = x"
proof -
  have d: "x div 256 = drop_bit 8 x" by (simp add: drop_bit_eq_div)
  have "hi8 x = byte_at 8 (of_int x :: u16)" "lo8 x = byte_at 0 (of_int x :: u16)"
    unfolding hi8_def lo8_def byte_at_def d
    by (rule bit_word_eqI; auto simp: bit_simps)+
  then show ?thesis using assms by (simp add: join16_byte_at uint_word_of_int)
qed

text \<open>
  The host is told whole degrees: the tenths the protocol has room for are always
  zero, because \<^verbatim>\<open>(uint16_t)My_temp * 10\<close> drops the fraction before it multiplies.
\<close>

theorem temperature_in_whole_degrees:
  assumes "r_temp r = Fin t" "0 \<le> t" "t < 6553"
  shows "host_value (report 2 r) = 10 * \<lfloor>t\<rfloor>"
proof -
  have t: "0 \<le> \<lfloor>t\<rfloor>" "\<lfloor>t\<rfloor> < 6553" using assms(2,3) by (simp_all add: floor_less_iff)
  then have "uint (f32_to_u16 (Fin t)) = \<lfloor>t\<rfloor>"
    using assms(2) by (simp add: f32_to_u16_def rtrunc_def clamp_int_def take_bit_eq_mod unsigned_ucast_eq
        uint_word_of_int)
  then have "tenfold (r_temp r) = 10 * \<lfloor>t\<rfloor>" using assms(1) by (simp add: tenfold_def)
  moreover have "0 \<le> 10 * \<lfloor>t\<rfloor>" "10 * \<lfloor>t\<rfloor> < 65536" using t by (linarith, linarith)
  ultimately show ?thesis by (simp add: host_value_def report_def join_hi_lo)
qed

theorem temperature_in_whole_degrees_witness:
  "host_value (report 2 \<lparr>r_soil = Fin 50, r_temp = Fin (51 / 2), r_humi = Fin 60, r_air = Fin 7, r_yaw_hi = 1,
     r_yaw_lo = 2, r_dist = 500, r_blade = 3, r_type = 1\<rparr>) = 250"
proof -
  have "\<lfloor>51 / 2 :: rat\<rfloor> = 25" by (simp add: floor_unique)
  then show ?thesis by (subst temperature_in_whole_degrees [of _ "51 / 2"]) simp_all
qed

end
