(* ===== verification/Cam_Link.thy ===== *)
theory Cam_Link
  imports Soft_Link
begin

text \<open>
  Two periodic senders: the mode command to the camera (\<^verbatim>\<open>Maixcam_SetMode\<close> in \<^verbatim>\<open>Software/usart4.c\<close>),
  sent on every second tick, and the set-up packets of the attitude sensor
  (\<^verbatim>\<open>Time_Calibration\<close> in \<^verbatim>\<open>Software/Usart2DMA_IMU.c\<close>), one per call, which no caller uses.
\<close>

record senders = soft +
  maix_cnt :: u16
  calib_cnt :: u8

definition senders_fields0 where "senders_fields0 = senders.fields 0 0"

definition senders0 :: senders where
  "senders0 = soft.extend soft0 senders_fields0"

definition MaixCam_Mode :: "bytes list" where
  "MaixCam_Mode = [[0xa4, 0xb4, 0x01, 0xc4, 0xa4, 0xb4, 0x01, 0xc4, 0xa4, 0xb4, 0x01, 0xc4],
     [0xa4, 0xb4, 0x02, 0xc4, 0xa4, 0xb4, 0x02, 0xc4, 0xa4, 0xb4, 0x02, 0xc4]]"

definition Maixcam_SetMode :: "u8 \<Rightarrow> 'a senders_scheme \<Rightarrow> 'a senders_scheme" where
  "Maixcam_SetMode mode w = (let
     w = w\<lparr>maix_cnt := maix_cnt w + 1\<rparr> in
     if 2 \<le> maix_cnt w then let
       w = (if mode = 1 then cam_send (MaixCam_Mode ! 0) w else w);
       w = (if mode = 2 then cam_send (MaixCam_Mode ! 1) w else w)
     in w\<lparr>maix_cnt := 0\<rparr>
     else w)"

definition TimeCalibration_packs :: "bytes list" where
  "TimeCalibration_packs = [[0xFF, 0xAA, 0x69, 0x88, 0xB5], [0xFF, 0xAA, 0x30, 0x1A, 0x02],
     [0xFF, 0xAA, 0x31, 0x02, 0x11], [0xFF, 0xAA, 0x32, 0x20, 0x2B], [0xFF, 0xAA, 0x33, 0xDC, 0x03],
     [0xFF, 0xAA, 0x00, 0x00, 0x00]]"

definition calib_at :: "nat \<Rightarrow> 'a senders_scheme \<Rightarrow> 'a senders_scheme" where
  "calib_at k w = (if calib_cnt w = of_nat k then imu_send (TimeCalibration_packs ! (k - 1)) w else w)"

definition Time_Calibration :: "'a senders_scheme \<Rightarrow> 'a senders_scheme" where
  "Time_Calibration w = (let w = fold calib_at [1, 2, 3, 4, 5, 6] (w\<lparr>calib_cnt := calib_cnt w + 1\<rparr>)
     in w\<lparr>calib_cnt := calib_cnt w mod 6\<rparr>)"

subsection \<open>The camera learns its mode\<close>

text \<open>The command that goes out: thrice the same four bytes, or nothing for any other mode.\<close>

definition mode_packet :: "u8 \<Rightarrow> bytes" where
  "mode_packet m = (if m = 1 \<or> m = 2 then concat (replicate 3 [0xa4, 0xb4, m, 0xc4]) else [])"

lemma Maixcam_SetMode_eq:
  "Maixcam_SetMode m w = (if 2 \<le> maix_cnt w + 1
     then (if m = 1 \<or> m = 2 then cam_send (mode_packet m) (w\<lparr>maix_cnt := maix_cnt w + 1\<rparr>) else w)\<lparr>maix_cnt := 0\<rparr>
     else w\<lparr>maix_cnt := maix_cnt w + 1\<rparr>)"
  by (auto simp: Maixcam_SetMode_def MaixCam_Mode_def mode_packet_def Let_def numeral_3_eq_3)

lemma word_ge_min: "\<not> (2 :: u16) \<le> 1"
  by (simp add: word_le_nat_alt)

lemma cam_send_fields:
  obtains k p where "cam_send cs w = w\<lparr>rtos := k, port4 := p\<rparr>"
  by (cases "UART4DMA_SendData (Some cs) (rtos w, port4 w)") (auto simp: cam_send_def)

lemma Maixcam_SetMode_frame:
  obtains k p c where "Maixcam_SetMode m w = w\<lparr>rtos := k, port4 := p, maix_cnt := c\<rparr>"
proof (cases "2 \<le> maix_cnt w + 1 \<and> (m = 1 \<or> m = 2)")
  case True
  obtain k p where "cam_send (mode_packet m) (w\<lparr>maix_cnt := maix_cnt w + 1\<rparr>) =
      w\<lparr>maix_cnt := maix_cnt w + 1\<rparr>\<lparr>rtos := k, port4 := p\<rparr>"
    by (rule cam_send_fields)
  then have "Maixcam_SetMode m w = w\<lparr>rtos := k, port4 := p, maix_cnt := 0\<rparr>"
    using True by (simp add: Maixcam_SetMode_eq)
  then show ?thesis by (rule that)
next
  case False
  then have "Maixcam_SetMode m w = w\<lparr>maix_cnt := (if 2 \<le> maix_cnt w + 1 then 0 else maix_cnt w + 1)\<rparr>"
    by (simp add: Maixcam_SetMode_eq)
  then show ?thesis by (intro that [where k = "rtos w" and p = "port4 w"]) simp
qed

text \<open>Two consecutive calls from a settled counter put the command of the second on the line, once.\<close>

lemma Maixcam_SetMode_pair:
  assumes "lines_ready w" "maix_cnt w = 0"
  shows "lines_ready (Maixcam_SetMode m' (Maixcam_SetMode m w))"
    "maix_cnt (Maixcam_SetMode m' (Maixcam_SetMode m w)) = 0"
    "sent ''uart4'' (Maixcam_SetMode m' (Maixcam_SetMode m w)) = sent ''uart4'' w @ mode_packet m'"
proof -
  define v where "v = w\<lparr>maix_cnt := 2\<rparr>"
  have v: "lines_ready v" "rtos v = rtos w" using assms(1) by (simp_all add: v_def lines_ready_def)
  have e: "Maixcam_SetMode m' (Maixcam_SetMode m w) =
      (if m' = 1 \<or> m' = 2 then cam_send (mode_packet m') v else v)\<lparr>maix_cnt := 0\<rparr>"
    using assms(2) word_ge_min by (simp add: Maixcam_SetMode_eq v_def)
  have f: "m' = 1 \<or> m' = 2 \<Longrightarrow> fits (mode_packet m')" by (simp add: mode_packet_def fits_def TX_LEN_def numeral_3_eq_3)
  show "lines_ready (Maixcam_SetMode m' (Maixcam_SetMode m w))"
    using cam.send_if_ready [OF v(1), of "m' = 1 \<or> m' = 2", OF f] unfolding e by (simp add: lines_ready_def)
  show "maix_cnt (Maixcam_SetMode m' (Maixcam_SetMode m w)) = 0" unfolding e by simp
  show "sent ''uart4'' (Maixcam_SetMode m' (Maixcam_SetMode m w)) = sent ''uart4'' w @ mode_packet m'"
    using cam.send_if_own [OF v(1), of "m' = 1 \<or> m' = 2", OF f] v(2) unfolding e
    by (auto simp: mode_packet_def)
qed

subsection \<open>The set-up packets\<close>

lemma imu_send_cnt [simp]: "calib_cnt (imu_send cs w) = calib_cnt w"
  by (simp add: imu_send_def split: prod.split)

lemma Time_Calibration_eq:
  assumes "calib_cnt w = of_nat c" "c < 6"
  shows "Time_Calibration w =
    (imu_send (TimeCalibration_packs ! c) (w\<lparr>calib_cnt := of_nat (Suc c)\<rparr>))\<lparr>calib_cnt := of_nat (Suc c mod 6)\<rparr>"
proof -
  have "c \<in> set [0, 1, 2, 3, 4, 5]" using assms(2) by auto
  then show ?thesis using assms(1) by (auto simp: Time_Calibration_def calib_at_def Let_def)
qed

text \<open>Six calls send the six packets in order and are ready to start over.\<close>

lemma Time_Calibration_round:
  assumes "lines_ready w" "calib_cnt w = 0" "k \<le> 6"
  shows "lines_ready ((Time_Calibration ^^ k) w) \<and> calib_cnt ((Time_Calibration ^^ k) w) = of_nat (k mod 6) \<and>
    sent ''uart2'' ((Time_Calibration ^^ k) w) = sent ''uart2'' w @ concat (take k TimeCalibration_packs)"
  using assms(3)
proof (induction k)
  case 0
  then show ?case using assms by simp
next
  case (Suc k)
  define v where "v = (Time_Calibration ^^ k) w"
  have k: "k < 6" "k mod 6 = k" using Suc.prems by simp_all
  have IH: "lines_ready v" "calib_cnt v = of_nat k"
    "sent ''uart2'' v = sent ''uart2'' w @ concat (take k TimeCalibration_packs)"
    using Suc k(2) by (simp_all add: v_def)
  define u where "u = v\<lparr>calib_cnt := of_nat (Suc k)\<rparr>"
  have u: "lines_ready u" "rtos u = rtos v" using IH(1) by (simp_all add: u_def lines_ready_def)
  have l: "length TimeCalibration_packs = 6" by (simp add: TimeCalibration_packs_def)
  have "list_all fits TimeCalibration_packs" by (simp add: TimeCalibration_packs_def TX_LEN_def)
  then have f: "fits (TimeCalibration_packs ! k)" using k(1) l by (simp add: list_all_length)
  have e: "(Time_Calibration ^^ Suc k) w = (imu_send (TimeCalibration_packs ! k) u)\<lparr>calib_cnt := of_nat (Suc k mod 6)\<rparr>"
    using Time_Calibration_eq [OF IH(2) k(1)] by (simp add: v_def u_def)
  show ?case
    using imu.send_ready [OF u(1) f] imu.send_own [OF u(1) f] IH(3) u(2) k(1) l
    unfolding e by (simp add: lines_ready_def take_Suc_conv_app_nth)
qed

end
