(* ===== verification/Voice.thy ===== *)
theory Voice
  imports Cam_Link
begin

text \<open>
  The spoken warnings (\<^verbatim>\<open>Software/usart6.c\<close>): every tick at most one of four announcements is sent
  to the voice module, the obstacle before the air, the soil and the humidity. Each has a flag that
  is spent by announcing and comes back when the condition has cleared; the obstacle announcement
  also waits 800 ticks (eight seconds).
\<close>

definition SOIL_VOICE :: u8 where "SOIL_VOICE = 0x02"
definition AIR_VOICE :: u8 where "AIR_VOICE = 0x03"
definition HUMI_VOICE :: u8 where "HUMI_VOICE = 0x05"
definition OBS_VOICE :: u8 where "OBS_VOICE = 0x06"

lemmas voice_codes = SOIL_VOICE_def AIR_VOICE_def HUMI_VOICE_def OBS_VOICE_def

lemma voice_codes_distinct [simp]:
  "SOIL_VOICE \<noteq> AIR_VOICE" "SOIL_VOICE \<noteq> HUMI_VOICE" "SOIL_VOICE \<noteq> OBS_VOICE" "AIR_VOICE \<noteq> SOIL_VOICE"
  "AIR_VOICE \<noteq> HUMI_VOICE" "AIR_VOICE \<noteq> OBS_VOICE" "HUMI_VOICE \<noteq> SOIL_VOICE" "HUMI_VOICE \<noteq> AIR_VOICE"
  "HUMI_VOICE \<noteq> OBS_VOICE" "OBS_VOICE \<noteq> SOIL_VOICE" "OBS_VOICE \<noteq> AIR_VOICE" "OBS_VOICE \<noteq> HUMI_VOICE"
  by (simp_all add: voice_codes)

record voice = senders +
  voice_pack :: bytes
  obsvoice_flag :: u8
  obsvoice_waittime :: u16
  airvoice_flag :: u8
  soilvoice_flag :: u8
  humivoice_flag :: u8

definition voice_fields0 where "voice_fields0 = voice.fields [0xa1, 0xb1, 0x00, 0xc1] 1 0 1 1 1"

definition voice0 :: voice where
  "voice0 = senders.extend senders0 voice_fields0"

definition ASR_VOICE :: "u8 \<Rightarrow> 'a voice_scheme \<Rightarrow> 'a voice_scheme" where
  "ASR_VOICE voice_choose w = (let w = w\<lparr>voice_pack := (voice_pack w)[2 := voice_choose]\<rparr>
     in voice_send (voice_pack w) w)"

definition voice_alarm :: "'a voice_scheme \<Rightarrow> 'a voice_scheme" where
  "voice_alarm w =
    (if Distance (vl53 w) < 400 \<and> 0 < Distance (vl53 w) \<and> obsvoice_flag w \<noteq> 0 then
       if obsvoice_waittime w = 0 then let w = ASR_VOICE OBS_VOICE w
         in w\<lparr>obsvoice_waittime := 800, obsvoice_flag := obsvoice_flag w - 1\<rparr>
       else w
     else if fge (OLED_MQ135ppm w) (Fin 9) \<and> airvoice_flag w \<noteq> 0 then
       let w = ASR_VOICE AIR_VOICE w in w\<lparr>airvoice_flag := airvoice_flag w - 1\<rparr>
     else if Soil_AlarmFlag w = 1 \<and> soilvoice_flag w \<noteq> 0 then
       let w = ASR_VOICE SOIL_VOICE w in w\<lparr>soilvoice_flag := soilvoice_flag w - 1\<rparr>
     else if fge (My_humi w) (Fin 70) \<and> humivoice_flag w \<noteq> 0 then
       let w = ASR_VOICE HUMI_VOICE w in w\<lparr>humivoice_flag := humivoice_flag w - 1\<rparr>
     else w)"

definition voice_rearm :: "'a voice_scheme \<Rightarrow> 'a voice_scheme" where
  "voice_rearm w = (let
     w = (if 400 \<le> Distance (vl53 w) then w\<lparr>obsvoice_flag := 1\<rparr> else w);
     w = (if flt (OLED_MQ135ppm w) (flit (74 / 10)) then w\<lparr>airvoice_flag := 1\<rparr> else w);
     w = (if Soil_AlarmFlag w = 0 then w\<lparr>soilvoice_flag := 1\<rparr> else w)
   in if flt (My_humi w) (Fin 65) then w\<lparr>humivoice_flag := 1\<rparr> else w)"

definition Check_vioce :: "'a voice_scheme \<Rightarrow> 'a voice_scheme" where
  "Check_vioce w = (let
     w = (if 0 < obsvoice_waittime w then w\<lparr>obsvoice_waittime := obsvoice_waittime w - 1\<rparr> else w)
   in voice_rearm (voice_alarm w))"

subsection \<open>What is announced\<close>

text \<open>The choice of a tick, after the countdown, from the readings and the flags.\<close>

definition voice_choice :: "'a voice_scheme \<Rightarrow> u8 option" where
  "voice_choice w =
    (if Distance (vl53 w) < 400 \<and> 0 < Distance (vl53 w) \<and> obsvoice_flag w \<noteq> 0
     then if obsvoice_waittime w = 0 then Some OBS_VOICE else None
     else if fge (OLED_MQ135ppm w) (Fin 9) \<and> airvoice_flag w \<noteq> 0 then Some AIR_VOICE
     else if Soil_AlarmFlag w = 1 \<and> soilvoice_flag w \<noteq> 0 then Some SOIL_VOICE
     else if fge (My_humi w) (Fin 70) \<and> humivoice_flag w \<noteq> 0 then Some HUMI_VOICE else None)"

definition voice_frame :: "u8 option \<Rightarrow> bytes" where
  "voice_frame c = (case c of None \<Rightarrow> [] | Some v \<Rightarrow> [0xa1, 0xb1, v, 0xc1])"

lemma voice_frame_inj [simp]: "voice_frame a = voice_frame b \<longleftrightarrow> a = b"
  by (auto simp: voice_frame_def split: option.splits)

definition counted :: "'a voice_scheme \<Rightarrow> 'a voice_scheme" where
  "counted w = (if 0 < obsvoice_waittime w then w\<lparr>obsvoice_waittime := obsvoice_waittime w - 1\<rparr> else w)"

definition voice_ok :: "'a voice_scheme \<Rightarrow> bool" where
  "voice_ok w \<longleftrightarrow> lines_ready w \<and> (\<exists>c. voice_pack w = [0xa1, 0xb1, c, 0xc1]) \<and> obsvoice_flag w \<le> 1 \<and>
     airvoice_flag w \<le> 1 \<and> soilvoice_flag w \<le> 1 \<and> humivoice_flag w \<le> 1"

lemma ASR_VOICE_frame:
  assumes "voice_ok w"
  obtains k p where "ASR_VOICE c w = w\<lparr>voice_pack := [0xa1, 0xb1, c, 0xc1], rtos := k, port6 := p\<rparr>"
    "lines_ready (ASR_VOICE c w)" "sent ''uart6'' (ASR_VOICE c w) = sent ''uart6'' w @ [0xa1, 0xb1, c, 0xc1]"
proof -
  define v where "v = w\<lparr>voice_pack := [0xa1, 0xb1, c, 0xc1]\<rparr>"
  have v: "lines_ready v" "rtos v = rtos w" using assms by (simp_all add: v_def voice_ok_def lines_ready_def)
  obtain c' where "voice_pack w = [0xa1, 0xb1, c', 0xc1]" using assms by (auto simp: voice_ok_def)
  then have e: "ASR_VOICE c w = voice_send [0xa1, 0xb1, c, 0xc1] v"
    by (simp add: ASR_VOICE_def v_def Let_def eval_nat_numeral)
  obtain k p where "voice_send [0xa1, 0xb1, c, 0xc1] v = v\<lparr>rtos := k, port6 := p\<rparr>"
    "lines_ready (voice_send [0xa1, 0xb1, c, 0xc1] v)"
    "sent ''uart6'' (voice_send [0xa1, 0xb1, c, 0xc1] v) = sent ''uart6'' v @ [0xa1, 0xb1, c, 0xc1]"
    by (rule voice_send_ready [OF v(1), of "[0xa1, 0xb1, c, 0xc1]"]) (simp_all add: TX_LEN_def)
  then show ?thesis using that [where k = k and p = p] v(2) by (simp add: e v_def)
qed

text \<open>The flag each announcement spends, and when it comes back.\<close>

definition spent :: "u8 \<Rightarrow> 'a voice_scheme \<Rightarrow> u8" where
  "spent c w = (if c = OBS_VOICE then obsvoice_flag w else if c = AIR_VOICE then airvoice_flag w
     else if c = SOIL_VOICE then soilvoice_flag w else humivoice_flag w)"

definition cleared :: "u8 \<Rightarrow> 'a voice_scheme \<Rightarrow> bool" where
  "cleared c w = (if c = OBS_VOICE then 400 \<le> Distance (vl53 w)
     else if c = AIR_VOICE then flt (OLED_MQ135ppm w) (flit (74 / 10))
     else if c = SOIL_VOICE then Soil_AlarmFlag w = 0 else flt (My_humi w) (Fin 65))"

lemma le_one_cases: "(a :: u8) \<le> 1 \<longleftrightarrow> a = 0 \<or> a = 1"
proof -
  have "a \<le> 1 \<longleftrightarrow> unat a = 0 \<or> unat a = 1" by (auto simp: word_le_nat_alt)
  then show ?thesis by (metis unat_0 unat_1 word_unat_eq_iff)
qed

text \<open>An announcement is the frame on the line and the spent flag; nothing else of interest moves.\<close>

lemma voice_alarm_frame:
  assumes "voice_ok w"
  obtains k p b where "voice_alarm w = w\<lparr>voice_pack := [0xa1, 0xb1, b, 0xc1], rtos := k, port6 := p,
      obsvoice_waittime := (if voice_choice w = Some OBS_VOICE then 800 else obsvoice_waittime w),
      obsvoice_flag := (if voice_choice w = Some OBS_VOICE then 0 else obsvoice_flag w),
      airvoice_flag := (if voice_choice w = Some AIR_VOICE then 0 else airvoice_flag w),
      soilvoice_flag := (if voice_choice w = Some SOIL_VOICE then 0 else soilvoice_flag w),
      humivoice_flag := (if voice_choice w = Some HUMI_VOICE then 0 else humivoice_flag w)\<rparr>"
    "lines_ready (voice_alarm w)" "sent ''uart6'' (voice_alarm w) = sent ''uart6'' w @ voice_frame (voice_choice w)"
proof -
  obtain b0 where b0: "voice_pack w = [0xa1, 0xb1, b0, 0xc1]" and ready: "lines_ready w"
    using assms by (auto simp: voice_ok_def)
  have one: "obsvoice_flag w \<noteq> 0 \<Longrightarrow> obsvoice_flag w = 1" "airvoice_flag w \<noteq> 0 \<Longrightarrow> airvoice_flag w = 1"
    "soilvoice_flag w \<noteq> 0 \<Longrightarrow> soilvoice_flag w = 1" "humivoice_flag w \<noteq> 0 \<Longrightarrow> humivoice_flag w = 1"
    using assms by (auto simp: voice_ok_def le_one_cases)
  show ?thesis
  proof (cases "voice_choice w")
    case None
    then have "voice_alarm w = w"
      unfolding voice_choice_def voice_alarm_def by (auto split: if_splits)
    then show ?thesis
      using None b0 ready by (intro that [where k = "rtos w" and p = "port6 w" and b = b0]) (simp_all add: voice_frame_def)
  next
    case (Some c)
    obtain k p where a: "ASR_VOICE c w = w\<lparr>voice_pack := [0xa1, 0xb1, c, 0xc1], rtos := k, port6 := p\<rparr>"
      "lines_ready (ASR_VOICE c w)" "sent ''uart6'' (ASR_VOICE c w) = sent ''uart6'' w @ [0xa1, 0xb1, c, 0xc1]"
      by (rule ASR_VOICE_frame [OF assms, of c])
    have e: "voice_alarm w = w\<lparr>voice_pack := [0xa1, 0xb1, c, 0xc1], rtos := k, port6 := p,
      obsvoice_waittime := (if c = OBS_VOICE then 800 else obsvoice_waittime w),
      obsvoice_flag := (if c = OBS_VOICE then 0 else obsvoice_flag w),
      airvoice_flag := (if c = AIR_VOICE then 0 else airvoice_flag w),
      soilvoice_flag := (if c = SOIL_VOICE then 0 else soilvoice_flag w),
      humivoice_flag := (if c = HUMI_VOICE then 0 else humivoice_flag w)\<rparr>"
    proof -
      define A where "A \<longleftrightarrow> Distance (vl53 w) < 400 \<and> 0 < Distance (vl53 w) \<and> obsvoice_flag w \<noteq> 0"
      define B where "B \<longleftrightarrow> fge (OLED_MQ135ppm w) (Fin 9) \<and> airvoice_flag w \<noteq> 0"
      define C where "C \<longleftrightarrow> Soil_AlarmFlag w = 1 \<and> soilvoice_flag w \<noteq> 0"
      define D where "D \<longleftrightarrow> fge (My_humi w) (Fin 70) \<and> humivoice_flag w \<noteq> 0"
      note choice = Some [unfolded voice_choice_def [of w], folded A_def B_def C_def D_def]
      consider "c = OBS_VOICE" "A" "obsvoice_waittime w = 0" | "c = AIR_VOICE" "\<not> A" "B"
        | "c = SOIL_VOICE" "\<not> A" "\<not> B" "C" | "c = HUMI_VOICE" "\<not> A" "\<not> B" "\<not> C" "D"
        using choice by (auto split: if_splits)
      then show ?thesis
      proof cases
        case 1
        then have "obsvoice_flag w = 1" using one(1) by (simp add: A_def)
        then show ?thesis using 1 a(1)
          by (simp add: voice_alarm_def [of w, folded A_def B_def C_def D_def] Let_def)
      next
        case 2
        then have "airvoice_flag w = 1" using one(2) by (simp add: B_def)
        then show ?thesis using 2 a(1)
          by (simp add: voice_alarm_def [of w, folded A_def B_def C_def D_def] Let_def)
      next
        case 3
        then have "soilvoice_flag w = 1" using one(3) by (simp add: C_def)
        then show ?thesis using 3 a(1)
          by (simp add: voice_alarm_def [of w, folded A_def B_def C_def D_def] Let_def)
      next
        case 4
        then have "humivoice_flag w = 1" using one(4) by (simp add: D_def)
        then show ?thesis using 4 a(1)
          by (simp add: voice_alarm_def [of w, folded A_def B_def C_def D_def] Let_def)
      qed
    qed
    show ?thesis
      by (rule that [where k = k and p = p and b = c])
        (use Some e a in \<open>simp_all add: voice_frame_def lines_ready_def\<close>)
  qed
qed

text \<open>One tick.\<close>

lemma Check_vioce_tick:
  assumes "voice_ok w"
  defines "c \<equiv> voice_choice (counted w)"
  shows "voice_ok (Check_vioce w)"
    "sent ''uart6'' (Check_vioce w) = sent ''uart6'' w @ voice_frame c"
    "obsvoice_waittime (Check_vioce w) = (if c = Some OBS_VOICE then 800 else obsvoice_waittime (counted w))"
    "x \<in> {OBS_VOICE, AIR_VOICE, SOIL_VOICE, HUMI_VOICE} \<Longrightarrow>
      spent x (Check_vioce w) = (if cleared x w then 1 else if c = Some x then 0 else spent x w)"
proof -
  define v where "v = counted w"
  have r: "rtos v = rtos w" "vl53 v = vl53 w" "OLED_MQ135ppm v = OLED_MQ135ppm w" "Soil_AlarmFlag v = Soil_AlarmFlag w"
    "My_humi v = My_humi w" "obsvoice_flag v = obsvoice_flag w" "airvoice_flag v = airvoice_flag w"
    "soilvoice_flag v = soilvoice_flag w" "humivoice_flag v = humivoice_flag w"
    by (simp_all add: v_def counted_def)
  have v: "voice_ok v" using assms(1) by (simp add: voice_ok_def v_def counted_def lines_ready_def)
  have e: "Check_vioce w = voice_rearm (voice_alarm v)" by (simp add: Check_vioce_def v_def counted_def Let_def)
  obtain k p b where f: "voice_alarm v = v\<lparr>voice_pack := [0xa1, 0xb1, b, 0xc1], rtos := k, port6 := p,
      obsvoice_waittime := (if voice_choice v = Some OBS_VOICE then 800 else obsvoice_waittime v),
      obsvoice_flag := (if voice_choice v = Some OBS_VOICE then 0 else obsvoice_flag v),
      airvoice_flag := (if voice_choice v = Some AIR_VOICE then 0 else airvoice_flag v),
      soilvoice_flag := (if voice_choice v = Some SOIL_VOICE then 0 else soilvoice_flag v),
      humivoice_flag := (if voice_choice v = Some HUMI_VOICE then 0 else humivoice_flag v)\<rparr>"
    and l: "lines_ready (voice_alarm v)"
    and s: "sent ''uart6'' (voice_alarm v) = sent ''uart6'' v @ voice_frame (voice_choice v)"
    by (rule voice_alarm_frame [OF v])
  define u where "u = voice_alarm v"
  have rr: "rtos (voice_rearm u) = rtos u" "lines_ready (voice_rearm u) = lines_ready u"
    "voice_pack (voice_rearm u) = voice_pack u" "obsvoice_waittime (voice_rearm u) = obsvoice_waittime u"
    "obsvoice_flag (voice_rearm u) = (if cleared OBS_VOICE u then 1 else obsvoice_flag u)"
    "airvoice_flag (voice_rearm u) = (if cleared AIR_VOICE u then 1 else airvoice_flag u)"
    "soilvoice_flag (voice_rearm u) = (if cleared SOIL_VOICE u then 1 else soilvoice_flag u)"
    "humivoice_flag (voice_rearm u) = (if cleared HUMI_VOICE u then 1 else humivoice_flag u)"
    by (simp_all add: voice_rearm_def Let_def cleared_def voice_codes lines_ready_def)
  have cl: "cleared x u = cleared x w" for x by (simp add: cleared_def u_def f r)
  have uf: "obsvoice_flag u \<le> 1" "airvoice_flag u \<le> 1" "soilvoice_flag u \<le> 1" "humivoice_flag u \<le> 1"
    using v by (simp_all add: u_def f voice_ok_def)
  show "voice_ok (Check_vioce w)"
    using uf l unfolding e u_def [symmetric] voice_ok_def rr by (simp add: u_def f)
  show "sent ''uart6'' (Check_vioce w) = sent ''uart6'' w @ voice_frame c"
    using s unfolding e u_def [symmetric] rr by (simp add: u_def c_def v_def [symmetric] r)
  show "obsvoice_waittime (Check_vioce w) = (if c = Some OBS_VOICE then 800 else obsvoice_waittime (counted w))"
    unfolding e u_def [symmetric] rr by (simp add: u_def f c_def v_def [symmetric])
  show "spent x (Check_vioce w) = (if cleared x w then 1 else if c = Some x then 0 else spent x w)"
    if "x \<in> {OBS_VOICE, AIR_VOICE, SOIL_VOICE, HUMI_VOICE}"
    using that unfolding e u_def [symmetric] spent_def rr cl
    by (auto simp: u_def f c_def v_def [symmetric] r)
qed

subsection \<open>A run of ticks\<close>

text \<open>What the warnings look at, as it stands at a tick.\<close>

record alerts =
  al_dist :: u16
  al_air :: f32
  al_soil :: u8
  al_humi :: f32

definition hear :: "alerts \<Rightarrow> 'a voice_scheme \<Rightarrow> 'a voice_scheme" where
  "hear a w = w\<lparr>vl53 := (vl53 w)\<lparr>Distance := al_dist a\<rparr>, OLED_MQ135ppm := al_air a,
     Soil_AlarmFlag := al_soil a, My_humi := al_humi a\<rparr>"

definition voice_run :: "alerts list \<Rightarrow> 'a voice_scheme \<Rightarrow> 'a voice_scheme" where
  "voice_run as w = fold (\<lambda>a w. Check_vioce (hear a w)) as w"

text \<open>In tick \<open>i\<close> of the run exactly the announcement \<open>c\<close> goes to the voice module.\<close>

definition announces :: "u8 \<Rightarrow> alerts list \<Rightarrow> 'a voice_scheme \<Rightarrow> nat \<Rightarrow> bool" where
  "announces c as w i \<longleftrightarrow> i < length as \<and>
     sent ''uart6'' (voice_run (take (Suc i) as) w) = sent ''uart6'' (voice_run (take i as) w) @ [0xa1, 0xb1, c, 0xc1]"

text \<open>The alarm \<open>c\<close> has gone.\<close>

definition over :: "u8 \<Rightarrow> alerts \<Rightarrow> bool" where
  "over c a = (if c = OBS_VOICE then 400 \<le> al_dist a
     else if c = AIR_VOICE then flt (al_air a) (flit (74 / 10))
     else if c = SOIL_VOICE then al_soil a = 0 else flt (al_humi a) (Fin 65))"

lemma voice_run_Suc:
  "i < length as \<Longrightarrow> voice_run (take (Suc i) as) w = Check_vioce (hear (as ! i) (voice_run (take i as) w))"
  by (simp add: voice_run_def take_Suc_conv_app_nth)

lemma hear_simps [simp]:
  "voice_ok (hear a w) = voice_ok w" "rtos (hear a w) = rtos w" "spent x (hear a w) = spent x w"
  "obsvoice_waittime (hear a w) = obsvoice_waittime w" "cleared c (hear a w) = over c a"
  by (simp_all add: hear_def voice_ok_def lines_ready_def spent_def cleared_def over_def)

lemma voice_run_ok:
  "voice_ok w \<Longrightarrow> voice_ok (voice_run as w)"
  by (induction as rule: rev_induct) (simp_all add: voice_run_def Check_vioce_tick(1))

lemma announces_choice:
  assumes "voice_ok w" "announces c as w i"
  shows "i < length as" "voice_choice (counted (hear (as ! i) (voice_run (take i as) w))) = Some c"
proof -
  show i: "i < length as" using assms(2) by (simp add: announces_def)
  note t = Check_vioce_tick(2) [of "hear (as ! i) (voice_run (take i as) w)"]
  have "voice_ok (hear (as ! i) (voice_run (take i as) w))" using voice_run_ok [OF assms(1)] by simp
  from t [OF this] have "voice_frame (voice_choice (counted (hear (as ! i) (voice_run (take i as) w)))) = voice_frame (Some c)"
    using assms(2) i by (simp add: announces_def voice_run_Suc voice_frame_def [of "Some c"])
  then show "voice_choice (counted (hear (as ! i) (voice_run (take i as) w))) = Some c" by simp
qed

lemma choice_facts:
  assumes "voice_choice v = Some c"
  shows "c \<in> {OBS_VOICE, AIR_VOICE, SOIL_VOICE, HUMI_VOICE}" "spent c v \<noteq> 0" "\<not> cleared c v"
    "c = OBS_VOICE \<Longrightarrow> obsvoice_waittime v = 0"
proof -
  have "f32_in 7 8 (flit (74 / 10))" by (rule f32_in_round) simp_all
  then obtain q where "flit (74 / 10) = Fin q" "q \<le> 8" by (rule f32_inE)
  then have air: "\<not> (fge x (Fin 9) \<and> flt x (flit (74 / 10)))" for x by (cases x) auto
  have humi: "\<not> (fge x (Fin 70) \<and> flt x (Fin 65))" for x by (cases x) auto
  show "c \<in> {OBS_VOICE, AIR_VOICE, SOIL_VOICE, HUMI_VOICE}" "spent c v \<noteq> 0" "\<not> cleared c v"
    "c = OBS_VOICE \<Longrightarrow> obsvoice_waittime v = 0"
    using assms air humi unfolding voice_choice_def
    by (auto simp: spent_def cleared_def split: if_splits)
qed

text \<open>Between two announcements of an alarm its flag must have come back.\<close>

lemma spent_until_over:
  assumes "voice_ok w" "spent c (voice_run (take i as) w) = 0" "i \<le> j" "j \<le> length as"
    "c \<in> {OBS_VOICE, AIR_VOICE, SOIL_VOICE, HUMI_VOICE}" "\<forall>k. i \<le> k \<and> k < j \<longrightarrow> \<not> over c (as ! k)"
  shows "spent c (voice_run (take j as) w) = 0"
  using assms(3,4,6)
proof (induction j rule: dec_induct)
  case base
  then show ?case using assms(2) by simp
next
  case (step j)
  define v where "v = hear (as ! j) (voice_run (take j as) w)"
  have v: "voice_ok v" "spent c v = 0" "\<not> cleared c v"
    using voice_run_ok [OF assms(1)] step by (simp_all add: v_def)
  have "voice_run (take (Suc j) as) w = Check_vioce v" using step.prems by (simp add: v_def voice_run_Suc)
  then show ?case using Check_vioce_tick(4) [OF v(1) assms(5)] v(2,3) by simp
qed

lemma spent_by_announcing:
  assumes "voice_ok w" "announces c as w i"
  shows "spent c (voice_run (take (Suc i) as) w) = 0"
proof -
  define v where "v = hear (as ! i) (voice_run (take i as) w)"
  note a = announces_choice [OF assms, folded v_def]
  have v: "voice_ok v" using voice_run_ok [OF assms(1)] by (simp add: v_def)
  have "spent c (counted v) = spent c v" "cleared c (counted v) = cleared c v"
    by (simp_all add: counted_def spent_def cleared_def)
  then show ?thesis
    using choice_facts [OF a(2)] Check_vioce_tick(4) [OF v, of c] a by (simp add: voice_run_Suc v_def)
qed

text \<open>
  C19 (safety). No warning is repeated while its cause lasts: between two announcements of the same
  alarm (obstacle, air, soil or humidity) there is a tick at which the alarm was over (distance at
  least 400, gas below 7.4, soil alarm off, humidity below 65).
\<close>

theorem warning_not_repeated:
  assumes "voice_ok w" "announces c as w i" "announces c as w j" "i < j"
  shows "\<exists>k. i < k \<and> k < j \<and> over c (as ! k)"
proof (rule ccontr)
  assume n: "\<nexists>k. i < k \<and> k < j \<and> over c (as ! k)"
  note a = announces_choice [OF assms(1,3)]
  note f = choice_facts [OF a(2)]
  have "spent c (voice_run (take j as) w) = 0"
    using spent_until_over [OF assms(1) spent_by_announcing [OF assms(1,2)], of j] assms(4) a(1) f(1) n
    by (simp add: Suc_le_eq)
  moreover have "spent c (counted v) = spent c v" for v :: "'a voice_scheme" by (simp add: counted_def spent_def)
  ultimately show False using f(2) by simp
qed

subsection \<open>The pause after an obstacle\<close>

lemma counted_unat: "unat (obsvoice_waittime v) \<le> unat (obsvoice_waittime (counted v)) + 1"
  by (auto simp: counted_def unat_minus_one word_gt_0)

lemma waittime_after:
  assumes "voice_ok w" "announces OBS_VOICE as w i" "Suc i \<le> j" "j \<le> length as"
  shows "800 \<le> unat (obsvoice_waittime (voice_run (take j as) w)) + (j - Suc i)"
  using assms(3,4)
proof (induction j rule: dec_induct)
  case base
  note a = announces_choice [OF assms(1,2)]
  have "voice_ok (hear (as ! i) (voice_run (take i as) w))" using voice_run_ok [OF assms(1)] by simp
  from Check_vioce_tick(3) [OF this] a show ?case by (simp add: voice_run_Suc)
next
  case (step j)
  define v where "v = hear (as ! j) (voice_run (take j as) w)"
  have v: "voice_ok v" using voice_run_ok [OF assms(1)] by (simp add: v_def)
  have e: "voice_run (take (Suc j) as) w = Check_vioce v" using step.prems by (simp add: v_def voice_run_Suc)
  have "800 \<le> unat (obsvoice_waittime (counted v)) + 1 + (j - Suc i)"
    using step counted_unat [of v] by (simp add: v_def)
  then show ?case using Check_vioce_tick(3) [OF v] step.hyps by (auto simp: e Suc_diff_le)
qed

text \<open>
  After an obstacle warning there is no other for 800 ticks (eight seconds), whatever
  the distance does in between.
\<close>

theorem obstacle_warning_pause:
  assumes "voice_ok w" "announces OBS_VOICE as w i" "i < j" "j < i + 800"
  shows "\<not> announces OBS_VOICE as w j"
proof
  assume n: "announces OBS_VOICE as w j"
  define v where "v = hear (as ! j) (voice_run (take j as) w)"
  note a = announces_choice [OF assms(1) n, folded v_def]
  have "obsvoice_waittime (counted v) = 0" using choice_facts(4) [OF a(2)] by simp
  then have "unat (obsvoice_waittime v) \<le> 1" using counted_unat [of v] by simp
  then show False
    using waittime_after [OF assms(1,2), of j] assms(3,4) a(1) by (simp add: v_def)
qed

text \<open>Tick 0 of a run from power-up, for the witnesses.\<close>

lemma announces_first:
  assumes "voice_ok w" "as \<noteq> []" "voice_choice (counted (hear (hd as) w)) = Some c"
  shows "announces c as w 0"
proof -
  have e: "take (Suc 0) as = [hd as]" using assms(2) by (cases as) auto
  have "voice_ok (hear (hd as) w)" using assms(1) by simp
  from Check_vioce_tick(2) [OF this] assms(2,3) show ?thesis
    by (simp add: announces_def e voice_run_def voice_frame_def)
qed

lemma voice_ok_voice0: "voice_ok voice0"
  using lines_ready_comm0
  by (simp add: voice_ok_def voice0_def voice_fields0_def voice.defs senders0_def senders_fields0_def senders.defs
      soft0_def soft_fields0_def soft.defs lines_ready_def comm0_def comm_fields0_def comm.defs)

lemma voice0_fields [simp]:
  "obsvoice_flag voice0 = 1" "obsvoice_waittime voice0 = 0" "airvoice_flag voice0 = 1" "soilvoice_flag voice0 = 1"
  by (simp_all add: voice0_def voice_fields0_def voice.defs senders0_def senders_fields0_def senders.defs
      soft0_def soft_fields0_def soft.defs comm0_def comm_fields0_def comm.defs turns0_def turns.defs
      motors0_def motors.defs encoders0_def encoders.defs globals0_def globals.defs hw0_def hw.defs)

theorem obstacle_warning_pause_witness:
  fixes a as defines "a \<equiv> \<lparr>al_dist = 300, al_air = Fin 0, al_soil = 0, al_humi = Fin 0\<rparr>"
    and "as \<equiv> a # replicate 499 \<lparr>al_dist = 500, al_air = Fin 0, al_soil = 0, al_humi = Fin 0\<rparr>"
  shows "\<not> announces OBS_VOICE as voice0 499"
proof -
  have "voice_choice (counted (hear a voice0)) = Some OBS_VOICE"
    by (simp add: a_def voice_choice_def counted_def hear_def)
  then have "announces OBS_VOICE as voice0 0"
    by (intro announces_first [OF voice_ok_voice0]) (simp_all add: as_def)
  then show ?thesis by (rule obstacle_warning_pause [OF voice_ok_voice0]) simp_all
qed

theorem warning_not_repeated_witness:
  fixes a as defines "a \<equiv> \<lparr>al_dist = 0, al_air = Fin 0, al_soil = 1, al_humi = Fin 0\<rparr>"
    and "as \<equiv> a # replicate 499 a"
  shows "\<not> announces SOIL_VOICE as voice0 499"
proof -
  have "voice_choice (counted (hear a voice0)) = Some SOIL_VOICE"
    by (simp add: a_def voice_choice_def counted_def hear_def)
  then have f: "announces SOIL_VOICE as voice0 0"
    by (intro announces_first [OF voice_ok_voice0]) (simp_all add: as_def)
  have "\<not> over SOIL_VOICE a" by (simp add: over_def a_def)
  moreover have "as ! k = a" if "k < 499" for k using that by (simp add: as_def nth_Cons' )
  ultimately have "\<not> over SOIL_VOICE (as ! k)" if "k < 499" for k using that by simp
  then show ?thesis using warning_not_repeated [OF voice_ok_voice0 f, of 499] by auto
qed

end
