(* ===== verification/Sport.thy ===== *)
theory Sport
  imports Voice
begin

text \<open>
  The motion modes (\<^verbatim>\<open>Software/SportMode.c\<close>), run on every ten-millisecond tick: inspecting the
  leaves with the stepper motors, driving round to find the light, and the obstacle avoidance, a
  machine of thirteen states that turns away from an obstacle, waits, and drives on.
\<close>

record sport = voice +
  leaf_time_cnt :: u16
  Modestate :: u8
  time_cntobs :: u16
  yaw_temprary :: f32
  yaw_temprary1 :: f32
  yaw_temprary2 :: f32

definition sport_fields0 where "sport_fields0 = sport.fields 0 0 0 (Fin 0) (Fin 0) (Fin 0)"

definition sport0 :: sport where
  "sport0 = voice.extend voice0 sport_fields0"

definition Plantleaf_ins :: "'a sport_scheme \<Rightarrow> 'a sport_scheme" where
  "Plantleaf_ins w =
    (if Plantleaf_insflag w = 1 then let w = w\<lparr>leaf_time_cnt := leaf_time_cnt w + 1\<rparr> in
       if leaf_time_cnt w = 1 then stepper (BuJinMotor_PitchView 2 1 100 (Fin 30)) w
       else if leaf_time_cnt w = 200 then stepper (BuJinMotor_Circle 1 1 100 1) w
       else if leaf_time_cnt w = 900 then
         let w = stepper (BuJinMotor_Circle 1 0 100 1) w in w\<lparr>Plantleaf_insflag := 0\<rparr>
       else w
     else w\<lparr>leaf_time_cnt := 0\<rparr>)"

definition Finding_light :: "'a sport_scheme \<Rightarrow> 'a sport_scheme" where
  "Finding_light w = (let
     w = (if Motor_flag w = 1 then
       (if Modestate_light w = 1 then w\<lparr>Milleage1_flag := 0, Milleage2_flag := 0, Modestate_light := 2\<rparr>
        else if Modestate_light w = 2 then let
          w = (if finding_flag w = 0 then
                 if fle (Milleage1 w) (f32_of_int 575) then
                   Motor_PidTarget_Acce (f32_of_int 300) (f32_of_int (-300)) (stepper (BuJinMotor_PitchView 2 0 100 (Fin 0)) w)
                 else if fle (Milleage1 w) (f32_of_int 1150) then
                   Motor_PidTarget_Acce (f32_of_int 300) (f32_of_int (-300)) (stepper (BuJinMotor_PitchView 2 0 100 (Fin 35)) w)
                 else w\<lparr>Modestate_light := 4\<rparr>
               else w)
          in if finding_flag w = 1 then w\<lparr>Modestate_light := 3\<rparr> else w
        else if Modestate_light w = 3 then w\<lparr>Modestate_light := 4\<rparr>
        else if Modestate_light w = 4 then
          (Motor_SetCCR 0 0 (stepper (BuJinMotor_PitchView 2 0 100 (Fin 0)) w))\<lparr>Modestate_light := 5\<rparr>
        else w)
       else w)
   in if Motor_flag w = 0 then Motor_SetCCR 0 0 w else w)"

text \<open>The states of the avoidance. Each state change also shows in \<^verbatim>\<open>mystate\<close>.\<close>

definition goto :: "u8 \<Rightarrow> 'a sport_scheme \<Rightarrow> 'a sport_scheme" where
  "goto s w = w\<lparr>Modestate := s, mystate := s\<rparr>"

text \<open>States 1, 3, 5, 7, 9: turn to a heading, go on when it is reached.\<close>

definition obs_turn :: "('a sport_scheme \<Rightarrow> f32) \<Rightarrow> u8 \<Rightarrow> 'a sport_scheme \<Rightarrow> 'a sport_scheme" where
  "obs_turn heading next w = (let
     w = Yaw_change (heading w) w;
     w = (if flt (fabsf (fsub (Yaw w) (Target (Pid_Trun w)))) (flit 5) then goto next w else w)
   in w\<lparr>time_cntobs := 0\<rparr>)"

text \<open>States 2, 4, 6, 8, 10: stand for a second, then drive on if the way is free, else try another heading.\<close>

definition obs_wait :: "('a sport_scheme \<Rightarrow> 'a sport_scheme) \<Rightarrow> 'a sport_scheme \<Rightarrow> 'a sport_scheme" where
  "obs_wait blocked w = (let
     w = Motor_SetCCR 0 0 w;
     w = w\<lparr>time_cntobs := time_cntobs w + 1\<rparr>
   in if 100 \<le> time_cntobs w then if 400 < Distance (vl53 w) then goto 11 w else blocked w else w)"

definition obs_watch :: "'a sport_scheme \<Rightarrow> 'a sport_scheme" where
  "obs_watch w = (let
     w = (if 400 < Distance (vl53 w) then w\<lparr>time_cntobs := 0\<rparr> else w)
   in if Distance (vl53 w) \<le> 400 then let w = w\<lparr>time_cntobs := time_cntobs w + 1\<rparr> in
        if 50 \<le> time_cntobs w then goto 1 (w\<lparr>yaw_temprary := fadd (Yaw w) (f32_of_int 180)\<rparr>) else w
      else w)"

definition obs_drive :: "'a sport_scheme \<Rightarrow> 'a sport_scheme" where
  "obs_drive w = (let w = w\<lparr>Milleage := fdiv (fadd (Milleage1 w) (Milleage2 w)) (f32_of_int 2)\<rparr> in
     if fle (Milleage w) (f32_of_int 350) then Car_Goline (yaw_temprary w) 600 w
     else goto 0 ((Motor_SetCCR 0 0 w)\<lparr>time_cntobs := 0\<rparr>))"

definition obs_machine :: "'a sport_scheme \<Rightarrow> 'a sport_scheme" where
  "obs_machine w =
    (if Modestate w = 0 then obs_watch w
     else if Modestate w = 1 then obs_turn yaw_temprary 2 w
     else if Modestate w = 2 then obs_wait (\<lambda>w. goto 3 (w\<lparr>yaw_temprary1 := fadd (yaw_temprary w) (f32_of_int 60)\<rparr>)) w
     else if Modestate w = 3 then obs_turn yaw_temprary1 4 w
     else if Modestate w = 4 then obs_wait (\<lambda>w. goto 5 (w\<lparr>yaw_temprary2 := fsub (yaw_temprary w) (f32_of_int 60)\<rparr>)) w
     else if Modestate w = 5 then obs_turn yaw_temprary2 6 w
     else if Modestate w = 6 then obs_wait (\<lambda>w. goto 7 (w\<lparr>yaw_temprary1 := fadd (yaw_temprary w) (f32_of_int 90)\<rparr>)) w
     else if Modestate w = 7 then obs_turn yaw_temprary1 8 w
     else if Modestate w = 8 then obs_wait (\<lambda>w. goto 9 (w\<lparr>yaw_temprary2 := fsub (yaw_temprary w) (f32_of_int 90)\<rparr>)) w
     else if Modestate w = 9 then obs_turn yaw_temprary2 10 w
     else if Modestate w = 10 then obs_wait (\<lambda>w. goto 0 (w\<lparr>yaw_temprary2 := fsub (yaw_temprary w) (f32_of_int 90)\<rparr>)) w
     else if Modestate w = 11 then goto 12 (w\<lparr>Milleage1 := f32_of_int 0, Milleage2 := f32_of_int 0, yaw_temprary := Yaw w\<rparr>)
     else if Modestate w = 12 then obs_drive w
     else w)"

definition Finding_obs :: "'a sport_scheme \<Rightarrow> 'a sport_scheme" where
  "Finding_obs w = (let w = (if Motor_flag w = 1 then obs_machine w else w)
     in if Motor_flag w = 0 then Motor_SetCCR 0 0 w else w)"

definition MaixCam_Sport :: "'a sport_scheme \<Rightarrow> 'a sport_scheme" where
  "MaixCam_Sport w = (let
     w = (if MaixMode_flag w = 1 then let
            w = w\<lparr>starttime_cnt := starttime_cnt w + 1\<rparr>;
            w = (if 300 \<le> starttime_cnt w then Plantleaf_ins w else w)
          in Finding_obs w else w)
   in if MaixMode_flag w = 2 then let
        w = w\<lparr>starttime_cnt := starttime_cnt w + 1\<rparr>;
        w = (if 300 \<le> starttime_cnt w then Finding_light w else w)
      in if Modestate_light w = 5 then Finding_obs w else w
      else w)"

end
