(* ===== verification/Sensors.thy ===== *)
theory Sensors
  imports Sport
begin

text \<open>
  The three analogue sensors on ADC1: soil moisture (\<^verbatim>\<open>Software/Soil.c\<close>), smoke (\<^verbatim>\<open>Software/MQ2.c\<close>)
  and air quality (\<^verbatim>\<open>Software/MQ135.c\<close>), with the single-channel conversions of \<^verbatim>\<open>Software/ADC1.c\<close>.

  The converter is the register file the code writes and, per channel, the sequence of values it
  delivers; a conversion always ends, so the wait for the end-of-conversion bit is not a step. The
  C library's \<^verbatim>\<open>powf\<close> is a parameter of the two gas sensors. The build has \<^verbatim>\<open>MODE\<close> and \<^verbatim>\<open>SOIL_MODE\<close>
  at 1, so the analogue branches are modelled.
\<close>

subsection \<open>The converter\<close>

record sensors = sport +
  adc_in :: "u32 \<Rightarrow> nat \<Rightarrow> u16"
  adc_n :: "u32 \<Rightarrow> nat"
  adc_CR1 :: u32
  adc_CR2 :: u32
  adc_SQR1 :: u32
  adc_SQR3 :: u32
  adc_SMPR2 :: u32
  adc_CCR :: u32
  valueSoil_Raw :: u16
  MQ2value :: u16
  value135 :: u16

definition sensors_fields0 where
  "sensors_fields0 = sensors.fields (\<lambda>_ _. 0) (\<lambda>_. 0) 0 0 0 0 0 0 0 0 0"

definition sensors0 :: sensors where
  "sensors0 = sport.extend sport0 sensors_fields0"

definition ADCx_Init :: "'a sensors_scheme \<Rightarrow> 'a sensors_scheme" where
  "ADCx_Init w = (let
     w = hal RCC_ADC1_ENABLE w;
     w = w\<lparr>adc_CR1 := 0\<rparr>;
     w = w\<lparr>adc_CR2 := 0\<rparr>;
     w = w\<lparr>adc_SQR1 := 0\<rparr>;
     w = w\<lparr>adc_CR1 := adc_CR1 w AND NOT 0x03000000\<rparr>;
     w = w\<lparr>adc_CR2 := adc_CR2 w AND NOT 0x00000002\<rparr>;
     w = w\<lparr>adc_CR2 := adc_CR2 w AND NOT 0x00000800\<rparr>;
     w = w\<lparr>adc_CCR := adc_CCR w AND NOT 0x00030000\<rparr>;
     w = w\<lparr>adc_CCR := adc_CCR w OR 0x00010000\<rparr>
   in w\<lparr>adc_CR2 := adc_CR2 w OR 0x00000001\<rparr>)"

definition ADC_GetValue :: "u32 \<Rightarrow> u32 \<Rightarrow> 'a sensors_scheme \<Rightarrow> u16 \<times> 'a sensors_scheme" where
  "ADC_GetValue ch st w = (let
     w = w\<lparr>adc_SQR3 := ch\<rparr>;
     w = w\<lparr>adc_SMPR2 := adc_SMPR2 w AND NOT (push_bit (unat (ch * 3)) 7)\<rparr>;
     w = w\<lparr>adc_SMPR2 := adc_SMPR2 w OR push_bit (unat (ch * 3)) st\<rparr>;
     w = w\<lparr>adc_CR2 := adc_CR2 w OR 0x40000000\<rparr>;
     k = adc_n w ch
   in (adc_in w ch k, w\<lparr>adc_n := (adc_n w)(ch := k + 1)\<rparr>))"

text \<open>\<^verbatim>\<open>for (i = 0; i < n; i++) tempData += XXX_ADC_Read();\<close> with an integer and with a float sum\<close>

fun adc_sum :: "nat \<Rightarrow> ('a sensors_scheme \<Rightarrow> u16 \<times> 'a sensors_scheme) \<Rightarrow> u32 \<Rightarrow> 'a sensors_scheme \<Rightarrow> u32 \<times> 'a sensors_scheme" where
  "adc_sum 0 read acc w = (acc, w)"
| "adc_sum (Suc n) read acc w = (let (v, w) = read w in adc_sum n read (acc + ucast v) w)"

fun adc_fsum :: "nat \<Rightarrow> ('a sensors_scheme \<Rightarrow> u16 \<times> 'a sensors_scheme) \<Rightarrow> f32 \<Rightarrow> 'a sensors_scheme \<Rightarrow> f32 \<times> 'a sensors_scheme" where
  "adc_fsum 0 read acc w = (acc, w)"
| "adc_fsum (Suc n) read acc w = (let (v, w) = read w in adc_fsum n read (fadd acc (f32_of_int (uint v))) w)"

subsection \<open>Soil\<close>

definition Soil_Init :: "'a sensors_scheme \<Rightarrow> 'a sensors_scheme" where
  "Soil_Init w = ADCx_Init (hal_calls
     [RCC_GPIO_ENABLE GPIOA, GPIO_Init GPIOA (GPIO_PIN 5) ANALOG NOPULL SPEED_HIGH None] w)"

definition Soil_ADC_Read :: "'a sensors_scheme \<Rightarrow> u16 \<times> 'a sensors_scheme" where
  "Soil_ADC_Read = ADC_GetValue 5 4"

definition Soil_GetData :: "'a sensors_scheme \<Rightarrow> u16 \<times> 'a sensors_scheme" where
  "Soil_GetData w = (let (t, w) = adc_sum 10 Soil_ADC_Read 0 w in (ucast (t div 10), w))"

definition soil_of_mean :: "f32 \<Rightarrow> f32" where
  "soil_of_mean t = (let
     percent = fmul (fdiv (fsub (flit 4095) t) (flit 4095)) (flit 100);
     percent = (if fgt percent (flit 100) then flit 100 else percent)
   in if flt percent (flit 0) then flit 0 else percent)"

definition Soil_GetData_Percent :: "'a sensors_scheme \<Rightarrow> f32 \<times> 'a sensors_scheme" where
  "Soil_GetData_Percent w = (let
     (t, w) = adc_fsum 10 Soil_ADC_Read (f32_of_int 0) w;
     t = fdiv t (f32_of_int 10);
     w = w\<lparr>valueSoil_Raw := f32_to_u16 t\<rparr>;
     w = w\<lparr>percentSoil := soil_of_mean t\<rparr>
   in (percentSoil w, w))"

definition soil_thresholds :: "u8 \<Rightarrow> f32 \<times> f32" where
  "soil_thresholds p =
    (if p = UART4_MODE_SHADE then (flit 5, flit 25)
     else if p = UART4_MODE_HALF_SHADE then (flit 25, flit 40)
     else if p = UART4_MODE_SUN then (flit 40, flit 75)
     else (flit 5, flit 25))"

definition Soil_UpdateAlarmFlag :: "'a globals_scheme \<Rightarrow> 'a globals_scheme" where
  "Soil_UpdateAlarmFlag w = (let (low, high) = soil_thresholds (Soil_PlantType w) in
     if flt (percentSoil w) low then w\<lparr>Soil_AlarmFlag := 1\<rparr>
     else if fge (percentSoil w) high then w\<lparr>Soil_AlarmFlag := 0\<rparr>
     else if fgt (percentSoil w) low then w\<lparr>Soil_AlarmFlag := 2\<rparr>
     else w)"

subsection \<open>Smoke\<close>

definition MQ2_CalcPPM_FromRaw :: "(f32 \<Rightarrow> f32 \<Rightarrow> f32) \<Rightarrow> u16 \<Rightarrow> f32" where
  "MQ2_CalcPPM_FromRaw powf raw = (let R0 = flit (664 / 100) in
     if 4095 \<le> raw then flit 0
     else let Vol = fdiv (fmul (f32_of_int (uint raw)) (flit (33 / 10))) (flit 4096) in
       if fle Vol (flit (1 / 100)) then flit 999
       else let RS = fdiv (fsub (flit 5) Vol) (fmul Vol (flit (1 / 2))) in
         if fle RS (flit (1 / 100)) then flit 999
         else let ppm = powf (fdiv (fmul (flit (115428 / 10000)) R0) RS) (flit (6549 / 10000)) in
           if \<not> fge ppm (flit 0) then flit 0
           else if fgt ppm (flit 999) then flit 999
           else ppm)"

definition MQ2_Init :: "'a sensors_scheme \<Rightarrow> 'a sensors_scheme" where
  "MQ2_Init w = ADCx_Init (hal_calls
     [RCC_GPIO_ENABLE GPIOA, GPIO_Init GPIOA (GPIO_PIN 0) ANALOG NOPULL SPEED_HIGH None] w)"

definition MQ2_ADC_Read :: "'a sensors_scheme \<Rightarrow> u16 \<times> 'a sensors_scheme" where
  "MQ2_ADC_Read = ADC_GetValue 0 3"

definition MQ2_GetData :: "'a sensors_scheme \<Rightarrow> u16 \<times> 'a sensors_scheme" where
  "MQ2_GetData w = (let (t, w) = adc_sum 10 MQ2_ADC_Read 0 w in (ucast (t div 10), w))"

definition MQ2_GetData_PPM :: "(f32 \<Rightarrow> f32 \<Rightarrow> f32) \<Rightarrow> 'a sensors_scheme \<Rightarrow> f32 \<times> 'a sensors_scheme" where
  "MQ2_GetData_PPM powf w = (let
     (v, w) = MQ2_GetData w;
     w = w\<lparr>MQ2value := v\<rparr>;
     w = w\<lparr>MQ2ppm := MQ2_CalcPPM_FromRaw powf (MQ2value w)\<rparr>
   in (MQ2ppm w, w))"

definition MQ2_UpdateAlarmFlag :: "'a globals_scheme \<Rightarrow> 'a globals_scheme" where
  "MQ2_UpdateAlarmFlag w =
    (if fge (MQ2ppm w) (flit 3) then w\<lparr>MQ2_AlarmFlag := 1\<rparr> else w\<lparr>MQ2_AlarmFlag := 0\<rparr>)"

subsection \<open>Air quality\<close>

definition MQ135_Init :: "'a sensors_scheme \<Rightarrow> 'a sensors_scheme" where
  "MQ135_Init w = ADCx_Init (hal_calls
     [RCC_GPIO_ENABLE GPIOA, GPIO_Init GPIOA (GPIO_PIN 2) ANALOG NOPULL SPEED_HIGH None] w)"

definition MQ135_ADC_Read :: "'a sensors_scheme \<Rightarrow> u16 \<times> 'a sensors_scheme" where
  "MQ135_ADC_Read = ADC_GetValue 2 3"

definition MQ135_GetData :: "'a sensors_scheme \<Rightarrow> u16 \<times> 'a sensors_scheme" where
  "MQ135_GetData w = (let (t, w) = adc_sum 10 MQ135_ADC_Read 0 w in (ucast (t div 10), w))"

definition ppm135_of_mean :: "(f32 \<Rightarrow> f32 \<Rightarrow> f32) \<Rightarrow> f32 \<Rightarrow> f32" where
  "ppm135_of_mean powf t = (let Pin_Vol = fdiv (fmul t (flit (33 / 10))) (flit 4096) in
     if fle Pin_Vol (flit (1 / 100)) then flit 999
     else let
       Sensor_Vol = fmul Pin_Vol (flit (3 / 2));
       RS = fdiv (fsub (flit 5) Sensor_Vol) (fmul Sensor_Vol (flit (1 / 2))) in
       if fle RS (flit (1 / 100)) then flit 999
       else let
         R0 = flit (664 / 100);
         ppm = powf (fdiv (fmul (flit (115428 / 10000)) R0) RS) (flit (6549 / 10000)) in
         if \<not> fge ppm (flit 0) then flit 0
         else if fgt ppm (flit 999) then flit 999 else ppm)"

definition MQ135_GetData_PPM :: "(f32 \<Rightarrow> f32 \<Rightarrow> f32) \<Rightarrow> 'a sensors_scheme \<Rightarrow> f32 \<times> 'a sensors_scheme" where
  "MQ135_GetData_PPM powf w = (let
     (t, w) = adc_fsum 10 MQ135_ADC_Read (f32_of_int 0) w;
     t = fdiv t (f32_of_int 10);
     w = w\<lparr>value135 := f32_to_u16 t\<rparr>;
     w = w\<lparr>ppm135 := ppm135_of_mean powf t\<rparr>
   in (ppm135 w, w))"

definition MQ135_UpdateAlarmFlag :: "'a globals_scheme \<Rightarrow> 'a globals_scheme" where
  "MQ135_UpdateAlarmFlag w =
    (if fge (ppm135 w) (flit 10) then w\<lparr>MQ135_AlarmFlag := 1\<rparr> else w\<lparr>MQ135_AlarmFlag := 0\<rparr>)"

subsection \<open>The samples a reading takes\<close>

text \<open>The values of the next \<open>n\<close> conversions of a channel.\<close>

definition samples :: "nat \<Rightarrow> u32 \<Rightarrow> 'a sensors_scheme \<Rightarrow> u16 list" where
  "samples n ch w = map (\<lambda>i. adc_in w ch (adc_n w ch + i)) [0..<n]"

definition sum_of :: "u16 list \<Rightarrow> nat" where
  "sum_of xs = sum_list (map unat xs)"

lemma sum_of_simps [simp]: "sum_of [] = 0" "sum_of (x # xs) = unat x + sum_of xs"
  by (simp_all add: sum_of_def)

lemma sum_of_le: "\<forall>x \<in> set xs. unat x \<le> k \<Longrightarrow> sum_of xs \<le> length xs * k"
  by (induction xs) auto

lemma sum_of_bound [simp]: "sum_of xs \<le> length xs * 65535"
proof (rule sum_of_le, rule ballI)
  fix x :: u16
  show "unat x \<le> 65535" using unat_u16_lt [of x] by linarith
qed

text \<open>A conversion takes the next value; of the rest only converter registers change.\<close>

definition adc_moved :: "'a sensors_scheme \<Rightarrow> 'a sensors_scheme \<Rightarrow> bool" where
  "adc_moved w w' \<longleftrightarrow> (\<exists>n a b c. w' = w\<lparr>adc_SQR3 := b, adc_SMPR2 := c, adc_CR2 := a, adc_n := n\<rparr>)"

lemma adc_movedE:
  assumes "adc_moved w w'"
  obtains n a b c where "w' = w\<lparr>adc_SQR3 := b, adc_SMPR2 := c, adc_CR2 := a, adc_n := n\<rparr>"
  using assms by (auto simp: adc_moved_def)

lemma adc_moved_refl [simp]: "adc_moved w w"
  unfolding adc_moved_def
  by (rule exI [of _ "adc_n w"], rule exI [of _ "adc_CR2 w"], rule exI [of _ "adc_SQR3 w"],
      rule exI [of _ "adc_SMPR2 w"]) simp

lemma adc_moved_trans: "adc_moved u v \<Longrightarrow> adc_moved v w \<Longrightarrow> adc_moved u w"
  by (elim adc_movedE) (auto simp: adc_moved_def)

lemma ADC_GetValue_result:
  "fst (ADC_GetValue ch st w) = adc_in w ch (adc_n w ch)"
  "adc_in (snd (ADC_GetValue ch st w)) = adc_in w"
  "adc_n (snd (ADC_GetValue ch st w)) = (adc_n w)(ch := adc_n w ch + 1)"
  "adc_moved w (snd (ADC_GetValue ch st w))"
  by (simp_all add: ADC_GetValue_def Let_def) (auto simp: adc_moved_def)

lemma samples_Suc:
  "samples (Suc n) ch w =
     fst (ADC_GetValue ch st w) # samples n ch (snd (ADC_GetValue ch st w))"
  by (simp add: samples_def ADC_GetValue_result upt_rec [of 0] map_Suc_upt [symmetric] del: upt_Suc)

lemma length_samples [simp]: "length (samples n ch w) = n"
  by (simp add: samples_def)

lemma adc_fsum_result:
  "int s + int n * 65535 \<le> 2 ^ 24 \<Longrightarrow>
    fst (adc_fsum n (ADC_GetValue ch st) (f32_of_int (int s)) w) =
      f32_of_int (int (s + sum_of (samples n ch w))) \<and>
    adc_moved w (snd (adc_fsum n (ADC_GetValue ch st) (f32_of_int (int s)) w))"
proof (induction n arbitrary: s w)
  case 0 then show ?case by (simp add: samples_def)
next
  case (Suc n)
  let ?v = "fst (ADC_GetValue ch st w)" and ?w = "snd (ADC_GetValue ch st w)"
  have v: "uint ?v \<le> 65535" using unsigned_less [of ?v, where 'a = int] by simp
  have acc: "fadd (f32_of_int (int s)) (f32_of_int (uint ?v)) = f32_of_int (int (s + unat ?v))"
    using Suc.prems v fadd_ints [of "int s" "uint ?v"] by auto
  have "int (s + unat ?v) + int n * 65535 \<le> 2 ^ 24" using v Suc.prems by simp
  from Suc.IH [OF this, of ?w] show ?case
    by (simp add: split_beta acc samples_Suc [of n ch w st] add.assoc del: of_nat_add)
      (blast intro: adc_moved_trans ADC_GetValue_result(4))
qed

lemma adc_sum_result:
  "unat s + n * 65535 < 2 ^ 32 \<Longrightarrow>
    unat (fst (adc_sum n (ADC_GetValue ch st) s w)) = unat s + sum_of (samples n ch w) \<and>
    adc_moved w (snd (adc_sum n (ADC_GetValue ch st) s w))"
proof (induction n arbitrary: s w)
  case 0 then show ?case by (simp add: samples_def)
next
  case (Suc n)
  let ?v = "fst (ADC_GetValue ch st w)" and ?w = "snd (ADC_GetValue ch st w)"
  have v: "unat ?v \<le> 65535" using unat_u16_lt [of ?v] by linarith
  have s: "unat (s + ucast ?v) = unat s + unat ?v"
    using v Suc.prems by (simp add: unat_word_ariths unat_ucast_up)
  have "unat (s + ucast ?v) + n * 65535 < 2 ^ 32" using v Suc.prems s by simp
  from Suc.IH [OF this, of ?w] s show ?case
    by (simp add: split_beta samples_Suc [of n ch w st])
      (blast intro: adc_moved_trans ADC_GetValue_result(4))
qed

text \<open>The truncated mean of ten samples, as the code computes it in 32 bits and returns it in 16.\<close>

lemma mean_bound: "sum_of (samples 10 ch w) div 10 < 65536"
  using sum_of_bound [of "samples 10 ch w"] by simp

lemma mean_result:
  assumes "(t, w') = adc_sum 10 (ADC_GetValue ch st) 0 w"
  shows "unat (ucast (t div 10) :: u16) = sum_of (samples 10 ch w) div 10" "adc_moved w w'"
proof -
  have t: "unat t = sum_of (samples 10 ch w)" and m: "adc_moved w w'"
    using adc_sum_result [of 0 10 ch st w] by (simp_all flip: assms)
  show "adc_moved w w'" by (rule m)
  show "unat (ucast (t div 10) :: u16) = sum_of (samples 10 ch w) div 10"
    using t mean_bound [of ch w] by (simp add: unsigned_ucast_eq unat_div take_bit_nat_eq_self)
qed

subsection \<open>The soil percentage\<close>

lemma soil_of_mean_range:
  assumes "f32_in 0 65535 t" shows "f32_in 0 100 (soil_of_mean t)"
proof -
  have "f32_in (-61440) 4095 (fsub (flit 4095) t)"
    by (rule fsub_in [of 4095 4095 _ 0 65535]) (use assms in \<open>auto simp: f32_round_rep\<close>)
  then have "f32_in (-16) 1 (fdiv (fsub (flit 4095) t) (flit 4095))"
    by (rule fdiv_in [of _ _ _ 4095 4095]) (auto simp: f32_round_rep)
  then have "f32_in (-1600) 100 (fmul (fdiv (fsub (flit 4095) t) (flit 4095)) (flit 100))"
    by (rule fmul_in [of _ _ _ 100 100]) (auto simp: f32_round_rep)
  then show ?thesis
    by (auto simp: soil_of_mean_def Let_def f32_round_rep elim!: f32_inE)
qed

text \<open>Four roundings, each at its scale, stay within a ten thousandth of a percent point.\<close>

lemma soil_of_mean_accurate:
  assumes "0 \<le> q" "q \<le> 4095"
  obtains p where "soil_of_mean (f32_round q) = Fin p" "0 \<le> p" "p \<le> 100"
    "\<bar>p - 100 * (4095 - q) / 4095\<bar> \<le> 1 / 10000"
proof -
  have p: "pow2 (-12) = 1 / 4096" "pow2 (-23) = 1 / 8388608" "pow2 (-17) = 1 / 131072"
    by (simp_all add: pow2_def)
  obtain t where t: "f32_round q = Fin t" "f32_rep t" "0 \<le> t" "t \<le> 4095" "\<bar>t - q\<bar> \<le> 1 / 8192"
    by (rule f32_round_near [of 0 4095 q "-12"]) (use assms p in \<open>auto simp: pow2_def\<close>)
  obtain a where a: "f32_round (4095 - t) = Fin a" "f32_rep a" "0 \<le> a" "a \<le> 4095"
      "\<bar>a - (4095 - t)\<bar> \<le> 1 / 8192"
    by (rule f32_round_near [of 0 4095 "4095 - t" "-12"]) (use t p in \<open>auto simp: pow2_def\<close>)
  obtain d where d: "f32_round (a / 4095) = Fin d" "f32_rep d" "0 \<le> d" "d \<le> 1"
      "\<bar>d - a / 4095\<bar> \<le> 1 / 16777216"
    by (rule f32_round_near [of 0 1 "a / 4095" "-23"]) (use a p in \<open>auto simp: pow2_def\<close>)
  obtain r where r: "f32_round (d * 100) = Fin r" "f32_rep r" "0 \<le> r" "r \<le> 100"
      "\<bar>r - d * 100\<bar> \<le> 1 / 262144"
    by (rule f32_round_near [of 0 100 "d * 100" "-17"]) (use d p in \<open>auto simp: pow2_def\<close>)
  have "soil_of_mean (f32_round q) = Fin r"
    using t a d r by (simp add: soil_of_mean_def Let_def f32_round_rep fsub_def)
  moreover have "\<bar>r - 100 * (4095 - q) / 4095\<bar> \<le> 1 / 10000"
  proof -
    define x1 x2 x3 x4 where "x1 = r - d * 100" "x2 = d - a / 4095" "x3 = a - (4095 - t)" "x4 = t - q"
    note x = this
    have x_le: "\<bar>x1\<bar> \<le> 1 / 262144" "\<bar>x2\<bar> \<le> 1 / 16777216" "\<bar>x3\<bar> \<le> 1 / 8192" "\<bar>x4\<bar> \<le> 1 / 8192"
      using t(5) a(5) d(5) r(5) unfolding x by simp_all
    have "r - 100 * (4095 - q) / 4095 = x1 + 100 * x2 + 100 / 4095 * (x3 - x4)"
      unfolding x by (simp add: field_simps)
    also have "\<bar>\<dots>\<bar> \<le> 1 / 10000"
      using x_le [THEN abs_le_D1] x_le [THEN abs_le_D2] by (intro abs_leI) (simp_all add: field_simps)
    finally show ?thesis .
  qed
  ultimately show ?thesis using that r by blast
qed

text \<open>The float mean of ten samples.\<close>

definition fmean :: "u32 \<Rightarrow> 'a sensors_scheme \<Rightarrow> f32" where
  "fmean ch w = f32_round (of_nat (sum_of (samples 10 ch w)) / 10)"

lemma fmean_result:
  assumes "(t, w') = adc_fsum 10 (ADC_GetValue ch st) (f32_of_int 0) w"
  shows "fdiv t (f32_of_int 10) = fmean ch w" "adc_moved w w'"
proof -
  have t: "t = f32_of_int (int (sum_of (samples 10 ch w)))" and m: "adc_moved w w'"
  proof -
    have "t = fst (adc_fsum 10 (ADC_GetValue ch st) (f32_of_int 0) w)"
      "w' = snd (adc_fsum 10 (ADC_GetValue ch st) (f32_of_int 0) w)" by (simp_all only: assms [symmetric] fst_conv snd_conv)
    then show "t = f32_of_int (int (sum_of (samples 10 ch w)))" "adc_moved w w'"
      using adc_fsum_result [of 0 10 ch st w] by simp_all
  qed
  show "adc_moved w w'" by (rule m)
  have "sum_of (samples 10 ch w) \<le> 10 * 65535" using sum_of_bound [of "samples 10 ch w"] by simp
  then have "t = Fin (of_nat (sum_of (samples 10 ch w)))"
    unfolding t by (subst f32_of_int_exact) auto
  then show "fdiv t (f32_of_int 10) = fmean ch w" by (simp add: fmean_def f32_of_int_exact)
qed

lemma Soil_reading:
  obtains w' where "adc_moved w w'" "Soil_GetData_Percent w =
    (soil_of_mean (fmean 5 w), w'\<lparr>valueSoil_Raw := f32_to_u16 (fmean 5 w), percentSoil := soil_of_mean (fmean 5 w)\<rparr>)"
proof -
  obtain t w' where r: "adc_fsum 10 Soil_ADC_Read (f32_of_int 0) w = (t, w')" by fastforce
  note m = fmean_result [OF r [unfolded Soil_ADC_Read_def, symmetric]]
  show ?thesis by (rule that [OF m(2)]) (simp only: Soil_GetData_Percent_def r Let_def split m, simp)
qed

text \<open>The mean of ten 16-bit values is in the range of one.\<close>

lemma mean_in: "f32_in 0 65535 (fmean ch w)"
proof -
  have "(of_nat (sum_of (samples 10 ch w)) :: rat) \<le> of_nat (10 * 65535)"
    using sum_of_bound [of "samples 10 ch w"] by (subst of_nat_le_iff) simp
  then show ?thesis unfolding fmean_def by (intro f32_in_round) (auto simp: f32_rep_numeral)
qed

lemma percent_range: "f32_in 0 100 (percentSoil (snd (Soil_GetData_Percent w)))"
  using soil_of_mean_range [OF mean_in [of 5 w]] by (rule_tac w = w in Soil_reading) simp

lemma soil_percent_near:
  assumes "\<forall>v\<in>set (samples 10 5 w). v \<le> 4095"
  shows "\<exists>p. soil_of_mean (fmean 5 w) = Fin p \<and> 0 \<le> p \<and> p \<le> 100 \<and>
    \<bar>p - 100 * (40950 - of_nat (sum_of (samples 10 5 w))) / 40950\<bar> \<le> 1 / 10000"
proof -
  define q :: rat where "q = of_nat (sum_of (samples 10 5 w)) / 10"
  have "sum_of (samples 10 5 w) \<le> 10 * 4095"
    using sum_of_le [of "samples 10 5 w" 4095] assms by (auto simp: word_le_nat_alt)
  then have "(of_nat (sum_of (samples 10 5 w)) :: rat) \<le> of_nat (10 * 4095)"
    by (simp only: of_nat_le_iff)
  then have "0 \<le> q" "q \<le> 4095" by (simp_all add: q_def)
  then obtain p where p: "soil_of_mean (f32_round q) = Fin p" "0 \<le> p" "p \<le> 100"
    "\<bar>p - 100 * (4095 - q) / 4095\<bar> \<le> 1 / 10000" by (rule soil_of_mean_accurate)
  have m: "fmean 5 w = f32_round q" by (simp add: fmean_def q_def)
  have e: "100 * (4095 - q) / 4095 = 100 * (40950 - of_nat (sum_of (samples 10 5 w))) / 40950" by (simp add: q_def)
  show ?thesis using p(1-3) p(4) [unfolded e] by (auto simp: m)
qed

text \<open>
  C30 (functional). With the samples of a twelve bit converter the soil moisture reported is within
  a ten thousandth of a percent point of the straight line from 100 percent at the value 0 to 0
  percent at 4095, through the ten float additions and the four roundings of the code, never
  leaves 0 to 100, and is what the rest of the program reads as \<open>percentSoil\<close>.
\<close>

theorem soil_percent_accurate:
  assumes "\<forall>v\<in>set (samples 10 5 w). v \<le> 4095"
  shows "\<exists>p w'. Soil_GetData_Percent w = (Fin p, w') \<and> percentSoil w' = Fin p \<and> 0 \<le> p \<and> p \<le> 100 \<and>
    \<bar>p - 100 * (40950 - of_nat (sum_of (samples 10 5 w))) / 40950\<bar> \<le> 1 / 10000"
proof -
  obtain w' where "Soil_GetData_Percent w = (soil_of_mean (fmean 5 w),
      w'\<lparr>valueSoil_Raw := f32_to_u16 (fmean 5 w), percentSoil := soil_of_mean (fmean 5 w)\<rparr>)"
    by (rule Soil_reading)
  then show ?thesis using soil_percent_near [OF assms] by auto
qed

theorem soil_percent_accurate_witness:
  fixes w defines "w \<equiv> sensors0\<lparr>adc_in := (\<lambda>_ k. if k < 5 then 1000 else 2000)\<rparr>"
  shows "\<exists>p w'. Soil_GetData_Percent w = (Fin p, w') \<and> percentSoil w' = Fin p \<and> 0 \<le> p \<and> p \<le> 100 \<and>
    \<bar>p - 100 * (40950 - 15000) / 40950\<bar> \<le> 1 / 10000"
proof -
  have s: "samples 10 5 w = [1000, 1000, 1000, 1000, 1000, 2000, 2000, 2000, 2000, 2000]"
    unfolding samples_def w_def by (simp add: upt_rec sensors0_def sensors_fields0_def sensors.defs sport.extend_def)
  show ?thesis using soil_percent_accurate [of w] unfolding s by (simp add: sum_of_def)
qed

subsection \<open>The soil alarm\<close>

text \<open>The alarm follows the bands of the plant; exactly on the lower threshold it is left as it was.\<close>

lemma soil_thresholds_cases:
  obtains lo hi where "soil_thresholds p = (Fin lo, Fin hi)" "lo < hi" "f32_rep lo" "f32_rep hi" "0 < lo"
    "hi \<le> 75"
  by (rule that [of "if p = 2 then 25 else if p = 3 then 40 else 5" "if p = 2 then 40 else if p = 3 then 75 else 25"])
    (auto simp: soil_thresholds_def plant_types f32_round_rep)

lemma Soil_alarm_bands:
  assumes "soil_thresholds (Soil_PlantType w) = (Fin lo, Fin hi)" "lo < hi" "percentSoil w = Fin p"
  shows "p < lo \<Longrightarrow> Soil_AlarmFlag (Soil_UpdateAlarmFlag w) = 1"
    "lo < p \<Longrightarrow> p < hi \<Longrightarrow> Soil_AlarmFlag (Soil_UpdateAlarmFlag w) = 2"
    "hi \<le> p \<Longrightarrow> Soil_AlarmFlag (Soil_UpdateAlarmFlag w) = 0"
    "p = lo \<Longrightarrow> Soil_UpdateAlarmFlag w = w"
  using assms by (simp_all add: Soil_UpdateAlarmFlag_def)

lemma Soil_UpdateAlarmFlag_frame:
  obtains a where "Soil_UpdateAlarmFlag w = w\<lparr>Soil_AlarmFlag := a\<rparr>"
proof -
  have "Soil_UpdateAlarmFlag w = w\<lparr>Soil_AlarmFlag := Soil_AlarmFlag (Soil_UpdateAlarmFlag w)\<rparr>"
    by (simp add: Soil_UpdateAlarmFlag_def Let_def split: prod.split)
  then show ?thesis by (rule that)
qed

lemma Soil_UpdateAlarmFlag_idem: "Soil_UpdateAlarmFlag (Soil_UpdateAlarmFlag w) = Soil_UpdateAlarmFlag w"
  by (simp add: Soil_UpdateAlarmFlag_def Let_def split: prod.split)

subsection \<open>The gas sensors\<close>

text \<open>Whatever the library's power function returns, a concentration is between 0 and 999.\<close>

definition ppm_ok :: "f32 \<Rightarrow> bool" where
  "ppm_ok x \<longleftrightarrow> fle (Fin 0) x \<and> fle x (Fin 999)"

lemma ppm_ok_Fin: "ppm_ok x \<Longrightarrow> \<exists>v. x = Fin v \<and> 0 \<le> v \<and> v \<le> 999"
  by (cases x) (auto simp: ppm_ok_def)

lemma ppm_ok_simps [simp]: "ppm_ok (Fin 0)" "ppm_ok (Fin 999)"
  by (simp_all add: ppm_ok_def)

lemma ppm_ok_inner: "fge p (Fin 0) \<Longrightarrow> \<not> fgt p (Fin 999) \<Longrightarrow> ppm_ok p"
  by (cases p) (auto simp: ppm_ok_def split: if_splits)

lemma MQ2_CalcPPM_range: "ppm_ok (MQ2_CalcPPM_FromRaw powf raw)"
  by (simp add: MQ2_CalcPPM_FromRaw_def Let_def f32_round_rep ppm_ok_inner)

lemma ppm135_range: "ppm_ok (ppm135_of_mean powf t)"
  by (simp add: ppm135_of_mean_def Let_def f32_round_rep ppm_ok_inner)

lemma MQ2_CalcPPM_full_scale: "4095 \<le> raw \<Longrightarrow> MQ2_CalcPPM_FromRaw powf raw = Fin 0"
  by (simp add: MQ2_CalcPPM_FromRaw_def)

lemma MQ2_CalcPPM_bottom:
  assumes "raw \<le> 12" shows "MQ2_CalcPPM_FromRaw powf raw = Fin 999"
proof -
  have r: "uint raw \<le> 12" using assms by (simp add: word_le_def)
  have dy: "f32_rep (53 / 16)" "f32_rep (159 / 4)" "f32_rep (159 / 16384)"
    using f32_rep_dyadic [of _ 53 "-4"] f32_rep_dyadic [of _ 159 "-2"] f32_rep_dyadic [of _ 159 "-14"]
    by (simp_all add: pow2_def)
  have "f32_in 0 12 (f32_of_int (uint raw))"
    using f32_in_of_int [of "uint raw" 12] r by simp
  moreover have "f32_in 0 (53 / 16) (flit (33 / 10))"
    using dy by (intro f32_in_round) auto
  ultimately have "f32_mag (159 / 4) (fmul (f32_of_int (uint raw)) (flit (33 / 10)))"
    by (intro fmul_mag [of 12 _ "53 / 16"]) (use dy in \<open>auto elim: f32_in_mono\<close>)
  then have v: "f32_mag (159 / 16384) (fdiv (fmul (f32_of_int (uint raw)) (flit (33 / 10))) (flit 4096))"
    by (rule fdiv_in [of _ _ _ 4096 4096]) (use dy in \<open>auto simp: f32_round_rep\<close>)
  have "f32_in (159 / 16384) 1 (flit (1 / 100))"
    using dy by (intro f32_in_round) auto
  with v have "fle (fdiv (fmul (f32_of_int (uint raw)) (flit (33 / 10))) (flit 4096)) (flit (1 / 100))"
    by (auto elim!: f32_inE)
  moreover have "\<not> 4095 \<le> raw" using assms by (simp add: word_le_nat_alt)
  ultimately show ?thesis by (simp add: MQ2_CalcPPM_FromRaw_def Let_def f32_round_rep)
qed

lemma MQ2_reading:
  obtains m w' where "adc_moved w w'" "unat m = sum_of (samples 10 0 w) div 10"
    "MQ2_GetData_PPM powf w =
      (MQ2_CalcPPM_FromRaw powf m, w'\<lparr>MQ2value := m, MQ2ppm := MQ2_CalcPPM_FromRaw powf m\<rparr>)"
proof -
  obtain t w' where r: "adc_sum 10 MQ2_ADC_Read 0 w = (t, w')" by fastforce
  note m = mean_result [OF r [unfolded MQ2_ADC_Read_def, symmetric]]
  show ?thesis
    by (rule that [OF m(2,1)]) (simp add: MQ2_GetData_PPM_def MQ2_GetData_def r Let_def)
qed

lemma MQ135_reading:
  obtains w' where "adc_moved w w'" "MQ135_GetData_PPM powf w =
    (ppm135_of_mean powf (fmean 2 w),
     w'\<lparr>value135 := f32_to_u16 (fmean 2 w), ppm135 := ppm135_of_mean powf (fmean 2 w)\<rparr>)"
proof -
  obtain t w' where r: "adc_fsum 10 MQ135_ADC_Read (f32_of_int 0) w = (t, w')" by fastforce
  note m = fmean_result [OF r [unfolded MQ135_ADC_Read_def, symmetric]]
  show ?thesis by (rule that [OF m(2)]) (simp only: MQ135_GetData_PPM_def r Let_def split m, simp)
qed

text \<open>
  C31 (bounds). Whatever the library's power function returns, NaN and infinities included, one
  round of the smoke sensor leaves a concentration between 0 and 999 and the alarm on exactly from
  3 ppm. A converter at full scale, mean 4095, is read as clean air with the alarm off, and one
  with almost no voltage, mean at most 12, as the maximum with the alarm on.
\<close>

theorem MQ2_round:
  assumes "m = sum_of (samples 10 0 w) div 10"
    and "w' = MQ2_UpdateAlarmFlag (snd (MQ2_GetData_PPM powf w))"
  shows "\<exists>p. MQ2ppm w' = Fin p \<and> 0 \<le> p \<and> p \<le> 999 \<and>
    MQ2_AlarmFlag w' = (if 3 \<le> p then 1 else 0) \<and>
    (4095 \<le> m \<longrightarrow> p = 0) \<and> (m \<le> 12 \<longrightarrow> p = 999)"
proof -
  obtain r v where r: "unat r = m"
    and v: "snd (MQ2_GetData_PPM powf w) = v" "MQ2ppm v = MQ2_CalcPPM_FromRaw powf r"
    by (rule MQ2_reading [of w powf]) (auto simp: assms(1))
  obtain p where p: "MQ2_CalcPPM_FromRaw powf r = Fin p" "0 \<le> p" "p \<le> 999"
    using ppm_ok_Fin [OF MQ2_CalcPPM_range] by blast
  have "4095 \<le> m \<longrightarrow> p = 0" "m \<le> 12 \<longrightarrow> p = 999"
    using MQ2_CalcPPM_full_scale [of r powf] MQ2_CalcPPM_bottom [of r powf] p(1) r
    by (auto simp: word_le_nat_alt)
  then show ?thesis using p v by (auto simp: assms(2) MQ2_UpdateAlarmFlag_def f32_round_rep)
qed

theorem MQ2_round_witness:
  fixes w defines "w \<equiv> sensors0\<lparr>adc_in := (\<lambda>_ _. 4095)\<rparr>"
  shows "MQ2_AlarmFlag (MQ2_UpdateAlarmFlag (snd (MQ2_GetData_PPM fmul w))) = 0"
proof -
  have s: "samples 10 0 w = [4095, 4095, 4095, 4095, 4095, 4095, 4095, 4095, 4095, 4095]"
    unfolding samples_def w_def by (simp add: upt_rec sensors0_def sensors_fields0_def sensors.defs sport.extend_def)
  show ?thesis using MQ2_round [OF refl refl, of fmul w] unfolding s by (auto simp: sum_of_def)
qed

text \<open>The alarm updates change their flag only.\<close>

lemma gas_alarm_frames:
  "MQ2_UpdateAlarmFlag w = w\<lparr>MQ2_AlarmFlag := if fge (MQ2ppm w) (Fin 3) then 1 else 0\<rparr>"
  "MQ135_UpdateAlarmFlag w = w\<lparr>MQ135_AlarmFlag := if fge (ppm135 w) (Fin 10) then 1 else 0\<rparr>"
  by (simp_all add: MQ2_UpdateAlarmFlag_def MQ135_UpdateAlarmFlag_def f32_round_rep)

end
