(* ===== verification/Actuators.thy ===== *)
theory Actuators
  imports Sensors
begin

text \<open>
  The outputs beside the wheels: the grow light on TIM1 (\<^verbatim>\<open>Software/PWM.c\<close>), the relay of the water
  pump (\<^verbatim>\<open>Software/water.c\<close>) and the buzzer with its thread (\<^verbatim>\<open>Software/buzzer.c\<close>).

  A thread that sleeps in \<^verbatim>\<open>rt_thread_mdelay\<close> leaves the pins as they are meanwhile; \<open>sleeps\<close> records
  for each sleep the output registers held and the milliseconds.
\<close>

record actuators = sensors +
  led_pwm_inited :: bool
  led_i :: u16
  buzzer_thread :: "string option"
  sleeps :: "((gpio_port \<Rightarrow> u16) \<times> nat) list"

definition actuators_fields0 where
  "actuators_fields0 = actuators.fields False 0 None []"

definition actuators0 :: actuators where
  "actuators0 = sensors.extend sensors0 actuators_fields0"

definition rt_thread_mdelay :: "nat \<Rightarrow> 'a actuators_scheme \<Rightarrow> 'a actuators_scheme" where
  "rt_thread_mdelay ms w = w\<lparr>sleeps := sleeps w @ [(ODR w, ms)]\<rparr>"

subsection \<open>The grow light\<close>

definition LED_PWM_Init :: "'a actuators_scheme \<Rightarrow> 'a actuators_scheme" where
  "LED_PWM_Init w = (hal_calls
     [RCC_TIM_ENABLE TIM1, RCC_GPIO_ENABLE GPIOE,
      GPIO_Init GPIOE (GPIO_PIN 13) AF_PP PULLUP SPEED_HIGH (Some 1),
      TIM_PWM_Init TIM1 (720 - 1) (100 - 1),
      TIM_PWM_ConfigChannel TIM1 3 0, TIM_PWM_Start TIM1 3] w)\<lparr>led_pwm_inited := True\<rparr>"

definition PWM_SetCompare3 :: "u16 \<Rightarrow> 'a actuators_scheme \<Rightarrow> 'a actuators_scheme" where
  "PWM_SetCompare3 Compare w = (let w = (if led_pwm_inited w then w else LED_PWM_Init w)
     in HAL_TIM_SET_COMPARE TIM1 3 Compare w)"

definition LED_Toggle :: "'a actuators_scheme \<Rightarrow> 'a actuators_scheme" where
  "LED_Toggle w = HAL_GPIO_TogglePin GPIOE (GPIO_PIN 13) w"

definition LED_PWM :: "u16 \<Rightarrow> 'a actuators_scheme \<Rightarrow> 'a actuators_scheme" where
  "LED_PWM target_pwm w = (let
     target_pwm = (if 100 < target_pwm then 100 else target_pwm);
     w = (if led_i w < target_pwm then w\<lparr>led_i := led_i w + 1\<rparr>
          else if target_pwm < led_i w then w\<lparr>led_i := led_i w - 1\<rparr> else w)
   in PWM_SetCompare3 (led_i w) w)"

definition LightContral :: "u8 \<Rightarrow> 'a actuators_scheme \<Rightarrow> 'a actuators_scheme" where
  "LightContral contral_flag w =
    (if contral_flag \<noteq> 0 then
       if Soil_PlantType w = UART4_MODE_SHADE then LED_PWM 50 w
       else if Soil_PlantType w = UART4_MODE_HALF_SHADE then LED_PWM 75 w
       else if Soil_PlantType w = UART4_MODE_SUN then LED_PWM 100 w
       else w
     else LED_PWM 0 w)"

subsection \<open>The pump\<close>

definition water_Init :: "'a hw_scheme \<Rightarrow> 'a hw_scheme" where
  "water_Init w = HAL_GPIO_WritePin GPIOD (GPIO_PIN 4) False (hal_calls
     [RCC_GPIO_ENABLE GPIOD, GPIO_Init GPIOD (GPIO_PIN 4) OUTPUT_PP PULLUP SPEED_HIGH None] w)"

definition water_Open :: "'a hw_scheme \<Rightarrow> 'a hw_scheme" where
  "water_Open w = HAL_GPIO_WritePin GPIOD (GPIO_PIN 4) True w"

definition water_close :: "'a hw_scheme \<Rightarrow> 'a hw_scheme" where
  "water_close w = HAL_GPIO_WritePin GPIOD (GPIO_PIN 4) False w"

definition water_auto :: "u8 \<Rightarrow> u8 \<Rightarrow> 'a hw_scheme \<Rightarrow> 'a hw_scheme" where
  "water_auto mode agree w = (let
     w = (if agree = 1 then let
            w = (if mode = 1 then water_Open w else w)
          in if mode = 0 \<or> mode = 2 then water_close w else w
        else w)
   in if agree = 0 then water_close w else w)"

subsection \<open>The buzzer\<close>

definition Buzzer_close :: "'a hw_scheme \<Rightarrow> 'a hw_scheme" where
  "Buzzer_close w = HAL_GPIO_WritePin GPIOB (GPIO_PIN 1) True w"

definition beep :: "'a actuators_scheme \<Rightarrow> 'a actuators_scheme" where
  "beep w = rt_thread_mdelay 50 (HAL_GPIO_WritePin GPIOB (GPIO_PIN 1) True
     (rt_thread_mdelay 50 (HAL_GPIO_WritePin GPIOB (GPIO_PIN 1) False w)))"

definition Buzzer_warm :: "u8 \<Rightarrow> 'a actuators_scheme \<Rightarrow> 'a actuators_scheme" where
  "Buzzer_warm n w = (beep ^^ unat n) w"

definition Buzzer_open :: "'a actuators_scheme \<Rightarrow> 'a actuators_scheme" where
  "Buzzer_open w =
    (if MQ2_AlarmFlag w \<noteq> 0 \<or> MQ135_AlarmFlag w \<noteq> 0 \<or> Soil_AlarmFlag w \<noteq> 0 \<or> DHT11_AlarmFlag w \<noteq> 0
     then Buzzer_warm 10 w else Buzzer_close w)"

text \<open>One turn of the thread's endless loop.\<close>

definition buzzer_alarm_entry :: "'a actuators_scheme \<Rightarrow> 'a actuators_scheme" where
  "buzzer_alarm_entry w = rt_thread_mdelay 100 (Buzzer_open w)"

definition Buzzer_Init :: "'a actuators_scheme \<Rightarrow> 'a actuators_scheme" where
  "Buzzer_Init w = (let
     w = hal_calls [RCC_GPIO_ENABLE GPIOB, GPIO_Init GPIOB (GPIO_PIN 1) OUTPUT_PP PULLUP SPEED_HIGH None] w;
     w = HAL_GPIO_WritePin GPIOB (GPIO_PIN 1) True w
   in case buzzer_thread w of Some t \<Rightarrow> w
    | None \<Rightarrow> (let t = rt_thread_create (rtos w) ''buzzer''; w = w\<lparr>buzzer_thread := t\<rparr> in
        case t of None \<Rightarrow> w | Some n \<Rightarrow> w\<lparr>rtos := rt_thread_startup n (rtos w)\<rparr>))"

subsection \<open>Facts\<close>

lemma LED_PWM_Init_frame:
  obtains c l where "LED_PWM_Init w = w\<lparr>CCR := c, hal_log := l, led_pwm_inited := True\<rparr>"
proof -
  have "\<exists>c l. (hal_calls cs w)\<lparr>led_pwm_inited := True\<rparr> = w\<lparr>CCR := c, hal_log := l, led_pwm_inited := True\<rparr>" for cs
    by (rule hal_calls_frame [of cs w]) auto
  then have "\<exists>c l. LED_PWM_Init w = w\<lparr>CCR := c, hal_log := l, led_pwm_inited := True\<rparr>"
    unfolding LED_PWM_Init_def .
  then show ?thesis using that by (elim exE)
qed

lemma PWM_SetCompare3_frame:
  obtains c l where "PWM_SetCompare3 v w = w\<lparr>CCR := c((TIM1, 3) := v), hal_log := l, led_pwm_inited := True\<rparr>"
proof (cases "led_pwm_inited w")
  case True
  then have "PWM_SetCompare3 v w = w\<lparr>CCR := (CCR w)((TIM1, 3) := v), hal_log := hal_log w, led_pwm_inited := True\<rparr>"
    by (simp add: PWM_SetCompare3_def HAL_TIM_SET_COMPARE_def)
  then show ?thesis by (rule that)
next
  case False
  obtain c l where "LED_PWM_Init w = w\<lparr>CCR := c, hal_log := l, led_pwm_inited := True\<rparr>"
    by (rule LED_PWM_Init_frame)
  then have "PWM_SetCompare3 v w = w\<lparr>CCR := c((TIM1, 3) := v), hal_log := l, led_pwm_inited := True\<rparr>"
    using False by (simp add: PWM_SetCompare3_def HAL_TIM_SET_COMPARE_def)
  then show ?thesis by (rule that)
qed

text \<open>One step of the light towards a target.\<close>

definition towards :: "nat \<Rightarrow> nat \<Rightarrow> nat" where
  "towards t i = (if i < t then i + 1 else if t < i then i - 1 else i)"

lemma towards_iterate: "(towards t ^^ n) i = (if i \<le> t then min (i + n) t else max (i - n) t)"
  by (induction n) (auto simp: towards_def)

lemma unat_step: "i < (t :: u16) \<Longrightarrow> unat (i + 1) = unat i + 1" "t < i \<Longrightarrow> unat (i - 1) = unat i - 1"
proof -
  assume "i < t"
  then have "unat i < 65535" using unat_u16_lt [of t] unfolding word_less_nat_alt by linarith
  then show "unat (i + 1) = unat i + 1" by (simp add: unat_word_ariths)
next
  assume "t < i"
  then show "unat (i - 1) = unat i - 1" by (intro unat_minus_one) auto
qed

lemma LED_PWM_step:
  "unat (led_i (LED_PWM t w)) = towards (min (unat t) 100) (unat (led_i w)) \<and>
   CCR (LED_PWM t w) (TIM1, 3) = led_i (LED_PWM t w) \<and> Soil_PlantType (LED_PWM t w) = Soil_PlantType w"
proof -
  define t' where "t' = (if 100 < t then 100 else t)"
  define v where "v = (if led_i w < t' then w\<lparr>led_i := led_i w + 1\<rparr>
          else if t' < led_i w then w\<lparr>led_i := led_i w - 1\<rparr> else w)"
  have e: "LED_PWM t w = PWM_SetCompare3 (led_i v) v" by (simp add: LED_PWM_def v_def t'_def Let_def)
  have t: "unat t' = min (unat t) 100" by (auto simp: t'_def word_less_nat_alt)
  have "unat (led_i v) = towards (unat t') (unat (led_i w))" "Soil_PlantType v = Soil_PlantType w"
    by (auto simp: v_def towards_def unat_step word_less_nat_alt [symmetric])
  then show ?thesis unfolding e t by (rule_tac w = v and v = "led_i v" in PWM_SetCompare3_frame) simp
qed

text \<open>The level the light control works towards.\<close>

definition light_level :: "u8 \<Rightarrow> u8 \<Rightarrow> nat option" where
  "light_level flag plant = (if flag = 0 then Some 0 else if plant = 1 then Some 50
     else if plant = 2 then Some 75 else if plant = 3 then Some 100 else None)"

lemma LightContral_step:
  assumes "light_level flag (Soil_PlantType w) = Some L"
  shows "unat (led_i (LightContral flag w)) = towards L (unat (led_i w))"
    "CCR (LightContral flag w) (TIM1, 3) = led_i (LightContral flag w)"
    "Soil_PlantType (LightContral flag w) = Soil_PlantType w"
proof -
  obtain t where "LightContral flag w = LED_PWM t w" "min (unat t) 100 = L"
    using assms by (auto simp: LightContral_def light_level_def plant_types split: if_splits)
  then show "unat (led_i (LightContral flag w)) = towards L (unat (led_i w))"
    "CCR (LightContral flag w) (TIM1, 3) = led_i (LightContral flag w)"
    "Soil_PlantType (LightContral flag w) = Soil_PlantType w"
    using LED_PWM_step [of t w] by auto
qed

lemma LightContral_iterate:
  assumes "light_level flag (Soil_PlantType w) = Some L"
  shows "unat (led_i ((LightContral flag ^^ n) w)) = (towards L ^^ n) (unat (led_i w)) \<and>
    Soil_PlantType ((LightContral flag ^^ n) w) = Soil_PlantType w"
proof (induction n)
  case (Suc n)
  have "light_level flag (Soil_PlantType ((LightContral flag ^^ n) w)) = Some L" using Suc assms by simp
  from LightContral_step [OF this] Suc show ?case by simp
qed simp

text \<open>
  C32 (liveness). The grow light follows its level one percent per tick: after \<open>n + 1\<close> ticks the duty
  register of the timer is the old level moved by \<open>n + 1\<close> towards 0 when the light is off and
  towards 50, 75 or 100 for a shade, half shade or sun plant when it is on, and once there it
  stays. From any level up to 100 a hundred ticks, one second, are enough.
\<close>

theorem light_reaches_level:
  assumes "light_level flag (Soil_PlantType w) = Some L" "i = unat (led_i w)" "i \<le> 100"
  shows "unat (CCR ((LightContral flag ^^ Suc n) w) (TIM1, 3)) =
      (if i \<le> L then min (i + Suc n) L else max (i - Suc n) L) \<and>
    (100 \<le> Suc n \<longrightarrow> unat (CCR ((LightContral flag ^^ Suc n) w) (TIM1, 3)) = L)"
proof -
  let ?w = "(LightContral flag ^^ n) w"
  have L: "L \<le> 100" using assms(1) by (auto simp: light_level_def split: if_splits)
  have "light_level flag (Soil_PlantType ?w) = Some L" using LightContral_iterate [OF assms(1), of n] assms(1) by simp
  from LightContral_step [OF this] LightContral_iterate [OF assms(1), of "Suc n"]
  have "unat (CCR ((LightContral flag ^^ Suc n) w) (TIM1, 3)) = (towards L ^^ Suc n) i"
    by (simp add: assms(2))
  then show ?thesis using L assms(3) unfolding towards_iterate by auto
qed

theorem light_reaches_level_witness:
  "unat (CCR ((LightContral 1 ^^ Suc 30) (actuators0\<lparr>Soil_PlantType := 1, led_i := 90\<rparr>)) (TIM1, 3)) = 59"
  using light_reaches_level [of 1 "actuators0\<lparr>Soil_PlantType := 1, led_i := 90\<rparr>" 50 90 30]
  by (simp add: light_level_def del: funpow.simps)

subsection \<open>Pump and buzzer\<close>

lemma water_auto_pin [hw_simps]:
  "n < 16 \<Longrightarrow> pin_high (water_auto mode agree w) p n =
    (if p = GPIOD \<and> n = 4
     then if agree = 1 \<and> mode = 1 then True
       else if agree = 0 \<or> agree = 1 \<and> (mode = 0 \<or> mode = 2) then False else pin_high w p n
     else pin_high w p n)"
  by (auto simp: water_auto_def water_Open_def water_close_def Let_def hw_simps)

lemma water_auto_frame:
  obtains r where "water_auto mode agree w = w\<lparr>ODR := r\<rparr>"
proof -
  have "water_auto mode agree w = w\<lparr>ODR := ODR (water_auto mode agree w)\<rparr>"
    by (simp add: water_auto_def water_Open_def water_close_def HAL_GPIO_WritePin_def Let_def)
  then show ?thesis by (rule that)
qed

text \<open>What the buzzer's pin did during the sleeps: True is the silent level.\<close>

definition heard :: "((gpio_port \<Rightarrow> u16) \<times> nat) list \<Rightarrow> (bool \<times> nat) list" where
  "heard = map (\<lambda>(r, ms). (bit (r GPIOB) 1, ms))"

lemma heard_simps [simp]: "heard [] = []" "heard (xs @ ys) = heard xs @ heard ys"
  "heard [(ODR w, ms)] = [(pin_high w GPIOB 1, ms)]"
  by (simp_all add: heard_def pin_high_def)

lemma pin_high_sleeps [simp]: "pin_high (w\<lparr>sleeps := s\<rparr>) p n = pin_high w p n"
  by (simp add: pin_high_def)

lemma mdelay_heard [simp]:
  "heard (sleeps (rt_thread_mdelay ms w)) = heard (sleeps w) @ [(pin_high w GPIOB 1, ms)]"
  "pin_high (rt_thread_mdelay ms w) p n = pin_high w p n"
  by (simp_all add: rt_thread_mdelay_def)

lemma sleeps_write [simp]: "sleeps (HAL_GPIO_WritePin p m s w) = sleeps w"
  by (simp add: HAL_GPIO_WritePin_def)

lemma beep_heard:
  "heard (sleeps (beep w)) = heard (sleeps w) @ [(False, 50), (True, 50)]"
  "pin_high (beep w) GPIOB 1" "n < 16 \<Longrightarrow> (p, n) \<noteq> (GPIOB, 1) \<Longrightarrow> pin_high (beep w) p n = pin_high w p n"
  by (auto simp: beep_def hw_simps)

lemma beeps_heard:
  "heard (sleeps ((beep ^^ k) w)) = heard (sleeps w) @ concat (replicate k [(False, 50), (True, 50)]) \<and>
    (0 < k \<longrightarrow> pin_high ((beep ^^ k) w) GPIOB 1) \<and>
    (\<forall>p n. n < 16 \<longrightarrow> (p, n) \<noteq> (GPIOB, 1) \<longrightarrow> pin_high ((beep ^^ k) w) p n = pin_high w p n)"
proof (induction k arbitrary: w)
  case (Suc k)
  have k: "(beep ^^ Suc k) w = (beep ^^ k) (beep w)" by (simp add: funpow_swap1)
  show ?case unfolding k using Suc [of "beep w"] beep_heard(1,2) [of w] beep_heard(3) [where w = w] by (cases "k = 0") auto
qed simp

text \<open>
  C33 (functional). One turn of the buzzer thread is ten beeps of fifty milliseconds with fifty of
  silence after each when any of the four alarm flags is up, silence otherwise, and then a tenth of
  a second of silence; no other pin changes.
\<close>

theorem buzzer_turn:
  "heard (sleeps (buzzer_alarm_entry w)) = heard (sleeps w) @
     (if MQ2_AlarmFlag w = 0 \<and> MQ135_AlarmFlag w = 0 \<and> Soil_AlarmFlag w = 0 \<and> DHT11_AlarmFlag w = 0 then []
      else concat (replicate 10 [(False, 50), (True, 50)])) @ [(True, 100)] \<and>
   {(p, n). n < 16 \<and> pin_high (buzzer_alarm_entry w) p n \<noteq> pin_high w p n} \<subseteq> {(GPIOB, 1)}"
proof -
  have u: "unat (10 :: u8) = 10" by simp
  show ?thesis
  proof (cases "MQ2_AlarmFlag w = 0 \<and> MQ135_AlarmFlag w = 0 \<and> Soil_AlarmFlag w = 0 \<and> DHT11_AlarmFlag w = 0")
    case True
    then show ?thesis by (auto simp: buzzer_alarm_entry_def Buzzer_open_def Buzzer_close_def hw_simps split: if_splits)
  next
    case False
    then have "buzzer_alarm_entry w = rt_thread_mdelay 100 ((beep ^^ 10) w)"
      by (auto simp: buzzer_alarm_entry_def Buzzer_open_def Buzzer_warm_def u)
    then show ?thesis using False beeps_heard [of 10 w] by auto
  qed
qed

end
