(* ===== verification/Dht11.thy ===== *)
theory Dht11
  imports Actuators
begin

text \<open>
  The temperature and humidity sensor (\<^verbatim>\<open>Software/DH11.c\<close>): a task run every ten milliseconds starts a
  transaction and takes its result, and the interrupt on both edges of the data line, PB5, measures
  the high phases of the line with the cycle counter and collects forty bits.

  The task and the interrupt are the two kinds of event; each is one step. The level of the line
  and the cycle counter at an interrupt are whatever the outside world makes them.
\<close>

datatype dht11_state_t = DHT11_STATE_POWERUP_WAIT | DHT11_STATE_IDLE | DHT11_STATE_START_LOW | DHT11_STATE_WAIT_FRAME

datatype dht11_capture_state_t = DHT11_CAPTURE_WAIT_RESP_FALL | DHT11_CAPTURE_WAIT_RESP_RISE
  | DHT11_CAPTURE_WAIT_FIRST_DATA_FALL | DHT11_CAPTURE_WAIT_BIT_RISE | DHT11_CAPTURE_WAIT_BIT_FALL

definition DHT11_POWERUP_WAIT_TICKS :: u16 where "DHT11_POWERUP_WAIT_TICKS = 100"
definition DHT11_START_LOW_TICKS :: u16 where "DHT11_START_LOW_TICKS = 2"
definition DHT11_SAMPLE_INTERVAL_TICKS :: u16 where "DHT11_SAMPLE_INTERVAL_TICKS = 100"
definition DHT11_FRAME_TIMEOUT_TICKS :: u16 where "DHT11_FRAME_TIMEOUT_TICKS = 2"
definition DHT11_BIT_HIGH_THRESHOLD_US :: u32 where "DHT11_BIT_HIGH_THRESHOLD_US = 50"
definition DHT11_GPIO_PIN :: u16 where "DHT11_GPIO_PIN = GPIO_PIN 5"

lemmas dht_consts = DHT11_POWERUP_WAIT_TICKS_def DHT11_START_LOW_TICKS_def DHT11_SAMPLE_INTERVAL_TICKS_def
  DHT11_FRAME_TIMEOUT_TICKS_def DHT11_BIT_HIGH_THRESHOLD_US_def

record dht = actuators +
  IDR :: "gpio_port \<Rightarrow> u16"
  EXTI_IMR :: u32
  EXTI_PR :: u32
  DEMCR :: u32
  CYCCNT :: u32
  DWT_CTRL :: u32
  s_dht11_state :: dht11_state_t
  s_capture_state :: dht11_capture_state_t
  s_state_ticks :: u16
  s_frame_bytes :: bytes
  s_bit_index :: u8
  s_frame_done :: u8
  s_frame_error :: u8
  s_transaction_active :: u8
  s_high_start_cycle :: u32
  s_cycles_per_us :: u32
  s_temperature_c :: f32
  s_humidity_rh :: f32
  s_has_valid_data :: u8

definition dht_fields0 where
  "dht_fields0 = dht.fields (\<lambda>_. 0) 0 0 0 0 0 DHT11_STATE_POWERUP_WAIT DHT11_CAPTURE_WAIT_RESP_FALL
     DHT11_POWERUP_WAIT_TICKS [0, 0, 0, 0, 0] 0 0 0 0 0 0 (Fin 0) (Fin 0) 0"

definition dht0 :: dht where
  "dht0 = actuators.extend actuators0 dht_fields0"

definition HAL_GPIO_ReadPin :: "gpio_port \<Rightarrow> u16 \<Rightarrow> 'a dht_scheme \<Rightarrow> bool" where
  "HAL_GPIO_ReadPin p m w = (IDR w p AND m \<noteq> 0)"

subsection \<open>The line and the interrupt\<close>

definition DHT11_Set_Output :: "'a dht_scheme \<Rightarrow> 'a dht_scheme" where
  "DHT11_Set_Output w = hal (GPIO_Init GPIOB DHT11_GPIO_PIN OUTPUT_OD PULLUP SPEED_HIGH None) w"

definition DHT11_Set_Input :: "'a dht_scheme \<Rightarrow> 'a dht_scheme" where
  "DHT11_Set_Input w = hal (GPIO_Init GPIOB DHT11_GPIO_PIN IT_RISING_FALLING PULLUP SPEED_HIGH None) w"

definition DHT11_Line_High :: "'a dht_scheme \<Rightarrow> 'a dht_scheme" where
  "DHT11_Line_High w = HAL_GPIO_WritePin GPIOB DHT11_GPIO_PIN True w"

definition DHT11_Line_Low :: "'a dht_scheme \<Rightarrow> 'a dht_scheme" where
  "DHT11_Line_Low w = HAL_GPIO_WritePin GPIOB DHT11_GPIO_PIN False w"

definition DHT11_Read_IO :: "'a dht_scheme \<Rightarrow> u8" where
  "DHT11_Read_IO w = u8_of_bool (HAL_GPIO_ReadPin GPIOB DHT11_GPIO_PIN w)"

definition DHT11_DWT_Init :: "u32 \<Rightarrow> 'a dht_scheme \<Rightarrow> 'a dht_scheme" where
  "DHT11_DWT_Init SystemCoreClock w = (let
     w = w\<lparr>DEMCR := DEMCR w OR 0x01000000\<rparr>;
     w = w\<lparr>CYCCNT := 0\<rparr>;
     w = w\<lparr>DWT_CTRL := DWT_CTRL w OR 1\<rparr>;
     w = w\<lparr>s_cycles_per_us := SystemCoreClock div 1000000\<rparr>
   in if s_cycles_per_us w = 0 then w\<lparr>s_cycles_per_us := 1\<rparr> else w)"

definition DHT11_ElapsedUs :: "u32 \<Rightarrow> u32 \<Rightarrow> 'a dht_scheme \<Rightarrow> u32" where
  "DHT11_ElapsedUs start_cycle end_cycle w = (end_cycle - start_cycle) div s_cycles_per_us w"

text \<open>Writing 1 to a pending bit clears it.\<close>

definition DHT11_EXTI_Enable :: "bool \<Rightarrow> 'a dht_scheme \<Rightarrow> 'a dht_scheme" where
  "DHT11_EXTI_Enable state w =
    (if state then let w = w\<lparr>EXTI_PR := EXTI_PR w AND NOT (ucast DHT11_GPIO_PIN)\<rparr>
       in w\<lparr>EXTI_IMR := EXTI_IMR w OR ucast DHT11_GPIO_PIN\<rparr>
     else let w = w\<lparr>EXTI_IMR := EXTI_IMR w AND NOT (ucast DHT11_GPIO_PIN)\<rparr>
       in w\<lparr>EXTI_PR := EXTI_PR w AND NOT (ucast DHT11_GPIO_PIN)\<rparr>)"

definition DHT11_EXTI_Init :: "'a dht_scheme \<Rightarrow> 'a dht_scheme" where
  "DHT11_EXTI_Init w = DHT11_EXTI_Enable False (hal_calls [NVIC_SetPriority 23 1 1, NVIC_EnableIRQ 23] w)"

subsection \<open>The transaction\<close>

definition DHT11_Reset_Capture :: "'a dht_scheme \<Rightarrow> 'a dht_scheme" where
  "DHT11_Reset_Capture w = w\<lparr>s_capture_state := DHT11_CAPTURE_WAIT_RESP_FALL, s_frame_bytes := [0, 0, 0, 0, 0],
     s_bit_index := 0, s_frame_done := 0, s_frame_error := 0, s_high_start_cycle := 0\<rparr>"

definition DHT11_Enter_Idle :: "u16 \<Rightarrow> 'a dht_scheme \<Rightarrow> 'a dht_scheme" where
  "DHT11_Enter_Idle wait_ticks w = (let
     w = DHT11_EXTI_Enable False w;
     w = w\<lparr>s_transaction_active := 0\<rparr>;
     w = w\<lparr>s_dht11_state := DHT11_STATE_IDLE\<rparr>;
     w = w\<lparr>s_state_ticks := wait_ticks\<rparr>;
     w = DHT11_Set_Output w
   in DHT11_Line_High w)"

definition DHT11_Start_Request :: "'a dht_scheme \<Rightarrow> 'a dht_scheme" where
  "DHT11_Start_Request w = (let
     w = DHT11_Reset_Capture w;
     w = DHT11_Set_Output w;
     w = DHT11_Line_Low w;
     w = w\<lparr>s_dht11_state := DHT11_STATE_START_LOW\<rparr>
   in w\<lparr>s_state_ticks := DHT11_START_LOW_TICKS\<rparr>)"

definition DHT11_Release_And_Listen :: "'a dht_scheme \<Rightarrow> 'a dht_scheme" where
  "DHT11_Release_And_Listen w = (let
     w = DHT11_Line_High w;
     w = DHT11_Set_Input w;
     w = DHT11_Reset_Capture w;
     w = w\<lparr>s_transaction_active := 1\<rparr>;
     w = w\<lparr>s_dht11_state := DHT11_STATE_WAIT_FRAME\<rparr>;
     w = w\<lparr>s_state_ticks := DHT11_FRAME_TIMEOUT_TICKS\<rparr>
   in DHT11_EXTI_Enable True w)"

definition tenths :: "u8 \<Rightarrow> u8 \<Rightarrow> f32" where
  "tenths a b = fadd (f32_of_int (uint a)) (fmul (f32_of_int (uint b)) (flit (1 / 10)))"

definition DHT11_Process_Frame :: "'a dht_scheme \<Rightarrow> 'a dht_scheme" where
  "DHT11_Process_Frame w = (let
     b = s_frame_bytes w;
     checksum = b ! 0 + b ! 1 + b ! 2 + b ! 3;
     w = (if checksum = b ! 4
       then w\<lparr>DHT11_AlarmFlag := 0, s_temperature_c := tenths (b ! 2) (b ! 3),
              s_humidity_rh := tenths (b ! 0) (b ! 1), s_has_valid_data := 1\<rparr>
       else w)
   in DHT11_Enter_Idle DHT11_SAMPLE_INTERVAL_TICKS w)"

definition DHT11_Handle_Failed_Frame :: "'a dht_scheme \<Rightarrow> 'a dht_scheme" where
  "DHT11_Handle_Failed_Frame w = DHT11_Enter_Idle DHT11_SAMPLE_INTERVAL_TICKS (w\<lparr>DHT11_AlarmFlag := 0\<rparr>)"

definition DHT11_Init :: "u32 \<Rightarrow> 'a dht_scheme \<Rightarrow> 'a dht_scheme" where
  "DHT11_Init SystemCoreClock w = (let
     w = hal_calls [RCC_GPIO_ENABLE GPIOB, RCC_SYSCFG_ENABLE] w;
     w = DHT11_DWT_Init SystemCoreClock w;
     w = DHT11_EXTI_Init w;
     w = DHT11_Set_Output w;
     w = DHT11_Line_High w
   in w\<lparr>DHT11_AlarmFlag := 0, s_dht11_state := DHT11_STATE_POWERUP_WAIT,
        s_state_ticks := DHT11_POWERUP_WAIT_TICKS, s_frame_done := 0, s_frame_error := 0,
        s_transaction_active := 0, s_temperature_c := Fin 0, s_humidity_rh := Fin 0, s_has_valid_data := 0\<rparr>)"

definition DHT11_Task10ms :: "'a dht_scheme \<Rightarrow> 'a dht_scheme" where
  "DHT11_Task10ms w =
    (if s_frame_done w \<noteq> 0 then DHT11_Process_Frame (w\<lparr>s_frame_done := 0\<rparr>)
     else if s_frame_error w \<noteq> 0 then DHT11_Handle_Failed_Frame (w\<lparr>s_frame_error := 0\<rparr>)
     else case s_dht11_state w of
       DHT11_STATE_POWERUP_WAIT \<Rightarrow>
         if 0 < s_state_ticks w then w\<lparr>s_state_ticks := s_state_ticks w - 1\<rparr> else DHT11_Start_Request w
     | DHT11_STATE_IDLE \<Rightarrow>
         if 0 < s_state_ticks w then w\<lparr>s_state_ticks := s_state_ticks w - 1\<rparr> else DHT11_Start_Request w
     | DHT11_STATE_START_LOW \<Rightarrow>
         (let w = (if 0 < s_state_ticks w then w\<lparr>s_state_ticks := s_state_ticks w - 1\<rparr> else w)
          in if s_state_ticks w = 0 then DHT11_Release_And_Listen w else w)
     | DHT11_STATE_WAIT_FRAME \<Rightarrow>
         if 0 < s_state_ticks w then w\<lparr>s_state_ticks := s_state_ticks w - 1\<rparr> else DHT11_Handle_Failed_Frame w)"

definition DHT11_GetTemperature :: "'a dht_scheme \<Rightarrow> f32" where
  "DHT11_GetTemperature w = s_temperature_c w"

definition DHT11_GetHumidity :: "'a dht_scheme \<Rightarrow> f32" where
  "DHT11_GetHumidity w = s_humidity_rh w"

text \<open>The two pointers may be \<^verbatim>\<open>RT_NULL\<close>; the bytes written are the second result.\<close>

definition DHT11_Read_Data :: "bool \<Rightarrow> bool \<Rightarrow> 'a dht_scheme \<Rightarrow> u8 \<times> (u8 \<times> u8) option" where
  "DHT11_Read_Data temp_ok humi_ok w =
    (if \<not> temp_ok \<or> \<not> humi_ok \<or> s_has_valid_data w = 0 then (1, None)
     else (0, Some (f32_to_u8 (s_temperature_c w), f32_to_u8 (s_humidity_rh w))))"

definition DH11_UpdateAlarmFlag :: "'a globals_scheme \<Rightarrow> 'a globals_scheme" where
  "DH11_UpdateAlarmFlag w = w\<lparr>DHT11_AlarmFlag := 0\<rparr>"

subsection \<open>The interrupt\<close>

definition capture_error :: "'a dht_scheme \<Rightarrow> 'a dht_scheme" where
  "capture_error w = (let
     w = w\<lparr>s_transaction_active := 0\<rparr>;
     w = DHT11_EXTI_Enable False w
   in w\<lparr>s_frame_error := 1\<rparr>)"

definition capture_bit :: "u32 \<Rightarrow> 'a dht_scheme \<Rightarrow> 'a dht_scheme option" where
  "capture_bit now_cycle w = (let
     high_us = DHT11_ElapsedUs (s_high_start_cycle w) now_cycle w;
     bit_value = (if DHT11_BIT_HIGH_THRESHOLD_US < high_us then 1 else 0);
     byte_index = unat (drop_bit 3 (s_bit_index w))
   in Option.bind (rd (s_frame_bytes w) byte_index) (\<lambda>b.
      Option.bind (wr (s_frame_bytes w) byte_index (push_bit 1 b OR bit_value)) (\<lambda>fb. let
        w = w\<lparr>s_frame_bytes := fb\<rparr>;
        w = w\<lparr>s_bit_index := s_bit_index w + 1\<rparr>
      in Some (if 40 \<le> s_bit_index w
        then (DHT11_EXTI_Enable False (w\<lparr>s_transaction_active := 0\<rparr>))\<lparr>s_frame_done := 1\<rparr>
        else w\<lparr>s_capture_state := DHT11_CAPTURE_WAIT_BIT_RISE\<rparr>))))"

definition DHT11_EXTI_Callback :: "u16 \<Rightarrow> 'a dht_scheme \<Rightarrow> 'a dht_scheme option" where
  "DHT11_EXTI_Callback GPIO_Pin w =
    (if GPIO_Pin \<noteq> DHT11_GPIO_PIN then Some w
     else if s_transaction_active w = 0 then Some w
     else let now_cycle = CYCCNT w in
       if DHT11_Read_IO w = 0 then
         (case s_capture_state w of
            DHT11_CAPTURE_WAIT_RESP_FALL \<Rightarrow> Some (w\<lparr>s_capture_state := DHT11_CAPTURE_WAIT_RESP_RISE\<rparr>)
          | DHT11_CAPTURE_WAIT_FIRST_DATA_FALL \<Rightarrow> Some (w\<lparr>s_capture_state := DHT11_CAPTURE_WAIT_BIT_RISE\<rparr>)
          | DHT11_CAPTURE_WAIT_BIT_FALL \<Rightarrow> capture_bit now_cycle w
          | _ \<Rightarrow> Some (capture_error w))
       else
         (case s_capture_state w of
            DHT11_CAPTURE_WAIT_RESP_RISE \<Rightarrow> Some (w\<lparr>s_capture_state := DHT11_CAPTURE_WAIT_FIRST_DATA_FALL\<rparr>)
          | DHT11_CAPTURE_WAIT_BIT_RISE \<Rightarrow>
              Some (w\<lparr>s_capture_state := DHT11_CAPTURE_WAIT_BIT_FALL, s_high_start_cycle := now_cycle\<rparr>)
          | _ \<Rightarrow> Some (capture_error w)))"

subsection \<open>Events\<close>

datatype dht_event = Edge bool u32 | Tick

definition line_in :: "bool \<Rightarrow> u32 \<Rightarrow> 'a dht_scheme \<Rightarrow> 'a dht_scheme" where
  "line_in lvl t w = w\<lparr>IDR := (IDR w)(GPIOB :=
     if lvl then IDR w GPIOB OR DHT11_GPIO_PIN else IDR w GPIOB AND NOT DHT11_GPIO_PIN), CYCCNT := t\<rparr>"

fun dht_step :: "dht_event \<Rightarrow> 'a dht_scheme \<Rightarrow> 'a dht_scheme option" where
  "dht_step (Edge lvl t) w = DHT11_EXTI_Callback DHT11_GPIO_PIN (line_in lvl t w)"
| "dht_step Tick w = Some (DHT11_Task10ms w)"

abbreviation dht_run :: "dht_event list \<Rightarrow> 'a dht_scheme \<Rightarrow> 'a dht_scheme option" where
  "dht_run \<equiv> for_each dht_step"

lemma read_line: "DHT11_Read_IO (line_in lvl t w) = u8_of_bool lvl"
proof -
  have "(IDR w GPIOB AND NOT DHT11_GPIO_PIN) AND DHT11_GPIO_PIN = 0"
    by (rule bit_word_eqI) (auto simp: bit_simps)
  moreover have "bit ((IDR w GPIOB OR DHT11_GPIO_PIN) AND DHT11_GPIO_PIN) 5"
    by (simp add: DHT11_GPIO_PIN_def GPIO_PIN_def bit_simps)
  then have "(IDR w GPIOB OR DHT11_GPIO_PIN) AND DHT11_GPIO_PIN \<noteq> 0" by (metis bit_0_eq bot_apply bot_bool_def)
  ultimately show ?thesis by (simp add: DHT11_Read_IO_def HAL_GPIO_ReadPin_def line_in_def)
qed

lemmas dht_ops = DHT11_EXTI_Enable_def DHT11_Set_Output_def DHT11_Set_Input_def DHT11_Line_High_def
  DHT11_Line_Low_def DHT11_Reset_Capture_def hal_def HAL_GPIO_WritePin_def

text \<open>What the task and the interrupt leave behind, field by field.\<close>

lemma Enter_Idle_fields [simp]:
  "s_dht11_state (DHT11_Enter_Idle t w) = DHT11_STATE_IDLE" "s_state_ticks (DHT11_Enter_Idle t w) = t"
  "s_transaction_active (DHT11_Enter_Idle t w) = 0" "s_frame_done (DHT11_Enter_Idle t w) = s_frame_done w"
  "s_frame_error (DHT11_Enter_Idle t w) = s_frame_error w" "s_frame_bytes (DHT11_Enter_Idle t w) = s_frame_bytes w"
  "s_bit_index (DHT11_Enter_Idle t w) = s_bit_index w" "s_temperature_c (DHT11_Enter_Idle t w) = s_temperature_c w"
  "s_humidity_rh (DHT11_Enter_Idle t w) = s_humidity_rh w" "s_cycles_per_us (DHT11_Enter_Idle t w) = s_cycles_per_us w"
  by (simp_all add: DHT11_Enter_Idle_def dht_ops Let_def)

lemma Start_Request_fields [simp]:
  "s_dht11_state (DHT11_Start_Request w) = DHT11_STATE_START_LOW" "s_state_ticks (DHT11_Start_Request w) = 2"
  "s_transaction_active (DHT11_Start_Request w) = s_transaction_active w" "s_frame_done (DHT11_Start_Request w) = 0"
  "s_frame_error (DHT11_Start_Request w) = 0" "s_frame_bytes (DHT11_Start_Request w) = [0, 0, 0, 0, 0]"
  "s_bit_index (DHT11_Start_Request w) = 0" "s_temperature_c (DHT11_Start_Request w) = s_temperature_c w"
  "s_humidity_rh (DHT11_Start_Request w) = s_humidity_rh w" "s_cycles_per_us (DHT11_Start_Request w) = s_cycles_per_us w"
  by (simp_all add: DHT11_Start_Request_def dht_ops dht_consts Let_def)

lemma Release_fields [simp]:
  "s_dht11_state (DHT11_Release_And_Listen w) = DHT11_STATE_WAIT_FRAME" "s_state_ticks (DHT11_Release_And_Listen w) = 2"
  "s_transaction_active (DHT11_Release_And_Listen w) = 1" "s_frame_done (DHT11_Release_And_Listen w) = 0"
  "s_frame_error (DHT11_Release_And_Listen w) = 0" "s_frame_bytes (DHT11_Release_And_Listen w) = [0, 0, 0, 0, 0]"
  "s_bit_index (DHT11_Release_And_Listen w) = 0" "s_temperature_c (DHT11_Release_And_Listen w) = s_temperature_c w"
  "s_humidity_rh (DHT11_Release_And_Listen w) = s_humidity_rh w" "s_cycles_per_us (DHT11_Release_And_Listen w) = s_cycles_per_us w"
  "s_capture_state (DHT11_Release_And_Listen w) = DHT11_CAPTURE_WAIT_RESP_FALL"
  by (simp_all add: DHT11_Release_And_Listen_def dht_ops dht_consts Let_def)

lemma capture_error_fields [simp]:
  "s_transaction_active (capture_error w) = 0" "s_frame_error (capture_error w) = 1" "s_frame_done (capture_error w) = s_frame_done w"
  "s_dht11_state (capture_error w) = s_dht11_state w" "s_state_ticks (capture_error w) = s_state_ticks w"
  "s_frame_bytes (capture_error w) = s_frame_bytes w" "s_bit_index (capture_error w) = s_bit_index w"
  "s_temperature_c (capture_error w) = s_temperature_c w" "s_humidity_rh (capture_error w) = s_humidity_rh w"
  by (simp_all add: capture_error_def dht_ops Let_def)

lemma line_in_fields [simp]:
  "s_transaction_active (line_in l t w) = s_transaction_active w" "s_frame_error (line_in l t w) = s_frame_error w"
  "s_frame_done (line_in l t w) = s_frame_done w" "s_dht11_state (line_in l t w) = s_dht11_state w"
  "s_state_ticks (line_in l t w) = s_state_ticks w" "s_frame_bytes (line_in l t w) = s_frame_bytes w"
  "s_bit_index (line_in l t w) = s_bit_index w" "s_temperature_c (line_in l t w) = s_temperature_c w"
  "s_humidity_rh (line_in l t w) = s_humidity_rh w" "s_cycles_per_us (line_in l t w) = s_cycles_per_us w"
  "s_capture_state (line_in l t w) = s_capture_state w" "s_high_start_cycle (line_in l t w) = s_high_start_cycle w"
  "CYCCNT (line_in l t w) = t"
  by (simp_all add: line_in_def)

subsection \<open>The invariant\<close>

text \<open>
  A transaction is only open while its frame is awaited, an error or a complete frame closes it,
  and while it is open fewer than forty bits have been stored. The values on offer always come from
  two bytes of a frame.
\<close>

definition dht_ok :: "'a dht_scheme \<Rightarrow> bool" where
  "dht_ok w \<longleftrightarrow> length (s_frame_bytes w) = 5 \<and> unat (s_state_ticks w) \<le> 100 \<and> unat (s_bit_index w) \<le> 40 \<and>
     (s_transaction_active w \<noteq> 0 \<longrightarrow> s_dht11_state w = DHT11_STATE_WAIT_FRAME \<and>
        s_frame_done w = 0 \<and> s_frame_error w = 0 \<and> unat (s_bit_index w) < 40) \<and>
     (s_frame_done w \<noteq> 0 \<longrightarrow> s_frame_error w = 0) \<and>
     (s_dht11_state w = DHT11_STATE_WAIT_FRAME \<or> s_dht11_state w = DHT11_STATE_START_LOW \<longrightarrow> unat (s_state_ticks w) \<le> 2) \<and>
     (s_dht11_state w \<noteq> DHT11_STATE_WAIT_FRAME \<longrightarrow> s_frame_done w = 0 \<and> s_frame_error w = 0) \<and>
     (\<exists>a b. s_temperature_c w = tenths a b) \<and> (\<exists>a b. s_humidity_rh w = tenths a b)"

lemma f32_tenth:
  obtains y where "flit (1 / 10) = Fin y" "f32_rep y" "0 \<le> y" "y \<le> 101 / 1000"
proof -
  obtain v where v: "f32_round (1 / 10) = Fin v" "f32_rep v" "0 \<le> v" "v \<le> 1" "\<bar>v - 1 / 10\<bar> \<le> 1 / 1000"
    by (rule f32_round_near [of 0 1 "1 / 10" "-20"]) (auto simp: pow2_def)
  then show ?thesis using that [of v] abs_le_D1 [OF v(5)] by simp
qed

lemma tenths_0: "Fin 0 = tenths 0 0"
  by (rule f32_tenth) (simp add: tenths_def f32_of_int_def)

lemma tenths_range: "f32_in 0 281 (tenths a b)"
proof -
  have b: "f32_in 0 255 (f32_of_int (uint x))" for x :: u8
    using f32_in_of_int [of "uint x" 255] unsigned_less [of x, where 'a = int] by simp
  have "f32_in 0 26 (fmul (f32_of_int (uint b)) (flit (1 / 10)))"
  proof -
    obtain x where x: "f32_of_int (uint b) = Fin x" "0 \<le> x" "x \<le> 255" using b [of b] by (rule f32_inE)
    obtain y where y: "flit (1 / 10) = Fin y" "f32_rep y" "0 \<le> y" "y \<le> 101 / 1000" by (rule f32_tenth)
    have "x * y \<le> 255 * (101 / 1000)" using x y by (intro mult_mono) auto
    then show ?thesis using x y by (auto intro!: f32_in_round)
  qed
  then show ?thesis unfolding tenths_def by (intro fadd_in [OF b [of a]]) auto
qed

lemma unat_dec: "0 < (x :: u16) \<Longrightarrow> unat (x - 1) = unat x - 1"
  by (intro unat_minus_one) auto

lemma Task_ok: "dht_ok w \<Longrightarrow> dht_ok (DHT11_Task10ms w)"
proof (cases "s_frame_done w \<noteq> 0 \<or> s_frame_error w \<noteq> 0")
  case True
  assume "dht_ok w"
  then show ?thesis using True
    by (auto simp: dht_ok_def DHT11_Task10ms_def DHT11_Process_Frame_def DHT11_Handle_Failed_Frame_def Let_def dht_consts)
next
  case False
  assume "dht_ok w"
  then show ?thesis using False unat_dec [of "s_state_ticks w"]
    by (cases "s_dht11_state w")
      (auto simp: dht_ok_def DHT11_Task10ms_def DHT11_Handle_Failed_Frame_def Let_def dht_consts word_gt_0)
qed

lemma capture_bit_ok:
  assumes "dht_ok w" "s_transaction_active w \<noteq> 0"
  obtains w' where "capture_bit t w = Some w'" "dht_ok w'" "s_dht11_state w' = s_dht11_state w"
    "s_state_ticks w' = s_state_ticks w"
proof -
  have b: "unat (drop_bit 3 (s_bit_index w)) < 5" "length (s_frame_bytes w) = 5" "unat (s_bit_index w) < 40"
    using assms by (auto simp: dht_ok_def drop_bit_eq_div unat_div)
  have i: "unat (s_bit_index w + 1) = unat (s_bit_index w) + 1" using b(3) by (simp add: unat_word_ariths)
  show ?thesis
  proof (cases "40 \<le> s_bit_index w + 1")
    case True
    then show ?thesis using assms b i that
      by (auto simp: capture_bit_def rd_Some wr_Some Let_def dht_ops dht_ok_def)
  next
    case False
    then have "unat (s_bit_index w + 1) < 40" by (simp add: word_le_nat_alt not_le)
    with False show ?thesis using assms b that
      by (auto simp: capture_bit_def rd_Some wr_Some Let_def dht_ok_def)
  qed
qed

lemma Callback_ok:
  assumes "dht_ok w"
  obtains w' where "DHT11_EXTI_Callback p w = Some w'" "dht_ok w'" "s_dht11_state w' = s_dht11_state w"
    "s_state_ticks w' = s_state_ticks w"
proof (cases "p \<noteq> DHT11_GPIO_PIN \<or> s_transaction_active w = 0")
  case True
  then show ?thesis using assms by (intro that [of w]) (auto simp: DHT11_EXTI_Callback_def)
next
  case False
  then have a: "p = DHT11_GPIO_PIN" "s_transaction_active w \<noteq> 0" by auto
  have e: "dht_ok (capture_error w)" using assms a by (auto simp: dht_ok_def)
  have o: "dht_ok (w\<lparr>s_capture_state := c\<rparr>)" "dht_ok (w\<lparr>s_capture_state := c, s_high_start_cycle := h\<rparr>)" for c h
    using assms by (auto simp: dht_ok_def)
  show ?thesis
    by (cases "DHT11_Read_IO w = 0"; cases "s_capture_state w";
        (rule capture_bit_ok [OF assms a(2), of "CYCCNT w"])?)
      (auto simp: DHT11_EXTI_Callback_def a Let_def e o intro!: that)
qed

lemma line_in_ok: "dht_ok w \<Longrightarrow> dht_ok (line_in l t w)"
  by (simp add: dht_ok_def)

lemma step_ok:
  assumes "dht_ok w" obtains w' where "dht_step e w = Some w'" "dht_ok w'"
proof (cases e)
  case (Edge l t)
  obtain w' where "DHT11_EXTI_Callback DHT11_GPIO_PIN (line_in l t w) = Some w'" "dht_ok w'"
    by (rule Callback_ok [OF line_in_ok [OF assms], of DHT11_GPIO_PIN l t])
  then show ?thesis using Edge that by simp
next
  case Tick
  then show ?thesis using that Task_ok [OF assms] by simp
qed

lemma run_ok: "dht_ok w \<Longrightarrow> \<exists>w'. dht_run es w = Some w' \<and> dht_ok w'"
  by (rule for_each_invariant) (auto elim: step_ok)

lemma DHT11_Init_ok: "length (s_frame_bytes w) = 5 \<Longrightarrow> unat (s_bit_index w) \<le> 40 \<Longrightarrow> dht_ok (DHT11_Init clk w)"
  by (rule hal_calls_frame [of "[RCC_GPIO_ENABLE GPIOB, RCC_SYSCFG_ENABLE]" w])
    (auto simp: dht_ok_def DHT11_Init_def DHT11_DWT_Init_def DHT11_EXTI_Init_def hal_calls_def dht_ops
      dht_consts Let_def tenths_0)

lemma dht0_ok: "dht_ok dht0"
  by (auto simp: dht_ok_def dht0_def dht_fields0_def actuators.defs dht.defs dht_consts tenths_0)

text \<open>
  C27 (safety). Whatever edges arrive on the data line, at whatever times and however they interleave
  with the task, from the initialisation on: no bit is ever stored outside the five bytes of the
  frame, and temperature and humidity stay in the range 0 to 281 that two bytes can express.
\<close>

theorem dht_never_overruns:
  "\<exists>w'. dht_run es (DHT11_Init clk dht0) = Some w' \<and> unat (s_bit_index w') \<le> 40 \<and>
     f32_in 0 281 (DHT11_GetTemperature w') \<and> f32_in 0 281 (DHT11_GetHumidity w')"
proof -
  have l: "length (s_frame_bytes dht0) = 5" "unat (s_bit_index dht0) \<le> 40" by (simp_all add: dht0_def dht_fields0_def actuators.defs dht.defs)
  obtain w' where w: "dht_run es (DHT11_Init clk dht0) = Some w'" "dht_ok w'"
    using run_ok [OF DHT11_Init_ok [OF l]] by blast
  show ?thesis using w by (auto simp: dht_ok_def DHT11_GetTemperature_def DHT11_GetHumidity_def tenths_range)
qed

subsection \<open>The task always comes round\<close>

text \<open>How many ticks can pass before the next transaction is requested.\<close>

definition rank :: "'a dht_scheme \<Rightarrow> nat" where
  "rank w = (if s_frame_done w \<noteq> 0 \<or> s_frame_error w \<noteq> 0 then 101
     else case s_dht11_state w of
       DHT11_STATE_POWERUP_WAIT \<Rightarrow> unat (s_state_ticks w)
     | DHT11_STATE_IDLE \<Rightarrow> unat (s_state_ticks w)
     | DHT11_STATE_START_LOW \<Rightarrow> 103 + max 1 (unat (s_state_ticks w))
     | DHT11_STATE_WAIT_FRAME \<Rightarrow> 101 + unat (s_state_ticks w))"

definition requests :: "'a dht_scheme \<Rightarrow> bool" where
  "requests w \<longleftrightarrow> s_dht11_state w \<noteq> DHT11_STATE_START_LOW \<and> s_dht11_state (DHT11_Task10ms w) = DHT11_STATE_START_LOW"

lemma rank_le: "dht_ok w \<Longrightarrow> rank w \<le> 105"
  by (cases "s_dht11_state w") (auto simp: rank_def dht_ok_def)

lemma rank_tick:
  assumes "dht_ok w" "\<not> requests w" shows "rank (DHT11_Task10ms w) < rank w"
proof (cases "s_frame_done w \<noteq> 0 \<or> s_frame_error w \<noteq> 0")
  case True
  then show ?thesis using assms
    by (auto simp: rank_def dht_ok_def DHT11_Task10ms_def DHT11_Process_Frame_def DHT11_Handle_Failed_Frame_def
      Let_def dht_consts)
next
  case False
  have "0 < unat (s_state_ticks w)" if "s_state_ticks w \<noteq> 0" using that by (simp add: unat_gt_0)
  moreover have "unat (s_state_ticks w) \<noteq> Suc 0" if "s_state_ticks w \<noteq> 1" using that by (simp add: word_unat_eq_iff)
  ultimately show ?thesis using False assms unat_dec [of "s_state_ticks w"]
    by (cases "s_dht11_state w")
      (auto simp: rank_def requests_def dht_ok_def DHT11_Task10ms_def DHT11_Handle_Failed_Frame_def Let_def dht_consts
        word_gt_0 max_def)
qed

lemma rank_edge:
  assumes "dht_ok w" "dht_step (Edge l t) w = Some w'" shows "rank w' \<le> rank w"
proof -
  obtain v where v: "DHT11_EXTI_Callback DHT11_GPIO_PIN (line_in l t w) = Some v" "dht_ok v"
    "s_dht11_state v = s_dht11_state w" "s_state_ticks v = s_state_ticks w"
    by (rule Callback_ok [OF line_in_ok [OF assms(1)], of DHT11_GPIO_PIN l t]) simp
  show ?thesis
  proof (cases "s_transaction_active w = 0")
    case True
    then show ?thesis using assms(2)
      by (auto simp: DHT11_EXTI_Callback_def rank_def split: dht11_state_t.split)
  next
    case False
    then have "s_dht11_state w = DHT11_STATE_WAIT_FRAME" "s_frame_done w = 0" "s_frame_error w = 0"
      using assms(1) by (auto simp: dht_ok_def)
    then show ?thesis using v assms(2) by (auto simp: rank_def)
  qed
qed

lemma request_within:
  assumes "dht_ok w" "rank w < length (filter (\<lambda>e. e = Tick) es)"
  shows "\<exists>es1 es2 v. es = es1 @ Tick # es2 \<and> dht_run es1 w = Some v \<and> requests v"
  using assms
proof (induction es arbitrary: w)
  case (Cons e es)
  obtain w' where w': "dht_step e w = Some w'" "dht_ok w'" using Cons.prems(1) by (rule step_ok)
  show ?case
  proof (cases "e = Tick \<and> requests w")
    case True
    then show ?thesis by (intro exI [of _ "[]"] exI [of _ es] exI [of _ w]) auto
  next
    case False
    have "rank w' < length (filter (\<lambda>e. e = Tick) es)"
    proof (cases e)
      case (Edge l t)
      then show ?thesis using rank_edge [OF Cons.prems(1)] w'(1) Cons.prems(2) by fastforce
    next
      case Tick
      then show ?thesis using rank_tick [OF Cons.prems(1)] False w'(1) Cons.prems(2) by auto
    qed
    from Cons.IH [OF w'(2) this] obtain es1 es2 v where
      "es = es1 @ Tick # es2" "dht_run es1 w' = Some v" "requests v" by blast
    then show ?thesis using w'(1) by (intro exI [of _ "e # es1"] exI [of _ es2] exI [of _ v]) auto
  qed
qed simp

text \<open>
  C28 (liveness). The sensor task never hangs: after any history of edges and ticks since the
  initialisation, among any events that contain 106 ticks (1.06 seconds), whatever edges come
  between them, one tick starts a new transaction, also when the sensor is missing, stops in the
  middle of a frame or sends garbage.
\<close>

theorem dht_request_recurs:
  assumes "dht_run hist (DHT11_Init clk dht0) = Some w" "105 < length (filter (\<lambda>e. e = Tick) es)"
  shows "\<exists>es1 es2 v. es = es1 @ Tick # es2 \<and> dht_run es1 w = Some v \<and>
    s_dht11_state v \<noteq> DHT11_STATE_START_LOW \<and> s_dht11_state (DHT11_Task10ms v) = DHT11_STATE_START_LOW"
proof -
  have l: "length (s_frame_bytes dht0) = 5" "unat (s_bit_index dht0) \<le> 40"
    by (simp_all add: dht0_def dht_fields0_def actuators.defs dht.defs)
  have "dht_ok w" using run_ok [OF DHT11_Init_ok [OF l], of hist clk] assms(1) by simp
  then show ?thesis using request_within [of w es] rank_le [of w] assms(2) by (auto simp: requests_def)
qed

theorem dht_request_recurs_witness:
  "\<exists>es1 es2 v. replicate 106 Tick = es1 @ Tick # es2 \<and> dht_run es1 (DHT11_Init 168000000 dht0) = Some v \<and>
    s_dht11_state v \<noteq> DHT11_STATE_START_LOW \<and> s_dht11_state (DHT11_Task10ms v) = DHT11_STATE_START_LOW"
  using dht_request_recurs [of "[]" 168000000 _ "replicate 106 Tick"] by (simp add: filter_replicate)

subsection \<open>Receiving a frame\<close>

text \<open>The bits of a frame in the order of the line, and the bytes collected from the bits so far.\<close>

definition byte_of_bits :: "bool list \<Rightarrow> u8" where
  "byte_of_bits xs = foldl (\<lambda>a b. push_bit 1 a OR (if b then 1 else 0)) 0 xs"

definition pack_bits :: "bool list \<Rightarrow> bytes" where
  "pack_bits bs = map (\<lambda>j. byte_of_bits (take 8 (drop (8 * j) bs))) [0..<5]"

definition bits_of_byte :: "u8 \<Rightarrow> bool list" where
  "bits_of_byte b = map (bit b) [7, 6, 5, 4, 3, 2, 1, 0]"

definition frame_bits :: "bytes \<Rightarrow> bool list" where
  "frame_bits bs = concat (map bits_of_byte bs)"

lemma length_pack [simp]: "length (pack_bits bs) = 5"
  by (simp add: pack_bits_def)

lemma pack_nth: "j < 5 \<Longrightarrow> pack_bits bs ! j = byte_of_bits (take 8 (drop (8 * j) bs))"
  by (simp add: pack_bits_def)

lemma byte_of_bits_snoc: "byte_of_bits (xs @ [b]) = push_bit 1 (byte_of_bits xs) OR (if b then 1 else 0)"
  by (simp add: byte_of_bits_def)

lemma byte_bits [simp]: "byte_of_bits (bits_of_byte b) = b"
  unfolding byte_of_bits_def bits_of_byte_def
proof (rule bit_word_eqI)
  fix n assume "n < LENGTH(8)"
  then have "n = 0 \<or> n = 1 \<or> n = 2 \<or> n = 3 \<or> n = 4 \<or> n = 5 \<or> n = 6 \<or> n = 7" by auto
  then show "bit (foldl (\<lambda>a b. push_bit 1 a OR (if b then 1 else 0)) (0 :: u8) (map (bit b) [7, 6, 5, 4, 3, 2, 1, 0])) n = bit b n"
    by (elim disjE) (simp_all add: bit_simps)
qed

lemma length_bits [simp]: "length (bits_of_byte b) = 8"
  by (simp add: bits_of_byte_def)

lemma pack_frame_bits: "pack_bits (frame_bits [a, b, c, d, e]) = [a, b, c, d, e]"
  by (simp add: pack_bits_def frame_bits_def upt_rec take_append drop_append)

lemma length_frame_bits: "length (frame_bits [a, b, c, d, e]) = 40"
  by (simp add: frame_bits_def)

lemma pack_snoc:
  assumes "length bs < 40"
  shows "pack_bits (bs @ [b]) = (pack_bits bs)[length bs div 8 :=
    push_bit 1 (pack_bits bs ! (length bs div 8)) OR (if b then 1 else 0)]"
proof (rule nth_equalityI)
  fix j assume "j < length (pack_bits (bs @ [b]))"
  then have j: "j < 5" by simp
  consider "j < length bs div 8" | "j = length bs div 8" | "length bs div 8 < j" by linarith
  then show "pack_bits (bs @ [b]) ! j = (pack_bits bs)[length bs div 8 :=
    push_bit 1 (pack_bits bs ! (length bs div 8)) OR (if b then 1 else 0)] ! j"
  proof cases
    case 1
    then have "8 * j + 8 \<le> length bs" by linarith
    then show ?thesis using j 1 by (simp add: pack_nth)
  next
    case 2
    then have "8 * j \<le> length bs" "length bs - 8 * j < 8" by linarith+
    then show ?thesis using j 2 by (simp add: pack_nth byte_of_bits_snoc)
  next
    case 3
    then have "length bs < 8 * j" by linarith
    then show ?thesis using j 3 by (simp add: pack_nth)
  qed
qed simp

text \<open>
  The waveform of a frame: the response, then for each bit a high phase from cycle \<open>s\<close> to cycle
  \<open>s + d\<close>; the counter may wrap round inside a phase.
\<close>

definition bit_edges :: "u32 \<times> u32 \<Rightarrow> dht_event list" where
  "bit_edges p = [Edge True (fst p), Edge False (fst p + snd p)]"

definition frame_edges :: "u32 \<Rightarrow> u32 \<Rightarrow> u32 \<Rightarrow> (u32 \<times> u32) list \<Rightarrow> dht_event list" where
  "frame_edges t0 t1 t2 ps = [Edge False t0, Edge True t1, Edge False t2] @ concat (map bit_edges ps)"

text \<open>The sensor's bits: a high phase of more than fifty microseconds is a one.\<close>

definition measured :: "u32 \<Rightarrow> u32 \<times> u32 \<Rightarrow> bool" where
  "measured cpu p \<longleftrightarrow> 50 < snd p div cpu"

text \<open>The state between two bits, after the bits \<open>bs\<close>.\<close>

definition receiving :: "bool list \<Rightarrow> 'a dht_scheme \<Rightarrow> bool" where
  "receiving bs w \<longleftrightarrow> s_transaction_active w \<noteq> 0 \<and> s_capture_state w = DHT11_CAPTURE_WAIT_BIT_RISE \<and>
     unat (s_bit_index w) = length bs \<and> s_frame_bytes w = pack_bits bs \<and> s_frame_done w = 0 \<and> s_frame_error w = 0"

definition received :: "bool list \<Rightarrow> 'a dht_scheme \<Rightarrow> bool" where
  "received bs w \<longleftrightarrow> s_frame_bytes w = pack_bits bs \<and> s_frame_done w \<noteq> 0"

definition same_cpu :: "'a dht_scheme \<Rightarrow> 'a dht_scheme \<Rightarrow> bool" where
  "same_cpu w w' \<longleftrightarrow> s_cycles_per_us w' = s_cycles_per_us w \<and> s_temperature_c w' = s_temperature_c w \<and>
     s_humidity_rh w' = s_humidity_rh w"

lemma receive_bit:
  assumes "receiving bs w" "length bs < 40"
  obtains w' where "dht_run (bit_edges p) w = Some w'" "same_cpu w w'"
    "length bs < 39 \<Longrightarrow> receiving (bs @ [measured (s_cycles_per_us w) p]) w'"
    "length bs = 39 \<Longrightarrow> received (bs @ [measured (s_cycles_per_us w) p]) w'"
proof -
  define v where "v = (line_in True (fst p) w)\<lparr>s_capture_state := DHT11_CAPTURE_WAIT_BIT_FALL, s_high_start_cycle := fst p\<rparr>"
  define u where "u = line_in False (fst p + snd p) v"
  have r: "dht_step (Edge True (fst p)) w = Some v"
    using assms by (simp add: DHT11_EXTI_Callback_def receiving_def read_line v_def Let_def)
  have u: "s_transaction_active u \<noteq> 0" "s_capture_state u = DHT11_CAPTURE_WAIT_BIT_FALL" "s_high_start_cycle u = fst p"
    "unat (s_bit_index u) = length bs" "s_frame_bytes u = pack_bits bs" "s_frame_done u = 0" "s_frame_error u = 0"
    "CYCCNT u = fst p + snd p" "DHT11_Read_IO u = 0" "s_cycles_per_us u = s_cycles_per_us w"
    "s_temperature_c u = s_temperature_c w" "s_humidity_rh u = s_humidity_rh w"
    using assms by (simp_all add: u_def v_def receiving_def read_line)
  have c: "dht_step (Edge False (fst p + snd p)) v = capture_bit (fst p + snd p) u"
    using u by (simp add: DHT11_EXTI_Callback_def Let_def flip: u_def)
  have e: "DHT11_ElapsedUs (fst p) (fst p + snd p) u = snd p div s_cycles_per_us w"
    using u by (simp add: DHT11_ElapsedUs_def)
  have i: "unat (drop_bit 3 (s_bit_index u)) = length bs div 8" "unat (s_bit_index u + 1) = length bs + 1"
    using u(4) assms(2) by (simp_all add: drop_bit_eq_div unat_div unat_word_ariths)
  have n: "length bs div 8 < 5" using assms(2) by linarith
  let ?b = "measured (s_cycles_per_us w) p"
  have k: "capture_bit (fst p + snd p) u = Some (let w = u\<lparr>s_frame_bytes := pack_bits (bs @ [?b]), s_bit_index := s_bit_index u + 1\<rparr> in
      if 40 \<le> s_bit_index u + 1 then (DHT11_EXTI_Enable False (w\<lparr>s_transaction_active := 0\<rparr>))\<lparr>s_frame_done := 1\<rparr>
      else w\<lparr>s_capture_state := DHT11_CAPTURE_WAIT_BIT_RISE\<rparr>)"
    using u n by (simp add: capture_bit_def Let_def e i rd_Some wr_Some pack_snoc [OF assms(2)] measured_def dht_consts)
  show ?thesis
  proof (cases "length bs = 39")
    case True
    then have "40 \<le> s_bit_index u + 1" using i by (simp add: word_le_nat_alt)
    define x where "x = (DHT11_EXTI_Enable False (u\<lparr>s_frame_bytes := pack_bits (bs @ [?b]),
      s_bit_index := s_bit_index u + 1, s_transaction_active := 0\<rparr>))\<lparr>s_frame_done := 1\<rparr>"
    have "dht_run (bit_edges p) w = Some x"
      using r c k \<open>40 \<le> s_bit_index u + 1\<close> by (simp add: bit_edges_def x_def Let_def del: dht_step.simps)
    then show ?thesis using True u
      by (rule_tac that [of x]) (auto simp: x_def received_def same_cpu_def dht_ops Let_def)
  next
    case False
    then have "\<not> 40 \<le> s_bit_index u + 1" using i assms(2) by (simp add: word_le_nat_alt)
    define x where "x = u\<lparr>s_frame_bytes := pack_bits (bs @ [?b]), s_bit_index := s_bit_index u + 1,
      s_capture_state := DHT11_CAPTURE_WAIT_BIT_RISE\<rparr>"
    have "dht_run (bit_edges p) w = Some x"
      using r c k \<open>\<not> 40 \<le> s_bit_index u + 1\<close> by (simp add: bit_edges_def x_def Let_def del: dht_step.simps)
    then show ?thesis using False u i assms(2)
      by (rule_tac that [of x]) (auto simp: x_def receiving_def same_cpu_def)
  qed
qed

lemma receive_bits:
  assumes "receiving bs w" "length bs + length ps = 40" "ps \<noteq> []"
  shows "\<exists>w'. dht_run (concat (map bit_edges ps)) w = Some w' \<and> same_cpu w w' \<and>
    received (bs @ map (measured (s_cycles_per_us w)) ps) w'"
  using assms
proof (induction ps arbitrary: bs w)
  case (Cons p ps)
  obtain v where v: "dht_run (bit_edges p) w = Some v" "same_cpu w v"
    "length bs < 39 \<Longrightarrow> receiving (bs @ [measured (s_cycles_per_us w) p]) v"
    "length bs = 39 \<Longrightarrow> received (bs @ [measured (s_cycles_per_us w) p]) v"
    by (rule receive_bit [OF Cons.prems(1), of p]) (use Cons.prems in auto)
  show ?case
  proof (cases "ps = []")
    case True
    then show ?thesis using v Cons.prems by auto
  next
    case False
    then have "length bs < 39" using Cons.prems by (cases ps) auto
    then obtain w' where "dht_run (concat (map bit_edges ps)) v = Some w'" "same_cpu v w'"
      "received ((bs @ [measured (s_cycles_per_us w) p]) @ map (measured (s_cycles_per_us v)) ps) w'"
      using Cons.IH [OF v(3)] Cons.prems False by auto
    then show ?thesis using v(1,2) by (auto simp: same_cpu_def)
  qed
qed simp

text \<open>After the release of the line a whole frame is received.\<close>

definition listening :: "'a dht_scheme \<Rightarrow> bool" where
  "listening w \<longleftrightarrow> s_transaction_active w \<noteq> 0 \<and> s_capture_state w = DHT11_CAPTURE_WAIT_RESP_FALL \<and>
     s_bit_index w = 0 \<and> s_frame_bytes w = [0, 0, 0, 0, 0] \<and> s_frame_done w = 0 \<and> s_frame_error w = 0"

lemma pack_nil: "pack_bits [] = [0, 0, 0, 0, 0]"
  by (simp add: pack_bits_def byte_of_bits_def upt_rec)

lemma receive_frame:
  assumes "listening w" "length ps = 40"
  shows "\<exists>w'. dht_run (frame_edges t0 t1 t2 ps) w = Some w' \<and> same_cpu w w' \<and>
    received (map (measured (s_cycles_per_us w)) ps) w'"
proof -
  define w1 where "w1 = (line_in False t0 w)\<lparr>s_capture_state := DHT11_CAPTURE_WAIT_RESP_RISE\<rparr>"
  define w2 where "w2 = (line_in True t1 w1)\<lparr>s_capture_state := DHT11_CAPTURE_WAIT_FIRST_DATA_FALL\<rparr>"
  define w3 where "w3 = (line_in False t2 w2)\<lparr>s_capture_state := DHT11_CAPTURE_WAIT_BIT_RISE\<rparr>"
  have "dht_step (Edge False t0) w = Some w1"
    using assms by (simp add: DHT11_EXTI_Callback_def listening_def read_line w1_def Let_def)
  moreover have "dht_step (Edge True t1) w1 = Some w2" "dht_step (Edge False t2) w2 = Some w3"
    using assms by (simp_all add: DHT11_EXTI_Callback_def listening_def read_line w1_def w2_def w3_def Let_def)
  moreover have "receiving [] w3" "same_cpu w w3"
    using assms by (simp_all add: receiving_def listening_def w3_def w2_def w1_def same_cpu_def pack_nil)
  moreover have "ps \<noteq> []" using assms(2) by auto
  ultimately show ?thesis using receive_bits [of "[]" w3 ps] assms(2)
    by (auto simp: frame_edges_def same_cpu_def simp del: dht_step.simps)
qed

lemma request_sequence:
  assumes "s_dht11_state w = DHT11_STATE_IDLE \<or> s_dht11_state w = DHT11_STATE_POWERUP_WAIT"
    "s_state_ticks w = 0" "s_frame_done w = 0" "s_frame_error w = 0"
  shows "\<exists>w'. dht_run [Tick, Tick, Tick] w = Some w' \<and> listening w' \<and> same_cpu w w'"
proof -
  have 1: "DHT11_Task10ms w = DHT11_Start_Request w" using assms by (auto simp: DHT11_Task10ms_def)
  define v where "v = (DHT11_Start_Request w)\<lparr>s_state_ticks := 1\<rparr>"
  have 2: "DHT11_Task10ms (DHT11_Start_Request w) = v" by (simp add: DHT11_Task10ms_def v_def)
  have 3: "DHT11_Task10ms v = DHT11_Release_And_Listen (v\<lparr>s_state_ticks := 0\<rparr>)"
    by (simp add: DHT11_Task10ms_def v_def)
  show ?thesis using 1 2 3 by (simp add: listening_def same_cpu_def v_def)
qed

lemma result_tick:
  assumes "received (frame_bits [h, h', t, t', c]) w"
  shows "\<exists>w'. dht_run [Tick] w = Some w' \<and> s_dht11_state w' = DHT11_STATE_IDLE \<and>
    s_temperature_c w' = (if h + h' + t + t' = c then tenths t t' else s_temperature_c w) \<and>
    s_humidity_rh w' = (if h + h' + t + t' = c then tenths h h' else s_humidity_rh w)"
  using assms by (simp add: received_def pack_frame_bits DHT11_Task10ms_def DHT11_Process_Frame_def Let_def)

text \<open>
  C29 (roundtrip). A transaction delivers what the sensor sent: the request (three ticks), a
  response and forty high phases whose lengths, more or less than fifty microseconds, spell five
  bytes, most significant bit first, and the next tick end with the temperature and the humidity of
  the frame when its checksum is right, and with the old ones when it is not. The edges may come at
  any cycle counts, also where the counter wraps round within a bit.
\<close>

theorem dht_transaction:
  assumes "s_dht11_state w = DHT11_STATE_IDLE \<or> s_dht11_state w = DHT11_STATE_POWERUP_WAIT"
    "s_state_ticks w = 0" "s_frame_done w = 0" "s_frame_error w = 0"
    and "map (measured (s_cycles_per_us w)) ps = frame_bits [h, h', t, t', c]"
  shows "\<exists>w'. dht_run ([Tick, Tick, Tick] @ frame_edges t0 t1 t2 ps @ [Tick]) w = Some w' \<and>
    DHT11_GetTemperature w' = (if h + h' + t + t' = c then tenths t t' else DHT11_GetTemperature w) \<and>
    DHT11_GetHumidity w' = (if h + h' + t + t' = c then tenths h h' else DHT11_GetHumidity w)"
proof -
  obtain w1 where 1: "dht_run [Tick, Tick, Tick] w = Some w1" "listening w1" "same_cpu w w1"
    using request_sequence [OF assms(1-4)] by blast
  have l: "length ps = 40" using arg_cong [OF assms(5), of length] by (simp add: length_frame_bits)
  obtain w2 where 2: "dht_run (frame_edges t0 t1 t2 ps) w1 = Some w2" "same_cpu w1 w2"
    "received (map (measured (s_cycles_per_us w1)) ps) w2" using receive_frame [OF 1(2) l] by blast
  then have "received (frame_bits [h, h', t, t', c]) w2" using assms(5) 1(3) by (simp add: same_cpu_def)
  from result_tick [OF this] obtain w3 where 3: "dht_run [Tick] w2 = Some w3"
    "s_temperature_c w3 = (if h + h' + t + t' = c then tenths t t' else s_temperature_c w2)"
    "s_humidity_rh w3 = (if h + h' + t + t' = c then tenths h h' else s_humidity_rh w2)" by blast
  show ?thesis using 1(1,3) 2(1,2) 3
    unfolding for_each_append DHT11_GetTemperature_def DHT11_GetHumidity_def same_cpu_def by (intro exI [of _ w3]) simp
qed

text \<open>At 168 cycles per microsecond: 26 microseconds for a zero, 70 for a one; 45.0 percent and 23.4 degrees.\<close>

theorem dht_transaction_witness:
  fixes w ps
  defines "w \<equiv> dht0\<lparr>s_state_ticks := 0, s_cycles_per_us := 168\<rparr>"
    and "ps \<equiv> map (\<lambda>b. (0xFFFFFFF0, if b then 11760 else 4368)) (frame_bits [45, 0, 23, 4, 72])"
  shows "\<exists>w'. dht_run ([Tick, Tick, Tick] @ frame_edges 1 2 3 ps @ [Tick]) w = Some w' \<and>
    DHT11_GetTemperature w' = tenths 23 4 \<and> DHT11_GetHumidity w' = tenths 45 0"
proof -
  have m: "map (measured 168) ps = frame_bits [45, 0, 23, 4, 72]"
    by (simp add: ps_def comp_def measured_def if_distrib cong: if_cong)
  show ?thesis using dht_transaction [of w ps 45 0 23 4 72 1 2 3] m
    by (simp add: w_def dht0_def dht_fields0_def actuators.defs dht.defs)
qed

end
