(* ===== verification/Text_Format.thy ===== *)
theory Text_Format
  imports Motor
begin

text \<open>
  Building text in a character array through a moving pointer: the static helpers of
  \<^verbatim>\<open>Software/VL53_DMA.c\<close> (for the debug line) and of \<^verbatim>\<open>applications/main.c\<close> (for the display), two
  copies of the same idea with different rounding of fractions.

  A cursor is the array with the position of the pointer. Every write is bounds checked, so a result
  \<open>None\<close> is a write past the end of the array.
\<close>

type_synonym cursor = "string \<times> nat"

abbreviation NUL :: char where "NUL \<equiv> CHR 0x00"

definition digit :: "nat \<Rightarrow> char" where
  "digit d = char_of (48 + d)"

subsection \<open>Characters and strings\<close>

definition VL53_AppendChar :: "char \<Rightarrow> cursor \<Rightarrow> cursor option" where
  "VL53_AppendChar ch c = (let (b, p) = c in
     Option.bind (wr b p ch) (\<lambda>b. Option.bind (wr b (p + 1) NUL) (\<lambda>b. Some (b, p + 1))))"

definition store_char :: "char \<Rightarrow> cursor \<Rightarrow> cursor option" where
  "store_char ch c = (let (b, p) = c in Option.bind (wr b p ch) (\<lambda>b. Some (b, p + 1)))"

definition VL53_AppendString :: "string \<Rightarrow> cursor \<Rightarrow> cursor option" where
  "VL53_AppendString str c = Option.bind (for_each store_char str c)
     (\<lambda>(b, p). Option.bind (wr b p NUL) (\<lambda>b. Some (b, p)))"

definition main_append_char :: "char \<Rightarrow> cursor \<Rightarrow> cursor option" where
  "main_append_char ch c = (let (b, p) = c in
     Option.bind (wr b p ch) (\<lambda>b. Option.bind (wr b (p + 1) NUL) (\<lambda>b. Some (b, p + 1))))"

definition main_append_string :: "string \<Rightarrow> cursor \<Rightarrow> cursor option" where
  "main_append_string = for_each main_append_char"

subsection \<open>Numbers\<close>

text \<open>\<^verbatim>\<open>temp[index++] = '0' + value % 10; value /= 10;\<close> while \<^verbatim>\<open>value > 0\<close>, then the digits backwards\<close>

function fill_temp :: "nat \<Rightarrow> string \<Rightarrow> nat \<Rightarrow> (string \<times> nat) option" where
  "fill_temp value temp index =
    (if 0 < value then Option.bind (wr temp index (digit (value mod 10)))
       (\<lambda>temp. fill_temp (value div 10) temp (index + 1))
     else Some (temp, index))"
  by auto
termination by (relation "measure fst") auto

declare fill_temp.simps [simp del]

primrec emit_temp :: "(char \<Rightarrow> cursor \<Rightarrow> cursor option) \<Rightarrow> string \<Rightarrow> nat \<Rightarrow> cursor \<Rightarrow> cursor option" where
  "emit_temp put temp 0 c = Some c"
| "emit_temp put temp (Suc index) c =
     Option.bind (rd temp index) (\<lambda>ch. Option.bind (put ch c) (emit_temp put temp index))"

definition append_unsigned :: "(char \<Rightarrow> cursor \<Rightarrow> cursor option) \<Rightarrow> u32 \<Rightarrow> cursor \<Rightarrow> cursor option" where
  "append_unsigned put value c =
    (if value = 0 then put (digit 0) c
     else Option.bind (fill_temp (unat value) (replicate 16 NUL) 0)
       (\<lambda>(temp, index). emit_temp put temp index c))"

definition VL53_AppendUnsigned :: "u32 \<Rightarrow> cursor \<Rightarrow> cursor option" where
  "VL53_AppendUnsigned = append_unsigned VL53_AppendChar"

definition main_append_unsigned :: "u32 \<Rightarrow> cursor \<Rightarrow> cursor option" where
  "main_append_unsigned = append_unsigned main_append_char"

definition VL53_AppendSigned :: "int \<Rightarrow> cursor \<Rightarrow> cursor option" where
  "VL53_AppendSigned value c = Option.bind (if value < 0 then VL53_AppendChar CHR ''-'' c else Some c)
     (VL53_AppendUnsigned (word_of_int (if value < 0 then neg32 value else value)))"

subsection \<open>Fractions\<close>

text \<open>\<^verbatim>\<open>scale = 10 * ... * 10\<close> in 32 bits; \<^verbatim>\<open>int_part++\<close> of a 32-bit integer\<close>

definition scale10 :: "nat \<Rightarrow> u32" where
  "scale10 decimals = (((*) 10) ^^ decimals) 1"

definition inc32 :: "int \<Rightarrow> int" where
  "inc32 n = (if n = 2 ^ 31 - 1 then - (2 ^ 31) else n + 1)"

definition vl53_parts :: "f32 \<Rightarrow> u32 \<Rightarrow> int \<times> u32" where
  "vl53_parts value scale = (let
     int_part = f32_to_s32 value;
     frac_part = f32_to_u32 (fadd (fmul (fsub value (f32_of_int int_part)) (f32_of_int (uint scale))) (flit (1 / 2)))
   in if scale \<le> frac_part then (inc32 int_part, frac_part - scale) else (int_part, frac_part))"

primrec vl53_frac :: "nat \<Rightarrow> u32 \<Rightarrow> u32 \<Rightarrow> cursor \<Rightarrow> cursor option" where
  "vl53_frac 0 scale frac_part c = Some c"
| "vl53_frac (Suc n) scale frac_part c = (let div10 = scale div 10 in
     Option.bind (VL53_AppendChar (digit (unat ((frac_part div div10) mod 10))) c) (vl53_frac n div10 frac_part))"

definition VL53_AppendFloat :: "f32 \<Rightarrow> u8 \<Rightarrow> cursor \<Rightarrow> cursor option" where
  "VL53_AppendFloat value decimals c = (let scale = scale10 (unat decimals); neg = flt value (flit 0) in
     Option.bind (if neg then VL53_AppendChar CHR ''-'' c else Some c) (\<lambda>c. let
       value = (if neg then fneg value else value);
       (int_part, frac_part) = vl53_parts value scale in
     Option.bind (VL53_AppendSigned int_part c) (\<lambda>c.
       if decimals = 0 then Some c
       else Option.bind (VL53_AppendChar CHR ''.'' c) (vl53_frac (unat decimals) scale frac_part))))"

definition main_parts :: "f32 \<Rightarrow> u32 \<Rightarrow> u32 \<times> u32" where
  "main_parts value scale = (let
     value = fadd value (fdiv (flit (1 / 2)) (f32_of_int (uint scale)));
     integer = f32_to_u32 value;
     fraction = f32_to_u32 (fmul (fsub value (f32_of_int (uint integer))) (f32_of_int (uint scale)))
   in (integer, fraction))"

primrec main_frac :: "nat \<Rightarrow> u32 \<Rightarrow> cursor \<Rightarrow> cursor option" where
  "main_frac 0 fraction c = Some c"
| "main_frac (Suc i) fraction c = Option.bind
     (main_append_char (digit (unat ((fraction div scale10 i) mod 10))) c) (main_frac i fraction)"

definition main_append_fixed :: "f32 \<Rightarrow> u8 \<Rightarrow> cursor \<Rightarrow> cursor option" where
  "main_append_fixed value decimals c = (let scale = scale10 (unat decimals); neg = flt value (flit 0) in
     Option.bind (if neg then main_append_char CHR ''-'' c else Some c) (\<lambda>c. let
       value = (if neg then fneg value else value);
       (integer, fraction) = main_parts value scale in
     Option.bind (main_append_unsigned integer c) (\<lambda>c.
       if 0 < decimals then Option.bind (main_append_char CHR ''.'' c) (main_frac (unat decimals) fraction)
       else Some c)))"

text \<open>\<^verbatim>\<open>strlen\<close> of an array that holds a terminator\<close>

definition strlen :: "string \<Rightarrow> nat" where
  "strlen b = length (takeWhile (\<lambda>ch. ch \<noteq> NUL) b)"

subsection \<open>What appending means\<close>

text \<open>
  \<open>appends f s\<close>: wherever the array has room for \<open>s\<close> and a terminator, \<open>f\<close> writes \<open>s\<close> behind the
  text so far, terminates it and moves the pointer behind it.
\<close>

definition appends :: "(cursor \<Rightarrow> cursor option) \<Rightarrow> string \<Rightarrow> bool" where
  "appends f s \<longleftrightarrow> (\<forall>b p. p + length s < length b \<longrightarrow>
     (\<exists>b'. f (b, p) = Some (b', p + length s) \<and> length b' = length b \<and>
       take (p + length s) b' = take p b @ s \<and> (s \<noteq> [] \<longrightarrow> b' ! (p + length s) = NUL)))"

lemma appendsD:
  assumes "appends f s" "p + length s < length b"
  obtains b' where "f (b, p) = Some (b', p + length s)" "length b' = length b"
    "take (p + length s) b' = take p b @ s" "s \<noteq> [] \<Longrightarrow> b' ! (p + length s) = NUL"
  using assms unfolding appends_def by blast

lemma appends_nothing: "appends Some []"
  by (simp add: appends_def)

lemma appends_then:
  assumes f: "appends f s" and g: "appends g t" and t: "t = [] \<Longrightarrow> g = Some"
  shows "appends (\<lambda>c. Option.bind (f c) g) (s @ t)"
  unfolding appends_def
proof (intro allI impI)
  fix b :: string and p
  assume room: "p + length (s @ t) < length b"
  obtain b1 where 1: "f (b, p) = Some (b1, p + length s)" "length b1 = length b"
    "take (p + length s) b1 = take p b @ s" "s \<noteq> [] \<Longrightarrow> b1 ! (p + length s) = NUL"
    by (rule appendsD [OF f, of p b]) (use room in auto)
  obtain b2 where 2: "g (b1, p + length s) = Some (b2, p + length s + length t)" "length b2 = length b1"
    "take (p + length s + length t) b2 = take (p + length s) b1 @ t"
    "t \<noteq> [] \<Longrightarrow> b2 ! (p + length s + length t) = NUL"
    by (rule appendsD [OF g, of "p + length s" b1]) (use room 1 in auto)
  show "\<exists>b'. Option.bind (f (b, p)) g = Some (b', p + length (s @ t)) \<and> length b' = length b \<and>
      take (p + length (s @ t)) b' = take p b @ s @ t \<and> (s @ t \<noteq> [] \<longrightarrow> b' ! (p + length (s @ t)) = NUL)"
  proof (cases "t = []")
    case True
    then have "b2 = b1" using t 2(1) by simp
    then show ?thesis using 1 2 True by auto
  next
    case False
    then show ?thesis using 1 2 by (auto simp: add.assoc)
  qed
qed

lemma take_write: "p < length b \<Longrightarrow> take (Suc p) (b[p := x]) = take p b @ [x]"
  by (simp add: take_Suc_conv_app_nth)

lemma store_string:
  "p + length s < length b \<Longrightarrow> \<exists>b'. for_each store_char s (b, p) = Some (b', p + length s) \<and>
     length b' = length b \<and> take (p + length s) b' = take p b @ s"
proof (induction s arbitrary: b p)
  case (Cons ch s)
  from Cons.IH [of "Suc p" "b[p := ch]"] Cons.prems obtain b' where
    "for_each store_char s (b[p := ch], Suc p) = Some (b', Suc p + length s)" "length b' = length b"
    "take (Suc p + length s) b' = take (Suc p) (b[p := ch]) @ s" by auto
  moreover have "store_char ch (b, p) = Some (b[p := ch], Suc p)"
    using Cons.prems by (simp add: store_char_def wr_Some)
  ultimately show ?case using Cons.prems by (simp add: take_write)
qed simp

lemma AppendString_appends: "appends (VL53_AppendString s) s"
  unfolding appends_def
proof (intro allI impI)
  fix b p assume "p + length s < length (b :: string)"
  with store_string [OF this] show "\<exists>b'. VL53_AppendString s (b, p) = Some (b', p + length s) \<and> length b' = length b \<and>
      take (p + length s) b' = take p b @ s \<and> (s \<noteq> [] \<longrightarrow> b' ! (p + length s) = NUL)"
    by (auto simp: VL53_AppendString_def wr_Some)
qed

subsection \<open>A sink for characters\<close>

text \<open>The interface of the number printers: something that appends one character.\<close>

locale char_sink =
  fixes put :: "char \<Rightarrow> cursor \<Rightarrow> cursor option"
  assumes put_appends: "appends (put ch) [ch]"

fun decimal :: "nat \<Rightarrow> string" where
  "decimal v = (if v < 10 then [digit v] else decimal (v div 10) @ [digit (v mod 10)])"

declare decimal.simps [simp del]

lemma decimal_ne [simp]: "decimal v \<noteq> []"
  by (subst decimal.simps) simp

lemma length_decimal: "v < 10 ^ k \<Longrightarrow> 0 < k \<Longrightarrow> length (decimal v) \<le> k"
proof (induction k arbitrary: v)
  case (Suc k)
  show ?case
  proof (cases "v < 10")
    case False
    then have "0 < k" using Suc.prems by (cases k) auto
    moreover have "v div 10 < 10 ^ k" using Suc.prems by (simp add: less_mult_imp_div_less mult.commute)
    ultimately show ?thesis using Suc.IH [of "v div 10"] False by (subst decimal.simps) simp
  qed (subst decimal.simps, simp)
qed simp

lemma fill_temp_decimal:
  "0 < v \<Longrightarrow> index + length (decimal v) \<le> length temp \<Longrightarrow>
    \<exists>temp'. fill_temp v temp index = Some (temp', index + length (decimal v)) \<and> length temp' = length temp \<and>
      take (index + length (decimal v)) temp' = take index temp @ rev (decimal v)"
proof (induction v arbitrary: temp index rule: less_induct)
  case (less v)
  show ?case
  proof (cases "v < 10")
    case True
    then have d: "decimal v = [digit v]" by (subst decimal.simps) simp
    have "fill_temp v temp index = Some (temp[index := digit v], Suc index)"
      using True less.prems d by (simp add: fill_temp.simps [of v] fill_temp.simps [of 0] wr_Some)
    then show ?thesis using less.prems d by (simp add: take_write)
  next
    case False
    then have d: "decimal v = decimal (v div 10) @ [digit (v mod 10)]" by (subst decimal.simps) simp
    have i: "index < length temp" using less.prems d by simp
    have "0 < v div 10" "v div 10 < v" using False by auto
    with less.IH [of "v div 10" "Suc index" "temp[index := digit (v mod 10)]"] less.prems d
    obtain t where "fill_temp (v div 10) (temp[index := digit (v mod 10)]) (Suc index) =
        Some (t, Suc index + length (decimal (v div 10)))" "length t = length temp"
      "take (Suc index + length (decimal (v div 10))) t = take (Suc index) (temp[index := digit (v mod 10)]) @ rev (decimal (v div 10))"
      by auto
    then show ?thesis using less.prems d i by (simp add: fill_temp.simps [of v] wr_Some take_write)
  qed
qed

context char_sink
begin

lemma emit_appends: "index \<le> length temp \<Longrightarrow> appends (emit_temp put temp index) (rev (take index temp))"
proof (induction index)
  case 0
  have "emit_temp put temp 0 = Some" by (rule ext) simp
  then show ?case using appends_nothing by simp
next
  case (Suc i)
  have e: "emit_temp put temp (Suc i) = (\<lambda>c. Option.bind (put (temp ! i) c) (emit_temp put temp i))"
    using Suc.prems by (intro ext) (simp add: rd_Some)
  have "appends (\<lambda>c. Option.bind (put (temp ! i) c) (emit_temp put temp i)) ([temp ! i] @ rev (take i temp))"
    by (rule appends_then [OF put_appends Suc.IH]) (use Suc.prems in \<open>auto intro!: ext\<close>)
  then show ?case using Suc.prems unfolding e by (simp add: take_Suc_conv_app_nth)
qed

lemma append_unsigned_appends: "appends (append_unsigned put v) (decimal (unat v))"
proof (cases "v = 0")
  case True
  then have "append_unsigned put v = put (digit 0)" by (auto simp: append_unsigned_def)
  then show ?thesis using True put_appends by (simp add: decimal.simps)
next
  case False
  have v: "0 < unat v" using False by (simp add: unat_gt_0)
  have "unat v < 2 ^ 32" using unsigned_less [of v] by simp
  then have "length (decimal (unat v)) \<le> 10" by (intro length_decimal) auto
  with fill_temp_decimal [OF v, of 0 "replicate 16 NUL"] obtain t where
    t: "fill_temp (unat v) (replicate 16 NUL) 0 = Some (t, length (decimal (unat v)))"
      "take (length (decimal (unat v))) t = rev (decimal (unat v))" "length t = 16" by auto
  have "append_unsigned put v = emit_temp put t (length (decimal (unat v)))"
    using False t by (auto simp: append_unsigned_def)
  then show ?thesis using emit_appends [of "length (decimal (unat v))" t] t
      \<open>length (decimal (unat v)) \<le> 10\<close> by simp
qed

end

lemma AppendChar_appends: "appends (VL53_AppendChar ch) [ch]" "appends (main_append_char ch) [ch]"
  by (auto simp: appends_def VL53_AppendChar_def main_append_char_def wr_Some take_write)

interpretation vl53_sink: char_sink VL53_AppendChar
  by unfold_locales (rule AppendChar_appends)

interpretation main_sink: char_sink main_append_char
  by unfold_locales (rule AppendChar_appends)

lemmas AppendUnsigned_appends =
  vl53_sink.append_unsigned_appends [folded VL53_AppendUnsigned_def]
  main_sink.append_unsigned_appends [folded main_append_unsigned_def]

subsection \<open>The text of a number\<close>

definition signed_text :: "int \<Rightarrow> string" where
  "signed_text n = (if n < 0 then ''-'' else []) @ decimal (nat \<bar>n\<bar>)"

definition digits :: "nat \<Rightarrow> nat \<Rightarrow> string" where
  "digits n v = map (\<lambda>i. digit (v div 10 ^ i mod 10)) (rev [0..<n])"

lemma length_digits [simp]: "length (digits n v) = n"
  by (simp add: digits_def)

lemma digits_Suc: "digits (Suc n) v = digit (v div 10 ^ n mod 10) # digits n v"
  by (simp add: digits_def)

definition vl53_text :: "f32 \<Rightarrow> u8 \<Rightarrow> string" where
  "vl53_text value decimals = (let neg = flt value (Fin 0);
     (int_part, frac_part) = vl53_parts (if neg then fneg value else value) (scale10 (unat decimals))
   in (if neg then ''-'' else []) @ signed_text int_part @ ''.'' @ digits (unat decimals) (unat frac_part))"

definition main_text :: "f32 \<Rightarrow> u8 \<Rightarrow> string" where
  "main_text value decimals = (let neg = flt value (Fin 0);
     (integer, fraction) = main_parts (if neg then fneg value else value) (scale10 (unat decimals))
   in (if neg then ''-'' else []) @ decimal (unat integer) @ ''.'' @ digits (unat decimals) (unat fraction))"

lemma unat_scale10: "n \<le> 9 \<Longrightarrow> unat (scale10 n) = 10 ^ n"
proof (induction n)
  case (Suc n)
  have "(10 :: nat) ^ n \<le> 10 ^ 8" using Suc.prems by (intro power_increasing) auto
  then have "unat (10 * scale10 n) = 10 * 10 ^ n" using Suc by (simp add: unat_word_ariths)
  then show ?case by (simp add: scale10_def)
qed (simp add: scale10_def)

lemma maybe_minus:
  "appends (\<lambda>c. if neg then VL53_AppendChar CHR ''-'' c else Some c) (if neg then ''-'' else [])"
  "appends (\<lambda>c. if neg then main_append_char CHR ''-'' c else Some c) (if neg then ''-'' else [])"
  using AppendChar_appends [of "CHR ''-''"] appends_nothing by (cases neg; simp)+

lemma AppendSigned_appends:
  assumes "- (2 ^ 31) \<le> n" "n < 2 ^ 31" shows "appends (VL53_AppendSigned n) (signed_text n)"
proof -
  have u: "unat (word_of_int (if n < 0 then neg32 n else n) :: u32) = nat \<bar>n\<bar>"
  proof -
    have "unat (word_of_int k :: u32) = nat k" if "0 \<le> k" "k < 2 ^ 32" for k
      using that by (simp add: unat_eq_nat_uint uint_word_of_int take_bit_int_eq_self)
    then show ?thesis using assms by (cases "n = - (2 ^ 31)") (auto simp: neg32_def)
  qed
  show ?thesis
    unfolding signed_text_def VL53_AppendSigned_def u [symmetric]
    by (rule appends_then [OF maybe_minus(1) AppendUnsigned_appends(1)]) simp
qed

lemma vl53_frac_appends: "n \<le> 9 \<Longrightarrow> unat scale = 10 ^ n \<Longrightarrow> appends (vl53_frac n scale f) (digits n (unat f))"
proof (induction n arbitrary: scale)
  case 0
  have "vl53_frac 0 scale f = Some" by (rule ext) simp
  then show ?case using appends_nothing by (simp add: digits_def)
next
  case (Suc n)
  have d: "unat (scale div 10) = 10 ^ n" using Suc.prems by (simp add: unat_div)
  have "unat scale div 10 = 10 ^ n" using Suc.prems by simp
  then have x: "unat ((f div (scale div 10)) mod 10) = unat f div 10 ^ n mod 10" by (simp add: unat_div unat_mod)
  have e: "vl53_frac (Suc n) scale f = (\<lambda>c. Option.bind
      (VL53_AppendChar (digit (unat f div 10 ^ n mod 10)) c) (vl53_frac n (scale div 10) f))"
    by (rule ext) (simp add: Let_def x)
  have "appends (vl53_frac (Suc n) scale f) ([digit (unat f div 10 ^ n mod 10)] @ digits n (unat f))"
    unfolding e
    by (rule appends_then [OF AppendChar_appends(1) Suc.IH]) (use Suc.prems d in \<open>auto simp: digits_def\<close>)
  then show ?case by (simp add: digits_Suc del: vl53_frac.simps)
qed

lemma main_frac_appends: "n \<le> 9 \<Longrightarrow> appends (main_frac n f) (digits n (unat f))"
proof (induction n)
  case 0
  have "main_frac 0 f = Some" by (rule ext) simp
  then show ?case using appends_nothing by (simp add: digits_def)
next
  case (Suc n)
  have x: "unat ((f div scale10 n) mod 10) = unat f div 10 ^ n mod 10"
    using Suc.prems by (simp add: unat_div unat_mod unat_scale10)
  have e: "main_frac (Suc n) f = (\<lambda>c. Option.bind
      (main_append_char (digit (unat f div 10 ^ n mod 10)) c) (main_frac n f))"
    by (rule ext) (simp add: x)
  have "appends (main_frac (Suc n) f) ([digit (unat f div 10 ^ n mod 10)] @ digits n (unat f))"
    unfolding e by (rule appends_then [OF AppendChar_appends(2) Suc.IH]) (use Suc.prems in \<open>auto simp: digits_def\<close>)
  then show ?case by (simp add: digits_Suc del: main_frac.simps)
qed

lemma f32_to_s32_range: "- (2 ^ 31) \<le> f32_to_s32 x \<and> f32_to_s32 x < 2 ^ 31"
  by (cases x) (auto simp: clamp_int_def)

lemma vl53_parts_range:
  "vl53_parts x s = (i, f) \<Longrightarrow> - (2 ^ 31) \<le> i \<and> i < 2 ^ 31"
  using f32_to_s32_range [of x] by (auto simp: vl53_parts_def inc32_def Let_def split: if_splits)

lemma AppendFloat_appends:
  assumes "0 < d" "unat d \<le> 9" shows "appends (VL53_AppendFloat x d) (vl53_text x d)"
proof -
  define neg where "neg = flt x (Fin 0)"
  obtain i f where p: "vl53_parts (if neg then fneg x else x) (scale10 (unat d)) = (i, f)" by fastforce
  have e: "VL53_AppendFloat x d = (\<lambda>c. Option.bind (if neg then VL53_AppendChar CHR ''-'' c else Some c)
      (\<lambda>c. Option.bind (VL53_AppendSigned i c) (\<lambda>c. Option.bind (VL53_AppendChar CHR ''.'' c)
        (vl53_frac (unat d) (scale10 (unat d)) f))))"
    using assms p by (intro ext) (simp add: word_gt_0 VL53_AppendFloat_def Let_def neg_def)
  have t: "vl53_text x d = (if neg then ''-'' else []) @ signed_text i @ ''.'' @ digits (unat d) (unat f)"
    using p by (simp add: vl53_text_def Let_def neg_def)
  have d: "digits (unat d) (unat f) \<noteq> []" using assms by (auto simp flip: length_greater_0_conv simp: word_gt_0 unat_gt_0)
  show ?thesis unfolding e t
    by (intro appends_then maybe_minus AppendSigned_appends AppendChar_appends vl53_frac_appends)
      (use vl53_parts_range [OF p] assms unat_scale10 d in auto)
qed

lemma append_fixed_appends:
  assumes "0 < d" "unat d \<le> 9" shows "appends (main_append_fixed x d) (main_text x d)"
proof -
  define neg where "neg = flt x (Fin 0)"
  obtain i f where p: "main_parts (if neg then fneg x else x) (scale10 (unat d)) = (i, f)" by fastforce
  have e: "main_append_fixed x d = (\<lambda>c. Option.bind (if neg then main_append_char CHR ''-'' c else Some c)
      (\<lambda>c. Option.bind (main_append_unsigned i c) (\<lambda>c. Option.bind (main_append_char CHR ''.'' c)
        (main_frac (unat d) f))))"
    using assms p by (intro ext) (simp add: word_gt_0 main_append_fixed_def Let_def neg_def)
  have t: "main_text x d = (if neg then ''-'' else []) @ decimal (unat i) @ ''.'' @ digits (unat d) (unat f)"
    using p by (simp add: main_text_def Let_def neg_def)
  have d: "digits (unat d) (unat f) \<noteq> []" using assms by (auto simp flip: length_greater_0_conv simp: word_gt_0 unat_gt_0)
  show ?thesis unfolding e t
    by (intro appends_then maybe_minus AppendUnsigned_appends AppendChar_appends main_frac_appends)
      (use assms d in auto)
qed

lemma string_appends: "appends (main_append_string s) s"
proof (induction s)
  case Nil
  have "main_append_string [] = Some" by (rule ext) (simp add: main_append_string_def)
  then show ?case using appends_nothing by simp
next
  case (Cons a s)
  have e: "main_append_string (a # s) = (\<lambda>c. Option.bind (main_append_char a c) (main_append_string s))"
    by (rule ext) (simp add: main_append_string_def)
  have "appends (main_append_string (a # s)) ([a] @ s)"
    unfolding e by (rule appends_then [OF AppendChar_appends(2) Cons]) (auto simp: main_append_string_def)
  then show ?case by simp
qed

subsection \<open>Reading the text back\<close>

definition read_digits :: "string \<Rightarrow> nat" where
  "read_digits s = foldl (\<lambda>a ch. 10 * a + (of_char ch - 48)) 0 s"

lemma of_char_digit: "d < 10 \<Longrightarrow> (of_char (digit d) :: nat) - 48 = d"
  by (simp add: digit_def of_char_of take_bit_nat_eq_self)

lemma read_decimal: "read_digits (decimal v) = v"
proof (induction v rule: less_induct)
  case (less v)
  show ?case
  proof (cases "v < 10")
    case True
    then show ?thesis by (subst decimal.simps) (simp add: read_digits_def of_char_digit)
  next
    case False
    then have d: "decimal v = decimal (v div 10) @ [digit (v mod 10)]" by (subst decimal.simps) simp
    show ?thesis using less.IH [of "v div 10"] False unfolding d by (simp add: read_digits_def of_char_digit)
  qed
qed

lemma read_digits_from:
  "foldl (\<lambda>a ch. 10 * a + (of_char ch - 48)) a (digits n v) = a * 10 ^ n + v mod 10 ^ n"
proof (induction n arbitrary: a)
  case (Suc n)
  have "v mod (10 * 10 ^ n) = 10 ^ n * (v div 10 ^ n mod 10) + v mod 10 ^ n"
    using mod_mult2_eq [of v "10 ^ n" 10] by (simp add: mult.commute)
  then show ?case using Suc by (simp add: digits_Suc of_char_digit algebra_simps)
qed (simp add: digits_def)

lemma read_fraction: "v < 10 ^ n \<Longrightarrow> read_digits (digits n v) = v"
  by (simp add: read_digits_def read_digits_from)

text \<open>The number a text shows: an optional sign, digits, a point, digits.\<close>

definition displays :: "string \<Rightarrow> nat \<Rightarrow> rat \<Rightarrow> bool" where
  "displays s n x \<longleftrightarrow> (\<exists>neg i f. s = (if neg then ''-'' else []) @ decimal i @ ''.'' @ digits n f \<and> f < 10 ^ n \<and>
     x = (if neg then - 1 else 1) * (of_nat (read_digits (decimal i)) + of_nat (read_digits (digits n f)) / 10 ^ n))"

subsection \<open>Accuracy\<close>

text \<open>The scales in use, 10 and 100.\<close>

lemma f32_rep_halves [simp]: "f32_rep (1 / 2)" "f32_rep (201 / 2)" "f32_rep (21 / 2)"
  using f32_rep_dyadic [of _ 1 "-1"] f32_rep_dyadic [of _ 201 "-1"] f32_rep_dyadic [of _ 21 "-1"]
  by (simp_all add: pow2_def)

text \<open>Below the next integer a float keeps a distance of at least \<open>2 ^ -24\<close>.\<close>

lemma frac_gap:
  assumes "f32_rep v" "0 \<le> v" shows "v - of_int \<lfloor>v\<rfloor> \<le> 1 - 1 / 16777216"
proof (cases "v < 1 / 2")
  case True
  then have "\<lfloor>v\<rfloor> = 0" using assms(2) by (intro floor_unique) auto
  then show ?thesis using True by simp
next
  case False
  then obtain n where n: "v = of_int n * pow2 (-24)"
    using rep_multiple [OF assms(1), of "-24"] by (auto simp: pow2_def)
  have lt: "v - of_int \<lfloor>v\<rfloor> < 1" by linarith
  have "v * 16777216 = of_int n" by (simp add: n pow2_def)
  then have "(v - of_int \<lfloor>v\<rfloor>) * 16777216 = of_int (n - 16777216 * \<lfloor>v\<rfloor>)" by (simp add: algebra_simps)
  moreover have "(v - of_int \<lfloor>v\<rfloor>) * 16777216 < of_int 16777216" using lt by simp
  ultimately have "n - 16777216 * \<lfloor>v\<rfloor> < 16777216" by (simp only: of_int_less_iff)
  then have "n - 16777216 * \<lfloor>v\<rfloor> \<le> 16777215" by simp
  then have "(of_int (n - 16777216 * \<lfloor>v\<rfloor>) :: rat) \<le> of_int 16777215" by (simp only: of_int_le_iff)
  then show ?thesis using \<open>(v - of_int \<lfloor>v\<rfloor>) * 16777216 = of_int (n - 16777216 * \<lfloor>v\<rfloor>)\<close> by simp
qed

lemma f32_rep_gap [simp]: "f32_rep (16777215 / 16777216)"
  by (rule f32_rep_dyadic [of _ 16777215 "-24"]) (auto simp: pow2_def)

text \<open>Taking the fractional part of a float is accurate.\<close>

lemma fraction_of:
  assumes "f32_rep v" "0 \<le> v" "v \<le> 2 ^ 20"
  obtains i f where "\<lfloor>v\<rfloor> = int i" "i \<le> 2 ^ 20" "f32_of_int (int i) = Fin (of_nat i)"
    "f32_round (v - of_nat i) = Fin f" "f32_rep f" "0 \<le> f" "f \<le> 16777215 / 16777216"
    "\<bar>f - (v - of_nat i)\<bar> \<le> 1 / 33554432"
proof -
  define i where "i = nat \<lfloor>v\<rfloor>"
  have i: "\<lfloor>v\<rfloor> = int i" using assms(2) by (simp add: i_def)
  have "of_int \<lfloor>v\<rfloor> \<le> v" by simp
  then have iv: "of_nat i \<le> v" using i by (metis of_int_of_nat_eq)
  then have "(of_nat i :: rat) \<le> of_nat (2 ^ 20)" using assms(3) by simp
  then have i20: "i \<le> 2 ^ 20" by (simp only: of_nat_le_iff)
  have e: "f32_of_int (int i) = Fin (of_nat i)" using i20 by (subst f32_of_int_exact) auto
  have g: "v - of_nat i \<le> 16777215 / 16777216" using frac_gap [OF assms(1,2)] i by simp
  obtain f where "f32_round (v - of_nat i) = Fin f" "f32_rep f" "0 \<le> f" "f \<le> 16777215 / 16777216"
    "\<bar>f - (v - of_nat i)\<bar> \<le> 1 / 33554432"
    by (rule f32_round_near [of 0 "16777215 / 16777216" "v - of_nat i" "-24"]) (use iv g in \<open>auto simp: pow2_def\<close>)
  then show ?thesis using that i i20 e by blast
qed

lemma f32_to_u32_floor:
  assumes "0 \<le> a" "a < 2 ^ 31" shows "f32_to_u32 (Fin a) = of_nat (nat \<lfloor>a\<rfloor>)"
proof -
  have f: "\<lfloor>a\<rfloor> < 2 ^ 31" "0 \<le> \<lfloor>a\<rfloor>" using assms by (simp_all add: floor_less_iff)
  from f(2) obtain k where k: "\<lfloor>a\<rfloor> = int k" by (rule nonneg_int_cases)
  then show ?thesis using assms f by (simp add: rtrunc_def clamp_int_def)
qed

lemma f32_to_s32_floor:
  assumes "0 \<le> a" "a < 2 ^ 31" shows "f32_to_s32 (Fin a) = \<lfloor>a\<rfloor>"
proof -
  have "\<lfloor>a\<rfloor> < 2 ^ 31" "0 \<le> \<lfloor>a\<rfloor>" using assms by (simp_all add: floor_less_iff)
  then show ?thesis using assms by (simp add: rtrunc_def clamp_int_def)
qed

lemma scale_product:
  assumes "f32_rep f" "0 \<le> f" "f \<le> 16777215 / 16777216" "S = 10 \<or> S = 100"
  obtains m where "f32_round (f * S) = Fin m" "f32_rep m" "0 \<le> m" "m < S" "\<bar>m - f * S\<bar> \<le> 1 / 262144"
  using assms(4)
proof
  assume S: "S = 10"
  obtain m where m: "f32_round (f * 10) = Fin m" "f32_rep m" "0 \<le> m" "m \<le> 10" "\<bar>m - f * 10\<bar> \<le> 1 / 2097152"
    by (rule f32_round_near [of 0 10 "f * 10" "-20"]) (use assms in \<open>auto simp: pow2_def\<close>)
  then show ?thesis using assms(3) S abs_le_D1 [OF m(5)] by (intro that [of m]) (auto simp: S)
next
  assume S: "S = 100"
  obtain m where m: "f32_round (f * 100) = Fin m" "f32_rep m" "0 \<le> m" "m \<le> 100" "\<bar>m - f * 100\<bar> \<le> 1 / 262144"
    by (rule f32_round_near [of 0 100 "f * 100" "-17"]) (use assms in \<open>auto simp: pow2_def\<close>)
  then show ?thesis using assms(3) S abs_le_D1 [OF m(5)] by (intro that [of m]) (auto simp: S)
qed

lemma vl53_parts_accurate:
  assumes v: "f32_rep v" "0 \<le> v" "v \<le> 2 ^ 20" and S: "S = 10 \<or> S = 100" "int S = uint scale"
  obtains i f where "vl53_parts (Fin v) scale = (int i, f)" "unat f < S"
    "\<bar>of_nat i + of_nat (unat f) / of_nat S - v\<bar> \<le> (1 / 2 + 1 / 50000) / of_nat S"
proof -
  obtain i q where i: "\<lfloor>v\<rfloor> = int i" "i \<le> 2 ^ 20" "f32_of_int (int i) = Fin (of_nat i)"
    and q: "f32_round (v - of_nat i) = Fin q" "f32_rep q" "0 \<le> q" "q \<le> 16777215 / 16777216"
      "\<bar>q - (v - of_nat i)\<bar> \<le> 1 / 33554432" by (rule fraction_of [OF v])
  have SS: "of_nat S = (10 :: rat) \<or> of_nat S = (100 :: rat)" using S(1) by auto
  obtain m where m: "f32_round (q * of_nat S) = Fin m" "f32_rep m" "0 \<le> m" "m < of_nat S" "\<bar>m - q * of_nat S\<bar> \<le> 1 / 262144"
    by (rule scale_product [OF q(2-4) SS])
  have hi: "f32_rep (of_nat S + 1 / 2)" using S(1) by auto
  obtain a where a: "f32_round (m + 1 / 2) = Fin a" "0 \<le> a" "a \<le> of_nat S + 1 / 2" "\<bar>a - (m + 1 / 2)\<bar> \<le> 1 / 262144"
    by (rule f32_round_near [of 0 "of_nat S + 1 / 2" "m + 1 / 2" "-17"]) (use m S(1) hi in \<open>auto simp: pow2_def\<close>)
  define g where "g = nat \<lfloor>a\<rfloor>"
  have a31: "a < 2 ^ 31" using a(3) S(1) by auto
  have g: "\<lfloor>a\<rfloor> = int g" using a(2) by (simp add: g_def)
  have ga: "of_nat g \<le> a" "a < of_nat g + 1" using g floor_correct [of a] by auto
  have "(of_nat g :: rat) < of_nat (S + 1)" using ga(1) a(3) by simp
  then have gS: "g \<le> S" by (simp only: of_nat_less_iff)
  have fs: "f32_of_int (uint scale) = Fin (of_nat S)" unfolding S(2) [symmetric] using S(1) by (subst f32_of_int_exact) auto
  have v31: "f32_to_s32 (Fin v) = int i" using v i(1) by (subst f32_to_s32_floor) auto
  have p: "vl53_parts (Fin v) scale = (if scale \<le> of_nat g then (inc32 (int i), of_nat g - scale) else (int i, of_nat g))"
    using i q m a by (simp add: vl53_parts_def Let_def v31 fs fsub_def f32_to_u32_floor [OF a(2) a31] f32_round_rep
        del: f32_to_s32.simps f32_to_u32.simps flip: g_def)
  have err: "\<bar>of_nat i + of_nat g / of_nat S - v\<bar> \<le> (1 / 2 + 1 / 50000) / of_nat S"
  proof -
    define e1 e2 e3 where "e1 = q - (v - of_nat i)" "e2 = m - q * of_nat S" "e3 = a - (m + 1 / 2)"
    note e = this
    have "\<bar>e1\<bar> \<le> 1 / 33554432" "\<bar>e2\<bar> \<le> 1 / 262144" "\<bar>e3\<bar> \<le> 1 / 262144" using q(5) m(5) a(4) unfolding e .
    note b = this [THEN abs_le_D1] this [THEN abs_le_D2]
    define x where "x = (of_nat g - a) + 1 / 2 + e3 + e2 + e1 * of_nat S"
    have "\<bar>x\<bar> \<le> 1 / 2 + 1 / 50000" using ga b SS unfolding x_def by (intro abs_leI) auto
    then have "\<bar>x\<bar> / of_nat S \<le> (1 / 2 + 1 / 50000) / of_nat S" by (intro divide_right_mono) auto
    moreover have "of_nat i + of_nat g / of_nat S - v = x / of_nat S"
    proof -
      have "x = of_nat g - (v - of_nat i) * of_nat S" unfolding x_def e by (simp add: algebra_simps)
      moreover have "(of_nat g - (v - of_nat i) * of_nat S) / of_nat S = of_nat g / of_nat S - (v - of_nat i)"
        using S(1) by (subst diff_divide_distrib, subst nonzero_mult_div_cancel_right) auto
      ultimately have "x / of_nat S = of_nat g / of_nat S - (v - of_nat i)" by (simp only:)
      then show ?thesis by linarith
    qed
    ultimately show ?thesis by (simp only: abs_divide abs_of_nat)
  qed
  have us: "unat scale = S" unfolding unat_eq_nat_uint S(2) [symmetric] by (rule nat_int)
  have "g < 2 ^ 32" using gS S(1) by auto
  then have ug: "unat (of_nat g :: u32) = g" by (simp add: unat_of_nat take_bit_nat_eq_self)
  show ?thesis
  proof (cases "g = S")
    case True
    have "vl53_parts (Fin v) scale = (int (i + 1), 0)"
      using True us p i(2) word_unat_eq_iff [of "of_nat g" scale] ug by (simp add: inc32_def)
    then show ?thesis using err True S(1) by (intro that [of "i + 1" 0]) (auto simp: add.commute)
  next
    case False
    then have "\<not> scale \<le> of_nat g" using us ug gS by (simp add: word_le_nat_alt)
    then show ?thesis using p err ug gS False by (intro that [of i "of_nat g"]) auto
  qed
qed

lemma main_parts_accurate:
  assumes v: "f32_rep v" "0 \<le> v" "v \<le> 1000" and S: "S = 10 \<or> S = 100" "int S = uint scale"
  obtains i f where "main_parts (Fin v) scale = (i, f)" "unat f < S" "unat i \<le> 1001"
    "\<bar>of_nat (unat i) + of_nat (unat f) / of_nat S - v\<bar> \<le> 1 / 2 / of_nat S + 1 / 20000"
proof -
  have SS: "of_nat S = (10 :: rat) \<or> of_nat S = (100 :: rat)" using S(1) by auto
  obtain h where h: "f32_round (1 / 2 / of_nat S) = Fin h" "0 \<le> h" "h \<le> 1 / 2" "\<bar>h - 1 / 2 / of_nat S\<bar> \<le> 1 / 33554432"
    by (rule f32_round_near [of 0 "1 / 2" "1 / 2 / of_nat S" "-24"]) (use SS in \<open>auto simp: pow2_def\<close>)
  obtain w where w: "f32_round (v + h) = Fin w" "f32_rep w" "0 \<le> w" "w \<le> 1001" "\<bar>w - (v + h)\<bar> \<le> 1 / 32768"
    by (rule f32_round_near [of 0 1001 "v + h" "-14"]) (use v h in \<open>auto simp: pow2_def\<close>)
  obtain i f where i: "\<lfloor>w\<rfloor> = int i" "i \<le> 2 ^ 20" "f32_of_int (int i) = Fin (of_nat i)"
    and f: "f32_round (w - of_nat i) = Fin f" "f32_rep f" "0 \<le> f" "f \<le> 16777215 / 16777216"
      "\<bar>f - (w - of_nat i)\<bar> \<le> 1 / 33554432"
    by (rule fraction_of [of w]) (use w in auto)
  obtain m where m: "f32_round (f * of_nat S) = Fin m" "f32_rep m" "0 \<le> m" "m < of_nat S" "\<bar>m - f * of_nat S\<bar> \<le> 1 / 262144"
    by (rule scale_product [OF f(2-4) SS])
  define g where "g = nat \<lfloor>m\<rfloor>"
  have g: "\<lfloor>m\<rfloor> = int g" using m(3) by (simp add: g_def)
  have gm: "of_nat g \<le> m" "m < of_nat g + 1" using g floor_correct [of m] by auto
  have "(of_nat g :: rat) < of_nat S" using gm(1) m(4) by simp
  then have gS: "g < S" by (simp only: of_nat_less_iff)
  have m31: "m < 2 ^ 31" using m(4) SS by auto
  have w31: "w < 2 ^ 31" using w(4) by simp
  have fs: "f32_of_int (uint scale) = Fin (of_nat S)" unfolding S(2) [symmetric] using S(1) by (subst f32_of_int_exact) auto
  have iw: "f32_to_u32 (Fin w) = of_nat i" using f32_to_u32_floor [OF w(3) w31] i(1) by simp
  have "(of_nat i :: rat) \<le> of_nat 1001" using i(1) w(4) floor_correct [of w] by simp
  then have i1001: "i \<le> 1001" by (simp only: of_nat_le_iff)
  have "i < 2 ^ 32" using i1001 by simp
  then have u: "unat (of_nat i :: u32) = i" by (simp add: unat_of_nat take_bit_nat_eq_self)
  then have ui: "uint (of_nat i :: u32) = int i" by (simp only: uint_nat)
  have S0: "of_nat S \<noteq> (0 :: rat)" using S(1) by auto
  have p: "main_parts (Fin v) scale = (of_nat i, of_nat g)"
    using i(3) f m h w S0 by (simp add: main_parts_def Let_def fs fsub_def iw ui f32_to_u32_floor [OF m(3) m31] f32_round_rep
        del: f32_to_u32.simps flip: g_def)
  have err: "\<bar>of_nat i + of_nat g / of_nat S - v\<bar> \<le> 1 / 2 / of_nat S + 1 / 20000"
  proof -
    define e0 e1 e2 e3 where "e0 = w - (v + h)" "e1 = f - (w - of_nat i)" "e2 = m - f * of_nat S" "e3 = h - 1 / 2 / of_nat S"
    note e = this
    have e_le: "\<bar>e0\<bar> \<le> 1 / 32768" "\<bar>e1\<bar> \<le> 1 / 33554432" "\<bar>e2\<bar> \<le> 1 / 262144" "\<bar>e3\<bar> \<le> 1 / 33554432"
      using w(5) f(5) m(5) h(4) unfolding e .
    note b = e_le [THEN abs_le_D1] e_le [THEN abs_le_D2]
    define x where "x = (of_nat g - m) + 1 + (e2 - 1 / 2) + (e0 + e1 + e3) * of_nat S"
    have "\<bar>x\<bar> \<le> 1 / 2 + 1 / 20000 * of_nat S" using gm b SS unfolding x_def by (intro abs_leI) auto
    then have "\<bar>x\<bar> / of_nat S \<le> (1 / 2 + 1 / 20000 * of_nat S) / of_nat S" by (intro divide_right_mono) auto
    also have "\<dots> = 1 / 2 / of_nat S + 1 / 20000" using S0 by (simp add: add_divide_distrib)
    finally have "\<bar>x\<bar> / of_nat S \<le> 1 / 2 / of_nat S + 1 / 20000" .
    moreover have "of_nat i + of_nat g / of_nat S - v = x / of_nat S"
    proof -
      have s: "1 / 2 / of_nat S * of_nat S = (1 / 2 :: rat)" using S0 by simp
      have "x = of_nat g - (v - of_nat i) * of_nat S - (1 / 2 / of_nat S * of_nat S - 1 / 2)"
        unfolding x_def e by (simp add: algebra_simps)
      then have "x = of_nat g - (v - of_nat i) * of_nat S" unfolding s by simp
      moreover have "(of_nat g - (v - of_nat i) * of_nat S) / of_nat S = of_nat g / of_nat S - (v - of_nat i)"
        using S0 by (subst diff_divide_distrib, subst nonzero_mult_div_cancel_right) auto
      ultimately have "x / of_nat S = of_nat g / of_nat S - (v - of_nat i)" by (simp only:)
      then show ?thesis by linarith
    qed
    ultimately show ?thesis by (simp only: abs_divide abs_of_nat)
  qed
  have "g < 2 ^ 32" using gS S(1) by auto
  then have ug: "unat (of_nat g :: u32) = g" by (simp add: unat_of_nat take_bit_nat_eq_self)
  show ?thesis using p err gS ug u i1001 by (intro that [of "of_nat i" "of_nat g"]) auto
qed

subsection \<open>The two printers\<close>

text \<open>
  Property: for one and two decimals, the text of a float shows a number within half a unit of its
  last digit, up to the rounding of the printer's own arithmetic.
\<close>

lemma scale_cases:
  assumes "d = 1 \<or> d = (2 :: u8)"
  obtains S where "S = 10 \<or> S = 100" "int S = uint (scale10 (unat d))" "S = 10 ^ unat d" "0 < d" "unat d \<le> 9"
  using assms
proof
  assume "d = 1"
  then show ?thesis by (intro that [of 10]) (simp_all add: scale10_def)
next
  assume "d = 2"
  moreover have "unat (2 :: u8) = 2" by simp
  moreover have "scale10 2 = 100" by (simp add: scale10_def numeral_2_eq_2)
  ultimately show ?thesis by (intro that [of 100]) simp_all
qed

lemma vl53_text_displays:
  assumes d: "d = 1 \<or> d = 2" and v: "f32_rep v" "\<bar>v\<bar> \<le> 2 ^ 20"
  shows "\<exists>x. displays (vl53_text (Fin v) d) (unat d) x \<and> \<bar>x - v\<bar> \<le> (1 / 2 + 1 / 50000) / 10 ^ unat d"
proof -
  obtain S where S: "S = 10 \<or> S = 100" "int S = uint (scale10 (unat d))" "S = 10 ^ unat d"
    using scale_cases [OF d] by metis
  obtain i f where p: "vl53_parts (Fin \<bar>v\<bar>) (scale10 (unat d)) = (int i, f)" "unat f < S"
    "\<bar>of_nat i + of_nat (unat f) / of_nat S - \<bar>v\<bar>\<bar> \<le> (1 / 2 + 1 / 50000) / of_nat S"
    by (rule vl53_parts_accurate [of "\<bar>v\<bar>" S "scale10 (unat d)"]) (use v S in auto)
  define sg where "sg = (if v < 0 then - 1 else (1 :: rat))"
  define x where "x = sg * (of_nat i + of_nat (unat f) / of_nat S)"
  have a: "(if v < 0 then fneg (Fin v) else Fin v) = Fin \<bar>v\<bar>" by simp
  have "vl53_text (Fin v) d = (if v < 0 then ''-'' else []) @ decimal i @ ''.'' @ digits (unat d) (unat f)"
    using p(1) by (cases "v < 0") (simp_all add: vl53_text_def Let_def signed_text_def)
  then have "displays (vl53_text (Fin v) d) (unat d) x"
    unfolding displays_def using p(2) S(3)
    by (intro exI [of _ "v < 0"] exI [of _ i] exI [of _ "unat f"]) (simp add: x_def sg_def read_decimal read_fraction)
  moreover have "\<bar>x - v\<bar> = \<bar>of_nat i + of_nat (unat f) / of_nat S - \<bar>v\<bar>\<bar>"
    unfolding x_def sg_def by (simp add: abs_if)
  ultimately show ?thesis using p(3) S(3) by auto
qed

lemma main_text_displays:
  assumes d: "d = 1 \<or> d = 2" and v: "f32_rep v" "0 \<le> v" "v \<le> 1000"
  shows "\<exists>x. displays (main_text (Fin v) d) (unat d) x \<and> \<bar>x - v\<bar> \<le> 1 / 2 / 10 ^ unat d + 1 / 20000"
    "length (main_text (Fin v) d) \<le> 5 + unat d"
proof -
  obtain S where S: "S = 10 \<or> S = 100" "int S = uint (scale10 (unat d))" "S = 10 ^ unat d"
    using scale_cases [OF d] by metis
  obtain i f where p: "main_parts (Fin v) (scale10 (unat d)) = (i, f)" "unat f < S" "unat i \<le> 1001"
    "\<bar>of_nat (unat i) + of_nat (unat f) / of_nat S - v\<bar> \<le> 1 / 2 / of_nat S + 1 / 20000"
    by (rule main_parts_accurate [of v S "scale10 (unat d)"]) (use v S in auto)
  have t: "main_text (Fin v) d = decimal (unat i) @ ''.'' @ digits (unat d) (unat f)"
    using p(1) v by (simp add: main_text_def Let_def)
  show "\<exists>x. displays (main_text (Fin v) d) (unat d) x \<and> \<bar>x - v\<bar> \<le> 1 / 2 / 10 ^ unat d + 1 / 20000"
    unfolding displays_def t
    by (rule exI [of _ "of_nat (unat i) + of_nat (unat f) / of_nat S"], rule conjI,
        rule exI [of _ False], rule exI [of _ "unat i"], rule exI [of _ "unat f"])
      (use p S(3) in \<open>auto simp: read_decimal read_fraction\<close>)
  have "length (decimal (unat i)) \<le> 4" using p(3) by (intro length_decimal) auto
  then show "length (main_text (Fin v) d) \<le> 5 + unat d" unfolding t by simp
qed

text \<open>However large the number, the debug printer never writes more than this.\<close>

lemma length_vl53_text: "length (vl53_text x d) \<le> 13 + unat d"
proof -
  define neg where "neg = flt x (Fin 0)"
  obtain i f where p: "vl53_parts (if neg then fneg x else x) (scale10 (unat d)) = (i, f)" by fastforce
  have "nat \<bar>i\<bar> < 10 ^ 10" using vl53_parts_range [OF p] by auto
  then have "length (decimal (nat \<bar>i\<bar>)) \<le> 10" by (intro length_decimal) auto
  then have "length (signed_text i) \<le> 11" by (cases "i < 0") (simp_all add: signed_text_def)
  then show ?thesis using p by (cases neg) (simp_all add: vl53_text_def Let_def flip: neg_def)
qed

lemma length_decimal_word: "length (decimal (unat (x :: u8))) \<le> 3" "length (decimal (unat (y :: u16))) \<le> 5"
  using unat_u8_lt [of x] unat_u16_lt [of y] by (auto intro!: length_decimal order.strict_trans [OF unat_u8_lt] order.strict_trans [OF unat_u16_lt])

text \<open>
  C34 (roundtrip). A float printed into an array with room for it reads back to itself: with one or
  two decimals the characters appended are an optional sign, an integer, a point and the decimals
  of a number within half a unit of the last decimal of the float, up to a 25000th part of the
  unit for the three roundings of the printer's own arithmetic; the text before is untouched.
\<close>

theorem VL53_AppendFloat_accurate:
  assumes "d = 1 \<or> d = 2" "f32_rep v" "\<bar>v\<bar> \<le> 2 ^ 20" "p + 13 + unat d < length b"
  shows "\<exists>b' s x. VL53_AppendFloat (Fin v) d (b, p) = Some (b', p + length s) \<and>
    take (p + length s) b' = take p b @ s \<and> displays s (unat d) x \<and>
    \<bar>x - v\<bar> \<le> (1 / 2 + 1 / 50000) / 10 ^ unat d"
proof -
  obtain x where x: "displays (vl53_text (Fin v) d) (unat d) x" "\<bar>x - v\<bar> \<le> (1 / 2 + 1 / 50000) / 10 ^ unat d"
    using vl53_text_displays [OF assms(1-3)] by blast
  have d: "0 < d" "unat d \<le> 9" using scale_cases [OF assms(1)] by metis+
  have "p + length (vl53_text (Fin v) d) < length b" using assms(4) length_vl53_text [of "Fin v" d] by linarith
  then show ?thesis using appendsD [OF AppendFloat_appends [OF d]] x by metis
qed

theorem VL53_AppendFloat_accurate_witness:
  "\<exists>b' s x. VL53_AppendFloat (Fin (- 45 / 2)) 1 (replicate 20 NUL, 2) = Some (b', 2 + length s) \<and>
    take (2 + length s) b' = [NUL, NUL] @ s \<and> displays s 1 x \<and> \<bar>x + 45 / 2\<bar> \<le> (1 / 2 + 1 / 50000) / 10"
proof -
  have "f32_rep (- 45 / 2)" by (rule f32_rep_dyadic [of _ "-45" "-1"]) (auto simp: pow2_def)
  then show ?thesis
    using VL53_AppendFloat_accurate [of 1 "- 45 / 2" 2 "replicate 20 NUL"] by (simp add: numeral_2_eq_2)
qed

end
