(* ===== verification/Debug_Print.thy ===== *)
theory Debug_Print
  imports Dht11 Text_Format
begin

text \<open>
  The debug line on USART1 (\<^verbatim>\<open>My_GetActual\<close> of \<^verbatim>\<open>Software/VL53_DMA.c\<close>): the values picked by a code
  are printed into a static array of 128 characters, which is then sent up to its terminator. The
  UART is the console, open in stream mode, so its device puts a carriage return before the line
  feed the line ends with.

  Each call of an append function in the C text is one \<open>piece\<close>.
\<close>

record debug = dht +
  Debug_String :: string

definition debug0 :: debug where
  "debug0 = dht.extend dht0 (debug.fields (replicate 128 NUL))"

datatype piece = Str string | Ch char | Uns u32 | Sgn int | Flt f32 u8

fun put_piece :: "piece \<Rightarrow> cursor \<Rightarrow> cursor option" where
  "put_piece (Str s) = VL53_AppendString s"
| "put_piece (Ch ch) = VL53_AppendChar ch"
| "put_piece (Uns v) = VL53_AppendUnsigned v"
| "put_piece (Sgn v) = VL53_AppendSigned v"
| "put_piece (Flt x d) = VL53_AppendFloat x d"

fun piece_text :: "piece \<Rightarrow> string" where
  "piece_text (Str s) = s"
| "piece_text (Ch ch) = [ch]"
| "piece_text (Uns v) = decimal (unat v)"
| "piece_text (Sgn v) = signed_text v"
| "piece_text (Flt x d) = vl53_text x d"

definition MY_DAY :: u16 where "MY_DAY = 2787"
definition MY_TIME :: u16 where "MY_TIME = 2788"
definition MY_YAW :: u16 where "MY_YAW = 2701"
definition MY_ROLL :: u16 where "MY_ROLL = 2702"
definition MY_PITCH :: u16 where "MY_PITCH = 2703"
definition MY_MOTOR1 :: u16 where "MY_MOTOR1 = 2704"
definition MY_MOTOR2 :: u16 where "MY_MOTOR2 = 2705"
definition MY_ANGLE :: u16 where "MY_ANGLE = 2706"
definition MY_MOTOR :: u16 where "MY_MOTOR = 2707"
definition MY_Distance :: u16 where "MY_Distance = 2708"

lemmas MY_codes = MY_DAY_def MY_TIME_def MY_YAW_def MY_ROLL_def MY_PITCH_def MY_MOTOR1_def MY_MOTOR2_def
  MY_ANGLE_def MY_MOTOR_def MY_Distance_def

abbreviation CRLF :: string where "CRLF \<equiv> [CHR 0x0D, CHR 0x0A]"

definition date_pieces :: "'a debug_scheme \<Rightarrow> piece list" where
  "date_pieces w = [Uns (ucast (Year w)), Ch CHR ''-'', Uns (ucast (Month w)), Ch CHR ''-'', Uns (ucast (Day w))]"

definition debug_line :: "u16 \<Rightarrow> 'a debug_scheme \<Rightarrow> piece list option" where
  "debug_line acutal_name w =
    (if acutal_name = MY_DAY then Some ([Str ''Date--20''] @ date_pieces w @ [Str CRLF])
     else if acutal_name = MY_TIME then Some ([Str ''Time--20''] @ date_pieces w @ [Str ''--'',
       Uns (ucast (Hour w)), Ch CHR '':'', Uns (ucast (Minute w)), Ch CHR '':'', Uns (ucast (Second w)),
       Str '' type:'', Uns (ucast (Soil_PlantType w)), Str '' state:'', Uns (ucast (MaixMode_flag w)),
       Str '' Motor:'', Uns (ucast (Motor_flag w)), Str '' LED:'', Uns (ucast (lightONOFF_flag w)),
       Str '' x:'', Uns (ucast (Source_X w)), Str '' y:'', Uns (ucast (Source_Y w)),
       Str '' D:'', Uns (ucast (Distance (vl53 w))), Str (''mm'' @ CRLF)])
     else if acutal_name = MY_YAW then Some [Str ''Yaw:'', Flt (Yaw w) 2, Str '', Target:'',
       Flt (Target (Pid_Trun w)) 2, Str '', err:'', Flt (fabsf (fsub (Yaw w) (Target (Pid_Trun w)))) 2,
       Str '', obsstate:'', Uns (ucast (mystate w)), Str '', Distance:'', Uns (ucast (Distance (vl53 w))),
       Str '', Mil:'', Flt (Milleage1 w) 1, Str CRLF]
     else if acutal_name = MY_ROLL then Some [Str ''Roll:'', Flt (Roll w) 2, Str CRLF]
     else if acutal_name = MY_PITCH then Some [Str ''Pitch:'', Flt (Pitch w) 2, Str CRLF]
     else if acutal_name = MY_MOTOR1 then Some [Str ''Motor1:'', Sgn (Encoder_Speed1 w), Str '', '',
       Flt (Target (Pid_Motor1Speed w)) 2, Str CRLF]
     else if acutal_name = MY_MOTOR2 then Some [Str ''Motor2:'', Sgn (Encoder_Speed2 w), Str '', '',
       Flt (Target (Pid_Motor2Speed w)) 2, Str CRLF]
     else if acutal_name = MY_ANGLE then Some [Str ''Angle:'', Flt (Yaw w) 2, Str '', '', Flt (Roll w) 2,
       Str '', '', Flt (Pitch w) 2, Str CRLF]
     else if acutal_name = MY_MOTOR then Some [Str ''Motor:'', Sgn (Encoder_Speed1 w), Str '', '',
       Sgn (Encoder_Speed2 w), Str CRLF]
     else if acutal_name = MY_Distance then Some [Str ''D:'', Uns (ucast (Distance (vl53 w))), Str (''mm'' @ CRLF)]
     else if acutal_name = 6888 then Some [Str ''T:'', Flt (My_temp w) 6, Str '' H:'', Flt (My_humi w) 6, Str CRLF]
     else None)"

definition vl53_send :: "bytes \<Rightarrow> 'a comm_scheme \<Rightarrow> 'a comm_scheme" where
  "vl53_send cs w = (let (k, p) = Usart1DMA_SendData (Some cs) (rtos w, port1 w) in w\<lparr>rtos := k, port1 := p\<rparr>)"

definition ascii :: "string \<Rightarrow> bytes" where
  "ascii = map of_char"

definition My_GetActual :: "u16 \<Rightarrow> 'a debug_scheme \<Rightarrow> 'a debug_scheme option" where
  "My_GetActual acutal_name w = Option.bind (wr (Debug_String w) 0 NUL) (\<lambda>b.
     case debug_line acutal_name w of None \<Rightarrow> Some (w\<lparr>Debug_String := b\<rparr>)
     | Some ps \<Rightarrow> Option.bind (for_each put_piece ps (b, 0)) (\<lambda>(b, p). let
         w = w\<lparr>Debug_String := b\<rparr>;
         text = ascii (take (strlen b) b)
       in Some (if acutal_name = MY_MOTOR then cam_send text w else vl53_send text w)))"

subsection \<open>Facts\<close>

definition no_nul :: "string \<Rightarrow> bool" where
  "no_nul s \<longleftrightarrow> NUL \<notin> set s"

lemma no_nul_simps [simp]: "no_nul []" "no_nul (c # s) \<longleftrightarrow> c \<noteq> NUL \<and> no_nul s" "no_nul (s @ t) \<longleftrightarrow> no_nul s \<and> no_nul t"
  by (auto simp: no_nul_def)

lemma digit_not_nul: "d < 10 \<Longrightarrow> digit d \<noteq> NUL"
proof
  assume "d < 10" "digit d = NUL"
  moreover have "(of_char (digit d) :: nat) = 48 + d" using \<open>d < 10\<close> by (simp add: digit_def of_char_of take_bit_nat_eq_self)
  ultimately show False by simp
qed

lemma no_nul_decimal [simp]: "no_nul (decimal v)"
  by (induction v rule: decimal.induct) (subst decimal.simps, auto simp: digit_not_nul)

lemma no_nul_digits [simp]: "no_nul (digits n v)"
  by (induction n) (auto simp: digits_def no_nul_def digit_not_nul [symmetric])

lemma no_nul_vl53_text [simp]: "no_nul (vl53_text x d)"
  by (auto simp: vl53_text_def signed_text_def Let_def split: prod.split)

definition piece_ok :: "piece \<Rightarrow> bool" where
  "piece_ok p = (case p of Str s \<Rightarrow> no_nul s | Ch c \<Rightarrow> c \<noteq> NUL | Uns v \<Rightarrow> True
     | Sgn v \<Rightarrow> - (2 ^ 31) \<le> v \<and> v < 2 ^ 31 | Flt x d \<Rightarrow> 0 < d \<and> unat d \<le> 9)"

lemma piece_ok_simps [simp]:
  "piece_ok (Str s) = no_nul s" "piece_ok (Ch c) = (c \<noteq> NUL)" "piece_ok (Uns v)"
  "piece_ok (Sgn n) = (- (2 ^ 31) \<le> n \<and> n < 2 ^ 31)" "piece_ok (Flt x d) = (0 < d \<and> unat d \<le> 9)"
  by (simp_all add: piece_ok_def)

lemma put_piece_appends: "piece_ok p \<Longrightarrow> appends (put_piece p) (piece_text p)"
  by (cases p) (simp_all add: AppendString_appends AppendChar_appends AppendUnsigned_appends
    AppendSigned_appends AppendFloat_appends)

lemma no_nul_piece: "piece_ok p \<Longrightarrow> no_nul (piece_text p)"
  by (cases p) (auto simp: signed_text_def)

lemma appends_pieces:
  assumes "\<forall>p \<in> set ps. piece_ok p \<and> piece_text p \<noteq> []"
  shows "appends (for_each put_piece ps) (concat (map piece_text ps))"
  using assms
proof (induction ps)
  case Nil
  have "for_each put_piece [] = Some" by (rule ext) simp
  then show ?case using appends_nothing by simp
next
  case (Cons p ps)
  have e: "for_each put_piece (p # ps) = (\<lambda>c. Option.bind (put_piece p c) (for_each put_piece ps))"
    by (rule ext) simp
  have "appends (\<lambda>c. Option.bind (put_piece p c) (for_each put_piece ps)) (piece_text p @ concat (map piece_text ps))"
  proof (rule appends_then)
    show "appends (put_piece p) (piece_text p)" using Cons.prems put_piece_appends by simp
    show "appends (for_each put_piece ps) (concat (map piece_text ps))" using Cons by simp
    assume "concat (map piece_text ps) = []"
    then have "ps = []" using Cons.prems by (cases ps) auto
    then show "for_each put_piece ps = Some" by (intro ext) simp
  qed
  then show ?case unfolding e by simp
qed

lemma strlen_text:
  assumes "take p b = s" "no_nul s" "p < length b" "b ! p = NUL"
  shows "take (strlen b) b = s"
proof -
  have b: "b = s @ NUL # drop (Suc p) b"
    using assms(1,3,4) id_take_nth_drop [of p b] by simp
  have "takeWhile (\<lambda>ch. ch \<noteq> NUL) (s @ NUL # drop (Suc p) b) = s"
    using assms(2) by (subst takeWhile_append2) (auto simp: no_nul_def)
  then have "strlen b = length s" unfolding strlen_def by (subst b) simp
  then show ?thesis by (subst b) simp
qed

text \<open>Printing a line of at most 127 characters into the array works and leaves exactly the line.\<close>

lemma print_line:
  assumes "length b = 128" "\<forall>p \<in> set ps. piece_ok p \<and> piece_text p \<noteq> []" "ps \<noteq> []"
    "length (concat (map piece_text ps)) \<le> 127"
  obtains b' p where "for_each put_piece ps (b, 0) = Some (b', p)" "length b' = 128"
    "take (strlen b') b' = concat (map piece_text ps)"
proof -
  obtain b' where b': "for_each put_piece ps (b, 0) = Some (b', 0 + length (concat (map piece_text ps)))"
    "length b' = length b" "take (0 + length (concat (map piece_text ps))) b' = take 0 b @ concat (map piece_text ps)"
    "concat (map piece_text ps) \<noteq> [] \<Longrightarrow> b' ! (0 + length (concat (map piece_text ps))) = NUL"
    by (rule appendsD [OF appends_pieces [OF assms(2)], of 0 b]) (use assms in auto)
  have ne: "concat (map piece_text ps) \<noteq> []" using assms(2,3) by (cases ps) auto
  have "no_nul (concat (map piece_text ps))" using assms(2) no_nul_piece by (auto simp: no_nul_def)
  then have "take (strlen b') b' = concat (map piece_text ps)"
    by (rule strlen_text [rotated]) (use b' assms ne in auto)
  then show ?thesis using that b' assms(1) by auto
qed

text \<open>Every line fits: the longest is the heading line with 116 characters.\<close>

lemma length_pieces [simp]:
  "length (decimal (unat (ucast (x :: u8) :: u32))) \<le> 3" "length (decimal (unat (ucast (y :: u16) :: u32))) \<le> 5"
  using length_decimal_word(1) [of x] length_decimal_word(2) [of y] by (simp_all add: unat_ucast_up)

definition speeds_ok :: "'a encoders_scheme \<Rightarrow> bool" where
  "speeds_ok w \<longleftrightarrow> - (2 ^ 31) \<le> Encoder_Speed1 w \<and> Encoder_Speed1 w < 2 ^ 31 \<and>
     - (2 ^ 31) \<le> Encoder_Speed2 w \<and> Encoder_Speed2 w < 2 ^ 31"

lemma vl53_text_ne [simp]: "vl53_text x d \<noteq> []"
  by (auto simp: vl53_text_def Let_def split: prod.split)

lemma signed_text_ne [simp]: "signed_text n \<noteq> []"
  by (simp add: signed_text_def)

lemma length_signed_text: "- (2 ^ 31) \<le> n \<Longrightarrow> n < 2 ^ 31 \<Longrightarrow> length (signed_text n) \<le> 11"
proof -
  assume "- (2 ^ 31) \<le> n" "n < 2 ^ 31"
  then have "nat \<bar>n\<bar> < 10 ^ 10" by auto
  then have "length (decimal (nat \<bar>n\<bar>)) \<le> 10" by (intro length_decimal) auto
  then show ?thesis by (cases "n < 0") (simp_all add: signed_text_def)
qed

lemma debug_line_ok:
  assumes "speeds_ok w" "debug_line name w = Some ps"
  shows "ps \<noteq> [] \<and> (\<forall>p \<in> set ps. piece_ok p \<and> piece_text p \<noteq> []) \<and> length (concat (map piece_text ps)) \<le> 127"
proof -
  note L = length_vl53_text [of "Yaw w" 2] length_vl53_text [of "Roll w" 2] length_vl53_text [of "Pitch w" 2]
    length_vl53_text [of "Target (Pid_Trun w)" 2] length_vl53_text [of "Target (Pid_Motor1Speed w)" 2]
    length_vl53_text [of "Target (Pid_Motor2Speed w)" 2] length_vl53_text [of "fabsf (fsub (Yaw w) (Target (Pid_Trun w)))" 2]
    length_vl53_text [of "Milleage1 w" 1] length_vl53_text [of "My_temp w" 6] length_vl53_text [of "My_humi w" 6]
    length_signed_text [of "Encoder_Speed1 w"] length_signed_text [of "Encoder_Speed2 w"]
    length_pieces(1) [of "Year w"] length_pieces(1) [of "Month w"] length_pieces(1) [of "Day w"]
    length_pieces(1) [of "Hour w"] length_pieces(1) [of "Minute w"] length_pieces(1) [of "Second w"]
    length_pieces(1) [of "Soil_PlantType w"] length_pieces(1) [of "MaixMode_flag w"] length_pieces(1) [of "Motor_flag w"]
    length_pieces(1) [of "lightONOFF_flag w"] length_pieces(1) [of "mystate w"] length_pieces(2) [of "Source_X w"]
    length_pieces(2) [of "Source_Y w"] length_pieces(2) [of "Distance (vl53 w)"]
  have "length (concat (map piece_text ps)) \<le> 127"
    using assms L unfolding debug_line_def date_pieces_def speeds_ok_def
    by (auto split: if_splits simp del: length_pieces)
  moreover have "ps \<noteq> [] \<and> (\<forall>p \<in> set ps. piece_ok p \<and> piece_text p \<noteq> [])"
    using assms unfolding debug_line_def date_pieces_def speeds_ok_def by (auto split: if_splits)
  ultimately show ?thesis by blast
qed

subsection \<open>The line on the wire\<close>

lemma vl53_send_ready:
  assumes "lines_ready w" "console_ready (rtos w) (port1 w)" "cs \<noteq> []" "length cs \<le> TX_LEN"
  obtains k p where "vl53_send cs w = w\<lparr>rtos := k, port1 := p\<rparr>" "lines_ready (vl53_send cs w)"
    "console_ready k p" "sent ''uart1'' (vl53_send cs w) = sent ''uart1'' w @ serial_poll_tx True cs"
    "\<And>n. n \<noteq> ''uart1'' \<Longrightarrow> sent n (vl53_send cs w) = sent n w"
proof -
  obtain k p where e: "uart_send ''uart1'' ''usart1_rx_ind'' ''u1rx'' (Some cs) (rtos w, port1 w) = (k, p)"
    by fastforce
  have h: "vl53_send cs w = w\<lparr>rtos := k, port1 := p\<rparr>" by (simp add: vl53_send_def Usart1DMA_SendData_def e)
  note f = console_send_ready [OF assms(2,3) e]
  have o: "port_ready n k q = port_ready n (rtos w) q" "tx_of k n = tx_of (rtos w) n" if "n \<noteq> ''uart1''" for n q
    using ready_elsewhere [OF f(4) [OF that] f(5)] by blast+
  have u: "usart3_ready (k, d) = usart3_ready (rtos w, d)" for d by (rule usart3_ready_elsewhere [OF f(4)]) simp
  show ?thesis
    by (rule that [OF h]) (use assms(1,4) f(1,3) in \<open>simp_all add: h lines_ready_def o u\<close>)
qed

lemma cam_send_uart1:
  assumes "lines_ready w" "console_ready (rtos w) (port1 w)" "cs \<noteq> []" "length cs \<le> TX_LEN"
  obtains k p where "cam_send cs w = w\<lparr>rtos := k, port4 := p\<rparr>" "lines_ready (cam_send cs w)"
    "console_ready k (port1 w)" "sent ''uart4'' (cam_send cs w) = sent ''uart4'' w @ cs"
    "\<And>n. n \<noteq> ''uart4'' \<Longrightarrow> sent n (cam_send cs w) = sent n w"
proof -
  obtain k p where e: "uart_send ''uart4'' ''uart4_rx_ind'' ''u4rx'' (Some cs) (rtos w, port4 w) = (k, p)"
    by fastforce
  have r: "port_ready ''uart4'' (rtos w) (port4 w)" using assms(1) by (simp add: lines_ready_def)
  have h: "cam_send cs w = w\<lparr>rtos := k, port4 := p\<rparr>" by (simp add: port_sends e)
  note f = send_on_line [OF r assms(3,4) e]
  show ?thesis by (rule that [OF h]) (use assms(1,2) f in \<open>simp_all add: h lines_ready_def\<close>)
qed

definition debug_text :: "u16 \<Rightarrow> 'a debug_scheme \<Rightarrow> string" where
  "debug_text name w = (case debug_line name w of None \<Rightarrow> [] | Some ps \<Rightarrow> concat (map piece_text ps))"

text \<open>
  What the line looks like on its UART: the camera's line carries the text as it is, the console
  puts a carriage return before each line feed.
\<close>

definition debug_out :: "u16 \<Rightarrow> 'a debug_scheme \<Rightarrow> bytes" where
  "debug_out name w = serial_poll_tx (name \<noteq> MY_MOTOR) (ascii (debug_text name w))"

definition debug_ready :: "'a debug_scheme \<Rightarrow> bool" where
  "debug_ready w \<longleftrightarrow> lines_ready w \<and> console_ready (rtos w) (port1 w) \<and> length (Debug_String w) = 128 \<and> speeds_ok w"

lemma debug_line_update [simp]: "debug_text name (w\<lparr>Debug_String := b\<rparr>) = debug_text name w"
  by (simp add: debug_text_def debug_line_def date_pieces_def)

lemma My_GetActual_result:
  assumes "debug_ready w"
  obtains k p1 p4 b where
    "My_GetActual name w = Some (w\<lparr>rtos := k, port1 := p1, port4 := p4, Debug_String := b\<rparr>)"
    "debug_ready (w\<lparr>rtos := k, port1 := p1, port4 := p4, Debug_String := b\<rparr>)"
    "tx_of k (if name = MY_MOTOR then ''uart4'' else ''uart1'') =
      sent (if name = MY_MOTOR then ''uart4'' else ''uart1'') w @ debug_out name w"
    "\<And>n. n \<noteq> (if name = MY_MOTOR then ''uart4'' else ''uart1'') \<Longrightarrow> tx_of k n = sent n w"
proof -
  note r = assms [unfolded debug_ready_def]
  have wr: "wr (Debug_String w) 0 NUL = Some ((Debug_String w)[0 := NUL])" using r by (simp add: wr_Some)
  show ?thesis
  proof (cases "debug_line name w")
    case None
    show ?thesis
      by (rule that [where k = "rtos w" and ?p1.0 = "port1 w" and ?p4.0 = "port4 w" and b = "(Debug_String w)[0 := NUL]"])
        (use r None wr in \<open>auto simp: My_GetActual_def debug_ready_def debug_text_def debug_out_def ascii_def lines_ready_def speeds_ok_def\<close>)
  next
    case (Some ps)
    note ok = debug_line_ok [OF _ Some]
    obtain b' p where b: "for_each put_piece ps ((Debug_String w)[0 := NUL], 0) = Some (b', p)" "length b' = 128"
      "take (strlen b') b' = concat (map piece_text ps)"
      by (rule print_line [of "(Debug_String w)[0 := NUL]" ps]) (use r ok in auto)
    define v where "v = w\<lparr>Debug_String := b'\<rparr>"
    define cs where "cs = ascii (concat (map piece_text ps))"
    have t: "debug_out name w = serial_poll_tx (name \<noteq> MY_MOTOR) cs" by (simp add: debug_text_def Some debug_out_def cs_def)
    have g: "My_GetActual name w = Some (if name = MY_MOTOR then cam_send cs v else vl53_send cs v)"
      by (simp add: My_GetActual_def wr Some b v_def cs_def Let_def)
    have v: "lines_ready v" "console_ready (rtos v) (port1 v)" "length (Debug_String v) = 128"
      using r b by (simp_all add: v_def lines_ready_def)
    have cs: "cs \<noteq> []" "length cs \<le> TX_LEN" using ok r by (auto simp: cs_def ascii_def TX_LEN_def)
    have sp: "speeds_ok w" using r by simp
    show ?thesis
    proof (cases "name = MY_MOTOR")
      case True
      obtain k q where s: "cam_send cs v = v\<lparr>rtos := k, port4 := q\<rparr>" "lines_ready (cam_send cs v)"
        "console_ready k (port1 v)" "sent ''uart4'' (cam_send cs v) = sent ''uart4'' v @ cs"
        "\<And>n. n \<noteq> ''uart4'' \<Longrightarrow> sent n (cam_send cs v) = sent n v" by (rule cam_send_uart1 [OF v(1,2) cs]) blast
      show ?thesis
        by (rule that [where k = k and ?p1.0 = "port1 w" and ?p4.0 = q and b = b'])
          (use s g True t [unfolded True] b sp in \<open>auto simp: v_def debug_ready_def lines_ready_def speeds_ok_def\<close>)
    next
      case False
      obtain k q where s: "vl53_send cs v = v\<lparr>rtos := k, port1 := q\<rparr>" "lines_ready (vl53_send cs v)"
        "console_ready k q" "sent ''uart1'' (vl53_send cs v) = sent ''uart1'' v @ serial_poll_tx True cs"
        "\<And>n. n \<noteq> ''uart1'' \<Longrightarrow> sent n (vl53_send cs v) = sent n v" by (rule vl53_send_ready [OF v(1,2) cs]) blast
      show ?thesis
        by (rule that [where k = k and ?p1.0 = q and ?p4.0 = "port4 w" and b = b'])
          (use s g False b sp t in \<open>auto simp: v_def debug_ready_def lines_ready_def speeds_ok_def\<close>)
    qed
  qed
qed

text \<open>No piece of a line holds a line feed, except the ending.\<close>

definition no_feed :: "string \<Rightarrow> bool" where
  "no_feed s \<longleftrightarrow> CHR 0x0A \<notin> set s"

lemma no_feed_simps [simp]: "no_feed []" "no_feed (c # s) \<longleftrightarrow> c \<noteq> CHR 0x0A \<and> no_feed s" "no_feed (s @ t) \<longleftrightarrow> no_feed s \<and> no_feed t"
  by (auto simp: no_feed_def)

lemma digit_no_feed: "d < 10 \<Longrightarrow> digit d \<noteq> CHR 0x0A"
proof
  assume "d < 10" "digit d = CHR 0x0A"
  moreover have "(of_char (digit d) :: nat) = 48 + d" using \<open>d < 10\<close> by (simp add: digit_def of_char_of take_bit_nat_eq_self)
  ultimately show False by simp
qed

lemma no_feed_decimal [simp]: "no_feed (decimal v)"
  by (induction v rule: decimal.induct) (subst decimal.simps, auto simp: digit_no_feed)

lemma no_feed_digits [simp]: "no_feed (digits n v)"
  by (induction n) (auto simp: digits_def no_feed_def digit_no_feed [symmetric])

lemma no_feed_signed [simp]: "no_feed (signed_text v)"
  by (simp add: signed_text_def)

lemma no_feed_vl53_text [simp]: "no_feed (vl53_text x d)"
  by (auto simp: vl53_text_def Let_def split: prod.split)

lemma debug_line_ends:
  assumes "debug_line name w = Some ps" shows "\<exists>t. concat (map piece_text ps) = t @ CRLF \<and> no_feed t"
proof -
  define m where "m = take (length (piece_text (last ps)) - 2) (piece_text (last ps))"
  have ps: "ps \<noteq> []" and l: "piece_text (last ps) = m @ CRLF" "no_feed m" and b: "list_all (\<lambda>p. no_feed (piece_text p)) (butlast ps)"
    using assms by (auto simp: m_def debug_line_def date_pieces_def split: if_splits)
  have "concat (map piece_text ps) = concat (map piece_text (butlast ps)) @ m @ CRLF"
    using l(1) by (subst append_butlast_last_id [OF ps, symmetric]) (simp del: append_butlast_last_id)
  moreover have "no_feed (concat (map piece_text (butlast ps)) @ m)"
    using b l(2) by (auto simp: no_feed_def list_all_iff)
  ultimately show ?thesis by (intro exI [of _ "concat (map piece_text (butlast ps)) @ m"]) simp
qed

lemma poll_tx_append: "serial_poll_tx b (xs @ ys) = serial_poll_tx b xs @ serial_poll_tx b ys"
  by (induction xs) auto

lemma poll_tx_no_feed: "no_feed t \<Longrightarrow> serial_poll_tx b (ascii t) = ascii t"
proof (induction t)
  case (Cons c t)
  have "(of_nat (of_char c) :: u8) \<noteq> 0x0A"
  proof
    assume "(of_nat (of_char c) :: u8) = 0x0A"
    then have "unat (of_nat (of_char c) :: u8) = 10" by simp
    moreover have "(of_char c :: nat) < 256" by (rule nat_of_char_less_256)
    ultimately have "(of_char c :: nat) = of_char (CHR 0x0A)" by (simp add: unat_of_nat)
    then have "c = CHR 0x0A" by (simp only: of_char_eq_iff)
    then show False using Cons.prems by simp
  qed
  moreover have "(of_nat (of_char c) :: u8) = of_char c" by (rule of_nat_of_char)
  ultimately have "(of_char c :: u8) \<noteq> 0x0A" by simp
  then show ?case using Cons by (simp add: ascii_def)
qed (simp add: ascii_def)

lemma ascii_append [simp]: "ascii (s @ t) = ascii s @ ascii t"
  by (simp add: ascii_def)

text \<open>
  C35 (safety). The debug line never overruns its 128 characters, whatever the values of the floats
  (infinities and NaN included) and for every line code: the call puts the text of the line on its
  UART, terminator excluded, and leaves the other lines alone; unknown codes print nothing. The
  console's line carries the text with a second carriage return before the line feed at its end
  (\<^verbatim>\<open>CR CR LF\<close>), the camera's line as it is.
\<close>

theorem debug_line_sent:
  assumes "debug_ready w" "n = (if name = MY_MOTOR then ''uart4'' else ''uart1'')"
  shows "\<exists>w' t. My_GetActual name w = Some w' \<and> length (Debug_String w') = 128 \<and> {m. m \<noteq> n \<and> sent m w' \<noteq> sent m w} = {} \<and>
    (if debug_line name w = None then sent n w' = sent n w
     else debug_text name w = t @ CRLF \<and> CHR 0x0A \<notin> set t \<and>
       sent n w' = sent n w @ ascii t @ (if name = MY_MOTOR then [0x0D, 0x0A] else [0x0D, 0x0D, 0x0A]))"
proof -
  obtain k p1 p4 b where g: "My_GetActual name w = Some (w\<lparr>rtos := k, port1 := p1, port4 := p4, Debug_String := b\<rparr>)"
    "debug_ready (w\<lparr>rtos := k, port1 := p1, port4 := p4, Debug_String := b\<rparr>)"
    "tx_of k n = sent n w @ debug_out name w" "\<And>m. m \<noteq> n \<Longrightarrow> tx_of k m = sent m w"
    unfolding assms(2) by (rule My_GetActual_result [OF assms(1), of name]) blast
  have o: "\<exists>t. if debug_line name w = None then debug_out name w = []
      else debug_text name w = t @ CRLF \<and> CHR 0x0A \<notin> set t \<and>
        debug_out name w = ascii t @ (if name = MY_MOTOR then [0x0D, 0x0A] else [0x0D, 0x0D, 0x0A])"
  proof (cases "debug_line name w")
    case (Some ps)
    obtain t where "debug_text name w = t @ CRLF" "no_feed t" using debug_line_ends [OF Some] by (auto simp: debug_text_def Some)
    then show ?thesis
      by (intro exI [of _ t]) (simp add: Some debug_out_def poll_tx_append poll_tx_no_feed, simp add: ascii_def no_feed_def)
  qed (simp add: debug_out_def debug_text_def ascii_def)
  then obtain t where "if debug_line name w = None then debug_out name w = []
      else debug_text name w = t @ CRLF \<and> CHR 0x0A \<notin> set t \<and>
        debug_out name w = ascii t @ (if name = MY_MOTOR then [0x0D, 0x0A] else [0x0D, 0x0D, 0x0A])" by blast
  then show ?thesis using g
    by (intro exI [of _ "w\<lparr>rtos := k, port1 := p1, port4 := p4, Debug_String := b\<rparr>"] exI [of _ t]) (auto simp: debug_ready_def split: if_splits)
qed

lemma debug0_fields:
  "Yaw debug0 = Fin 0" "Target (Pid_Trun debug0) = Fin 0" "mystate debug0 = 0" "Distance (vl53 debug0) = 0"
  "Milleage1 debug0 = Fin 0" "Encoder_Speed1 debug0 = 0" "Encoder_Speed2 debug0 = 0" "Debug_String debug0 = replicate 128 NUL"
  "rtos debug0 = rtk0" "port1 debug0 = uart_port0" "port2 debug0 = uart_port0" "port4 debug0 = uart_port0"
  "port5 debug0 = uart_port0" "port6 debug0 = uart_port0" "usart3_dev debug0 = None"
  by (simp_all add: debug0_def dht0_def dht_fields0_def actuators0_def actuators_fields0_def sensors0_def
    sensors_fields0_def sport0_def sport_fields0_def voice0_def voice_fields0_def senders0_def senders_fields0_def
    soft0_def soft_fields0_def comm0_def comm_fields0_def turns0_def motors0_def encoders0_def globals0_def hw0_def Mypid0_def
    vl53_init_def
    debug.defs dht.defs actuators.defs sensors.defs sport.defs voice.defs senders.defs soft.defs comm.defs turns.defs
    motors.defs encoders.defs globals.defs hw.defs)

lemma digit_0: "digit 0 = CHR ''0''"
  by code_simp

lemma digits_0: "digits 2 0 = ''00''" "digits (Suc 0) 0 = ''0''"
  by (simp_all add: digits_def digit_0 upt_rec)

lemma vl53_text_0: "vl53_text (Fin 0) 2 = ''0.00''" "vl53_text (Fin 0) 1 = ''0.0''"
proof -
  have h: "f32_to_u32 (Fin (1 / 2)) = 0" "f32_to_s32 (Fin 0) = 0" by (simp_all add: rtrunc_def clamp_int_def)
  have p: "vl53_parts (Fin 0) scale = (0, 0)" if "int S = uint scale" "S = 10 \<or> S = 100" for S scale
  proof -
    have "f32_of_int (uint scale) = Fin (of_nat S)" unfolding that(1) [symmetric] using that(2) by (subst f32_of_int_exact) auto
    moreover have "\<not> scale \<le> 0" using that by auto
    ultimately show ?thesis
      by (simp add: vl53_parts_def h fsub_def f32_round_rep f32_of_int_exact del: f32_to_u32.simps f32_to_s32.simps)
  qed
  have "vl53_parts (Fin 0) (scale10 (unat d)) = (0, 0)" if "d = 1 \<or> d = 2" for d :: u8
    using scale_cases [OF that] p by metis
  note p = this [of 2] this [of 1]
  show "vl53_text (Fin 0) 2 = ''0.00''" "vl53_text (Fin 0) 1 = ''0.0''"
    using p by (simp_all add: vl53_text_def signed_text_def decimal.simps digits_0 digit_0)
qed

lemma debug0_ready: "debug_ready debug0"
proof -
  have "lines_ready debug0"
    using lines_ready_comm0 by (simp add: lines_ready_def debug0_fields rtk0_fresh usart3_ready_def rtk0_device_fresh)
  then show ?thesis by (simp add: debug_ready_def debug0_fields speeds_ok_def rtk0_console_ready)
qed

theorem debug_line_sent_witness:
  "\<exists>w'. My_GetActual MY_YAW debug0 = Some w' \<and> sent ''uart1'' w' = sent ''uart1'' debug0 @
    ascii ''Yaw:0.00, Target:0.00, err:0.00, obsstate:0, Distance:0, Mil:0.0'' @ [0x0D, 0x0D, 0x0A]"
proof -
  have d: "debug_line MY_YAW debug0 \<noteq> None" by (simp add: debug_line_def MY_codes)
  have t: "debug_text MY_YAW debug0 = ''Yaw:0.00, Target:0.00, err:0.00, obsstate:0, Distance:0, Mil:0.0'' @ CRLF"
    by (simp add: debug_text_def debug_line_def MY_codes debug0_fields vl53_text_0 fsub_def decimal.simps digit_0)
  show ?thesis using debug_line_sent [OF debug0_ready refl, of MY_YAW] d unfolding t by (auto simp: MY_codes)
qed

end
