(* ===== verification/Oled_I2c.thy ===== *)
theory Oled_I2c
  imports Debug_Print
begin

text \<open>
  The bit-banged bus of the display (\<^verbatim>\<open>Hardware/oled_i2c.c\<close>): clock SCL on PB8, data SDA on PB9, the
  direction of PB9 switched through the mode register of the port.

  Everything the driver does to the two lines goes into a trace: after each write to a pin or to the
  mode register the level of the clock and of the data line (\<open>None\<close> when it is released), each value
  sampled, each delay. What is sampled is an input: \<open>sda_in k\<close> is the level found by the \<open>k\<close>-th read
  of the released line.
\<close>

datatype bus_event = Lines bool "bool option" | Sampled bool | Wait_us nat

record oled = debug +
  GPIOB_MODER :: u32
  GPIOB_OSPEEDR :: u32
  bus :: "bus_event list"
  sda_in :: "nat \<Rightarrow> bool"
  sda_n :: nat

definition oled_fields0 where
  "oled_fields0 = oled.fields 0 0 [] (\<lambda>_. False) 0"

definition oled0 :: oled where
  "oled0 = debug.extend debug0 oled_fields0"

subsection \<open>The lines\<close>

definition scl :: "'a hw_scheme \<Rightarrow> bool" where
  "scl w = pin_high w GPIOB 8"

definition sda_latch :: "'a hw_scheme \<Rightarrow> bool" where
  "sda_latch w = pin_high w GPIOB 9"

text \<open>Mode bits 01 of pin 9: an output.\<close>

definition sda_driven :: "'a oled_scheme \<Rightarrow> bool" where
  "sda_driven w = (bit (GPIOB_MODER w) 18 \<and> \<not> bit (GPIOB_MODER w) 19)"

definition record_event :: "bus_event \<Rightarrow> 'a oled_scheme \<Rightarrow> 'a oled_scheme" where
  "record_event e w = w\<lparr>bus := bus w @ [e]\<rparr>"

definition watch_lines :: "'a oled_scheme \<Rightarrow> 'a oled_scheme" where
  "watch_lines w = record_event (Lines (scl w) (if sda_driven w then Some (sda_latch w) else None)) w"

definition set_moder :: "u32 \<Rightarrow> 'a oled_scheme \<Rightarrow> 'a oled_scheme" where
  "set_moder m w = watch_lines (w\<lparr>GPIOB_MODER := m\<rparr>)"

definition SDA_IN :: "'a oled_scheme \<Rightarrow> 'a oled_scheme" where
  "SDA_IN w = (let w = set_moder (GPIOB_MODER w AND 0xFFF3FFFF) w in set_moder (GPIOB_MODER w OR 0) w)"

definition SDA_OUT :: "'a oled_scheme \<Rightarrow> 'a oled_scheme" where
  "SDA_OUT w = (let
     w = set_moder (GPIOB_MODER w AND 0xFFF3FFFF) w;
     w = set_moder (GPIOB_MODER w OR 0x00040000) w;
     w = w\<lparr>GPIOB_OSPEEDR := GPIOB_OSPEEDR w AND 0xFFF3FFFF\<rparr>
   in w\<lparr>GPIOB_OSPEEDR := GPIOB_OSPEEDR w OR 0x00080000\<rparr>)"

definition OLED_IIC_SCL_High :: "'a oled_scheme \<Rightarrow> 'a oled_scheme" where
  "OLED_IIC_SCL_High w = watch_lines (HAL_GPIO_WritePin GPIOB (GPIO_PIN 8) True w)"

definition OLED_IIC_SCL_Low :: "'a oled_scheme \<Rightarrow> 'a oled_scheme" where
  "OLED_IIC_SCL_Low w = watch_lines (HAL_GPIO_WritePin GPIOB (GPIO_PIN 8) False w)"

definition OLED_IIC_SDA_High :: "'a oled_scheme \<Rightarrow> 'a oled_scheme" where
  "OLED_IIC_SDA_High w = watch_lines (HAL_GPIO_WritePin GPIOB (GPIO_PIN 9) True w)"

definition OLED_IIC_SDA_Low :: "'a oled_scheme \<Rightarrow> 'a oled_scheme" where
  "OLED_IIC_SDA_Low w = watch_lines (HAL_GPIO_WritePin GPIOB (GPIO_PIN 9) False w)"

definition OLED_READ_SDA :: "'a oled_scheme \<Rightarrow> bool \<times> 'a oled_scheme" where
  "OLED_READ_SDA w = (if sda_driven w then (sda_latch w, record_event (Sampled (sda_latch w)) w)
     else let b = sda_in w (sda_n w) in (b, record_event (Sampled b) (w\<lparr>sda_n := sda_n w + 1\<rparr>)))"

definition delay_us :: "nat \<Rightarrow> 'a oled_scheme \<Rightarrow> 'a oled_scheme" where
  "delay_us us w = record_event (Wait_us us) w"

subsection \<open>The bus operations\<close>

text \<open>\<open>HAL_GPIO_Init\<close> sets the mode and speed fields of both pins to output, high speed.\<close>

definition IIC_Init :: "'a oled_scheme \<Rightarrow> 'a oled_scheme" where
  "IIC_Init w = (let
     w = hal_calls [RCC_GPIO_ENABLE GPIOB,
       GPIO_Init GPIOB (GPIO_PIN 8 OR GPIO_PIN 9) OUTPUT_PP NOPULL SPEED_HIGH None] w;
     w = w\<lparr>GPIOB_OSPEEDR := GPIOB_OSPEEDR w AND 0xFFF0FFFF OR 0x000A0000\<rparr>;
     w = set_moder (GPIOB_MODER w AND 0xFFF0FFFF OR 0x00050000) w
   in watch_lines (HAL_GPIO_WritePin GPIOB (GPIO_PIN 8 OR GPIO_PIN 9) True w))"

definition IIC_Start :: "'a oled_scheme \<Rightarrow> 'a oled_scheme" where
  "IIC_Start w = (let
     w = SDA_OUT w;
     w = OLED_IIC_SDA_High w;
     w = OLED_IIC_SCL_High w;
     w = delay_us 4 w;
     w = OLED_IIC_SDA_Low w;
     w = delay_us 4 w
   in OLED_IIC_SCL_Low w)"

definition IIC_Stop :: "'a oled_scheme \<Rightarrow> 'a oled_scheme" where
  "IIC_Stop w = (let
     w = SDA_OUT w;
     w = OLED_IIC_SCL_Low w;
     w = OLED_IIC_SDA_Low w;
     w = delay_us 4 w;
     w = OLED_IIC_SCL_High w;
     w = OLED_IIC_SDA_High w
   in delay_us 4 w)"

text \<open>\<^verbatim>\<open>while (OLED_READ_SDA()) { ucErrTime++; if (ucErrTime > 250) ... }\<close>\<close>

function wait_ack_loop :: "u8 \<Rightarrow> 'a oled_scheme \<Rightarrow> u8 \<times> 'a oled_scheme" where
  "wait_ack_loop ucErrTime w = (let (b, w) = OLED_READ_SDA w in
     if b then
       if 250 < ucErrTime + 1 then (1, IIC_Stop w) else wait_ack_loop (ucErrTime + 1) w
     else (0, OLED_IIC_SCL_Low w))"
  by auto
termination
proof (relation "measure (\<lambda>(t, _). 256 - unat (t + 1))")
  fix t :: u8 and w w1 w2 :: "'a oled_scheme" and b and p
  assume "\<not> 250 < t + 1"
  then have le: "unat (t + 1) \<le> 250" by (simp add: word_less_nat_alt)
  have "unat (t + 1 + 1) = (unat (t + 1) + 1) mod 256" by (subst unat_word_ariths) simp
  then have "unat (t + 1 + 1) = unat (t + 1) + 1" using le by simp
  then show "((t + 1, w1), (t, w)) \<in> measure (\<lambda>(t, _). 256 - unat (t + 1))" using le by simp
qed simp

declare wait_ack_loop.simps [simp del]

definition IIC_Wait_Ack :: "'a oled_scheme \<Rightarrow> u8 \<times> 'a oled_scheme" where
  "IIC_Wait_Ack w = (let
     w = SDA_IN w;
     w = OLED_IIC_SDA_High w;
     w = delay_us 1 w;
     w = OLED_IIC_SCL_High w;
     w = delay_us 1 w
   in wait_ack_loop 0 w)"

definition IIC_Ack :: "'a oled_scheme \<Rightarrow> 'a oled_scheme" where
  "IIC_Ack w = (let
     w = OLED_IIC_SCL_Low w;
     w = SDA_OUT w;
     w = OLED_IIC_SDA_Low w;
     w = delay_us 2 w;
     w = OLED_IIC_SCL_High w;
     w = delay_us 2 w
   in OLED_IIC_SCL_Low w)"

definition IIC_NAck :: "'a oled_scheme \<Rightarrow> 'a oled_scheme" where
  "IIC_NAck w = (let
     w = OLED_IIC_SCL_Low w;
     w = SDA_OUT w;
     w = OLED_IIC_SDA_High w;
     w = delay_us 2 w;
     w = OLED_IIC_SCL_High w;
     w = delay_us 2 w
   in OLED_IIC_SCL_Low w)"

definition send_bit :: "u8 \<times> 'a oled_scheme \<Rightarrow> u8 \<times> 'a oled_scheme" where
  "send_bit s = (let
     (txd, w) = s;
     w = (if drop_bit 7 (txd AND 0x80) = 1 then OLED_IIC_SDA_High w else OLED_IIC_SDA_Low w);
     txd = push_bit 1 txd;
     w = delay_us 2 w;
     w = OLED_IIC_SCL_High w;
     w = delay_us 2 w;
     w = OLED_IIC_SCL_Low w
   in (txd, delay_us 2 w))"

definition IIC_Send_Byte :: "u8 \<Rightarrow> 'a oled_scheme \<Rightarrow> 'a oled_scheme" where
  "IIC_Send_Byte txd w = (let
     w = SDA_OUT w;
     w = OLED_IIC_SCL_Low w
   in snd ((send_bit ^^ 8) (txd, w)))"

definition read_bit :: "u8 \<times> 'a oled_scheme \<Rightarrow> u8 \<times> 'a oled_scheme" where
  "read_bit s = (let
     (receive, w) = s;
     w = OLED_IIC_SCL_Low w;
     w = delay_us 2 w;
     w = OLED_IIC_SCL_High w;
     receive = push_bit 1 receive;
     (b, w) = OLED_READ_SDA w;
     receive = (if b then receive + 1 else receive)
   in (receive, delay_us 1 w))"

definition IIC_Read_Byte :: "u8 \<Rightarrow> 'a oled_scheme \<Rightarrow> u8 \<times> 'a oled_scheme" where
  "IIC_Read_Byte ack w = (let
     w = SDA_IN w;
     (receive, w) = (read_bit ^^ 8) (0, w)
   in (receive, if ack = 0 then IIC_NAck w else IIC_Ack w))"

subsection \<open>What a device on the bus understands\<close>

text \<open>
  A monitor of the bus in the terms of its protocol. With the clock high, data falling is a start and
  data rising a stop; a rising clock takes a bit of a driven data line; after eight bits a released
  data line found low acknowledges the byte. A stop drops the bits of an unfinished byte.
\<close>

datatype i2c = START | BYTE u8 | STOP

record monitor =
  clock :: bool
  data_line :: "bool option"
  taken :: "bool list"
  heard_bus :: "i2c list"

definition mon0 :: monitor where
  "mon0 = \<lparr>clock = True, data_line = None, taken = [], heard_bus = []\<rparr>"

fun mon_step :: "bus_event \<Rightarrow> monitor \<Rightarrow> monitor" where
  "mon_step (Lines c d) m = (let m' = m\<lparr>clock := c, data_line := d\<rparr> in
     if clock m \<and> c then
       if data_line m = Some True \<and> d = Some False then m'\<lparr>taken := [], heard_bus := heard_bus m @ [START]\<rparr>
       else if data_line m = Some False \<and> d = Some True then m'\<lparr>taken := [], heard_bus := heard_bus m @ [STOP]\<rparr>
       else m'
     else if c then case d of Some b \<Rightarrow> m'\<lparr>taken := taken m @ [b]\<rparr> | None \<Rightarrow> m'
     else m')"
| "mon_step (Sampled b) m =
     (if clock m \<and> data_line m = None \<and> length (taken m) = 8 \<and> \<not> b
      then m\<lparr>taken := [], heard_bus := heard_bus m @ [BYTE (byte_of_bits (taken m))]\<rparr> else m)"
| "mon_step (Wait_us n) m = m"

definition seen :: "'a oled_scheme \<Rightarrow> monitor" where
  "seen w = fold mon_step (bus w) mon0"


declare mon_step.simps [simp del]

lemma mon_wait [simp]: "mon_step (Wait_us n) m = m"
  by (simp add: mon_step.simps)

subsection \<open>Facts\<close>

named_theorems i2c_simps \<open>lines, direction and monitor after each primitive\<close>

lemma record_event_simps [i2c_simps]:
  "scl (record_event e w) = scl w" "sda_latch (record_event e w) = sda_latch w"
  "sda_driven (record_event e w) = sda_driven w" "seen (record_event e w) = mon_step e (seen w)"
  "sda_in (record_event e w) = sda_in w" "sda_n (record_event e w) = sda_n w"
  by (simp_all add: record_event_def scl_def sda_latch_def sda_driven_def seen_def pin_high_def)

lemma watch_lines_simps [i2c_simps]:
  "scl (watch_lines w) = scl w" "sda_latch (watch_lines w) = sda_latch w"
  "sda_driven (watch_lines w) = sda_driven w"
  "seen (watch_lines w) = mon_step (Lines (scl w) (if sda_driven w then Some (sda_latch w) else None)) (seen w)"
  "sda_in (watch_lines w) = sda_in w" "sda_n (watch_lines w) = sda_n w"
  by (simp_all add: watch_lines_def i2c_simps)

lemma write_lines [i2c_simps]:
  "scl (HAL_GPIO_WritePin GPIOB (GPIO_PIN 8) s w) = s" "scl (HAL_GPIO_WritePin GPIOB (GPIO_PIN 9) s w) = scl w"
  "sda_latch (HAL_GPIO_WritePin GPIOB (GPIO_PIN 8) s w) = sda_latch w"
  "sda_latch (HAL_GPIO_WritePin GPIOB (GPIO_PIN 9) s w) = s"
  by (simp_all add: scl_def sda_latch_def hw_simps)

lemma write_oled [i2c_simps]:
  "sda_driven (HAL_GPIO_WritePin p m s w) = sda_driven w" "seen (HAL_GPIO_WritePin p m s w) = seen w"
  "sda_in (HAL_GPIO_WritePin p m s w) = sda_in w" "sda_n (HAL_GPIO_WritePin p m s w) = sda_n w"
  by (simp_all add: HAL_GPIO_WritePin_def sda_driven_def seen_def)

lemma scl_pins [i2c_simps]:
  "scl (OLED_IIC_SCL_High w) = True" "scl (OLED_IIC_SCL_Low w) = False"
  "scl (OLED_IIC_SDA_High w) = scl w" "scl (OLED_IIC_SDA_Low w) = scl w" "scl (delay_us n w) = scl w"
  "sda_latch (OLED_IIC_SCL_High w) = sda_latch w" "sda_latch (OLED_IIC_SCL_Low w) = sda_latch w"
  "sda_latch (OLED_IIC_SDA_High w) = True" "sda_latch (OLED_IIC_SDA_Low w) = False" "sda_latch (delay_us n w) = sda_latch w"
  "sda_driven (OLED_IIC_SCL_High w) = sda_driven w" "sda_driven (OLED_IIC_SCL_Low w) = sda_driven w"
  "sda_driven (OLED_IIC_SDA_High w) = sda_driven w" "sda_driven (OLED_IIC_SDA_Low w) = sda_driven w"
  "sda_driven (delay_us n w) = sda_driven w"
  by (simp_all add: OLED_IIC_SCL_High_def OLED_IIC_SCL_Low_def OLED_IIC_SDA_High_def OLED_IIC_SDA_Low_def delay_us_def i2c_simps)

lemma seen_pins [i2c_simps]:
  "seen (OLED_IIC_SCL_High w) = mon_step (Lines True (if sda_driven w then Some (sda_latch w) else None)) (seen w)"
  "seen (OLED_IIC_SCL_Low w) = mon_step (Lines False (if sda_driven w then Some (sda_latch w) else None)) (seen w)"
  "seen (OLED_IIC_SDA_High w) = mon_step (Lines (scl w) (if sda_driven w then Some True else None)) (seen w)"
  "seen (OLED_IIC_SDA_Low w) = mon_step (Lines (scl w) (if sda_driven w then Some False else None)) (seen w)"
  "seen (delay_us n w) = seen w"
  by (simp_all add: OLED_IIC_SCL_High_def OLED_IIC_SCL_Low_def OLED_IIC_SDA_High_def OLED_IIC_SDA_Low_def delay_us_def i2c_simps cong: if_cong)

lemma reads_pins [i2c_simps]:
  "sda_in (OLED_IIC_SCL_High w) = sda_in w" "sda_in (OLED_IIC_SCL_Low w) = sda_in w"
  "sda_in (OLED_IIC_SDA_High w) = sda_in w" "sda_in (OLED_IIC_SDA_Low w) = sda_in w" "sda_in (delay_us n w) = sda_in w"
  "sda_n (OLED_IIC_SCL_High w) = sda_n w" "sda_n (OLED_IIC_SCL_Low w) = sda_n w"
  "sda_n (OLED_IIC_SDA_High w) = sda_n w" "sda_n (OLED_IIC_SDA_Low w) = sda_n w" "sda_n (delay_us n w) = sda_n w"
  by (simp_all add: OLED_IIC_SCL_High_def OLED_IIC_SCL_Low_def OLED_IIC_SDA_High_def OLED_IIC_SDA_Low_def delay_us_def i2c_simps)

lemma direction [i2c_simps]:
  "scl (SDA_IN w) = scl w" "sda_latch (SDA_IN w) = sda_latch w" "sda_driven (SDA_IN w) = False"
  "scl (SDA_OUT w) = scl w" "sda_latch (SDA_OUT w) = sda_latch w" "sda_driven (SDA_OUT w) = True"
  "sda_in (SDA_IN w) = sda_in w" "sda_n (SDA_IN w) = sda_n w" "sda_in (SDA_OUT w) = sda_in w" "sda_n (SDA_OUT w) = sda_n w"
  by (simp_all add: SDA_IN_def SDA_OUT_def set_moder_def sda_driven_def watch_lines_def record_event_def scl_def
    sda_latch_def pin_high_def Let_def bit_simps)

lemma seen_direction [i2c_simps]:
  "seen (SDA_IN w) = mon_step (Lines (scl w) None) (mon_step (Lines (scl w) None) (seen w))"
  "seen (SDA_OUT w) = mon_step (Lines (scl w) (Some (sda_latch w))) (mon_step (Lines (scl w) None) (seen w))"
  by (simp_all add: SDA_IN_def SDA_OUT_def set_moder_def sda_driven_def watch_lines_def record_event_def scl_def
    sda_latch_def pin_high_def seen_def Let_def bit_simps)


subsection \<open>What each operation says on the bus\<close>

text \<open>
  \<open>resting hs w\<close>: both lines high and driven, \<open>hs\<close> said so far. \<open>talking hs xs w\<close>: the clock low after
  the bits \<open>xs\<close> of the next byte.
\<close>

definition resting :: "i2c list \<Rightarrow> 'a oled_scheme \<Rightarrow> bool" where
  "resting hs w \<longleftrightarrow> scl w \<and> sda_latch w \<and> sda_driven w \<and> clock (seen w) \<and> data_line (seen w) = Some True \<and>
     heard_bus (seen w) = hs"

definition talking :: "i2c list \<Rightarrow> bool list \<Rightarrow> 'a oled_scheme \<Rightarrow> bool" where
  "talking hs xs w \<longleftrightarrow> \<not> scl w \<and> \<not> clock (seen w) \<and> taken (seen w) = xs \<and> heard_bus (seen w) = hs"

lemmas i2c_states = resting_def talking_def Let_def mon_step.simps

lemma Start_says: "resting hs w \<Longrightarrow> talking (hs @ [START]) [] (IIC_Start w)"
  by (simp add: IIC_Start_def i2c_states i2c_simps)

lemma Stop_says: "talking hs xs w \<Longrightarrow> resting (hs @ [STOP]) (IIC_Stop w)"
  by (simp add: IIC_Stop_def i2c_states i2c_simps)

lemma top_bit: "drop_bit 7 x AND 1 = (1 :: u8) \<longleftrightarrow> bit x 7"
  by (simp add: and_one_eq bit_iff_odd_drop_bit odd_iff_mod_2_eq_one)

lemma send_bit_says:
  assumes "talking hs xs w" "sda_driven w"
  shows "talking hs (xs @ [bit b 7]) (snd (send_bit (b, w))) \<and> sda_driven (snd (send_bit (b, w))) \<and>
    fst (send_bit (b, w)) = push_bit 1 b \<and>
    sda_in (snd (send_bit (b, w))) = sda_in w \<and> sda_n (snd (send_bit (b, w))) = sda_n w"
  using assms by (simp add: send_bit_def i2c_states i2c_simps top_bit)

lemma send_bits_says:
  assumes "talking hs xs w" "sda_driven w" "n \<le> 8" "(send_bit ^^ n) (b, w) = (b', w')"
  shows "talking hs (xs @ map (\<lambda>i. bit b (7 - i)) [0..<n]) w' \<and> sda_driven w' \<and> b' = push_bit n b \<and>
    sda_in w' = sda_in w \<and> sda_n w' = sda_n w"
  using assms(3,4)
proof (induction n arbitrary: b' w')
  case 0
  then show ?case using assms(1,2) by simp
next
  case (Suc n)
  obtain b1 w1 where s: "(send_bit ^^ n) (b, w) = (b1, w1)" by fastforce
  have e: "send_bit (b1, w1) = (b', w')" using Suc.prems(2) s by simp
  have ih: "talking hs (xs @ map (\<lambda>i. bit b (7 - i)) [0..<n]) w1" "sda_driven w1" "b1 = push_bit n b"
    "sda_in w1 = sda_in w" "sda_n w1 = sda_n w" using Suc.IH [OF _ s] Suc.prems(1) by auto
  have "bit b1 7 = bit b (7 - n)" using Suc.prems(1) by (simp add: ih(3) bit_simps)
  then show ?case using send_bit_says [OF ih(1,2), of b1, unfolded e fst_conv snd_conv] ih by simp
qed

lemma Send_Byte_says:
  assumes "talking hs [] w"
  shows "talking hs (bits_of_byte b) (IIC_Send_Byte b w) \<and> sda_driven (IIC_Send_Byte b w) \<and>
    sda_in (IIC_Send_Byte b w) = sda_in w \<and> sda_n (IIC_Send_Byte b w) = sda_n w"
proof -
  let ?w = "OLED_IIC_SCL_Low (SDA_OUT w)"
  obtain b' w' where s: "(send_bit ^^ 8) (b, ?w) = (b', w')" by fastforce
  have t: "talking hs [] ?w" "sda_driven ?w" using assms by (simp_all add: i2c_states i2c_simps)
  have "[0..<8] = [0, 1, 2, 3, 4, 5, 6, 7 :: nat]" by (simp add: upt_rec)
  then show ?thesis using send_bits_says [OF t _ s] s
    by (simp add: IIC_Send_Byte_def Let_def bits_of_byte_def i2c_simps)
qed

text \<open>The number of reads of the data line until it is low, at most 251.\<close>

lemma read_released:
  "\<not> sda_driven w \<Longrightarrow> OLED_READ_SDA w = (sda_in w (sda_n w), record_event (Sampled (sda_in w (sda_n w))) (w\<lparr>sda_n := sda_n w + 1\<rparr>))"
  by (simp add: OLED_READ_SDA_def Let_def)

lemma count_simps [i2c_simps]:
  "scl (w\<lparr>sda_n := n\<rparr>) = scl w" "sda_latch (w\<lparr>sda_n := n\<rparr>) = sda_latch w" "sda_driven (w\<lparr>sda_n := n\<rparr>) = sda_driven w"
  "seen (w\<lparr>sda_n := n\<rparr>) = seen w"
  by (simp_all add: scl_def sda_latch_def sda_driven_def seen_def pin_high_def)

definition waiting :: "i2c list \<Rightarrow> u8 \<Rightarrow> 'a oled_scheme \<Rightarrow> bool" where
  "waiting hs b w \<longleftrightarrow> scl w \<and> sda_latch w \<and> \<not> sda_driven w \<and> clock (seen w) \<and> data_line (seen w) = None \<and>
     taken (seen w) = bits_of_byte b \<and> heard_bus (seen w) = hs"

lemma nack_says: "waiting hs b w \<Longrightarrow> resting (hs @ [STOP]) (IIC_Stop w)"
  by (simp add: IIC_Stop_def waiting_def i2c_states i2c_simps)

lemma ack_says: "waiting hs b w \<Longrightarrow>
  talking (hs @ [BYTE b]) [] (OLED_IIC_SCL_Low (record_event (Sampled False) w))"
  by (simp add: waiting_def i2c_states i2c_simps)

lemma poll_says: "waiting hs b w \<Longrightarrow> waiting hs b (record_event (Sampled True) (w\<lparr>sda_n := n\<rparr>))"
  by (simp add: waiting_def i2c_simps mon_step.simps)


text \<open>The read that finds the line low among the next \<open>m\<close> ones, counted from \<open>n\<close>; the number behind it.\<close>

primrec ack_after :: "(nat \<Rightarrow> bool) \<Rightarrow> nat \<Rightarrow> nat \<Rightarrow> nat option" where
  "ack_after f 0 n = None"
| "ack_after f (Suc m) n = (if f n then ack_after f m (Suc n) else Some (Suc n))"

lemma ack_after_None: "ack_after f m n = None \<longleftrightarrow> (\<forall>i<m. f (n + i))"
proof (induction m arbitrary: n)
  case (Suc m)
  show ?case using Suc [of "Suc n"] by (auto simp: All_less_Suc2)
qed simp

lemma ack_after_Some: "ack_after f m n = Some n' \<Longrightarrow> n < n' \<and> n' \<le> n + m"
  by (induction m arbitrary: n) (fastforce split: if_splits)+

definition answered :: "i2c list \<Rightarrow> u8 \<Rightarrow> nat \<Rightarrow> nat \<Rightarrow> 'a oled_scheme \<Rightarrow> u8 \<times> 'a oled_scheme \<Rightarrow> bool" where
  "answered hs b m n w s \<longleftrightarrow> sda_in (snd s) = sda_in w \<and> (case ack_after (sda_in w) m n of
      Some n' \<Rightarrow> fst s = 0 \<and> sda_n (snd s) = n' \<and> talking (hs @ [BYTE b]) [] (snd s)
    | None \<Rightarrow> fst s = 1 \<and> sda_n (snd s) = n + m \<and> resting (hs @ [STOP]) (snd s))"

lemma Stop_reads [i2c_simps]: "sda_in (IIC_Stop w) = sda_in w" "sda_n (IIC_Stop w) = sda_n w"
  by (simp_all add: IIC_Stop_def Let_def i2c_simps)

lemma wait_loop_says:
  assumes "waiting hs b w" "m = 251 - unat t" "unat t \<le> 250"
  shows "answered hs b m (sda_n w) w (wait_ack_loop t w)"
  using assms
proof (induction m arbitrary: t w)
  case 0
  then show ?case by simp
next
  case (Suc m)
  define n where "n = sda_n w"
  have rel: "\<not> sda_driven w" using Suc.prems(1) by (simp add: waiting_def)
  have t1: "unat (t + 1) = unat t + 1" using Suc.prems(3) by (simp add: unat_word_ariths)
  show ?case
  proof (cases "sda_in w n")
    case False
    then have "wait_ack_loop t w = (0, OLED_IIC_SCL_Low (record_event (Sampled False) (w\<lparr>sda_n := n + 1\<rparr>)))"
      by (subst wait_ack_loop.simps) (simp add: read_released [OF rel] n_def)
    moreover have "waiting hs b (w\<lparr>sda_n := n + 1\<rparr>)" using Suc.prems(1) by (simp add: waiting_def i2c_simps)
    ultimately show ?thesis using ack_says False by (simp add: answered_def i2c_simps flip: n_def)
  next
    case True
    define v where "v = record_event (Sampled True) (w\<lparr>sda_n := n + 1\<rparr>)"
    have v: "waiting hs b v" "sda_n v = Suc n" "sda_in v = sda_in w"
      using poll_says [OF Suc.prems(1)] by (simp_all add: v_def i2c_simps)
    have e: "wait_ack_loop t w = (if 250 < t + 1 then (1, IIC_Stop v) else wait_ack_loop (t + 1) v)"
      using True by (subst wait_ack_loop.simps) (simp add: read_released [OF rel] v_def flip: n_def)
    show ?thesis
    proof (cases "250 < t + 1")
      case True
      then have "m = 0" using Suc.prems(2,3) t1 by (simp add: word_less_nat_alt)
      then show ?thesis using True e v nack_says [OF v(1)] \<open>sda_in w n\<close>
        by (simp add: answered_def i2c_simps flip: n_def)
    next
      case False
      then have "unat (t + 1) \<le> 250" by (simp add: word_less_nat_alt)
      then have "answered hs b m (sda_n v) v (wait_ack_loop (t + 1) v)"
        by (intro Suc.IH [OF v(1)]) (use Suc.prems(2) t1 in simp_all)
      then show ?thesis using False e v \<open>sda_in w n\<close>
        by (simp add: answered_def flip: n_def split: option.splits)
    qed
  qed
qed

lemma Wait_Ack_says:
  assumes "talking hs (bits_of_byte b) w"
  shows "answered hs b 251 (sda_n w) w (IIC_Wait_Ack w)"
proof -
  define v where "v = delay_us 1 (OLED_IIC_SCL_High (delay_us 1 (OLED_IIC_SDA_High (SDA_IN w))))"
  have v: "waiting hs b v" "sda_n v = sda_n w" "sda_in v = sda_in w"
    using assms by (simp_all add: v_def waiting_def i2c_states i2c_simps)
  have "IIC_Wait_Ack w = wait_ack_loop 0 v" by (simp add: IIC_Wait_Ack_def v_def Let_def)
  then show ?thesis using wait_loop_says [OF v(1), of 251 0] v by (simp add: answered_def)
qed

lemma Start_reads [i2c_simps]: "sda_in (IIC_Start w) = sda_in w" "sda_n (IIC_Start w) = sda_n w"
  by (simp_all add: IIC_Start_def Let_def i2c_simps)

lemma wait_ack_cases:
  assumes "talking hs (bits_of_byte b) w" "IIC_Wait_Ack w = (r, w')"
  shows "sda_n w < sda_n w' \<and> sda_n w' \<le> sda_n w + 251 \<and>
    (if \<forall>i<251. sda_in w (sda_n w + i) then r = 1 \<and> resting (hs @ [STOP]) w'
     else r = 0 \<and> talking (hs @ [BYTE b]) [] w')"
  using Wait_Ack_says [OF assms(1)] ack_after_Some [of "sda_in w" 251 "sda_n w"]
    ack_after_None [of "sda_in w" 251 "sda_n w"]
  unfolding answered_def assms(2) by (auto split: option.splits simp del: ack_after.simps)


text \<open>
  C36 (termination). Waiting for an acknowledgement always ends: the data line is read at most 251 times,
  and the answer is 1, with a stop on the bus, exactly when it was high all 251 times, as it is with
  the display unplugged; otherwise it is 0 and the byte counts as taken. The counter is a byte and
  cannot wrap before the limit.
\<close>

theorem wait_ack_ends:
  assumes "talking hs (bits_of_byte b) w" "IIC_Wait_Ack w = (r, w')"
  shows "sda_n w < sda_n w' \<and> sda_n w' \<le> sda_n w + 251 \<and>
    (if \<forall>i<251. sda_in w (sda_n w + i) then r = 1 \<and> resting (hs @ [STOP]) w'
     else r = 0 \<and> talking (hs @ [BYTE b]) [] w')"
  by (rule wait_ack_cases [OF assms])

subsection \<open>What the bus leaves alone\<close>

text \<open>Only the two pins, the mode registers and the record of the bus change.\<close>

definition bus_only :: "'a oled_scheme \<Rightarrow> 'a oled_scheme \<Rightarrow> bool" where
  "bus_only w w' \<longleftrightarrow>
     w' = w\<lparr>ODR := ODR w', GPIOB_MODER := GPIOB_MODER w', GPIOB_OSPEEDR := GPIOB_OSPEEDR w', bus := bus w',
       sda_n := sda_n w'\<rparr> \<and>
     (\<forall>p n. n < 16 \<longrightarrow> pin_high w' p n \<noteq> pin_high w p n \<longrightarrow> p = GPIOB \<and> (n = 8 \<or> n = 9))"

lemma bus_only_refl [intro, simp]: "bus_only w w"
  by (simp add: bus_only_def)

lemma bus_only_trans [trans]: "bus_only u v \<Longrightarrow> bus_only v w \<Longrightarrow> bus_only u w"
proof -
  assume a: "bus_only u v" and b: "bus_only v w"
  have "w = u\<lparr>ODR := ODR w, GPIOB_MODER := GPIOB_MODER w, GPIOB_OSPEEDR := GPIOB_OSPEEDR w, bus := bus w, sda_n := sda_n w\<rparr>"
    by (subst b [unfolded bus_only_def, THEN conjunct1], subst (1) a [unfolded bus_only_def, THEN conjunct1]) simp
  moreover have "p = GPIOB \<and> (n = 8 \<or> n = 9)" if "n < 16" "pin_high w p n \<noteq> pin_high u p n" for p n
    using a b that unfolding bus_only_def by metis
  ultimately show "bus_only u w" by (auto simp: bus_only_def)
qed

named_theorems bus_frames \<open>operations that change the bus only\<close>

lemma primitive_frames [bus_frames]:
  "bus_only u w \<Longrightarrow> bus_only u (record_event e w)" "bus_only u w \<Longrightarrow> bus_only u (watch_lines w)"
  "bus_only u w \<Longrightarrow> bus_only u (set_moder m w)" "bus_only u w \<Longrightarrow> bus_only u (w\<lparr>GPIOB_OSPEEDR := m\<rparr>)"
  "bus_only u w \<Longrightarrow> bus_only u (w\<lparr>sda_n := k\<rparr>)"
  by (erule bus_only_trans, simp add: bus_only_def record_event_def watch_lines_def set_moder_def pin_high_def)+

lemma write_bus_only: "k = 8 \<or> k = 9 \<Longrightarrow> bus_only w (HAL_GPIO_WritePin GPIOB (GPIO_PIN k) s w)"
proof -
  assume k: "k = 8 \<or> k = 9"
  have "p = GPIOB \<and> (n = 8 \<or> n = 9)" if "n < 16" "pin_high (HAL_GPIO_WritePin GPIOB (GPIO_PIN k) s w) p n \<noteq> pin_high w p n" for p n
    using k that by (auto simp: hw_simps split: if_splits)
  then show ?thesis unfolding bus_only_def by (auto simp: HAL_GPIO_WritePin_def)
qed

lemma pin_frames [bus_frames]:
  "bus_only u w \<Longrightarrow> bus_only u (HAL_GPIO_WritePin GPIOB (GPIO_PIN 8) s w)"
  "bus_only u w \<Longrightarrow> bus_only u (HAL_GPIO_WritePin GPIOB (GPIO_PIN 9) s w)"
  by (erule bus_only_trans, simp add: write_bus_only)+

lemma line_frames [bus_frames]:
  "bus_only u w \<Longrightarrow> bus_only u (OLED_IIC_SCL_High w)" "bus_only u w \<Longrightarrow> bus_only u (OLED_IIC_SCL_Low w)"
  "bus_only u w \<Longrightarrow> bus_only u (OLED_IIC_SDA_High w)" "bus_only u w \<Longrightarrow> bus_only u (OLED_IIC_SDA_Low w)"
  "bus_only u w \<Longrightarrow> bus_only u (delay_us k w)" "bus_only u w \<Longrightarrow> bus_only u (SDA_IN w)"
  "bus_only u w \<Longrightarrow> bus_only u (SDA_OUT w)" "bus_only u w \<Longrightarrow> bus_only u (snd (OLED_READ_SDA w))"
  by (simp_all add: OLED_IIC_SCL_High_def OLED_IIC_SCL_Low_def OLED_IIC_SDA_High_def OLED_IIC_SDA_Low_def
    delay_us_def SDA_IN_def SDA_OUT_def OLED_READ_SDA_def Let_def bus_frames)

lemma start_stop_frames [bus_frames]:
  "bus_only u w \<Longrightarrow> bus_only u (IIC_Start w)" "bus_only u w \<Longrightarrow> bus_only u (IIC_Stop w)"
  by (simp_all add: IIC_Start_def IIC_Stop_def Let_def bus_frames)

lemma wait_loop_frame: "bus_only u w \<Longrightarrow> bus_only u (snd (wait_ack_loop t w))"
proof (induction t w rule: wait_ack_loop.induct)
  case (1 t w)
  obtain b v where r: "OLED_READ_SDA w = (b, v)" by fastforce
  have "bus_only u v" using 1(2) line_frames(8) [of u w] r by simp
  then show ?case using 1(1) r by (subst wait_ack_loop.simps) (simp add: bus_frames)
qed

lemma Wait_Ack_frame [bus_frames]: "bus_only u w \<Longrightarrow> bus_only u (snd (IIC_Wait_Ack w))"
  by (simp add: IIC_Wait_Ack_def Let_def bus_frames wait_loop_frame)

lemma send_bit_frame: "bus_only u (snd s) \<Longrightarrow> bus_only u (snd (send_bit s))"
  by (cases s) (simp add: send_bit_def Let_def bus_frames)

lemma Send_Byte_frame [bus_frames]:
  assumes "bus_only u w"
  shows "bus_only u (IIC_Send_Byte b w)"
proof -
  have "bus_only u (snd ((send_bit ^^ n) (b, OLED_IIC_SCL_Low (SDA_OUT w))))" for n
    using assms by (induction n) (simp_all add: bus_frames send_bit_frame)
  then show ?thesis by (simp add: IIC_Send_Byte_def Let_def)
qed

lemma both_pins:
  "scl (HAL_GPIO_WritePin GPIOB (GPIO_PIN 8 OR GPIO_PIN 9) True w)"
  "sda_latch (HAL_GPIO_WritePin GPIOB (GPIO_PIN 8 OR GPIO_PIN 9) True w)"
  by (simp_all add: scl_def sda_latch_def pin_high_def HAL_GPIO_WritePin_def GPIO_PIN_def bit_simps)

lemma Init_rests:
  assumes "bus w = []" "\<not> scl w"
  shows "resting [] (IIC_Init w) \<and> sda_in (IIC_Init w) = sda_in w"
proof -
  obtain c l where m: "hal_calls [RCC_GPIO_ENABLE GPIOB,
    GPIO_Init GPIOB (GPIO_PIN 8 OR GPIO_PIN 9) OUTPUT_PP NOPULL SPEED_HIGH None] w = w\<lparr>CCR := c, hal_log := l\<rparr>"
    by (rule hal_calls_frame)
  define v where "v = set_moder (GPIOB_MODER w AND 0xFFF0FFFF OR 0x00050000)
    (w\<lparr>CCR := c, hal_log := l, GPIOB_OSPEEDR := GPIOB_OSPEEDR w AND 0xFFF0FFFF OR 0x000A0000\<rparr>)"
  have v: "\<not> scl v" "sda_driven v" "\<not> clock (seen v)" "heard_bus (seen v) = []" "sda_in v = sda_in w"
    using assms by (simp_all add: v_def set_moder_def watch_lines_def record_event_def scl_def pin_high_def
      sda_driven_def sda_latch_def seen_def mon0_def mon_step.simps bit_simps Let_def)
  have e: "IIC_Init w = watch_lines (HAL_GPIO_WritePin GPIOB (GPIO_PIN 8 OR GPIO_PIN 9) True v)"
    by (simp add: IIC_Init_def Let_def v_def m)
  show ?thesis using v by (simp add: both_pins e resting_def i2c_simps mon_step.simps Let_def)
qed

lemma oled0_fields: "bus oled0 = []" "ODR oled0 = (\<lambda>_. 0)"
  by (simp_all add: oled0_def oled_fields0_def debug0_def dht0_def dht_fields0_def actuators0_def actuators_fields0_def
    sensors0_def sensors_fields0_def sport0_def sport_fields0_def voice0_def voice_fields0_def senders0_def
    senders_fields0_def soft0_def soft_fields0_def comm0_def comm_fields0_def turns0_def motors0_def encoders0_def
    globals0_def hw0_def oled.defs debug.defs dht.defs actuators.defs sensors.defs sport.defs voice.defs senders.defs
    soft.defs comm.defs turns.defs motors.defs encoders.defs globals.defs hw.defs)

lemma oled0_lines: "bus (oled0\<lparr>sda_in := f\<rparr>) = []" "\<not> scl (oled0\<lparr>sda_in := f\<rparr>)"
  by (simp_all add: oled0_fields scl_def pin_high_def)

theorem wait_ack_ends_witness:
  fixes w defines "w \<equiv> IIC_Send_Byte 0x78 (IIC_Start (IIC_Init (oled0\<lparr>sda_in := (\<lambda>_. True)\<rparr>)))"
  shows "fst (IIC_Wait_Ack w) = 1 \<and> resting [START, STOP] (snd (IIC_Wait_Ack w))"
proof -
  obtain r w' where e: "IIC_Wait_Ack w = (r, w')" by fastforce
  have t: "talking [START] [] (IIC_Start (IIC_Init (oled0\<lparr>sda_in := (\<lambda>_. True)\<rparr>)))"
    using Start_says Init_rests [OF oled0_lines] by fastforce
  have "talking [START] (bits_of_byte 0x78) w" "sda_in w = (\<lambda>_. True)"
    using Send_Byte_says [OF t, where b = "0x78"] Init_rests [OF oled0_lines] by (simp_all add: w_def i2c_simps)
  then show ?thesis using wait_ack_ends [OF _ e, of "[START]" "0x78"] by (simp add: e)
qed

end
