(* ===== verification/Oled_Font.thy ===== *)
theory Oled_Font
  imports Prelude
begin

text \<open>
  The glyph tables of the display (\<^verbatim>\<open>Software/codetab.h\<close>), one row per row of the source: three
  Chinese characters of 16 x 16 points, the ASCII characters from the space on in 6 x 8 points (92 of
  them, up to the letter z and a block of horizontal lines) and in 8 x 16 points (95, up to the tilde).
  The picture \<^verbatim>\<open>BMP1\<close> of the same file is not used by the program.
\<close>

definition F16x16 :: bytes where
  "F16x16 = concat [
    [0x20, 0x10, 0x2C, 0xE7, 0x24, 0x24, 0, 0xF0, 0x10, 0x10, 0xFF, 0x10, 0x10, 0xF0, 0, 0],
    [0x01, 0x01, 0x01, 0x7F, 0x21, 0x11, 0, 0x07, 0x02, 0x02, 0xFF, 0x02, 0x02, 0x07, 0, 0],
    [0x20, 0x20, 0x3E, 0x20, 0x1F, 0x94, 0x54, 0, 0x1F, 0x24, 0xA4, 0x24, 0x22, 0x38, 0, 0],
    [0, 0x80, 0x48, 0x29, 0x09, 0x4D, 0x8D, 0x7B, 0x0B, 0x09, 0x28, 0x4C, 0x98, 0, 0, 0],
    [0, 0xFC, 0x84, 0x84, 0xFC, 0, 0x44, 0x54, 0x54, 0x54, 0x7F, 0x54, 0x54, 0x54, 0x44, 0],
    [0, 0x3F, 0x10, 0x10, 0x3F, 0, 0, 0xFF, 0x15, 0x15, 0x15, 0x55, 0x95, 0x7F, 0, 0]]"

definition F6x8 :: bytes where
  "F6x8 = concat [
    [0, 0, 0, 0, 0, 0],
    [0, 0, 0, 0x2F, 0, 0],
    [0, 0, 0x07, 0, 0x07, 0],
    [0, 0x14, 0x7F, 0x14, 0x7F, 0x14],
    [0, 0x24, 0x2A, 0x7F, 0x2A, 0x12],
    [0, 0x62, 0x64, 0x08, 0x13, 0x23],
    [0, 0x36, 0x49, 0x55, 0x22, 0x50],
    [0, 0, 0x05, 0x03, 0, 0],
    [0, 0, 0x1C, 0x22, 0x41, 0],
    [0, 0, 0x41, 0x22, 0x1C, 0],
    [0, 0x14, 0x08, 0x3E, 0x08, 0x14],
    [0, 0x08, 0x08, 0x3E, 0x08, 0x08],
    [0, 0, 0, 0xA0, 0x60, 0],
    [0, 0x08, 0x08, 0x08, 0x08, 0x08],
    [0, 0, 0x60, 0x60, 0, 0],
    [0, 0x20, 0x10, 0x08, 0x04, 0x02],
    [0, 0x3E, 0x51, 0x49, 0x45, 0x3E],
    [0, 0, 0x42, 0x7F, 0x40, 0],
    [0, 0x42, 0x61, 0x51, 0x49, 0x46],
    [0, 0x21, 0x41, 0x45, 0x4B, 0x31],
    [0, 0x18, 0x14, 0x12, 0x7F, 0x10],
    [0, 0x27, 0x45, 0x45, 0x45, 0x39],
    [0, 0x3C, 0x4A, 0x49, 0x49, 0x30],
    [0, 0x01, 0x71, 0x09, 0x05, 0x03],
    [0, 0x36, 0x49, 0x49, 0x49, 0x36],
    [0, 0x06, 0x49, 0x49, 0x29, 0x1E],
    [0, 0, 0x36, 0x36, 0, 0],
    [0, 0, 0x56, 0x36, 0, 0],
    [0, 0x08, 0x14, 0x22, 0x41, 0],
    [0, 0x14, 0x14, 0x14, 0x14, 0x14],
    [0, 0, 0x41, 0x22, 0x14, 0x08],
    [0, 0x02, 0x01, 0x51, 0x09, 0x06],
    [0, 0x32, 0x49, 0x59, 0x51, 0x3E],
    [0, 0x7C, 0x12, 0x11, 0x12, 0x7C],
    [0, 0x7F, 0x49, 0x49, 0x49, 0x36],
    [0, 0x3E, 0x41, 0x41, 0x41, 0x22],
    [0, 0x7F, 0x41, 0x41, 0x22, 0x1C],
    [0, 0x7F, 0x49, 0x49, 0x49, 0x41],
    [0, 0x7F, 0x09, 0x09, 0x09, 0x01],
    [0, 0x3E, 0x41, 0x49, 0x49, 0x7A],
    [0, 0x7F, 0x08, 0x08, 0x08, 0x7F],
    [0, 0, 0x41, 0x7F, 0x41, 0],
    [0, 0x20, 0x40, 0x41, 0x3F, 0x01],
    [0, 0x7F, 0x08, 0x14, 0x22, 0x41],
    [0, 0x7F, 0x40, 0x40, 0x40, 0x40],
    [0, 0x7F, 0x02, 0x0C, 0x02, 0x7F],
    [0, 0x7F, 0x04, 0x08, 0x10, 0x7F],
    [0, 0x3E, 0x41, 0x41, 0x41, 0x3E],
    [0, 0x7F, 0x09, 0x09, 0x09, 0x06],
    [0, 0x3E, 0x41, 0x51, 0x21, 0x5E],
    [0, 0x7F, 0x09, 0x19, 0x29, 0x46],
    [0, 0x46, 0x49, 0x49, 0x49, 0x31],
    [0, 0x01, 0x01, 0x7F, 0x01, 0x01],
    [0, 0x3F, 0x40, 0x40, 0x40, 0x3F],
    [0, 0x1F, 0x20, 0x40, 0x20, 0x1F],
    [0, 0x3F, 0x40, 0x38, 0x40, 0x3F],
    [0, 0x63, 0x14, 0x08, 0x14, 0x63],
    [0, 0x07, 0x08, 0x70, 0x08, 0x07],
    [0, 0x61, 0x51, 0x49, 0x45, 0x43],
    [0, 0, 0x7F, 0x41, 0x41, 0],
    [0, 0x55, 0x2A, 0x55, 0x2A, 0x55],
    [0, 0, 0x41, 0x41, 0x7F, 0],
    [0, 0x04, 0x02, 0x01, 0x02, 0x04],
    [0, 0x40, 0x40, 0x40, 0x40, 0x40],
    [0, 0, 0x01, 0x02, 0x04, 0],
    [0, 0x20, 0x54, 0x54, 0x54, 0x78],
    [0, 0x7F, 0x48, 0x44, 0x44, 0x38],
    [0, 0x38, 0x44, 0x44, 0x44, 0x20],
    [0, 0x38, 0x44, 0x44, 0x48, 0x7F],
    [0, 0x38, 0x54, 0x54, 0x54, 0x18],
    [0, 0x08, 0x7E, 0x09, 0x01, 0x02],
    [0, 0x18, 0xA4, 0xA4, 0xA4, 0x7C],
    [0, 0x7F, 0x08, 0x04, 0x04, 0x78],
    [0, 0, 0x44, 0x7D, 0x40, 0],
    [0, 0x40, 0x80, 0x84, 0x7D, 0],
    [0, 0x7F, 0x10, 0x28, 0x44, 0],
    [0, 0, 0x41, 0x7F, 0x40, 0],
    [0, 0x7C, 0x04, 0x18, 0x04, 0x78],
    [0, 0x7C, 0x08, 0x04, 0x04, 0x78],
    [0, 0x38, 0x44, 0x44, 0x44, 0x38],
    [0, 0xFC, 0x24, 0x24, 0x24, 0x18],
    [0, 0x18, 0x24, 0x24, 0x18, 0xFC],
    [0, 0x7C, 0x08, 0x04, 0x04, 0x08],
    [0, 0x48, 0x54, 0x54, 0x54, 0x20],
    [0, 0x04, 0x3F, 0x44, 0x40, 0x20],
    [0, 0x3C, 0x40, 0x40, 0x20, 0x7C],
    [0, 0x1C, 0x20, 0x40, 0x20, 0x1C],
    [0, 0x3C, 0x40, 0x30, 0x40, 0x3C],
    [0, 0x44, 0x28, 0x10, 0x28, 0x44],
    [0, 0x1C, 0xA0, 0xA0, 0xA0, 0x7C],
    [0, 0x44, 0x64, 0x54, 0x4C, 0x44],
    [0x14, 0x14, 0x14, 0x14, 0x14, 0x14]]"

definition F8X16 :: bytes where
  "F8X16 = concat [
    [0, 0, 0, 0, 0, 0, 0, 0, 0, 0, 0, 0, 0, 0, 0, 0],
    [0, 0, 0, 0xF8, 0, 0, 0, 0, 0, 0, 0, 0x33, 0x30, 0, 0, 0],
    [0, 0x10, 0x0C, 0x06, 0x10, 0x0C, 0x06, 0, 0, 0, 0, 0, 0, 0, 0, 0],
    [0x40, 0xC0, 0x78, 0x40, 0xC0, 0x78, 0x40, 0, 0x04, 0x3F, 0x04, 0x04, 0x3F, 0x04, 0x04, 0],
    [0, 0x70, 0x88, 0xFC, 0x08, 0x30, 0, 0, 0, 0x18, 0x20, 0xFF, 0x21, 0x1E, 0, 0],
    [0xF0, 0x08, 0xF0, 0, 0xE0, 0x18, 0, 0, 0, 0x21, 0x1C, 0x03, 0x1E, 0x21, 0x1E, 0],
    [0, 0xF0, 0x08, 0x88, 0x70, 0, 0, 0, 0x1E, 0x21, 0x23, 0x24, 0x19, 0x27, 0x21, 0x10],
    [0x10, 0x16, 0x0E, 0, 0, 0, 0, 0, 0, 0, 0, 0, 0, 0, 0, 0],
    [0, 0, 0, 0xE0, 0x18, 0x04, 0x02, 0, 0, 0, 0, 0x07, 0x18, 0x20, 0x40, 0],
    [0, 0x02, 0x04, 0x18, 0xE0, 0, 0, 0, 0, 0x40, 0x20, 0x18, 0x07, 0, 0, 0],
    [0x40, 0x40, 0x80, 0xF0, 0x80, 0x40, 0x40, 0, 0x02, 0x02, 0x01, 0x0F, 0x01, 0x02, 0x02, 0],
    [0, 0, 0, 0xF0, 0, 0, 0, 0, 0x01, 0x01, 0x01, 0x1F, 0x01, 0x01, 0x01, 0],
    [0, 0, 0, 0, 0, 0, 0, 0, 0x80, 0xB0, 0x70, 0, 0, 0, 0, 0],
    [0, 0, 0, 0, 0, 0, 0, 0, 0, 0x01, 0x01, 0x01, 0x01, 0x01, 0x01, 0x01],
    [0, 0, 0, 0, 0, 0, 0, 0, 0, 0x30, 0x30, 0, 0, 0, 0, 0],
    [0, 0, 0, 0, 0x80, 0x60, 0x18, 0x04, 0, 0x60, 0x18, 0x06, 0x01, 0, 0, 0],
    [0, 0xE0, 0x10, 0x08, 0x08, 0x10, 0xE0, 0, 0, 0x0F, 0x10, 0x20, 0x20, 0x10, 0x0F, 0],
    [0, 0x10, 0x10, 0xF8, 0, 0, 0, 0, 0, 0x20, 0x20, 0x3F, 0x20, 0x20, 0, 0],
    [0, 0x70, 0x08, 0x08, 0x08, 0x88, 0x70, 0, 0, 0x30, 0x28, 0x24, 0x22, 0x21, 0x30, 0],
    [0, 0x30, 0x08, 0x88, 0x88, 0x48, 0x30, 0, 0, 0x18, 0x20, 0x20, 0x20, 0x11, 0x0E, 0],
    [0, 0, 0xC0, 0x20, 0x10, 0xF8, 0, 0, 0, 0x07, 0x04, 0x24, 0x24, 0x3F, 0x24, 0],
    [0, 0xF8, 0x08, 0x88, 0x88, 0x08, 0x08, 0, 0, 0x19, 0x21, 0x20, 0x20, 0x11, 0x0E, 0],
    [0, 0xE0, 0x10, 0x88, 0x88, 0x18, 0, 0, 0, 0x0F, 0x11, 0x20, 0x20, 0x11, 0x0E, 0],
    [0, 0x38, 0x08, 0x08, 0xC8, 0x38, 0x08, 0, 0, 0, 0, 0x3F, 0, 0, 0, 0],
    [0, 0x70, 0x88, 0x08, 0x08, 0x88, 0x70, 0, 0, 0x1C, 0x22, 0x21, 0x21, 0x22, 0x1C, 0],
    [0, 0xE0, 0x10, 0x08, 0x08, 0x10, 0xE0, 0, 0, 0, 0x31, 0x22, 0x22, 0x11, 0x0F, 0],
    [0, 0, 0, 0xC0, 0xC0, 0, 0, 0, 0, 0, 0, 0x30, 0x30, 0, 0, 0],
    [0, 0, 0, 0x80, 0, 0, 0, 0, 0, 0, 0x80, 0x60, 0, 0, 0, 0],
    [0, 0, 0x80, 0x40, 0x20, 0x10, 0x08, 0, 0, 0x01, 0x02, 0x04, 0x08, 0x10, 0x20, 0],
    [0x40, 0x40, 0x40, 0x40, 0x40, 0x40, 0x40, 0, 0x04, 0x04, 0x04, 0x04, 0x04, 0x04, 0x04, 0],
    [0, 0x08, 0x10, 0x20, 0x40, 0x80, 0, 0, 0, 0x20, 0x10, 0x08, 0x04, 0x02, 0x01, 0],
    [0, 0x70, 0x48, 0x08, 0x08, 0x08, 0xF0, 0, 0, 0, 0, 0x30, 0x36, 0x01, 0, 0],
    [0xC0, 0x30, 0xC8, 0x28, 0xE8, 0x10, 0xE0, 0, 0x07, 0x18, 0x27, 0x24, 0x23, 0x14, 0x0B, 0],
    [0, 0, 0xC0, 0x38, 0xE0, 0, 0, 0, 0x20, 0x3C, 0x23, 0x02, 0x02, 0x27, 0x38, 0x20],
    [0x08, 0xF8, 0x88, 0x88, 0x88, 0x70, 0, 0, 0x20, 0x3F, 0x20, 0x20, 0x20, 0x11, 0x0E, 0],
    [0xC0, 0x30, 0x08, 0x08, 0x08, 0x08, 0x38, 0, 0x07, 0x18, 0x20, 0x20, 0x20, 0x10, 0x08, 0],
    [0x08, 0xF8, 0x08, 0x08, 0x08, 0x10, 0xE0, 0, 0x20, 0x3F, 0x20, 0x20, 0x20, 0x10, 0x0F, 0],
    [0x08, 0xF8, 0x88, 0x88, 0xE8, 0x08, 0x10, 0, 0x20, 0x3F, 0x20, 0x20, 0x23, 0x20, 0x18, 0],
    [0x08, 0xF8, 0x88, 0x88, 0xE8, 0x08, 0x10, 0, 0x20, 0x3F, 0x20, 0, 0x03, 0, 0, 0],
    [0xC0, 0x30, 0x08, 0x08, 0x08, 0x38, 0, 0, 0x07, 0x18, 0x20, 0x20, 0x22, 0x1E, 0x02, 0],
    [0x08, 0xF8, 0x08, 0, 0, 0x08, 0xF8, 0x08, 0x20, 0x3F, 0x21, 0x01, 0x01, 0x21, 0x3F, 0x20],
    [0, 0x08, 0x08, 0xF8, 0x08, 0x08, 0, 0, 0, 0x20, 0x20, 0x3F, 0x20, 0x20, 0, 0],
    [0, 0, 0x08, 0x08, 0xF8, 0x08, 0x08, 0, 0xC0, 0x80, 0x80, 0x80, 0x7F, 0, 0, 0],
    [0x08, 0xF8, 0x88, 0xC0, 0x28, 0x18, 0x08, 0, 0x20, 0x3F, 0x20, 0x01, 0x26, 0x38, 0x20, 0],
    [0x08, 0xF8, 0x08, 0, 0, 0, 0, 0, 0x20, 0x3F, 0x20, 0x20, 0x20, 0x20, 0x30, 0],
    [0x08, 0xF8, 0xF8, 0, 0xF8, 0xF8, 0x08, 0, 0x20, 0x3F, 0, 0x3F, 0, 0x3F, 0x20, 0],
    [0x08, 0xF8, 0x30, 0xC0, 0, 0x08, 0xF8, 0x08, 0x20, 0x3F, 0x20, 0, 0x07, 0x18, 0x3F, 0],
    [0xE0, 0x10, 0x08, 0x08, 0x08, 0x10, 0xE0, 0, 0x0F, 0x10, 0x20, 0x20, 0x20, 0x10, 0x0F, 0],
    [0x08, 0xF8, 0x08, 0x08, 0x08, 0x08, 0xF0, 0, 0x20, 0x3F, 0x21, 0x01, 0x01, 0x01, 0, 0],
    [0xE0, 0x10, 0x08, 0x08, 0x08, 0x10, 0xE0, 0, 0x0F, 0x18, 0x24, 0x24, 0x38, 0x50, 0x4F, 0],
    [0x08, 0xF8, 0x88, 0x88, 0x88, 0x88, 0x70, 0, 0x20, 0x3F, 0x20, 0, 0x03, 0x0C, 0x30, 0x20],
    [0, 0x70, 0x88, 0x08, 0x08, 0x08, 0x38, 0, 0, 0x38, 0x20, 0x21, 0x21, 0x22, 0x1C, 0],
    [0x18, 0x08, 0x08, 0xF8, 0x08, 0x08, 0x18, 0, 0, 0, 0x20, 0x3F, 0x20, 0, 0, 0],
    [0x08, 0xF8, 0x08, 0, 0, 0x08, 0xF8, 0x08, 0, 0x1F, 0x20, 0x20, 0x20, 0x20, 0x1F, 0],
    [0x08, 0x78, 0x88, 0, 0, 0xC8, 0x38, 0x08, 0, 0, 0x07, 0x38, 0x0E, 0x01, 0, 0],
    [0xF8, 0x08, 0, 0xF8, 0, 0x08, 0xF8, 0, 0x03, 0x3C, 0x07, 0, 0x07, 0x3C, 0x03, 0],
    [0x08, 0x18, 0x68, 0x80, 0x80, 0x68, 0x18, 0x08, 0x20, 0x30, 0x2C, 0x03, 0x03, 0x2C, 0x30, 0x20],
    [0x08, 0x38, 0xC8, 0, 0xC8, 0x38, 0x08, 0, 0, 0, 0x20, 0x3F, 0x20, 0, 0, 0],
    [0x10, 0x08, 0x08, 0x08, 0xC8, 0x38, 0x08, 0, 0x20, 0x38, 0x26, 0x21, 0x20, 0x20, 0x18, 0],
    [0, 0, 0, 0xFE, 0x02, 0x02, 0x02, 0, 0, 0, 0, 0x7F, 0x40, 0x40, 0x40, 0],
    [0, 0x0C, 0x30, 0xC0, 0, 0, 0, 0, 0, 0, 0, 0x01, 0x06, 0x38, 0xC0, 0],
    [0, 0x02, 0x02, 0x02, 0xFE, 0, 0, 0, 0, 0x40, 0x40, 0x40, 0x7F, 0, 0, 0],
    [0, 0, 0x04, 0x02, 0x02, 0x02, 0x04, 0, 0, 0, 0, 0, 0, 0, 0, 0],
    [0, 0, 0, 0, 0, 0, 0, 0, 0x80, 0x80, 0x80, 0x80, 0x80, 0x80, 0x80, 0x80],
    [0, 0x02, 0x02, 0x04, 0, 0, 0, 0, 0, 0, 0, 0, 0, 0, 0, 0],
    [0, 0, 0x80, 0x80, 0x80, 0x80, 0, 0, 0, 0x19, 0x24, 0x22, 0x22, 0x22, 0x3F, 0x20],
    [0x08, 0xF8, 0, 0x80, 0x80, 0, 0, 0, 0, 0x3F, 0x11, 0x20, 0x20, 0x11, 0x0E, 0],
    [0, 0, 0, 0x80, 0x80, 0x80, 0, 0, 0, 0x0E, 0x11, 0x20, 0x20, 0x20, 0x11, 0],
    [0, 0, 0, 0x80, 0x80, 0x88, 0xF8, 0, 0, 0x0E, 0x11, 0x20, 0x20, 0x10, 0x3F, 0x20],
    [0, 0, 0x80, 0x80, 0x80, 0x80, 0, 0, 0, 0x1F, 0x22, 0x22, 0x22, 0x22, 0x13, 0],
    [0, 0x80, 0x80, 0xF0, 0x88, 0x88, 0x88, 0x18, 0, 0x20, 0x20, 0x3F, 0x20, 0x20, 0, 0],
    [0, 0, 0x80, 0x80, 0x80, 0x80, 0x80, 0, 0, 0x6B, 0x94, 0x94, 0x94, 0x93, 0x60, 0],
    [0x08, 0xF8, 0, 0x80, 0x80, 0x80, 0, 0, 0x20, 0x3F, 0x21, 0, 0, 0x20, 0x3F, 0x20],
    [0, 0x80, 0x98, 0x98, 0, 0, 0, 0, 0, 0x20, 0x20, 0x3F, 0x20, 0x20, 0, 0],
    [0, 0, 0, 0x80, 0x98, 0x98, 0, 0, 0, 0xC0, 0x80, 0x80, 0x80, 0x7F, 0, 0],
    [0x08, 0xF8, 0, 0, 0x80, 0x80, 0x80, 0, 0x20, 0x3F, 0x24, 0x02, 0x2D, 0x30, 0x20, 0],
    [0, 0x08, 0x08, 0xF8, 0, 0, 0, 0, 0, 0x20, 0x20, 0x3F, 0x20, 0x20, 0, 0],
    [0x80, 0x80, 0x80, 0x80, 0x80, 0x80, 0x80, 0, 0x20, 0x3F, 0x20, 0, 0x3F, 0x20, 0, 0x3F],
    [0x80, 0x80, 0, 0x80, 0x80, 0x80, 0, 0, 0x20, 0x3F, 0x21, 0, 0, 0x20, 0x3F, 0x20],
    [0, 0, 0x80, 0x80, 0x80, 0x80, 0, 0, 0, 0x1F, 0x20, 0x20, 0x20, 0x20, 0x1F, 0],
    [0x80, 0x80, 0, 0x80, 0x80, 0, 0, 0, 0x80, 0xFF, 0xA1, 0x20, 0x20, 0x11, 0x0E, 0],
    [0, 0, 0, 0x80, 0x80, 0x80, 0x80, 0, 0, 0x0E, 0x11, 0x20, 0x20, 0xA0, 0xFF, 0x80],
    [0x80, 0x80, 0x80, 0, 0x80, 0x80, 0x80, 0, 0x20, 0x20, 0x3F, 0x21, 0x20, 0, 0x01, 0],
    [0, 0, 0x80, 0x80, 0x80, 0x80, 0x80, 0, 0, 0x33, 0x24, 0x24, 0x24, 0x24, 0x19, 0],
    [0, 0x80, 0x80, 0xE0, 0x80, 0x80, 0, 0, 0, 0, 0, 0x1F, 0x20, 0x20, 0, 0],
    [0x80, 0x80, 0, 0, 0, 0x80, 0x80, 0, 0, 0x1F, 0x20, 0x20, 0x20, 0x10, 0x3F, 0x20],
    [0x80, 0x80, 0x80, 0, 0, 0x80, 0x80, 0x80, 0, 0x01, 0x0E, 0x30, 0x08, 0x06, 0x01, 0],
    [0x80, 0x80, 0, 0x80, 0, 0x80, 0x80, 0x80, 0x0F, 0x30, 0x0C, 0x03, 0x0C, 0x30, 0x0F, 0],
    [0, 0x80, 0x80, 0, 0x80, 0x80, 0x80, 0, 0, 0x20, 0x31, 0x2E, 0x0E, 0x31, 0x20, 0],
    [0x80, 0x80, 0x80, 0, 0, 0x80, 0x80, 0x80, 0x80, 0x81, 0x8E, 0x70, 0x18, 0x06, 0x01, 0],
    [0, 0x80, 0x80, 0x80, 0x80, 0x80, 0x80, 0, 0, 0x21, 0x30, 0x2C, 0x22, 0x21, 0x30, 0],
    [0, 0, 0, 0, 0x80, 0x7C, 0x02, 0x02, 0, 0, 0, 0, 0, 0x3F, 0x40, 0x40],
    [0, 0, 0, 0, 0xFF, 0, 0, 0, 0, 0, 0, 0, 0xFF, 0, 0, 0],
    [0, 0x02, 0x02, 0x7C, 0x80, 0, 0, 0, 0, 0x40, 0x40, 0x3F, 0, 0, 0, 0],
    [0, 0x06, 0x01, 0x01, 0x02, 0x02, 0x04, 0x04, 0, 0, 0, 0, 0, 0, 0, 0]]"

lemma length_fonts [simp]: "length F16x16 = 96" "length F6x8 = 552" "length F8X16 = 1520"
  by (simp_all add: F16x16_def F6x8_def F8X16_def)

end
