(* ===== verification/Oled.thy ===== *)
theory Oled
  imports Oled_I2c Oled_Font
begin

text \<open>
  The display driver (\<^verbatim>\<open>Software/oled.c\<close>): commands and data bytes on the bus, the glyphs of
  \<^verbatim>\<open>codetab.h\<close>, numbers and strings in two sizes. No caller looks at the result of \<^verbatim>\<open>OLED_Command\<close> and
  \<^verbatim>\<open>OLED_Data\<close>, so a display that does not answer is written to all the same.

  A result \<open>None\<close> is a read outside a font or outside a string, or a string whose scan never ends (its
  index is a byte).
\<close>

subsection \<open>Transfers\<close>

definition OLED_Command :: "u8 \<Rightarrow> 'a oled_scheme \<Rightarrow> int \<times> 'a oled_scheme" where
  "OLED_Command Command w = (let
     w = IIC_Start w;
     w = IIC_Send_Byte 0x78 w;
     (nack, w) = IIC_Wait_Ack w
   in if nack \<noteq> 0 then (1, IIC_Stop w) else let
     w = IIC_Send_Byte 0x00 w;
     (nack, w) = IIC_Wait_Ack w
   in if nack \<noteq> 0 then (1, IIC_Stop w) else let
     w = IIC_Send_Byte Command w;
     (nack, w) = IIC_Wait_Ack w
   in if nack \<noteq> 0 then (1, IIC_Stop w) else (0, IIC_Stop w))"

definition OLED_Data :: "u8 \<Rightarrow> 'a oled_scheme \<Rightarrow> int \<times> 'a oled_scheme" where
  "OLED_Data Data w = (let
     w = IIC_Start w;
     w = IIC_Send_Byte 0x78 w;
     (nack, w) = IIC_Wait_Ack w
   in if nack \<noteq> 0 then (1, IIC_Stop w) else let
     w = IIC_Send_Byte 0x40 w;
     (nack, w) = IIC_Wait_Ack w
   in if nack \<noteq> 0 then (1, IIC_Stop w) else let
     w = IIC_Send_Byte Data w;
     (nack, w) = IIC_Wait_Ack w
   in if nack \<noteq> 0 then (1, IIC_Stop w) else (0, IIC_Stop w))"

text \<open>As the callers use them, the result dropped.\<close>

abbreviation cmd :: "u8 \<Rightarrow> 'a oled_scheme \<Rightarrow> 'a oled_scheme" where
  "cmd c w \<equiv> snd (OLED_Command c w)"

abbreviation dat :: "u8 \<Rightarrow> 'a oled_scheme \<Rightarrow> 'a oled_scheme" where
  "dat b w \<equiv> snd (OLED_Data b w)"

definition OLED_SetPos :: "u8 \<Rightarrow> u8 \<Rightarrow> 'a oled_scheme \<Rightarrow> 'a oled_scheme" where
  "OLED_SetPos x y w = (let
     w = cmd (0xb0 + y) w;
     w = cmd (drop_bit 4 (x AND 0xf0) OR 0x10) w
   in cmd (x AND 0x0f OR 0x01) w)"

definition fill_page :: "u8 \<Rightarrow> nat \<Rightarrow> 'a oled_scheme \<Rightarrow> 'a oled_scheme" where
  "fill_page fill_Data m w = (let
     w = cmd (0xb0 + of_nat m) w;
     w = cmd 0x00 w;
     w = cmd 0x10 w
   in (dat fill_Data ^^ 128) w)"

definition OLED_Fill :: "u8 \<Rightarrow> 'a oled_scheme \<Rightarrow> 'a oled_scheme" where
  "OLED_Fill fill_Data w = fold (fill_page fill_Data) [0..<8] w"

definition OLED_Clear :: "'a oled_scheme \<Rightarrow> 'a oled_scheme" where
  "OLED_Clear w = OLED_Fill 0 w"

definition OLED_ON :: "'a oled_scheme \<Rightarrow> 'a oled_scheme" where
  "OLED_ON w = fold cmd [0x8D, 0x14, 0xAF] w"

definition OLED_OFF :: "'a oled_scheme \<Rightarrow> 'a oled_scheme" where
  "OLED_OFF w = fold cmd [0x8D, 0x10, 0xAE] w"

subsection \<open>Glyphs\<close>

text \<open>\<^verbatim>\<open>for (i = 0; i < n; i++) OLED_Data(font[base + i]);\<close>\<close>

definition glyph_data :: "bytes \<Rightarrow> nat \<Rightarrow> nat \<Rightarrow> 'a oled_scheme \<Rightarrow> 'a oled_scheme option" where
  "glyph_data font base n = for_each (\<lambda>i w. Option.bind (rd font (base + i)) (\<lambda>b. Some (dat b w))) [0..<n]"

text \<open>One character of each size: where the next one goes and the state.\<close>

definition small_char :: "u8 \<Rightarrow> u8 \<Rightarrow> u8 \<Rightarrow> 'a oled_scheme \<Rightarrow> (u8 \<times> u8 \<times> 'a oled_scheme) option" where
  "small_char c x y w = (let
     (x, y) = (if 126 < x then (0, y + 1) else (x, y));
     w = OLED_SetPos x y w
   in Option.bind (glyph_data F6x8 (unat c * 6) 6 w) (\<lambda>w. Some (x + 6, y, w)))"

definition big_char :: "u8 \<Rightarrow> u8 \<Rightarrow> u8 \<Rightarrow> 'a oled_scheme \<Rightarrow> (u8 \<times> u8 \<times> 'a oled_scheme) option" where
  "big_char c x y w = (let
     (x, y) = (if 120 < x then (0, y + 1) else (x, y));
     w = OLED_SetPos x y w
   in Option.bind (glyph_data F8X16 (unat c * 16) 8 w) (\<lambda>w. let w = OLED_SetPos x (y + 1) w
   in Option.bind (glyph_data F8X16 (unat c * 16 + 8) 8 w) (\<lambda>w. Some (x + 8, y, w))))"

text \<open>\<^verbatim>\<open>while (ch[j] != '\0')\<close> with a byte for the index\<close>

partial_function (option) show_loop ::
  "(u8 \<Rightarrow> u8 \<Rightarrow> u8 \<Rightarrow> 'a oled_scheme \<Rightarrow> (u8 \<times> u8 \<times> 'a oled_scheme) option) \<Rightarrow> string \<Rightarrow> u8 \<Rightarrow>
    u8 \<times> u8 \<times> 'a oled_scheme \<Rightarrow> 'a oled_scheme option" where
  "show_loop put ch j s = Option.bind (rd ch (unat j)) (\<lambda>a.
     if a = NUL then Some (snd (snd s))
     else Option.bind (put (of_char a - 32) (fst s) (fst (snd s)) (snd (snd s))) (show_loop put ch (j + 1)))"

definition OLED_ShowStr :: "u8 \<Rightarrow> u8 \<Rightarrow> string \<Rightarrow> u8 \<Rightarrow> 'a oled_scheme \<Rightarrow> 'a oled_scheme option" where
  "OLED_ShowStr x y ch TextSize w =
    (if TextSize = 1 then show_loop small_char ch 0 (x, y, w)
     else if TextSize = 2 then show_loop big_char ch 0 (x, y, w)
     else Some w)"

definition OLED_ShowSNum :: "u8 \<Rightarrow> u8 \<Rightarrow> u32 \<Rightarrow> u8 \<Rightarrow> 'a oled_scheme \<Rightarrow> 'a oled_scheme option" where
  "OLED_ShowSNum x y num TextSize w = (let ch = [char_of (unat (ucast (48 + num) :: u8)), NUL] in
     if TextSize = 1 then show_loop small_char ch 0 (x, y, w)
     else if TextSize = 2 then show_loop big_char ch 0 (x, y, w)
     else Some w)"

definition OLED_ShowCN :: "u8 \<Rightarrow> u8 \<Rightarrow> u8 \<Rightarrow> 'a oled_scheme \<Rightarrow> 'a oled_scheme option" where
  "OLED_ShowCN x y N w = (let adder = 32 * unat N; w = OLED_SetPos x y w in
     Option.bind (glyph_data F16x16 adder 16 w) (\<lambda>w. let w = OLED_SetPos x (y + 1) w in
     glyph_data F16x16 (adder + 16) 16 w))"

subsection \<open>Numbers\<close>

definition Num_Digit :: "int \<Rightarrow> int" where
  "Num_Digit num =
    (if 0 \<le> num \<and> num < 100000 then
       if num < 10 then 1 else if num < 100 then 2 else if num < 1000 then 3 else if num < 10000 then 4
       else if num < 1000000 then 5 else 0
     else 0)"

text \<open>A row of digits, \<open>step\<close> columns apart\<close>

primrec snums :: "u8 \<Rightarrow> u8 \<Rightarrow> u8 \<Rightarrow> u8 \<Rightarrow> u32 list \<Rightarrow> 'a oled_scheme \<Rightarrow> 'a oled_scheme option" where
  "snums step x y TextSize [] w = Some w"
| "snums step x y TextSize (d # ds) w =
     Option.bind (OLED_ShowSNum x y d TextSize w) (snums step (x + step) y TextSize ds)"

definition OLED_ShowNum :: "u8 \<Rightarrow> u8 \<Rightarrow> u32 \<Rightarrow> u8 \<Rightarrow> 'a oled_scheme \<Rightarrow> 'a oled_scheme option" where
  "OLED_ShowNum x y num TextSize w = (let
     ge = num mod 10;
     shi = num mod 100 div 10;
     bai = num mod 1000 div 100;
     qian = num mod 10000 div 1000;
     wan = num div 10000;
     n = Num_Digit (sint num);
     ds = (if n = 1 then [ge] else if n = 2 then [shi, ge] else if n = 3 then [bai, shi, ge]
       else if n = 4 then [qian, bai, shi, ge] else if n = 5 then [wan, qian, bai, shi, ge] else [])
   in if TextSize = 1 then snums 6 x y TextSize ds w
     else if TextSize = 2 then snums 8 x y TextSize ds w
     else Some w)"

definition OLED_Shownum2 :: "u8 \<Rightarrow> u8 \<Rightarrow> u32 \<Rightarrow> u8 \<Rightarrow> 'a oled_scheme \<Rightarrow> 'a oled_scheme option" where
  "OLED_Shownum2 x y num TextSize w = (let
     ge = num mod 10;
     shi = num mod 100 div 10;
     bai = num mod 1000 div 100;
     row = (\<lambda>step. Option.bind (snums step x y TextSize [bai, shi] w) (\<lambda>w.
       Option.bind (OLED_ShowStr (x + 2 * step) y [CHR ''.'', NUL] TextSize w) (\<lambda>w.
       OLED_ShowSNum (x + 3 * step) y ge TextSize w)))
   in if TextSize = 1 then row 6 else if TextSize = 2 then row 8 else Some w)"

definition OLED_Shownum3 :: "u8 \<Rightarrow> u8 \<Rightarrow> u32 \<Rightarrow> u8 \<Rightarrow> 'a oled_scheme \<Rightarrow> 'a oled_scheme option" where
  "OLED_Shownum3 x y num TextSize w = (let
     ge = num mod 10;
     shi = num mod 100 div 10;
     bai = num mod 1000 div 100;
     qian = num mod 10000 div 1000;
     row = (\<lambda>step. Option.bind (snums step x y TextSize [qian, bai, shi] w) (\<lambda>w.
       Option.bind (OLED_ShowStr (x + 3 * step) y [CHR ''.'', NUL] TextSize w) (\<lambda>w.
       OLED_ShowSNum (x + 4 * step) y ge TextSize w)))
   in if TextSize = 1 then row 6 else if TextSize = 2 then row 8 else Some w)"

text \<open>One angle of \<^verbatim>\<open>OLED_ShowAngle\<close>: its sign, then its magnitude in tenths\<close>

definition angle_line ::
  "(u8 \<Rightarrow> u8 \<Rightarrow> u32 \<Rightarrow> u8 \<Rightarrow> 'a oled_scheme \<Rightarrow> 'a oled_scheme option) \<Rightarrow> u8 \<Rightarrow> f32 \<Rightarrow>
    'a oled_scheme \<Rightarrow> 'a oled_scheme option" where
  "angle_line put y angle w = (let A = f32_to_s32 (fmul angle (f32_of_int 10)) in
     Option.bind (OLED_ShowStr 50 y [if A < 0 then CHR ''-'' else CHR '' '', NUL] 2 w)
       (put 58 y (word_of_int (if A < 0 then neg32 A else A)) 2))"

definition OLED_ShowAngle :: "f32 \<Rightarrow> f32 \<Rightarrow> f32 \<Rightarrow> 'a oled_scheme \<Rightarrow> 'a oled_scheme option" where
  "OLED_ShowAngle pitch roll yaw w = Option.bind (angle_line OLED_Shownum2 0 pitch w) (\<lambda>w.
     Option.bind (angle_line OLED_Shownum3 2 roll w) (angle_line OLED_Shownum3 4 yaw))"

definition OLED_init_commands :: bytes where
  "OLED_init_commands = [0xAE, 0x20, 0x10, 0xb0, 0xc8, 0x00, 0x10, 0x40, 0x81, 0xff, 0xa1, 0xa6, 0xa8, 0x3F,
     0xa4, 0xd3, 0x00, 0xd5, 0xf0, 0xd9, 0x22, 0xda, 0x12, 0xdb, 0x20, 0x8d, 0x14, 0xaf]"

definition OLED_Init :: "'a oled_scheme \<Rightarrow> 'a oled_scheme option" where
  "OLED_Init w = (let
     w = IIC_Init w;
     w = rt_thread_mdelay 100 w;
     w = fold cmd OLED_init_commands w;
     w = OLED_Fill 0x00 w
   in OLED_ShowStr 0 0 (''OLED OK!'' @ [NUL]) 1 w)"


subsection \<open>One transfer\<close>

definition transfer :: "u8 \<Rightarrow> u8 \<Rightarrow> 'a oled_scheme \<Rightarrow> int \<times> 'a oled_scheme" where
  "transfer ctrl b w = (let
     (nack, w) = IIC_Wait_Ack (IIC_Send_Byte 0x78 (IIC_Start w))
   in if nack \<noteq> 0 then (1, IIC_Stop w) else let
     (nack, w) = IIC_Wait_Ack (IIC_Send_Byte ctrl w)
   in if nack \<noteq> 0 then (1, IIC_Stop w) else let
     (nack, w) = IIC_Wait_Ack (IIC_Send_Byte b w)
   in if nack \<noteq> 0 then (1, IIC_Stop w) else (0, IIC_Stop w))"

lemma transfers: "OLED_Command b = transfer 0 b" "OLED_Data b = transfer 0x40 b"
  unfolding fun_eq_iff OLED_Command_def OLED_Data_def transfer_def Let_def by (rule allI refl)+

text \<open>An unanswered transfer is followed by a second stop: the lines already rest.\<close>

lemma Stop_again: "resting hs w \<Longrightarrow> resting (hs @ [STOP]) (IIC_Stop w)"
  by (simp add: IIC_Stop_def i2c_states i2c_simps)


lemma send_wait:
  assumes "talking hs [] w" "IIC_Wait_Ack (IIC_Send_Byte b w) = (r, w')"
  shows "sda_in w' = sda_in w \<and> sda_n w < sda_n w' \<and> sda_n w' \<le> sda_n w + 251 \<and>
    ((\<forall>i<251. sda_in w (sda_n w + i)) \<and> r = 1 \<and> resting (hs @ [STOP]) w' \<or>
     (\<exists>i<251. \<not> sda_in w (sda_n w + i)) \<and> r = 0 \<and> talking (hs @ [BYTE b]) [] w')"
proof -
  have s: "talking hs (bits_of_byte b) (IIC_Send_Byte b w)" "sda_in (IIC_Send_Byte b w) = sda_in w"
    "sda_n (IIC_Send_Byte b w) = sda_n w" using Send_Byte_says [OF assms(1)] by blast+
  have "sda_in w' = sda_in w" using Wait_Ack_says [OF s(1)] s(2) by (simp add: answered_def assms(2))
  then show ?thesis using wait_ack_cases [OF s(1) assms(2)] s(2,3) by (auto split: if_splits)
qed

text \<open>The display answers: whenever it is asked, it pulls the line low within 251 reads.\<close>

definition answers :: "'a oled_scheme \<Rightarrow> bool" where
  "answers w \<longleftrightarrow> (\<forall>n. \<exists>i<251. \<not> sda_in w (n + i))"

definition packet :: "u8 \<Rightarrow> u8 \<Rightarrow> nat \<Rightarrow> i2c list" where
  "packet ctrl b k = [START] @ map BYTE (take k [0x78, ctrl, b]) @ (if k = 3 then [STOP] else [STOP, STOP])"

lemma transfer_says:
  assumes "resting hs w" "transfer ctrl b w = (r, w')"
  shows "\<exists>k\<le>3. resting (hs @ packet ctrl b k) w' \<and> r = (if k = 3 then 0 else 1) \<and>
    sda_in w' = sda_in w \<and> sda_n w' \<le> sda_n w + 753 \<and> (answers w \<longrightarrow> k = 3)"
proof -
  have t0: "talking (hs @ [START]) [] (IIC_Start w)" by (rule Start_says [OF assms(1)])
  obtain r1 w1 where e1: "IIC_Wait_Ack (IIC_Send_Byte 0x78 (IIC_Start w)) = (r1, w1)" by fastforce
  note s1 = send_wait [OF t0 e1, unfolded i2c_simps append_assoc append.simps]
  obtain r2 w2 where e2: "IIC_Wait_Ack (IIC_Send_Byte ctrl w1) = (r2, w2)" by fastforce
  note s2 = send_wait [OF _ e2, of "hs @ [START, BYTE 0x78]", unfolded append_assoc append.simps]
  obtain r3 w3 where e3: "IIC_Wait_Ack (IIC_Send_Byte b w2) = (r3, w3)" by fastforce
  note s3 = send_wait [OF _ e3, of "hs @ [START, BYTE 0x78, BYTE ctrl]", unfolded append_assoc append.simps]
  note u = assms(2) [unfolded transfer_def e1 Let_def prod.case e2 e3]
  consider "r1 = 1" | "r1 = 0" "r2 = 1" | "r1 = 0" "r2 = 0" "r3 = 1" | "r1 = 0" "r2 = 0" "r3 = 0"
    using s1 s2 s3 by fastforce
  then show ?thesis
  proof cases
    case 1
    then show ?thesis using s1 u Stop_again [of "hs @ [START, STOP]" w1]
      by (intro exI [of _ 0]) (auto simp: packet_def i2c_simps answers_def)
  next
    case 2
    then show ?thesis using s1 s2 u Stop_again [of "hs @ [START, BYTE 0x78, STOP]" w2]
      by (intro exI [of _ 1]) (auto simp: packet_def i2c_simps answers_def)
  next
    case 3
    then show ?thesis using s1 s2 s3 u Stop_again [of "hs @ [START, BYTE 0x78, BYTE ctrl, STOP]" w3]
      by (intro exI [of _ 2]) (auto simp: packet_def i2c_simps answers_def numeral_2_eq_2)
  next
    case 4
    then show ?thesis using s1 s2 s3 u Stop_says [of "hs @ [START, BYTE 0x78, BYTE ctrl, BYTE b]" "[]" w3]
      by (intro exI [of _ 3]) (auto simp: packet_def i2c_simps answers_def numeral_3_eq_3)
  qed
qed


lemma send_wait_frame:
  "bus_only u w \<Longrightarrow> IIC_Wait_Ack (IIC_Send_Byte b w) = (r, w') \<Longrightarrow> bus_only u w'"
  using Wait_Ack_frame [OF Send_Byte_frame, of u w b] by simp

lemma transfer_frame [bus_frames]:
  assumes "bus_only u w"
  shows "bus_only u (snd (transfer ctrl b w))"
proof -
  obtain r1 w1 where e1: "IIC_Wait_Ack (IIC_Send_Byte 0x78 (IIC_Start w)) = (r1, w1)" by fastforce
  obtain r2 w2 where e2: "IIC_Wait_Ack (IIC_Send_Byte ctrl w1) = (r2, w2)" by fastforce
  obtain r3 w3 where e3: "IIC_Wait_Ack (IIC_Send_Byte b w2) = (r3, w3)" by fastforce
  have "bus_only u w1" using send_wait_frame [OF _ e1] assms by (simp add: bus_frames)
  moreover from this have "bus_only u w2" by (rule send_wait_frame [OF _ e2])
  moreover from this have "bus_only u w3" by (rule send_wait_frame [OF _ e3])
  ultimately show ?thesis unfolding transfer_def Let_def e1 prod.case e2 e3 by (simp add: bus_frames)
qed

subsection \<open>Sequences of transfers\<close>

datatype tx = Cmd u8 | Dat u8

fun send_tx :: "tx \<Rightarrow> 'a oled_scheme \<Rightarrow> 'a oled_scheme" where
  "send_tx (Cmd c) w = cmd c w"
| "send_tx (Dat b) w = dat b w"

fun tx_packet :: "tx \<Rightarrow> i2c list" where
  "tx_packet (Cmd c) = [START, BYTE 0x78, BYTE 0x00, BYTE c, STOP]"
| "tx_packet (Dat b) = [START, BYTE 0x78, BYTE 0x40, BYTE b, STOP]"

definition wire :: "tx list \<Rightarrow> i2c list" where
  "wire ts = concat (map tx_packet ts)"

text \<open>
  \<open>draws f ts\<close>: on a resting bus with a display that answers, \<open>f\<close> succeeds, puts exactly the
  transfers \<open>ts\<close> on the bus, leaves it resting and changes nothing else.
\<close>

definition draws :: "('a oled_scheme \<Rightarrow> 'a oled_scheme option) \<Rightarrow> tx list \<Rightarrow> bool" where
  "draws f ts \<longleftrightarrow> (\<forall>hs w. resting hs w \<longrightarrow> answers w \<longrightarrow>
     (\<exists>w'. f w = Some w' \<and> resting (hs @ wire ts) w' \<and> bus_only w w'))"

lemma bus_only_answers: "bus_only w w' \<Longrightarrow> answers w' = answers w"
proof -
  assume "bus_only w w'"
  then have "w' = w\<lparr>ODR := ODR w', GPIOB_MODER := GPIOB_MODER w', GPIOB_OSPEEDR := GPIOB_OSPEEDR w', bus := bus w',
    sda_n := sda_n w'\<rparr>" unfolding bus_only_def by (rule conjunct1)
  from arg_cong [OF this, of sda_in] have "sda_in w' = sda_in w" by simp
  then show ?thesis by (simp add: answers_def)
qed

lemma drawsE:
  assumes "draws f ts" "resting hs w" "answers w"
  obtains w' where "f w = Some w'" "resting (hs @ wire ts) w'" "bus_only w w'" "answers w'"
  using assms bus_only_answers unfolding draws_def by blast

lemma draws_nothing [simp]: "draws Some []"
  by (simp add: draws_def wire_def)

lemma draws_tx [simp]: "draws (\<lambda>w. Some (send_tx t w)) [t]"
  unfolding draws_def
proof (intro allI impI)
  fix hs and w :: "'a oled_scheme"
  assume r: "resting hs w" "answers w"
  have one: "resting (hs @ packet ctrl b 3) (snd (transfer ctrl b w)) \<and> bus_only w (snd (transfer ctrl b w))" for ctrl b
  proof -
    obtain k w' where "transfer ctrl b w = (k, w')" by fastforce
    then show ?thesis using transfer_says [OF r(1)] r(2) transfer_frame [of w w ctrl b] by fastforce
  qed
  have "send_tx t w = (case t of Cmd c \<Rightarrow> snd (transfer 0 c w) | Dat b \<Rightarrow> snd (transfer 0x40 b w))"
    by (cases t) (simp_all add: transfers)
  moreover have "wire [t] = (case t of Cmd c \<Rightarrow> packet 0 c 3 | Dat b \<Rightarrow> packet 0x40 b 3)"
    by (cases t) (simp_all add: wire_def packet_def numeral_3_eq_3)
  ultimately show "\<exists>w'. Some (send_tx t w) = Some w' \<and> resting (hs @ wire [t]) w' \<and> bus_only w w'"
    using one by (cases t) auto
qed

lemma draws_cmd [simp]: "draws (\<lambda>w. Some (cmd c w)) [Cmd c]"
  using draws_tx [of "Cmd c"] by simp

lemma draws_dat [simp]: "draws (\<lambda>w. Some (dat b w)) [Dat b]"
  using draws_tx [of "Dat b"] by simp

lemma draws_then:
  assumes "draws f ts" "draws g us"
  shows "draws (\<lambda>w. Option.bind (f w) g) (ts @ us)"
  unfolding draws_def
proof (intro allI impI)
  fix hs and w :: "'a oled_scheme"
  assume r: "resting hs w" "answers w"
  obtain v where v: "f w = Some v" "resting (hs @ wire ts) v" "bus_only w v" "answers v"
    by (rule drawsE [OF assms(1) r])
  obtain w' where w': "g v = Some w'" "resting ((hs @ wire ts) @ wire us) w'" "bus_only v w'"
    by (rule drawsE [OF assms(2) v(2,4)])
  then show "\<exists>w'. Option.bind (f w) g = Some w' \<and> resting (hs @ wire (ts @ us)) w' \<and> bus_only w w'"
    using v bus_only_trans [OF v(3) w'(3)] by (simp add: wire_def)
qed

lemma draws_pure:
  assumes "draws (\<lambda>w. Some (f w)) ts" "draws (\<lambda>w. Some (g w)) us"
  shows "draws (\<lambda>w. Some (g (f w))) (ts @ us)"
  using draws_then [OF assms] by simp


lemma draws_fold:
  assumes "\<And>x. x \<in> set xs \<Longrightarrow> draws (\<lambda>w. Some (f x w)) (ts x)"
  shows "draws (\<lambda>w. Some (fold f xs w)) (concat (map ts xs))"
  using assms
proof (induction xs)
  case (Cons x xs)
  have "draws (\<lambda>w. Some (fold f xs (f x w))) (ts x @ concat (map ts xs))"
    using Cons by (intro draws_pure) auto
  then show ?case by simp
qed (simp add: draws_nothing [unfolded eta_contract_eq])

lemma draws_repeat: "draws (\<lambda>w. Some ((dat b ^^ n) w)) (replicate n (Dat b))"
proof (induction n)
  case (Suc n)
  have e: "(\<lambda>w. Some ((dat b ^^ Suc n) w)) = (\<lambda>w. Some ((dat b ^^ n) (dat b w)))"
    by (simp add: funpow_Suc_right del: funpow.simps)
  show ?case unfolding e using draws_pure [OF draws_dat [of b] Suc] by simp
qed simp

definition pos_tx :: "u8 \<Rightarrow> u8 \<Rightarrow> tx list" where
  "pos_tx x y = [Cmd (0xb0 + y), Cmd (drop_bit 4 (x AND 0xf0) OR 0x10), Cmd (x AND 0x0f OR 0x01)]"

lemma draws_pos: "draws (\<lambda>w. Some (OLED_SetPos x y w)) (pos_tx x y)"
proof -
  have "draws (\<lambda>w. Some (OLED_SetPos x y w)) ([Cmd (0xb0 + y)] @ [Cmd (drop_bit 4 (x AND 0xf0) OR 0x10)] @ [Cmd (x AND 0x0f OR 0x01)])"
    unfolding OLED_SetPos_def Let_def by (intro draws_pure draws_cmd)
  then show ?thesis by (simp add: pos_tx_def)
qed

definition fill_tx :: "u8 \<Rightarrow> tx list" where
  "fill_tx b = concat (map (\<lambda>m. [Cmd (0xb0 + of_nat m), Cmd 0x00, Cmd 0x10] @ replicate 128 (Dat b)) [0..<8])"

lemma draws_fill: "draws (\<lambda>w. Some (OLED_Fill b w)) (fill_tx b)"
proof -
  have "draws (\<lambda>w. Some (fill_page b m w)) ([Cmd (0xb0 + of_nat m)] @ [Cmd 0x00] @ [Cmd 0x10] @ replicate 128 (Dat b))" for m
    unfolding fill_page_def Let_def by (intro draws_pure draws_cmd draws_repeat)
  then show ?thesis unfolding OLED_Fill_def fill_tx_def by (intro draws_fold) simp
qed

lemma draws_glyph:
  assumes "base + n \<le> length font"
  shows "draws (glyph_data font base n) (map (\<lambda>i. Dat (font ! (base + i))) [0..<n])"
  using assms
proof (induction n)
  case 0
  then show ?case by (simp add: glyph_data_def draws_nothing [unfolded fun_eq_iff])
next
  case (Suc n)
  have r: "rd font (base + n) = Some (font ! (base + n))" using Suc.prems by (simp add: rd_Some)
  have e: "glyph_data font base (Suc n) = (\<lambda>w. Option.bind (glyph_data font base n w) (\<lambda>w. Some (dat (font ! (base + n)) w)))"
    by (rule ext) (auto simp: glyph_data_def r intro!: Option.bind_cong)
  have "base + n \<le> length font" using Suc.prems by simp
  from draws_then [OF Suc.IH [OF this] draws_dat] show ?case unfolding e by simp
qed

subsection \<open>Characters and strings\<close>

definition glyph_tx :: "bytes \<Rightarrow> nat \<Rightarrow> nat \<Rightarrow> tx list" where
  "glyph_tx font base n = map (\<lambda>i. Dat (font ! (base + i))) [0..<n]"

definition small_tx :: "u8 \<Rightarrow> u8 \<Rightarrow> u8 \<Rightarrow> tx list" where
  "small_tx c x y = pos_tx x y @ glyph_tx F6x8 (unat c * 6) 6"

definition big_tx :: "u8 \<Rightarrow> u8 \<Rightarrow> u8 \<Rightarrow> tx list" where
  "big_tx c x y = pos_tx x y @ glyph_tx F8X16 (unat c * 16) 8 @ pos_tx x (y + 1) @ glyph_tx F8X16 (unat c * 16 + 8) 8"

definition wrapped :: "u8 \<Rightarrow> u8 \<Rightarrow> u8 \<Rightarrow> u8 \<times> u8" where
  "wrapped limit x y = (if limit < x then (0, y + 1) else (x, y))"

text \<open>A text in one of the sizes: the glyph of each character at its place.\<close>

primrec text_tx :: "(u8 \<Rightarrow> u8 \<Rightarrow> u8 \<Rightarrow> tx list) \<Rightarrow> u8 \<Rightarrow> u8 \<Rightarrow> string \<Rightarrow> u8 \<Rightarrow> u8 \<Rightarrow> tx list" where
  "text_tx glyph limit step [] x y = []"
| "text_tx glyph limit step (a # s) x y = (let (x, y) = wrapped limit x y in
     glyph (of_char a - 32) x y @ text_tx glyph limit step s (x + step) y)"

definition in_font :: "nat \<Rightarrow> char \<Rightarrow> bool" where
  "in_font n a \<longleftrightarrow> 32 \<le> (of_char a :: nat) \<and> (of_char a :: nat) < 32 + n"

lemma in_font_code: "in_font n a \<Longrightarrow> unat (of_char a - 32 :: u8) = of_char a - 32 \<and> unat (of_char a - 32 :: u8) < n \<and> a \<noteq> NUL"
proof -
  assume "in_font n a"
  then have a: "32 \<le> (of_char a :: nat)" "(of_char a :: nat) < 32 + n" by (simp_all add: in_font_def)
  have u: "unat (of_char a :: u8) = of_char a" 
  proof -
    have "unat (of_char a :: u8) = unat (of_nat (of_char a) :: u8)" by (simp only: of_nat_of_char)
    also have "\<dots> = of_char a" by (subst unat_of_nat) (simp add: take_bit_nat_eq_self)
    finally show ?thesis .
  qed
  have "unat (of_char a - 32 :: u8) = of_char a - 32" using a(1) by (subst unat_sub) (simp_all add: word_le_nat_alt u)
  then show ?thesis using a by auto
qed


text \<open>The same with the drawing of a character for its glyph.\<close>

primrec writes :: "(u8 \<Rightarrow> u8 \<Rightarrow> u8 \<Rightarrow> 'a oled_scheme \<Rightarrow> 'a oled_scheme option) \<Rightarrow> u8 \<Rightarrow> u8 \<Rightarrow> string \<Rightarrow>
    u8 \<Rightarrow> u8 \<Rightarrow> 'a oled_scheme \<Rightarrow> 'a oled_scheme option" where
  "writes draw limit step [] x y w = Some w"
| "writes draw limit step (a # s) x y w = (let (x, y) = wrapped limit x y in
     Option.bind (draw (of_char a - 32) x y w) (writes draw limit step s (x + step) y))"

lemma writes_Nil [simp]: "writes draw limit step [] x y = Some"
  by (rule ext) simp

primrec singles :: "(u8 \<Rightarrow> u8 \<Rightarrow> u8 \<Rightarrow> 'a oled_scheme \<Rightarrow> (u8 \<times> u8 \<times> 'a oled_scheme) option) \<Rightarrow> u8 \<Rightarrow>
    string \<Rightarrow> u8 \<Rightarrow> u8 \<Rightarrow> 'a oled_scheme \<Rightarrow> 'a oled_scheme option" where
  "singles put step [] x y w = Some w"
| "singles put step (a # s) x y w =
     Option.bind (show_loop put [a, NUL] 0 (x, y, w)) (singles put step s (x + step) y)"

text \<open>
  The contract of a font: how a character is put after the break of the line, and what it puts. The
  string loop is verified once against it.
\<close>

locale glyph_writer =
  fixes put :: "u8 \<Rightarrow> u8 \<Rightarrow> u8 \<Rightarrow> 'a oled_scheme \<Rightarrow> (u8 \<times> u8 \<times> 'a oled_scheme) option"
    and draw :: "u8 \<Rightarrow> u8 \<Rightarrow> u8 \<Rightarrow> 'a oled_scheme \<Rightarrow> 'a oled_scheme option"
    and glyph :: "u8 \<Rightarrow> u8 \<Rightarrow> u8 \<Rightarrow> tx list" and limit step :: u8 and n :: nat
  assumes put: "wrapped limit x y = (x', y') \<Longrightarrow>
      put c x y w = Option.bind (draw c x' y' w) (\<lambda>w. Some (x' + step, y', w))"
    and glyph: "unat c < n \<Longrightarrow> draws (draw c x y) (glyph c x y)"
begin

lemma loop_writes:
  assumes "drop (unat j) ch = s @ NUL # r" "unat j + length s \<le> 255" "NUL \<notin> set s"
  shows "show_loop put ch j (x, y, w) = writes draw limit step s x y w"
  using assms
proof (induction s arbitrary: j x y w)
  case Nil
  then have "unat j < length ch" by (metis append_Nil drop_eq_Nil2 list.distinct(1) not_le)
  moreover from this have "ch ! unat j = NUL" using Nil.prems(1) by (metis Cons_nth_drop_Suc append_Nil list.inject)
  ultimately show ?case by (subst show_loop.simps) (simp add: rd_Some)
next
  case (Cons a s)
  have l: "unat j < length ch" using Cons.prems(1) by (metis append_Cons drop_eq_Nil2 list.distinct(1) not_le)
  then have a: "ch ! unat j = a" "drop (Suc (unat j)) ch = s @ NUL # r"
    using Cons.prems(1) by (metis Cons_nth_drop_Suc append_Cons list.inject)+
  have j: "unat (j + 1) = Suc (unat j)" using Cons.prems(2) by (simp add: unat_word_ariths)
  obtain x' y' where w: "wrapped limit x y = (x', y')" by fastforce
  have "show_loop put ch j (x, y, w) =
      Option.bind (draw (of_char a - 32) x' y' w) (\<lambda>w. show_loop put ch (j + 1) (x' + step, y', w))"
    by (subst show_loop.simps, use l a(1) Cons.prems(3) put [OF w] in \<open>auto simp: rd_Some\<close>)
  also have "\<dots> = Option.bind (draw (of_char a - 32) x' y' w) (writes draw limit step s (x' + step) y')"
    using Cons.prems a j by (intro Option.bind_cong refl Cons.IH) auto
  finally show ?case by (simp add: w)
qed

lemma writes_draws:
  assumes "\<forall>a \<in> set s. in_font n a"
  shows "draws (writes draw limit step s x y) (text_tx glyph limit step s x y)"
  using assms
proof (induction s arbitrary: x y)
  case Nil
  have "writes draw limit step [] x y = Some" by (rule ext) simp
  then show ?case by simp
next
  case (Cons a s)
  obtain x' y' where w: "wrapped limit x y = (x', y')" by fastforce
  have e: "writes draw limit step (a # s) x y =
      (\<lambda>w. Option.bind (draw (of_char a - 32) x' y' w) (writes draw limit step s (x' + step) y'))"
    by (rule ext) (simp add: w)
  have "draws (writes draw limit step s (x' + step) y') (text_tx glyph limit step s (x' + step) y')"
    using Cons by (intro Cons.IH) simp
  from draws_then [OF glyph this] show ?case unfolding e using Cons.prems in_font_code [of n a] by (simp add: w)
qed

lemma show_text:
  assumes "drop (unat j) ch = s @ NUL # r" "unat j + length s \<le> 255" "\<forall>a \<in> set s. in_font n a"
  shows "draws (\<lambda>w. show_loop put ch j (x, y, w)) (text_tx glyph limit step s x y)"
proof -
  have "NUL \<notin> set s" using assms(3) in_font_code by blast
  then have "(\<lambda>w. show_loop put ch j (x, y, w)) = writes draw limit step s x y"
    by (intro ext loop_writes [OF assms(1,2)])
  then show ?thesis using writes_draws [OF assms(3)] by simp
qed

text \<open>A text that fits the line is the row of its characters, each written on its own.\<close>

lemma row_writes:
  assumes "unat x + unat step * (length s - 1) \<le> unat limit" "NUL \<notin> set s"
  shows "singles put step s x y w = writes draw limit step s x y w"
  using assms
proof (induction s arbitrary: x w)
  case (Cons a s)
  have x: "wrapped limit x y = (x, y)" using Cons.prems(1) by (simp add: wrapped_def word_less_nat_alt)
  have one: "show_loop put [a, NUL] 0 (x, y, w) = draw (of_char a - 32) x y w" for w
    using loop_writes [of 0 "[a, NUL]" "[a]" "[]" x y w] Cons.prems(2) by (auto simp: x)
  have "singles put step s (x + step) y v = writes draw limit step s (x + step) y v" for v
  proof (cases s)
    case (Cons b t)
    have l: "unat x + unat step * length s \<le> unat limit" using Cons.prems(1) by simp
    then have "unat x + unat step \<le> unat limit" using Cons by simp
    then have "unat x + unat step < 256" using unat_u8_lt [of limit] by (rule order.strict_trans1)
    then have u: "unat (x + step) = unat x + unat step" by (simp add: unat_word_ariths)
    show ?thesis by (rule Cons.IH) (use Cons.prems(2) l u Cons in \<open>simp_all add: algebra_simps\<close>)
  qed simp
  then show ?case by (simp add: x one cong: Option.bind_cong)
qed simp

end

definition draw_small :: "u8 \<Rightarrow> u8 \<Rightarrow> u8 \<Rightarrow> 'a oled_scheme \<Rightarrow> 'a oled_scheme option" where
  "draw_small c x y w = glyph_data F6x8 (unat c * 6) 6 (OLED_SetPos x y w)"

definition draw_big :: "u8 \<Rightarrow> u8 \<Rightarrow> u8 \<Rightarrow> 'a oled_scheme \<Rightarrow> 'a oled_scheme option" where
  "draw_big c x y w = Option.bind (glyph_data F8X16 (unat c * 16) 8 (OLED_SetPos x y w))
     (\<lambda>w. glyph_data F8X16 (unat c * 16 + 8) 8 (OLED_SetPos x (y + 1) w))"

lemma draws_pos_then: "draws g ts \<Longrightarrow> draws (\<lambda>w. g (OLED_SetPos x y w)) (pos_tx x y @ ts)"
  using draws_then [OF draws_pos, of g ts x y] by simp

interpretation small: glyph_writer small_char draw_small small_tx 126 6 92
proof
  show "small_char c x y w = Option.bind (draw_small c x' y' w) (\<lambda>w. Some (x' + 6, y', w))"
    if "wrapped 126 x y = (x', y')" for x y x' y' c and w :: "'a oled_scheme"
    using that by (simp add: small_char_def draw_small_def wrapped_def split: if_splits)
  show "draws (draw_small c x y) (small_tx c x y)" if "unat c < 92" for c x y
    unfolding draw_small_def small_tx_def glyph_tx_def using that by (intro draws_pos_then draws_glyph) simp
qed

interpretation big: glyph_writer big_char draw_big big_tx 120 8 95
proof
  show "big_char c x y w = Option.bind (draw_big c x' y' w) (\<lambda>w. Some (x' + 8, y', w))"
    if "wrapped 120 x y = (x', y')" for x y x' y' c and w :: "'a oled_scheme"
    using that by (simp add: big_char_def draw_big_def wrapped_def Let_def split: if_splits)
  show "draws (draw_big c x y) (big_tx c x y)" if "unat c < 95" for c x y
  proof -
    have "draws (draw_big c x y) ((pos_tx x y @ glyph_tx F8X16 (unat c * 16) 8) @ (pos_tx x (y + 1) @ glyph_tx F8X16 (unat c * 16 + 8) 8))"
      unfolding draw_big_def glyph_tx_def using that by (intro draws_then draws_pos_then draws_glyph) simp_all
    then show ?thesis by (simp add: big_tx_def)
  qed
qed


subsection \<open>Numbers are their decimal text\<close>

lemma digit_char: "unat d < 10 \<Longrightarrow> char_of (unat (ucast (48 + d :: u32) :: u8)) = digit (unat d)"
proof -
  assume d: "unat d < 10"
  have "unat (48 + d) = 48 + unat d" using d by (simp add: unat_word_ariths)
  then have "unat (ucast (48 + d) :: u8) = 48 + unat d" using d by (simp add: unsigned_ucast_eq take_bit_nat_eq_self)
  then show ?thesis by (simp add: digit_def)
qed

lemma snums_singles:
  assumes "\<forall>d \<in> set ds. unat d < 10"
  shows "snums step x y 1 ds w = singles small_char step (map (\<lambda>d. digit (unat d)) ds) x y w"
    "snums step x y 2 ds w = singles big_char step (map (\<lambda>d. digit (unat d)) ds) x y w"
  using assms by (induction ds arbitrary: x w)
    (simp_all add: OLED_ShowSNum_def digit_char Let_def cong: Option.bind_cong)

text \<open>The digits \<^verbatim>\<open>OLED_ShowNum\<close> shows.\<close>

definition num_digits :: "u32 \<Rightarrow> u32 list" where
  "num_digits num = (let n = Num_Digit (sint num) in
     if n = 1 then [num mod 10] else if n = 2 then [num mod 100 div 10, num mod 10]
     else if n = 3 then [num mod 1000 div 100, num mod 100 div 10, num mod 10]
     else if n = 4 then [num mod 10000 div 1000, num mod 1000 div 100, num mod 100 div 10, num mod 10]
     else if n = 5 then [num div 10000, num mod 10000 div 1000, num mod 1000 div 100, num mod 100 div 10, num mod 10]
     else [])"

lemma ShowNum_snums:
  "OLED_ShowNum x y num 1 w = snums 6 x y 1 (num_digits num) w"
  "OLED_ShowNum x y num 2 w = snums 8 x y 2 (num_digits num) w"
  by (simp_all add: OLED_ShowNum_def num_digits_def Let_def)


lemma middle_digit: "0 < n \<Longrightarrow> (v :: nat) mod (n * q) div n = v div n mod q"
  by (simp add: mod_mult2_eq)

lemma num_digits_decimal:
  assumes "unat num < 100000"
  shows "map (\<lambda>d. digit (unat d)) (num_digits num) = decimal (unat num)" "\<forall>d \<in> set (num_digits num). unat d < 10"
proof -
  define v where "v = unat num"
  have v: "v < 100000" using assms by (simp add: v_def)
  have uv: "uint num = int v" by (simp add: v_def)
  have si: "sint num = int v" unfolding sint_uint uv by (rule signed_take_bit_int_eq_self) (use v in simp_all)
  have q: "v div 10 div 10 = v div 100" "v div 100 div 10 = v div 1000" "v div 1000 div 10 = v div 10000"
    by (simp_all flip: div_mult2_eq)
  have m: "v mod 100 div 10 = v div 10 mod 10" "v mod 1000 div 100 = v div 100 mod 10" "v mod 10000 div 1000 = v div 1000 mod 10"
    using middle_digit [of 10 v 10] middle_digit [of 100 v 10] middle_digit [of 1000 v 10] by simp_all
  have l: "v div 10 < 10 \<longleftrightarrow> v < 100" "v div 100 < 10 \<longleftrightarrow> v < 1000" "v div 1000 < 10 \<longleftrightarrow> v < 10000"
    "v div 10000 < 10 \<longleftrightarrow> v < 100000" "v div 100000 < 10 \<longleftrightarrow> v < 1000000" by linarith+
  have d: "decimal u = (if u < 10 then [digit u] else decimal (u div 10) @ [digit (u mod 10)])" for u
    by (subst decimal.simps) simp
  have dv: "decimal v = (if v < 10 then [digit v] else (if v < 100 then [digit (v div 10)] else (if v < 1000 then
      [digit (v div 100)] else (if v < 10000 then [digit (v div 1000)] else [digit (v div 10000), digit (v div 1000 mod 10)])
      @ [digit (v div 100 mod 10)]) @ [digit (v div 10 mod 10)]) @ [digit (v mod 10)])"
    using v by (subst d, subst d, subst d, subst d, subst d) (simp add: q l)
  consider "v < 10" | "10 \<le> v" "v < 100" | "100 \<le> v" "v < 1000" | "1000 \<le> v" "v < 10000" | "10000 \<le> v" using v by linarith
  then have "map (\<lambda>d. digit (unat d)) (num_digits num) = decimal v \<and> (\<forall>d \<in> set (num_digits num). unat d < 10)"
  proof cases
    case 1
    then show ?thesis by (simp add: dv num_digits_def Num_Digit_def si unat_mod unat_div flip: v_def)
  next
    case 2
    then show ?thesis using m v
      by (simp add: dv num_digits_def Num_Digit_def si unat_mod unat_div flip: v_def)
  next
    case 3
    then show ?thesis using m v
      by (simp add: dv num_digits_def Num_Digit_def si unat_mod unat_div flip: v_def)
  next
    case 4
    then show ?thesis using m v
      by (simp add: dv num_digits_def Num_Digit_def si unat_mod unat_div flip: v_def)
  next
    case 5
    then show ?thesis using m v l
      by (simp add: dv num_digits_def Num_Digit_def si unat_mod unat_div flip: v_def)
  qed
  then show "map (\<lambda>d. digit (unat d)) (num_digits num) = decimal (unat num)" "\<forall>d \<in> set (num_digits num). unat d < 10"
    by (simp_all add: v_def)
qed


lemma no_nul_decimal_set: "NUL \<notin> set (decimal v)"
  using no_nul_decimal [of v] by (simp add: no_nul_def)

lemma length_decimal_5: "v < 100000 \<Longrightarrow> length (decimal v) \<le> 5"
  by (rule length_decimal) simp_all

text \<open>
  C39 (equivalence). Showing a number of up to five digits is showing its decimal text: where it fits
  the line, \<^verbatim>\<open>OLED_ShowNum\<close> does exactly what \<^verbatim>\<open>OLED_ShowStr\<close> does with the digits without leading
  zeros, in both sizes and on every state of the bus, whether or not the display answers.
\<close>

theorem ShowNum_is_ShowStr:
  assumes "unat num < 100000" "n = length (decimal (unat num)) - 1"
    "T = 1 \<and> unat x + 6 * n \<le> 126 \<or> T = 2 \<and> unat x + 8 * n \<le> 120"
  shows "OLED_ShowNum x y num T w = OLED_ShowStr x y (decimal (unat num) @ [NUL]) T w"
  using assms(3)
proof
  assume t: "T = 1 \<and> unat x + 6 * n \<le> 126"
  have "OLED_ShowNum x y num T w = singles small_char 6 (decimal (unat num)) x y w"
    using t num_digits_decimal [OF assms(1)] by (simp add: ShowNum_snums snums_singles)
  also have "\<dots> = writes draw_small 126 6 (decimal (unat num)) x y w"
    by (rule small.row_writes) (use t in \<open>simp_all add: assms(2) no_nul_decimal_set\<close>)
  also have "\<dots> = OLED_ShowStr x y (decimal (unat num) @ [NUL]) T w"
    using small.loop_writes [of 0 "decimal (unat num) @ [NUL]" "decimal (unat num)" "[]" x y w] length_decimal_5 [OF assms(1)] t
    by (simp add: OLED_ShowStr_def no_nul_decimal_set)
  finally show ?thesis .
next
  assume t: "T = 2 \<and> unat x + 8 * n \<le> 120"
  have "OLED_ShowNum x y num T w = singles big_char 8 (decimal (unat num)) x y w"
    using t num_digits_decimal [OF assms(1)] by (simp add: ShowNum_snums snums_singles)
  also have "\<dots> = writes draw_big 120 8 (decimal (unat num)) x y w"
    by (rule big.row_writes) (use t in \<open>simp_all add: assms(2) no_nul_decimal_set\<close>)
  also have "\<dots> = OLED_ShowStr x y (decimal (unat num) @ [NUL]) T w"
    using big.loop_writes [of 0 "decimal (unat num) @ [NUL]" "decimal (unat num)" "[]" x y w] length_decimal_5 [OF assms(1)] t
    by (simp add: OLED_ShowStr_def no_nul_decimal_set)
  finally show ?thesis .
qed

theorem ShowNum_is_ShowStr_witness: "OLED_ShowNum 104 6 407 2 oled0 = OLED_ShowStr 104 6 (''407'' @ [NUL]) 2 oled0"
proof -
  have u: "unat (407 :: u32) = 407" by simp
  have d: "decimal 407 = ''407''" by code_simp
  have l: "2 = length ''407'' - 1" "unat (104 :: u8) + 8 * 2 \<le> 120" "407 < (100000 :: nat)" by simp_all
  show ?thesis using ShowNum_is_ShowStr [of 407 2 2 104 6 oled0, unfolded u d, OF l(3,1)] l(2) by simp
qed

text \<open>A number of more digits is not shown at all.\<close>

lemma ShowNum_too_big: "100000 \<le> sint num \<Longrightarrow> OLED_ShowNum x y num T w = Some w"
  by (auto simp: OLED_ShowNum_def Num_Digit_def Let_def)

subsection \<open>Strings and transfers on the bus\<close>

lemma ShowStr_draws:
  assumes "take (length s) ch = s" "length s < length ch" "ch ! length s = NUL" "length s \<le> 255"
  shows "\<forall>a \<in> set s. in_font 92 a \<Longrightarrow> draws (OLED_ShowStr x y ch 1) (text_tx small_tx 126 6 s x y)"
    "\<forall>a \<in> set s. in_font 95 a \<Longrightarrow> draws (OLED_ShowStr x y ch 2) (text_tx big_tx 120 8 s x y)"
proof -
  have ch: "drop (unat (0 :: u8)) ch = s @ NUL # drop (Suc (length s)) ch"
    using assms(1-3) id_take_nth_drop [of "length s" ch] by simp
  have e: "OLED_ShowStr x y ch 1 = (\<lambda>w. show_loop small_char ch 0 (x, y, w))"
    "OLED_ShowStr x y ch 2 = (\<lambda>w. show_loop big_char ch 0 (x, y, w))"
    by (simp_all add: OLED_ShowStr_def fun_eq_iff)
  show "\<forall>a \<in> set s. in_font 92 a \<Longrightarrow> draws (OLED_ShowStr x y ch 1) (text_tx small_tx 126 6 s x y)"
    unfolding e by (rule small.show_text [OF ch]) (use assms(4) in auto)
  show "\<forall>a \<in> set s. in_font 95 a \<Longrightarrow> draws (OLED_ShowStr x y ch 2) (text_tx big_tx 120 8 s x y)"
    unfolding e by (rule big.show_text [OF ch]) (use assms(4) in auto)
qed

text \<open>
  C37 (error). A command or data byte on the bus is one transfer: a start, the address, the kind of
  byte, the byte and a stop, as far as the display acknowledges. The result is 0 exactly when all
  three bytes were taken; an unanswered byte ends the transfer with two stops and result 1. Either
  way the lines rest afterwards, after at most 753 reads of the data line, and no other pin and
  nothing else of the state has changed. A display that answers within 251 reads takes every byte.
\<close>

theorem oled_transfer:
  assumes "resting hs w" "(ctrl, r, w') = (0x00, OLED_Command b w) \<or> (ctrl, r, w') = (0x40, OLED_Data b w)"
  shows "\<exists>k\<le>3. resting (hs @ [START] @ map BYTE (take k [0x78, ctrl, b]) @ (if k = 3 then [STOP] else [STOP, STOP])) w' \<and>
    r = (if k = 3 then 0 else 1) \<and> sda_n w' \<le> sda_n w + 753 \<and> bus_only w w' \<and> (answers w \<longrightarrow> k = 3)"
proof -
  have t: "transfer ctrl b w = (r, w')" using assms(2) by (auto simp: transfers)
  have f: "bus_only w w'" using transfer_frame [of w w ctrl b] by (simp add: t)
  obtain k where "k \<le> 3" "resting (hs @ packet ctrl b k) w'" "r = (if k = 3 then 0 else 1)"
    "sda_n w' \<le> sda_n w + 753" "answers w \<longrightarrow> k = 3" using transfer_says [OF assms(1) t] by blast
  then show ?thesis using f by (intro exI [of _ k]) (simp add: packet_def)
qed

theorem oled_transfer_witness:
  fixes w defines "w \<equiv> IIC_Init (oled0\<lparr>sda_in := (\<lambda>_. False)\<rparr>)"
  shows "\<exists>w'. OLED_Command 0xAE w = (0, w') \<and> resting [START, BYTE 0x78, BYTE 0, BYTE 0xAE, STOP] w'"
proof -
  obtain r w' where e: "OLED_Command 0xAE w = (r, w')" by fastforce
  have w: "resting [] w" "sda_in w = (\<lambda>_. False)" using Init_rests [OF oled0_lines] by (auto simp: w_def)
  have "answers w" unfolding answers_def w(2) by (intro allI exI [of _ 0]) simp
  show ?thesis using oled_transfer [OF w(1), of 0 r w' "0xAE"] \<open>answers w\<close> by (auto simp: e numeral_3_eq_3)
qed


text \<open>
  C38 (functional). A text of printable characters, ended in its array, is shown glyph by glyph: each
  character puts its two halves of eight font bytes at its column on two pages, eight columns apart,
  a line that is full going on at column 0 of the next page. Nothing but the bus changes, and the
  bytes the font is read at are always inside it.
\<close>

theorem oled_shows_text:
  assumes "take (length s) ch = s" "length s < length ch" "ch ! length s = NUL" "length s \<le> 255"
    "\<forall>a \<in> set s. in_font 95 a" "resting hs w" "answers w"
  shows "\<exists>w'. OLED_ShowStr x y ch 2 w = Some w' \<and>
    resting (hs @ wire (text_tx big_tx 120 8 s x y)) w' \<and> bus_only w w'"
  using drawsE [OF ShowStr_draws(2) [OF assms(1-5)] assms(6,7), of x y] by metis

theorem oled_shows_text_witness:
  fixes w defines "w \<equiv> IIC_Init (oled0\<lparr>sda_in := (\<lambda>_. False)\<rparr>)"
  shows "\<exists>w'. OLED_ShowStr 120 2 (''ok'' @ [NUL, NUL]) 2 w = Some w' \<and>
    resting (wire (big_tx (111 - 32) 120 2 @ big_tx (107 - 32) 0 3)) w'"
proof -
  have w: "resting [] w" "sda_in w = (\<lambda>_. False)" using Init_rests [OF oled0_lines] by (auto simp: w_def)
  have a: "answers w" unfolding answers_def w(2) by (intro allI exI [of _ 0]) simp
  have c: "\<forall>a \<in> set ''ok''. in_font 95 a" by (simp add: in_font_def)
  have t: "text_tx big_tx 120 8 ''ok'' 120 2 = big_tx (111 - 32) 120 2 @ big_tx (107 - 32) 0 3"
    by (simp add: wrapped_def)
  show ?thesis using oled_shows_text [of "''ok''" "''ok'' @ [NUL, NUL]", OF _ _ _ _ c w(1) a, of 120 2] unfolding t by auto
qed

subsection \<open>Start up\<close>

lemma mdelay_lines: "resting hs w \<Longrightarrow> resting hs (rt_thread_mdelay n w)" "answers (rt_thread_mdelay n w) = answers w"
  by (simp_all add: rt_thread_mdelay_def resting_def scl_def sda_latch_def sda_driven_def seen_def pin_high_def answers_def)

definition init_tx :: "tx list" where
  "init_tx = map Cmd OLED_init_commands @ fill_tx 0 @ text_tx small_tx 126 6 ''OLED OK!'' 0 0"

lemma OLED_Init_says:
  assumes "bus w = []" "\<not> scl w" "answers w"
  obtains w' where "OLED_Init w = Some w'" "resting (wire init_tx) w'" "answers w'"
proof -
  let ?w = "rt_thread_mdelay 100 (IIC_Init w)"
  have r: "resting [] ?w" "answers ?w"
    using Init_rests [OF assms(1,2)] assms(3) unfolding mdelay_lines(2) by (auto simp: mdelay_lines(1) answers_def)
  have d1: "draws (\<lambda>w. Some (fold cmd OLED_init_commands w)) (concat (map (\<lambda>c. [Cmd c]) OLED_init_commands))"
    by (rule draws_fold) simp
  have d2: "draws (OLED_ShowStr 0 0 (''OLED OK!'' @ [NUL]) 1) (text_tx small_tx 126 6 ''OLED OK!'' 0 0)"
    by (rule ShowStr_draws(1)) (simp_all add: in_font_def)
  have "draws (\<lambda>w. Option.bind (Some (OLED_Fill 0 (fold cmd OLED_init_commands w))) (OLED_ShowStr 0 0 (''OLED OK!'' @ [NUL]) 1))
    ((concat (map (\<lambda>c. [Cmd c]) OLED_init_commands) @ fill_tx 0) @ text_tx small_tx 126 6 ''OLED OK!'' 0 0)"
    by (rule draws_then [OF draws_pure [OF d1 draws_fill] d2])
  from drawsE [OF this r] obtain w' where w': "OLED_ShowStr 0 0 (''OLED OK!'' @ [NUL]) 1 (OLED_Fill 0 (fold cmd OLED_init_commands ?w)) = Some w'"
    "resting (wire ((concat (map (\<lambda>c. [Cmd c]) OLED_init_commands) @ fill_tx 0) @ text_tx small_tx 126 6 ''OLED OK!'' 0 0)) w'" "answers w'"
    by auto
  have "concat (map (\<lambda>c. [Cmd c]) cs) = map Cmd cs" for cs by (induction cs) simp_all
  then show ?thesis using w' that by (simp add: OLED_Init_def Let_def init_tx_def)
qed

end
