(* ===== verification/Display.thy ===== *)
theory Display
  imports Oled
begin

text \<open>
  The four lines on the display (\<^verbatim>\<open>main_pad_line\<close> and \<^verbatim>\<open>main_show_oled_data\<close> of
  \<^verbatim>\<open>applications/main.c\<close>), composed in an array of 20 characters on the stack whose first contents
  are whatever they are.
\<close>

lemma unat_less_Suc: "len < width \<Longrightarrow> unat ((len :: u8) + 1) = Suc (unat len)"
proof -
  assume "len < width"
  then have "unat len < unat width" by (simp add: word_less_nat_alt)
  then have "unat len + 1 < 256" using unat_u8_lt [of width] by linarith
  then show ?thesis by (simp add: unat_word_ariths)
qed

lemma pad_measure: "len < width \<Longrightarrow> unat width - unat ((len :: u8) + 1) < unat width - unat len"
  using unat_less_Suc [of len width] by (simp add: word_less_nat_alt diff_less_mono2)

text \<open>\<^verbatim>\<open>while (line[len] != '\0' && len < width) len++;\<close> then \<^verbatim>\<open>while (len < width) line[len++] = ' ';\<close>\<close>

function pad_scan :: "u8 \<Rightarrow> string \<Rightarrow> u8 \<Rightarrow> u8 option" where
  "pad_scan width cs len = Option.bind (rd cs (unat len)) (\<lambda>ch.
     if ch \<noteq> NUL \<and> len < width then pad_scan width cs (len + 1) else Some len)"
  by auto
termination by (relation "measure (\<lambda>(width, cs, len). unat width - unat len)") (auto simp: pad_measure)

function pad_fill :: "u8 \<Rightarrow> string \<Rightarrow> u8 \<Rightarrow> string option" where
  "pad_fill width cs len =
    (if len < width then Option.bind (wr cs (unat len) CHR '' '') (\<lambda>cs. pad_fill width cs (len + 1))
     else wr cs (unat len) NUL)"
  by auto
termination by (relation "measure (\<lambda>(width, cs, len). unat width - unat len)") (auto simp: pad_measure)

declare pad_scan.simps [simp del] pad_fill.simps [simp del]

definition main_pad_line :: "string \<Rightarrow> u8 \<Rightarrow> string option" where
  "main_pad_line cs width = Option.bind (pad_scan width cs 0) (pad_fill width cs)"

text \<open>The texts of the four lines, appended from the start of the array.\<close>

definition put_mq2 :: "'a oled_scheme \<Rightarrow> cursor \<Rightarrow> cursor option" where
  "put_mq2 w c = (if fge (OLED_MQ2ppm w) (flit 999) then main_append_string ''MQ2:>999'' c
     else Option.bind (main_append_string ''MQ2:'' c) (main_append_fixed (OLED_MQ2ppm w) 2))"

definition put_mq135 :: "'a oled_scheme \<Rightarrow> cursor \<Rightarrow> cursor option" where
  "put_mq135 w c = (if fge (OLED_MQ135ppm w) (flit 999) then main_append_string ''MQ135:>999'' c
     else Option.bind (main_append_string ''MQ135:'' c) (main_append_fixed (OLED_MQ135ppm w) 2))"

definition put_soil :: "'a oled_scheme \<Rightarrow> cursor \<Rightarrow> cursor option" where
  "put_soil w c = Option.bind (main_append_string ''Soil:'' c) (\<lambda>c.
     Option.bind (main_append_fixed (OLED_SoilPercent w) 1 c) (main_append_char CHR ''%''))"

definition put_air :: "'a oled_scheme \<Rightarrow> cursor \<Rightarrow> cursor option" where
  "put_air w c = Option.bind (main_append_string ''T:'' c) (\<lambda>c.
     Option.bind (main_append_fixed (My_temp w) 1 c) (\<lambda>c.
     Option.bind (main_append_string '' H:'' c) (\<lambda>c.
     Option.bind (main_append_fixed (My_humi w) 1 c) (main_append_char CHR ''%''))))"

text \<open>\<^verbatim>\<open>ptr = line; ...; main_pad_line(line, 13); OLED_ShowStr(0, y, line, 2);\<close>\<close>

definition show_line :: "('a oled_scheme \<Rightarrow> cursor \<Rightarrow> cursor option) \<Rightarrow> u8 \<Rightarrow> string \<times> 'a oled_scheme \<Rightarrow>
    (string \<times> 'a oled_scheme) option" where
  "show_line put y s = (let (cs, w) = s in
     Option.bind (put w (cs, 0)) (\<lambda>(cs, ptr).
     Option.bind (main_pad_line cs 13) (\<lambda>cs.
     Option.bind (OLED_ShowStr 0 y cs 2 w) (\<lambda>w. Some (cs, w)))))"

definition main_show_oled_data :: "string \<Rightarrow> 'a oled_scheme \<Rightarrow> 'a oled_scheme option" where
  "main_show_oled_data cs w = Option.bind (show_line put_mq2 0 (cs, w)) (\<lambda>s.
     Option.bind (show_line put_mq135 2 s) (\<lambda>s.
     Option.bind (show_line put_soil 4 s) (\<lambda>s.
     Option.bind (show_line put_air 6 s) (\<lambda>(cs, w). Some w))))"

subsection \<open>Padding\<close>

definition padded :: "nat \<Rightarrow> string \<Rightarrow> string" where
  "padded n t = take n (t @ replicate n CHR '' '')"

lemma length_padded [simp]: "length (padded n t) = n"
  by (simp add: padded_def)

lemma pad_scan_text:
  assumes "take (length t) cs = t" "no_nul t" "length t < length cs" "cs ! length t = NUL"
    "unat len \<le> min (length t) (unat width)"
  shows "\<exists>l. pad_scan width cs len = Some l \<and> unat l = min (length t) (unat width)"
  using assms(5)
proof (induction "unat width - unat len" arbitrary: len)
  case 0
  then have "unat len = unat width" by simp
  then show ?case using 0 assms(3) by (subst pad_scan.simps) (simp add: rd_Some word_less_nat_alt)
next
  case (Suc k)
  have r: "rd cs (unat len) = Some (cs ! unat len)" using Suc.prems assms(3) by (simp add: rd_Some)
  have lw: "len < width" using Suc.hyps(2) by (simp add: word_less_nat_alt)
  show ?case
  proof (cases "unat len < length t")
    case True
    then have "cs ! unat len = t ! unat len" using assms(1) nth_take [of "unat len" "length t" cs] by simp
    then have "cs ! unat len \<noteq> NUL" using True assms(2) by (metis no_nul_def nth_mem)
    then have "pad_scan width cs len = pad_scan width cs (len + 1)"
      using lw r by (subst pad_scan.simps) simp
    moreover have "\<exists>l. pad_scan width cs (len + 1) = Some l \<and> unat l = min (length t) (unat width)"
      using Suc True lw unat_less_Suc [OF lw] by (intro Suc.hyps(1)) (auto simp: word_less_nat_alt)
    ultimately show ?thesis by simp
  next
    case False
    then have "unat len = length t" using Suc.prems by simp
    then show ?thesis using r assms(4) lw Suc.prems by (subst pad_scan.simps) (simp add: word_less_nat_alt)
  qed
qed

lemma pad_fill_text:
  assumes "unat width < length cs" "unat len \<le> unat width"
  shows "pad_fill width cs len =
    Some (take (unat len) cs @ replicate (unat width - unat len) CHR '' '' @ NUL # drop (Suc (unat width)) cs)"
  using assms
proof (induction "unat width - unat len" arbitrary: len cs)
  case 0
  then have e: "unat len = unat width" by simp
  then have "cs[unat width := NUL] = take (unat width) cs @ NUL # drop (Suc (unat width)) cs"
    using 0 by (simp add: upd_conv_take_nth_drop)
  then show ?case using 0 e by (subst pad_fill.simps) (simp add: wr_Some word_less_nat_alt)
next
  case (Suc k)
  have lw: "len < width" using Suc.hyps(2) by (simp add: word_less_nat_alt)
  then have l: "unat len < unat width" by (simp add: word_less_nat_alt)
  note u = unat_less_Suc [OF lw]
  let ?cs = "cs[unat len := CHR '' '']"
  have "pad_fill width cs len = pad_fill width ?cs (len + 1)"
    using lw l Suc.prems by (subst pad_fill.simps) (simp add: wr_Some)
  also have "\<dots> = Some (take (unat (len + 1)) ?cs @ replicate (unat width - unat (len + 1)) CHR '' '' @
      NUL # drop (Suc (unat width)) ?cs)"
    using Suc l u by (intro Suc.hyps(1)) simp_all
  also have "take (unat (len + 1)) ?cs = take (unat len) cs @ [CHR '' '']"
    using l Suc.prems unfolding u by (simp add: take_Suc_conv_app_nth)
  also have "drop (Suc (unat width)) ?cs = drop (Suc (unat width)) cs" using l by simp
  also have "(take (unat len) cs @ [CHR '' '']) @ replicate (unat width - unat (len + 1)) CHR '' '' @ xs =
      take (unat len) cs @ replicate (unat width - unat len) CHR '' '' @ xs" for xs
  proof -
    have "unat width - unat len = Suc (unat width - Suc (unat len))" using l by simp
    then show ?thesis unfolding u by simp
  qed
  finally show ?case .
qed

lemma pad_line_text:
  assumes "take (length t) cs = t" "no_nul t" "length t < length cs" "cs ! length t = NUL" "unat width < length cs"
  shows "\<exists>cs'. main_pad_line cs width = Some cs' \<and> length cs' = length cs \<and>
    take (unat width) cs' = padded (unat width) t \<and> cs' ! unat width = NUL"
proof -
  obtain l where l: "pad_scan width cs 0 = Some l" "unat l = min (length t) (unat width)"
    using pad_scan_text [OF assms(1-4), of 0 width] by auto
  have t: "take (unat l) cs = take (unat width) t"
    unfolding l(2) by (subst (2) assms(1) [symmetric]) (simp add: min.commute)
  have e: "main_pad_line cs width =
    Some (take (unat l) cs @ replicate (unat width - unat l) CHR '' '' @ NUL # drop (Suc (unat width)) cs)"
    using l pad_fill_text [OF assms(5), of l] by (simp add: main_pad_line_def)
  show ?thesis unfolding e unfolding t unfolding l(2) padded_def using assms(3,5) by (auto simp: nth_append min_def)
qed


subsection \<open>One line\<close>

definition mq2_text :: "'a oled_scheme \<Rightarrow> string" where
  "mq2_text w = (if fge (OLED_MQ2ppm w) (flit 999) then ''MQ2:>999'' else ''MQ2:'' @ main_text (OLED_MQ2ppm w) 2)"

definition mq135_text :: "'a oled_scheme \<Rightarrow> string" where
  "mq135_text w = (if fge (OLED_MQ135ppm w) (flit 999) then ''MQ135:>999'' else ''MQ135:'' @ main_text (OLED_MQ135ppm w) 2)"

definition soil_text :: "'a oled_scheme \<Rightarrow> string" where
  "soil_text w = ''Soil:'' @ main_text (OLED_SoilPercent w) 1 @ ''%''"

definition air_text :: "'a oled_scheme \<Rightarrow> string" where
  "air_text w = ''T:'' @ main_text (My_temp w) 1 @ '' H:'' @ main_text (My_humi w) 1 @ ''%''"

lemma fixed_appends: "d = 1 \<or> d = 2 \<Longrightarrow> appends (main_append_fixed x d) (main_text x d)"
  by (rule append_fixed_appends) auto

lemma char_appends: "appends (main_append_char c) [c]"
  by (rule AppendChar_appends)

lemma main_text_ne [simp]: "main_text x d \<noteq> []"
  by (auto simp: main_text_def Let_def split: prod.split)

lemma put_appends:
  "appends (put_mq2 w) (mq2_text w)" "appends (put_mq135 w) (mq135_text w)"
  "appends (put_soil w) (soil_text w)" "appends (put_air w) (air_text w)"
proof -
  have [simp]: "unat (1 :: u8) = 1" "unat (2 :: u8) = 2" by simp_all
  note ap = appends_then string_appends fixed_appends char_appends
  show "appends (put_mq2 w) (mq2_text w)" unfolding put_mq2_def [abs_def] mq2_text_def
    by (cases "fge (OLED_MQ2ppm w) (flit 999)"; simp only: if_True if_False simp_thms; intro ap) auto
  show "appends (put_mq135 w) (mq135_text w)" unfolding put_mq135_def [abs_def] mq135_text_def
    by (cases "fge (OLED_MQ135ppm w) (flit 999)"; simp only: if_True if_False simp_thms; intro ap) auto
  show "appends (put_soil w) (soil_text w)"
    unfolding put_soil_def [abs_def] soil_text_def by (intro ap) auto
  show "appends (put_air w) (air_text w)"
    unfolding put_air_def [abs_def] air_text_def by (intro ap) auto
qed

text \<open>Every character of the lines is in the font.\<close>

lemma in_font_digit: "d < 10 \<Longrightarrow> in_font 95 (digit d)"
  by (simp add: in_font_def digit_def of_char_of take_bit_nat_eq_self)

lemma in_font_decimal: "\<forall>a \<in> set (decimal v). in_font 95 a"
  by (induction v rule: decimal.induct) (subst decimal.simps, auto simp: in_font_digit)

lemma in_font_digits: "\<forall>a \<in> set (digits n v). in_font 95 a"
  by (auto simp: digits_def in_font_digit)

lemma in_font_main_text: "\<forall>a \<in> set (main_text x d). in_font 95 a"
  using in_font_decimal in_font_digits by (auto simp: main_text_def Let_def in_font_def split: prod.split)

lemma in_font_texts:
  "\<forall>a \<in> set (mq2_text w). in_font 95 a" "\<forall>a \<in> set (mq135_text w). in_font 95 a"
  "\<forall>a \<in> set (soil_text w). in_font 95 a" "\<forall>a \<in> set (air_text w). in_font 95 a"
proof -
  have c: "in_font 95 a" if "a \<in> set ''MQ2:>99135 Soil%TH''" for a using that by (auto simp: in_font_def)
  show "\<forall>a \<in> set (mq2_text w). in_font 95 a" "\<forall>a \<in> set (mq135_text w). in_font 95 a"
    "\<forall>a \<in> set (soil_text w). in_font 95 a" "\<forall>a \<in> set (air_text w). in_font 95 a"
    using in_font_main_text c by (auto simp: mq2_text_def mq135_text_def soil_text_def air_text_def)
qed


lemma show_line_draws:
  assumes "appends (put w) t" "t \<noteq> []" "length t < length cs" "13 < length cs" "\<forall>a \<in> set t. in_font 95 a"
    "resting hs w" "answers w"
  obtains cs' w' where "show_line put y (cs, w) = Some (cs', w')" "length cs' = length cs"
    "resting (hs @ wire (text_tx big_tx 120 8 (padded 13 t) 0 y)) w'" "bus_only w w'" "answers w'"
proof -
  obtain b where b: "put w (cs, 0) = Some (b, length t)" "length b = length cs" "take (length t) b = t" "b ! length t = NUL"
    using appendsD [OF assms(1), of 0 cs] assms(2,3) by auto
  have n: "no_nul t" using assms(5) in_font_code by (auto simp: no_nul_def)
  have w13: "unat (13 :: u8) = 13" by simp
  obtain c where c: "main_pad_line b 13 = Some c" "length c = length cs" "take 13 c = padded 13 t" "c ! 13 = NUL"
    using pad_line_text [of t b 13] b n assms(3,4) unfolding w13 by auto
  have f: "\<forall>a \<in> set (padded 13 t). in_font 95 a"
  proof
    fix a assume "a \<in> set (padded 13 t)"
    then have "a \<in> set t \<or> a = CHR '' ''" unfolding padded_def by (auto dest: in_set_takeD)
    then show "in_font 95 a" using assms(5) by (auto simp: in_font_def)
  qed
  have d: "draws (OLED_ShowStr 0 y c 2) (text_tx big_tx 120 8 (padded 13 t) 0 y)"
    by (rule ShowStr_draws(2)) (use c f assms(4) in auto)
  obtain w' where w': "OLED_ShowStr 0 y c 2 w = Some w'"
    "resting (hs @ wire (text_tx big_tx 120 8 (padded 13 t) 0 y)) w'" "bus_only w w'" "answers w'"
    by (rule drawsE [OF d assms(6,7)])
  then show ?thesis using that b(1) c by (simp add: show_line_def)
qed

lemma bus_only_globals:
  assumes "bus_only w w'"
  shows "OLED_MQ2ppm w' = OLED_MQ2ppm w" "OLED_MQ135ppm w' = OLED_MQ135ppm w"
    "OLED_SoilPercent w' = OLED_SoilPercent w" "My_temp w' = My_temp w" "My_humi w' = My_humi w"
proof -
  have e: "w' = w\<lparr>ODR := ODR w', GPIOB_MODER := GPIOB_MODER w', GPIOB_OSPEEDR := GPIOB_OSPEEDR w', bus := bus w',
    sda_n := sda_n w'\<rparr>" using assms unfolding bus_only_def by (rule conjunct1)
  show "OLED_MQ2ppm w' = OLED_MQ2ppm w" using arg_cong [OF e, of OLED_MQ2ppm] by simp
  show "OLED_MQ135ppm w' = OLED_MQ135ppm w" using arg_cong [OF e, of OLED_MQ135ppm] by simp
  show "OLED_SoilPercent w' = OLED_SoilPercent w" using arg_cong [OF e, of OLED_SoilPercent] by simp
  show "My_temp w' = My_temp w" using arg_cong [OF e, of My_temp] by simp
  show "My_humi w' = My_humi w" using arg_cong [OF e, of My_humi] by simp
qed

lemma bus_only_texts:
  "bus_only w w' \<Longrightarrow> mq2_text w' = mq2_text w \<and> mq135_text w' = mq135_text w \<and> soil_text w' = soil_text w \<and> air_text w' = air_text w"
  by (frule bus_only_globals(1), frule bus_only_globals(2), frule bus_only_globals(3), frule bus_only_globals(4),
    frule bus_only_globals(5)) (simp add: mq2_text_def mq135_text_def soil_text_def air_text_def)

text \<open>The readings the sensor modules deliver.\<close>

definition readings_ok :: "'a globals_scheme \<Rightarrow> bool" where
  "readings_ok w \<longleftrightarrow> f32_in 0 999 (OLED_MQ2ppm w) \<and> f32_in 0 999 (OLED_MQ135ppm w) \<and>
     f32_in 0 100 (OLED_SoilPercent w) \<and> f32_in 0 281 (My_temp w) \<and> f32_in 0 281 (My_humi w)"

lemma length_main_text:
  assumes "f32_in 0 b x" "b \<le> 1000"
  shows "length (main_text x 1) \<le> 6" "length (main_text x 2) \<le> 7"
proof -
  obtain v where v: "x = Fin v" "f32_rep v" "0 \<le> v" "v \<le> 1000" using assms by (auto elim!: f32_inE)
  have u: "unat (1 :: u8) = 1" "unat (2 :: u8) = 2" by simp_all
  show "length (main_text x 1) \<le> 6" "length (main_text x 2) \<le> 7"
    using main_text_displays(2) [of 1 v] main_text_displays(2) [of 2 v] v unfolding u by auto
qed

lemma texts_fit:
  assumes "readings_ok w"
  shows "length (mq2_text w) \<le> 11" "length (mq135_text w) \<le> 13" "length (soil_text w) \<le> 12" "length (air_text w) \<le> 18"
proof -
  have r: "f32_in 0 999 (OLED_MQ2ppm w)" "f32_in 0 999 (OLED_MQ135ppm w)" "f32_in 0 100 (OLED_SoilPercent w)"
    "f32_in 0 281 (My_temp w)" "f32_in 0 281 (My_humi w)" using assms by (simp_all add: readings_ok_def)
  show "length (mq2_text w) \<le> 11" using length_main_text(2) [OF r(1)] by (simp add: mq2_text_def)
  show "length (mq135_text w) \<le> 13" using length_main_text(2) [OF r(2)] by (simp add: mq135_text_def)
  show "length (soil_text w) \<le> 12" using length_main_text(1) [OF r(3)] by (simp add: soil_text_def)
  show "length (air_text w) \<le> 18" using length_main_text(1) [OF r(4)] length_main_text(1) [OF r(5)] by (simp add: air_text_def)
qed

lemma texts_ne: "mq2_text w \<noteq> []" "mq135_text w \<noteq> []" "soil_text w \<noteq> []" "air_text w \<noteq> []"
  by (simp_all add: mq2_text_def mq135_text_def soil_text_def air_text_def)

text \<open>What a refresh of the display sends.\<close>

definition screen_tx :: "'a oled_scheme \<Rightarrow> tx list" where
  "screen_tx w = concat (map (\<lambda>(y, t). text_tx big_tx 120 8 (padded 13 t) 0 y)
     [(0, mq2_text w), (2, mq135_text w), (4, soil_text w), (6, air_text w)])"

lemma wire_append: "wire (ts @ us) = wire ts @ wire us"
  by (simp add: wire_def)

lemma refresh_draws:
  assumes "readings_ok w" "length cs = 20" "resting hs w" "answers w"
  shows "\<exists>w'. main_show_oled_data cs w = Some w' \<and> resting (hs @ wire (screen_tx w)) w' \<and> bus_only w w'"
proof -
  have fit: "length (mq2_text w) < 20" "length (mq135_text w) < 20" "length (soil_text w) < 20" "length (air_text w) < 20"
    using texts_fit [OF assms(1)] by linarith+
  obtain c1 w1 where 1: "show_line put_mq2 0 (cs, w) = Some (c1, w1)" "length c1 = length cs"
    "resting (hs @ wire (text_tx big_tx 120 8 (padded 13 (mq2_text w)) 0 0)) w1" "bus_only w w1" "answers w1"
    by (rule show_line_draws [where put = put_mq2 and y = 0, OF put_appends(1) texts_ne(1) _ _ in_font_texts(1) assms(3,4), where cs = cs]) (use fit assms(2) in auto)
  note t1 = bus_only_texts [OF 1(4)]
  obtain c2 w2 where 2: "show_line put_mq135 2 (c1, w1) = Some (c2, w2)" "length c2 = length c1"
    "resting ((hs @ wire (text_tx big_tx 120 8 (padded 13 (mq2_text w)) 0 0)) @
      wire (text_tx big_tx 120 8 (padded 13 (mq135_text w1)) 0 2)) w2" "bus_only w1 w2" "answers w2"
    by (rule show_line_draws [where put = put_mq135 and y = 2, OF put_appends(2) texts_ne(2) _ _ in_font_texts(2) 1(3,5), where cs = c1]) (use fit assms(2) 1(2) t1 in auto)
  note t2 = bus_only_texts [OF 2(4)]
  obtain c3 w3 where 3: "show_line put_soil 4 (c2, w2) = Some (c3, w3)" "length c3 = length c2"
    "resting (((hs @ wire (text_tx big_tx 120 8 (padded 13 (mq2_text w)) 0 0)) @
      wire (text_tx big_tx 120 8 (padded 13 (mq135_text w1)) 0 2)) @
      wire (text_tx big_tx 120 8 (padded 13 (soil_text w2)) 0 4)) w3" "bus_only w2 w3" "answers w3"
    by (rule show_line_draws [where put = put_soil and y = 4, OF put_appends(3) texts_ne(3) _ _ in_font_texts(3) 2(3,5), where cs = c2]) (use fit assms(2) 1(2) 2(2) t1 t2 in auto)
  note t3 = bus_only_texts [OF 3(4)]
  obtain c4 w4 where 4: "show_line put_air 6 (c3, w3) = Some (c4, w4)"
    "resting ((((hs @ wire (text_tx big_tx 120 8 (padded 13 (mq2_text w)) 0 0)) @
      wire (text_tx big_tx 120 8 (padded 13 (mq135_text w1)) 0 2)) @
      wire (text_tx big_tx 120 8 (padded 13 (soil_text w2)) 0 4)) @
      wire (text_tx big_tx 120 8 (padded 13 (air_text w3)) 0 6)) w4" "bus_only w3 w4"
    by (rule show_line_draws [where put = put_air and y = 6, OF put_appends(4) texts_ne(4) _ _ in_font_texts(4) 3(3,5), where cs = c3]) (use fit assms(2) 1(2) 2(2) 3(2) t1 t2 t3 in auto)
  have "main_show_oled_data cs w = Some w4" by (simp add: main_show_oled_data_def 1(1) 2(1) 3(1) 4(1))
  moreover have "resting (hs @ wire (screen_tx w)) w4"
    using 4(2) t1 t2 t3 by (simp add: screen_tx_def wire_append)
  moreover have "bus_only w w4" by (rule bus_only_trans [OF bus_only_trans [OF bus_only_trans [OF 1(4) 2(4)] 3(4)] 4(3)])
  ultimately show ?thesis by blast
qed


text \<open>
  C40 (safety). With readings in the ranges of the sensors a refresh of the display never leaves its 20
  characters, whatever they held before, never reads outside the font and always comes back; on a
  bus at rest with a display that answers it sends exactly the four lines, each padded with blanks
  or cut to 13 characters, on the pages 0, 2, 4 and 6, and changes nothing else.
\<close>

theorem display_refresh:
  assumes "readings_ok w" "length cs = 20" "resting hs w" "answers w"
  shows "\<exists>w'. main_show_oled_data cs w = Some w' \<and> resting (hs @ wire (screen_tx w)) w' \<and> bus_only w w'"
  by (rule refresh_draws [OF assms])

lemma oled0_readings: "readings_ok (oled0\<lparr>sda_in := f\<rparr>)"
  by (simp add: readings_ok_def oled0_def oled_fields0_def debug0_def dht0_def dht_fields0_def actuators0_def
    actuators_fields0_def sensors0_def sensors_fields0_def sport0_def sport_fields0_def voice0_def voice_fields0_def
    senders0_def senders_fields0_def soft0_def soft_fields0_def comm0_def comm_fields0_def turns0_def motors0_def
    encoders0_def globals0_def hw0_def oled.defs debug.defs dht.defs actuators.defs sensors.defs sport.defs voice.defs
    senders.defs soft.defs comm.defs turns.defs motors.defs encoders.defs globals.defs hw.defs f32_in_def)

lemma Init_readings: "readings_ok (IIC_Init w) = readings_ok w"
proof -
  obtain c l where m: "hal_calls [RCC_GPIO_ENABLE GPIOB,
    GPIO_Init GPIOB (GPIO_PIN 8 OR GPIO_PIN 9) OUTPUT_PP NOPULL SPEED_HIGH None] w = w\<lparr>CCR := c, hal_log := l\<rparr>"
    by (rule hal_calls_frame)
  show ?thesis unfolding readings_ok_def IIC_Init_def Let_def m
    by (simp add: watch_lines_def record_event_def set_moder_def HAL_GPIO_WritePin_def)
qed

theorem display_refresh_witness:
  fixes w defines "w \<equiv> IIC_Init (oled0\<lparr>sda_in := (\<lambda>_. False)\<rparr>)"
  shows "\<exists>w'. main_show_oled_data (replicate 20 CHR ''x'') w = Some w' \<and> resting (wire (screen_tx w)) w'"
proof -
  have w: "resting [] w" "sda_in w = (\<lambda>_. False)" "readings_ok w"
    using Init_rests [OF oled0_lines] by (auto simp: w_def Init_readings oled0_readings)
  have a: "answers w" unfolding answers_def w(2) by (intro allI exI [of _ 0]) simp
  show ?thesis using display_refresh [OF w(3) _ w(1) a, of "replicate 20 CHR ''x''"] by auto
qed

subsection \<open>The line of the air sensor\<close>

lemma length_decimal_ge: "10 \<le> v \<Longrightarrow> 2 \<le> length (decimal v)"
  by (subst decimal.simps) (auto simp: Suc_le_eq)

lemma two_digits:
  assumes "f32_in 10 281 x"
  shows "4 \<le> length (main_text x 1)"
proof -
  obtain v where v: "x = Fin v" "f32_rep v" "10 \<le> v" "v \<le> 281" using assms by (auto elim!: f32_inE)
  have u: "unat (1 :: u8) = 1" by simp
  have s: "int 10 = uint (scale10 1)" by (simp add: scale10_def)
  obtain i f where p: "main_parts (Fin v) (scale10 1) = (i, f)" "unat f < 10"
    "\<bar>of_nat (unat i) + of_nat (unat f) / of_nat 10 - v\<bar> \<le> 1 / 2 / of_nat 10 + 1 / 20000"
    by (rule main_parts_accurate [of v 10 "scale10 1"]) (use v s in auto)
  have "(of_nat (unat f) :: rat) \<le> 9" using p(2) of_nat_le_iff [of "unat f" 9, where ?'a = rat] by simp
  moreover have "a > 9" if "\<bar>a + g / 10 - v\<bar> \<le> 1 / 2 / 10 + 1 / 20000" "g \<le> 9" for a g :: rat
    using that v(3) by linarith
  ultimately have "of_nat (unat i) > (9 :: rat)" using p(3) unfolding of_nat_numeral by blast
  then have "10 \<le> unat i" using of_nat_less_iff [of 9 "unat i", where ?'a = rat] by simp
  then have "2 \<le> length (decimal (unat i))" by (rule length_decimal_ge)
  then show ?thesis using p(1) v by (simp add: main_text_def u v(1))
qed

lemma no_percent: "CHR ''%'' \<notin> set (main_text x d)"
proof -
  have d: "digit k \<noteq> CHR ''%''" if "k < 10" for k
  proof
    assume "digit k = CHR ''%''"
    then have "(of_char (digit k) :: nat) = 37" by simp
    then show False using that by (simp add: digit_def of_char_of take_bit_nat_eq_self)
  qed
  have "CHR ''%'' \<notin> set (decimal v)" for v
    by (induction v rule: decimal.induct) (subst decimal.simps, auto simp: d [symmetric])
  moreover have "CHR ''%'' \<notin> set (digits n v)" for n v by (auto simp: digits_def d [symmetric])
  ultimately show ?thesis by (auto simp: main_text_def Let_def split: prod.split)
qed

text \<open>
  The percent sign of the humidity is composed but never seen: with temperature and
  humidity of two digits the line of the air sensor has at least 14 characters, and padding it to
  13 cuts off the sign at its end.
\<close>

theorem percent_sign_cut:
  assumes "f32_in 10 281 (My_temp w)" "f32_in 10 281 (My_humi w)" "length cs = 20"
  shows "\<exists>b p c. put_air w (cs, 0) = Some (b, p) \<and> b ! (p - 1) = CHR ''%'' \<and>
    main_pad_line b 13 = Some c \<and> CHR ''%'' \<notin> set (take 13 c) \<and> c ! 13 = NUL"
proof -
  define s where "s = ''T:'' @ main_text (My_temp w) 1 @ '' H:'' @ main_text (My_humi w) 1"
  have t: "air_text w = s @ ''%''" by (simp add: s_def air_text_def)
  have r: "f32_in 0 281 (My_temp w)" "f32_in 0 281 (My_humi w)" using assms by (auto simp: f32_in_def split: f32.splits)
  have l: "13 \<le> length s" "length s < 19"
    using two_digits [OF assms(1)] two_digits [OF assms(2)] length_main_text(1) [OF r(1)] length_main_text(1) [OF r(2)]
    by (simp_all add: s_def)
  obtain b where b: "put_air w (cs, 0) = Some (b, Suc (length s))" "length b = 20" "take (Suc (length s)) b = s @ ''%''"
    "b ! Suc (length s) = NUL"
    using appendsD [OF put_appends(4) [of w], of 0 cs] l assms(3) unfolding t by auto
  have "b ! length s = (s @ ''%'') ! length s" using nth_take [of "length s" "Suc (length s)" b] b(3) by simp
  then have p: "b ! length s = CHR ''%''" by simp
  have n: "no_nul (s @ ''%'')" using in_font_texts(4) [of w] in_font_code unfolding t no_nul_def by blast
  have u: "unat (13 :: u8) = 13" by simp
  obtain c where c: "main_pad_line b 13 = Some c" "take 13 c = padded 13 (s @ ''%'')" "c ! 13 = NUL"
    using pad_line_text [of "s @ ''%''" b 13] b n l unfolding u by auto
  have "CHR ''%'' \<notin> set s" using no_percent by (auto simp: s_def)
  then have "CHR ''%'' \<notin> set (padded 13 (s @ ''%''))" using l by (auto simp: padded_def dest: in_set_takeD)
  then show ?thesis using b(1) p c by (intro exI [of _ b] exI [of _ "Suc (length s)"] exI [of _ c]) simp
qed


theorem percent_sign_cut_witness:
  fixes w defines "w \<equiv> oled0\<lparr>My_temp := Fin 23, My_humi := Fin 45\<rparr>"
  shows "\<exists>b p c. put_air w (replicate 20 NUL, 0) = Some (b, p) \<and> b ! (p - 1) = CHR ''%'' \<and>
    main_pad_line b 13 = Some c \<and> CHR ''%'' \<notin> set (take 13 c)"
proof -
  have "f32_in 10 281 (My_temp w)" "f32_in 10 281 (My_humi w)" by (simp_all add: w_def f32_in_def)
  then show ?thesis using percent_sign_cut [of w "replicate 20 NUL"] by fastforce
qed

end
