(* ===== verification/Sport_Invariant.thy ===== *)
theory Sport_Invariant
  imports Sport
begin

text \<open>
  What the motion modes never do: the invariant of the avoidance machine and of the drive below it,
  kept by every operation of \<^verbatim>\<open>SportMode.c\<close> and by whatever the other threads write in between.
\<close>

subsection \<open>Frames\<close>

text \<open>What the drive commands and the stepper commands leave alone.\<close>

definition obs_view :: "'a sport_scheme \<Rightarrow> u8 \<times> u8 \<times> u16 \<times> f32 \<times> f32 \<times> f32 \<times> f32 \<times> Mypid" where
  "obs_view w = (Modestate w, mystate w, time_cntobs w, yaw_temprary w, yaw_temprary1 w, yaw_temprary2 w, Yaw w, Pid_Trun w)"

lemma obs_view_eqD:
  assumes "obs_view v = obs_view w"
  shows "Modestate v = Modestate w" "mystate v = mystate w" "time_cntobs v = time_cntobs w"
    "yaw_temprary v = yaw_temprary w" "yaw_temprary1 v = yaw_temprary1 w" "yaw_temprary2 v = yaw_temprary2 w"
    "Yaw v = Yaw w" "Pid_Trun v = Pid_Trun w"
  using assms by (simp_all add: obs_view_def)

lemma stepper_frame:
  obtains k d where "stepper f w = w\<lparr>rtos := k, usart3_dev := d\<rparr>"
  by (cases "f (rtos w, usart3_dev w)") (auto simp: stepper_def)

lemma stepper_keeps:
  "obs_view (stepper f w) = obs_view w" "loop_safe (stepper f w) = loop_safe w" "bridge_ok (stepper f w) = bridge_ok w"
proof -
  obtain k d where f: "stepper f w = w\<lparr>rtos := k, usart3_dev := d\<rparr>" by (rule stepper_frame)
  show "obs_view (stepper f w) = obs_view w" "loop_safe (stepper f w) = loop_safe w" "bridge_ok (stepper f w) = bridge_ok w"
    by (simp_all add: f obs_view_def loop_safe_def bridge_ok_def pin_high_def)
qed

lemma Motor_SetCCR_view:
  "obs_view (Motor_SetCCR c1 c2 w) = obs_view w" "vl53 (Motor_SetCCR c1 c2 w) = vl53 w"
proof -
  obtain o1 c l b where f: "Motor_SetCCR c1 c2 w = w\<lparr>ODR := o1, CCR := c, hal_log := l, motor_pwm_inited := b\<rparr>"
    by (rule Motor_SetCCR_frame)
  show "obs_view (Motor_SetCCR c1 c2 w) = obs_view w" "vl53 (Motor_SetCCR c1 c2 w) = vl53 w"
    by (simp_all add: f obs_view_def)
qed

lemma brake_safe:
  assumes "loop_safe w"
  shows "loop_safe (Motor_SetCCR 0 0 w)" "bridge_ok (Motor_SetCCR 0 0 w)"
  using assms bridge_is_ok [OF Motor_SetCCR_bridge [of 0 0 w]]
  by (simp_all add: loop_safe_def Motor_SetCCR_keeps)

lemma Acce_view: "obs_view (Motor_PidTarget_Acce s1 s2 w) = obs_view w"
proof -
  define v where "v = set_targets (acce_target s1 (Target (Pid_Motor1Speed w))) (acce_target s2 (Target (Pid_Motor2Speed w))) w"
  obtain o1 c l b p1 p2 where f: "motor_speed_loop v = v\<lparr>ODR := o1, CCR := c, hal_log := l, motor_pwm_inited := b,
      Pid_Motor1Speed := p1, Pid_Motor2Speed := p2\<rparr>"
    by (rule motor_speed_loop_frame)
  show ?thesis by (simp add: Motor_PidTarget_Acce_def f obs_view_def flip: v_def) (simp add: v_def set_targets_def)
qed

lemma Acce_safe:
  assumes "loop_safe w" "f32_mag (2 ^ 20) s1" "f32_mag (2 ^ 20) s2"
  shows "loop_safe (Motor_PidTarget_Acce s1 s2 w)" "bridge_ok (Motor_PidTarget_Acce s1 s2 w)"
  using speed_command_safe [OF assms(1) ramp_between(1) ramp_between(1)] assms loop_safe_targets [OF assms(1)]
  by (simp_all add: Motor_PidTarget_Acce_def)

subsection \<open>Headings\<close>

lemma wrap_yaw_mag:
  assumes "f32_mag 450 x" shows "f32_mag 180 (wrap_yaw x)"
proof -
  obtain r where r: "x = Fin r" "f32_rep r" "- 450 \<le> r" "r \<le> 450" using assms by (auto elim!: f32_inE)
  define c where "c = (if 180 < r then r - 360 else if r \<le> - 180 then r + 360 else r)"
  have c: "wrap_yaw x = Fin c" "\<bar>c\<bar> \<le> 180" using wrap_yaw_Fin [OF r(2)] r by (auto simp: c_def abs_le_iff)
  have "f32_rep c"
  proof -
    have "f32_rep (r + - 360)" if "180 < r" using r that by (intro shift_exact) (auto simp: abs_le_iff)
    moreover have "f32_rep (r + 360)" if "r \<le> - 180" using r that by (intro shift_exact) (auto simp: abs_le_iff)
    ultimately show ?thesis using r(2) by (simp add: c_def)
  qed
  then show ?thesis using c by (simp add: abs_le_iff)
qed

lemma sport_lits [simp]:
  "f32_of_int 60 = Fin 60" "f32_of_int 90 = Fin 90" "f32_of_int 300 = Fin 300" "f32_of_int (- 300) = Fin (- 300)"
  using f32_of_int_exact [of 60] f32_of_int_exact [of 90] f32_of_int_exact [of 300] f32_of_int_exact [of "- 300"] by simp_all

lemma heading_bounds:
  "f32_mag 180 y \<Longrightarrow> f32_in (- 180) 360 (fadd y (Fin 180))"
  "f32_in (- 180) 360 y \<Longrightarrow> f32_mag 450 (fadd y (Fin 60))" "f32_in (- 180) 360 y \<Longrightarrow> f32_mag 450 (fadd y (Fin 90))"
  "f32_in (- 180) 360 y \<Longrightarrow> f32_mag 450 (fsub y (Fin 60))" "f32_in (- 180) 360 y \<Longrightarrow> f32_mag 450 (fsub y (Fin 90))"
  by (auto intro: fadd_in [where c = 180 and d = 180] fadd_in [where c = 60 and d = 60] fadd_in [where c = 90 and d = 90]
      fsub_in [where c = 60 and d = 60] fsub_in [where c = 90 and d = 90])

subsection \<open>The invariant\<close>

definition cnt_ok :: "u8 \<Rightarrow> u16 \<Rightarrow> bool" where
  "cnt_ok s c \<longleftrightarrow> unat c \<le> (if s \<in> {2, 4, 6, 8, 10} then 99 else if s = 0 then 100 else 101)"

definition drive_safe :: "'a sport_scheme \<Rightarrow> bool" where
  "drive_safe w \<longleftrightarrow> loop_safe w \<and> bridge_ok w \<and> trun_ok (Pid_Trun w) \<and> f32_mag 180 (Yaw w)"

definition headings_ok :: "'a sport_scheme \<Rightarrow> bool" where
  "headings_ok w \<longleftrightarrow> f32_in (- 180) 360 (yaw_temprary w) \<and> f32_mag 450 (yaw_temprary1 w) \<and> f32_mag 450 (yaw_temprary2 w) \<and>
     (Modestate w = 12 \<longrightarrow> f32_mag 180 (yaw_temprary w))"

definition sport_safe :: "'a sport_scheme \<Rightarrow> bool" where
  "sport_safe w \<longleftrightarrow> drive_safe w \<and> headings_ok w \<and> mystate w = Modestate w \<and> Modestate w \<le> 12 \<and>
     cnt_ok (Modestate w) (time_cntobs w)"

lemma sport_safe_view:
  assumes "obs_view v = obs_view w" "loop_safe v" "bridge_ok v" "sport_safe w"
  shows "sport_safe v"
  using assms(2-4) obs_view_eqD [OF assms(1)] by (simp add: sport_safe_def drive_safe_def headings_ok_def)

lemma more_view:
  fixes v w :: "'a sport_scheme"
  assumes "turns.more v = turns.more w"
  shows "Modestate v = Modestate w" "time_cntobs v = time_cntobs w" "yaw_temprary v = yaw_temprary w"
    "yaw_temprary1 v = yaw_temprary1 w" "yaw_temprary2 v = yaw_temprary2 w"
  using assms by (cases v; cases w; simp)+

lemma brake_keeps: "sport_safe w \<Longrightarrow> sport_safe (Motor_SetCCR 0 0 w)"
  by (rule sport_safe_view [OF Motor_SetCCR_view(1) brake_safe]) (simp_all add: sport_safe_def drive_safe_def)

lemma obs_watch_safe:
  assumes "sport_safe w" "Modestate w = 0"
  shows "sport_safe (obs_watch w)"
proof -
  have s: "drive_safe w" "headings_ok w" "mystate w = 0" "unat (time_cntobs w) \<le> 100" and y: "f32_mag 180 (Yaw w)"
    using assms by (simp_all add: sport_safe_def cnt_ok_def drive_safe_def)
  have c: "unat (time_cntobs w + 1) = unat (time_cntobs w) + 1" using s(4) by (simp add: unat_word_ariths)
  show ?thesis
    using s y heading_bounds(1) [OF y] c assms(2)
    by (auto simp: obs_watch_def goto_def sport_safe_def drive_safe_def headings_ok_def cnt_ok_def Let_def
        loop_safe_def bridge_ok_def pin_high_def word_le_nat_alt)
qed

lemma obs_turn_safe:
  assumes "sport_safe w" "f32_mag 450 (heading w)" "odd (unat (Modestate w))" "Modestate w \<noteq> 11" "next \<le> 10"
  shows "sport_safe (obs_turn heading next w)"
proof -
  have s: "loop_safe w" "trun_ok (Pid_Trun w)" "f32_mag 180 (Yaw w)" "headings_ok w" "mystate w = Modestate w" "Modestate w \<le> 12"
    using assms(1) by (simp_all add: sport_safe_def drive_safe_def)
  note t = Car_Turn_step [OF s(1,2) wrap_yaw_mag [OF assms(2)] s(3)]
  note m = more_view [OF t(5)]
  define v where "v = Yaw_change (heading w) w"
  have v: "loop_safe v" "bridge_ok v" "trun_ok (Pid_Trun v)" "f32_mag 180 (Yaw v)" "mystate v = Modestate v"
    "Modestate v = Modestate w" "headings_ok v"
    using t m s by (simp_all add: v_def Yaw_change_def headings_ok_def)
  have n: "next \<noteq> 12" "next \<le> 12" using assms(5) by (auto simp: word_le_nat_alt)
  have e: "obs_turn heading next w = (if flt (fabsf (fsub (Yaw v) (Target (Pid_Trun v)))) (flit 5)
      then (goto next v)\<lparr>time_cntobs := 0\<rparr> else v\<lparr>time_cntobs := 0\<rparr>)"
    by (simp add: obs_turn_def Let_def v_def)
  show ?thesis
    unfolding e using v n s(6)
    by (auto simp: goto_def sport_safe_def drive_safe_def headings_ok_def cnt_ok_def loop_safe_def bridge_ok_def pin_high_def)
qed

lemma obs_wait_safe:
  assumes "sport_safe w" "Modestate w \<in> {2, 4, 6, 8, 10}"
    "\<And>v. drive_safe v \<Longrightarrow> headings_ok v \<Longrightarrow> unat (time_cntobs v) \<le> 100 \<Longrightarrow> sport_safe (blocked v)"
  shows "sport_safe (obs_wait blocked w)"
proof -
  define v where "v = (Motor_SetCCR 0 0 w)\<lparr>time_cntobs := time_cntobs w + 1\<rparr>"
  note b = brake_keeps [OF assms(1)]
  note o = obs_view_eqD [OF Motor_SetCCR_view(1) [of 0 0 w]]
  have c: "unat (time_cntobs w) \<le> 99" using assms(1,2) by (auto simp: sport_safe_def cnt_ok_def)
  then have c1: "unat (time_cntobs w + 1) = unat (time_cntobs w) + 1" by (simp add: unat_word_ariths)
  have v: "drive_safe v" "headings_ok v" "mystate v = Modestate v" "Modestate v = Modestate w" "Modestate v \<le> 12"
    "unat (time_cntobs v) = unat (time_cntobs w) + 1"
    using b o c1 by (simp_all add: v_def sport_safe_def drive_safe_def headings_ok_def loop_safe_def bridge_ok_def pin_high_def)
  have e: "obs_wait blocked w = (if 100 \<le> time_cntobs v then if 400 < Distance (vl53 v) then goto 11 v else blocked v else v)"
    using o(3) by (simp add: obs_wait_def Let_def v_def)
  have "sport_safe (goto 11 v)"
    using v c by (simp add: goto_def sport_safe_def drive_safe_def headings_ok_def cnt_ok_def loop_safe_def bridge_ok_def pin_high_def)
  moreover have "sport_safe (blocked v)" using assms(3) [OF v(1,2)] v(6) c by simp
  moreover have "sport_safe v" if "\<not> 100 \<le> time_cntobs v"
    using v that by (simp add: sport_safe_def cnt_ok_def word_le_nat_alt)
  ultimately show ?thesis by (simp add: e)
qed

lemma obs_drive_safe:
  assumes "sport_safe w" "Modestate w = 12"
  shows "sport_safe (obs_drive w)"
proof -
  define v where "v = w\<lparr>Milleage := fdiv (fadd (Milleage1 w) (Milleage2 w)) (f32_of_int 2)\<rparr>"
  have v: "loop_safe v" "trun_ok (Pid_Trun v)" "f32_mag 180 (Yaw v)" "bridge_ok v" "f32_mag 180 (yaw_temprary v)"
    "headings_ok v" "mystate v = 12" "Modestate v = 12" "cnt_ok 12 (time_cntobs v)"
    using assms by (simp_all add: v_def sport_safe_def drive_safe_def headings_ok_def loop_safe_def bridge_ok_def pin_high_def)
  have "sport_safe (Car_Goline (yaw_temprary v) 600 v)"
  proof -
    note t = Car_Goline_step [OF v(1,2,5,3), of 600]
    note m = more_view [OF t(4)]
    show ?thesis using t m v by (simp add: sport_safe_def drive_safe_def headings_ok_def)
  qed
  moreover have "sport_safe (goto 0 ((Motor_SetCCR 0 0 v)\<lparr>time_cntobs := 0\<rparr>))"
  proof -
    have "sport_safe v" using v by (simp add: sport_safe_def drive_safe_def)
    from brake_keeps [OF this] show ?thesis
      by (simp add: goto_def sport_safe_def drive_safe_def headings_ok_def cnt_ok_def loop_safe_def bridge_ok_def pin_high_def)
  qed
  ultimately show ?thesis by (simp add: obs_drive_def Let_def flip: v_def)
qed

text \<open>Leaving a waiting state blocked: a new heading, the next turn.\<close>

lemma goto_safe:
  assumes "drive_safe w" "headings_ok w" "unat (time_cntobs w) \<le> 100" "s \<in> {0, 3, 5, 7, 9}"
  shows "sport_safe (goto s w)"
  using assms by (auto simp: goto_def sport_safe_def drive_safe_def headings_ok_def cnt_ok_def loop_safe_def
      bridge_ok_def pin_high_def)

lemma new_heading:
  assumes "drive_safe w" "headings_ok w" "f32_mag 450 y"
  shows "drive_safe (w\<lparr>yaw_temprary1 := y\<rparr>) \<and> headings_ok (w\<lparr>yaw_temprary1 := y\<rparr>)"
    "drive_safe (w\<lparr>yaw_temprary2 := y\<rparr>) \<and> headings_ok (w\<lparr>yaw_temprary2 := y\<rparr>)"
  using assms by (simp_all add: drive_safe_def headings_ok_def loop_safe_def bridge_ok_def pin_high_def)

lemma blocked_safe:
  assumes "drive_safe w" "headings_ok w" "unat (time_cntobs w) \<le> 100" "s \<in> {0, 3, 5, 7, 9}"
  shows "sport_safe (goto s (w\<lparr>yaw_temprary1 := fadd (yaw_temprary w) (Fin 60)\<rparr>))"
    "sport_safe (goto s (w\<lparr>yaw_temprary1 := fadd (yaw_temprary w) (Fin 90)\<rparr>))"
    "sport_safe (goto s (w\<lparr>yaw_temprary2 := fsub (yaw_temprary w) (Fin 60)\<rparr>))"
    "sport_safe (goto s (w\<lparr>yaw_temprary2 := fsub (yaw_temprary w) (Fin 90)\<rparr>))"
proof -
  have y: "f32_in (- 180) 360 (yaw_temprary w)" using assms(2) by (simp add: headings_ok_def)
  show "sport_safe (goto s (w\<lparr>yaw_temprary1 := fadd (yaw_temprary w) (Fin 60)\<rparr>))"
    "sport_safe (goto s (w\<lparr>yaw_temprary1 := fadd (yaw_temprary w) (Fin 90)\<rparr>))"
    "sport_safe (goto s (w\<lparr>yaw_temprary2 := fsub (yaw_temprary w) (Fin 60)\<rparr>))"
    "sport_safe (goto s (w\<lparr>yaw_temprary2 := fsub (yaw_temprary w) (Fin 90)\<rparr>))"
    by (rule goto_safe; use new_heading [OF assms(1,2)] heading_bounds [OF _] y assms(3,4) heading_bounds(2-5) [OF y] in simp)+
qed

lemma obs_machine_safe:
  assumes "sport_safe w" shows "sport_safe (obs_machine w)"
proof -
  have h: "f32_mag 450 (yaw_temprary w)" "f32_mag 450 (yaw_temprary1 w)" "f32_mag 450 (yaw_temprary2 w)"
    and y: "f32_mag 180 (Yaw w)"
    using assms by (auto simp: sport_safe_def headings_ok_def drive_safe_def elim: f32_in_mono)
  have g: "sport_safe (goto 12 (w\<lparr>Milleage1 := f32_of_int 0, Milleage2 := f32_of_int 0, yaw_temprary := Yaw w\<rparr>))"
    if "Modestate w = 11"
    using assms y that f32_in_mono [OF y, of "- 180" 360]
    by (simp add: goto_def sport_safe_def drive_safe_def headings_ok_def cnt_ok_def loop_safe_def bridge_ok_def pin_high_def)
  note wait = obs_wait_safe [OF assms] and turn = obs_turn_safe [OF assms]
  show ?thesis
    using obs_watch_safe [OF assms] obs_drive_safe [OF assms] g assms h
    unfolding obs_machine_def sport_lits
    by (auto intro!: wait turn blocked_safe simp: word_le_nat_alt)
qed

lemma stop_if_safe: "sport_safe w \<Longrightarrow> sport_safe (if b then Motor_SetCCR 0 0 w else w)"
  by (simp add: brake_keeps)

lemma Finding_obs_safe: "sport_safe w \<Longrightarrow> sport_safe (Finding_obs w)"
  unfolding Finding_obs_def Let_def by (intro stop_if_safe) (simp add: obs_machine_safe)

lemma stepper_safe: "sport_safe w \<Longrightarrow> sport_safe (stepper f w)"
  by (rule sport_safe_view [OF stepper_keeps(1)]) (simp_all add: stepper_keeps sport_safe_def drive_safe_def)

text \<open>Fields the invariant does not look at.\<close>

lemma sport_safe_fields [simp]:
  "sport_safe (w\<lparr>leaf_time_cnt := c\<rparr>) = sport_safe w" "sport_safe (w\<lparr>Plantleaf_insflag := f\<rparr>) = sport_safe w"
  "sport_safe (w\<lparr>Modestate_light := l\<rparr>) = sport_safe w" "sport_safe (w\<lparr>starttime_cnt := t\<rparr>) = sport_safe w"
  "sport_safe (w\<lparr>Milleage1_flag := f1, Milleage2_flag := f2\<rparr>) = sport_safe w"
  "sport_safe (w\<lparr>Modestate_light := l, Milleage1_flag := f1, Milleage2_flag := f2\<rparr>) = sport_safe w"
  by (simp_all add: sport_safe_def drive_safe_def headings_ok_def loop_safe_def bridge_ok_def pin_high_def)

lemma Plantleaf_ins_safe: "sport_safe w \<Longrightarrow> sport_safe (Plantleaf_ins w)"
  by (simp add: Plantleaf_ins_def Let_def stepper_safe)

lemma accelerate_safe:
  assumes "sport_safe w"
  shows "sport_safe (Motor_PidTarget_Acce (f32_of_int 300) (f32_of_int (- 300)) (stepper f w))"
proof -
  define v where "v = stepper f w"
  have v: "sport_safe v" unfolding v_def by (rule stepper_safe [OF assms])
  then have l: "loop_safe v" by (simp add: sport_safe_def drive_safe_def)
  have "sport_safe (Motor_PidTarget_Acce (Fin 300) (Fin (- 300)) v)"
    by (rule sport_safe_view [OF Acce_view Acce_safe [OF l] v]) simp_all
  then show ?thesis by (simp add: v_def)
qed

lemma Finding_light_safe: "sport_safe w \<Longrightarrow> sport_safe (Finding_light w)"
  unfolding Finding_light_def Let_def
  by (intro stop_if_safe) (auto simp: accelerate_safe brake_keeps stepper_safe simp del: sport_lits)

lemma MaixCam_Sport_safe: "sport_safe w \<Longrightarrow> sport_safe (MaixCam_Sport w)"
  unfolding MaixCam_Sport_def Let_def by (auto simp: Plantleaf_ins_safe Finding_light_safe Finding_obs_safe)

subsection \<open>Any run of the machine\<close>

text \<open>
  Between two ticks the other threads may set every reading and flag the machine looks at: the
  yaw within half a turn (what the attitude sensor can send), the distance, the mode flags of the
  host and the camera. The encoders are sampled with any count.
\<close>

inductive sport_step :: "sport \<Rightarrow> sport \<Rightarrow> bool" where
  readings: "f32_mag 180 y \<Longrightarrow> sport_step w (w\<lparr>Yaw := y, vl53 := d, Motor_flag := m, MaixMode_flag := x,
    finding_flag := f, Modestate_light := l, starttime_cnt := c, Plantleaf_insflag := i\<rparr>)"
| encoder1: "sport_step w (sample_encoder1 (HAL_TIM_SET_COUNTER TIM4 n w))"
| encoder2: "sport_step w (sample_encoder2 (HAL_TIM_SET_COUNTER TIM3 n w))"
| tick: "sport_step w (MaixCam_Sport w)"

inductive_cases sport_stepE: "sport_step w w'"

lemma sport_safe_encoders:
  assumes "sport_safe w"
  shows "sport_safe (sample_encoder1 (HAL_TIM_SET_COUNTER TIM4 n w))"
    "sport_safe (sample_encoder2 (HAL_TIM_SET_COUNTER TIM3 n w))"
proof -
  have l: "loop_safe (HAL_TIM_SET_COUNTER t n w)" "bridge_ok (HAL_TIM_SET_COUNTER t n w)" for t
    using assms by (simp_all add: loop_safe_cnt bridge_ok_cnt sport_safe_def drive_safe_def)
  have v: "obs_view (sample_encoder1 (HAL_TIM_SET_COUNTER TIM4 n w)) = obs_view w"
    "obs_view (sample_encoder2 (HAL_TIM_SET_COUNTER TIM3 n w)) = obs_view w"
    by (simp_all add: sample_encoder1_eq sample_encoder2_eq HAL_TIM_SET_COUNTER_def obs_view_def)
  show "sport_safe (sample_encoder1 (HAL_TIM_SET_COUNTER TIM4 n w))"
    by (rule sport_safe_view [OF v(1)]) (use sample_encoder_safe(1) [OF l] assms in auto)
  show "sport_safe (sample_encoder2 (HAL_TIM_SET_COUNTER TIM3 n w))"
    by (rule sport_safe_view [OF v(2)]) (use sample_encoder_safe(2) [OF l] assms in auto)
qed

lemma sport_step_safe:
  assumes "sport_step w w'" "sport_safe w" shows "sport_safe w'"
  using assms
proof cases
  case (readings y d m x f l c i)
  then show ?thesis using assms(2)
    by (simp add: sport_safe_def drive_safe_def headings_ok_def loop_safe_def bridge_ok_def pin_high_def)
qed (simp_all add: sport_safe_encoders MaixCam_Sport_safe assms(2))

definition sport_ready :: sport where
  "sport_ready = PID_Init (PWM_Init sport0)"

lemma sport_ready_safe: "sport_safe sport_ready"
  by (simp add: sport_ready_def sport_safe_def drive_safe_def headings_ok_def cnt_ok_def loop_safe_def bridge_ok_def
      trun_ok_def PID_Init_def PWM_Init_def Let_def sport0_def sport_fields0_def sport.defs voice0_def voice_fields0_def
      voice.defs senders0_def senders_fields0_def senders.defs soft0_def soft_fields0_def soft.defs comm0_def
      comm_fields0_def comm.defs turns0_def turns.defs motors0_def pid_safe_def
      pid_init_def f32_in_round motors.defs encoders0_def encoders.defs globals0_def globals.defs
      hw0_def hw.defs pin_high_def AIN_SET_def BIN_SET_def HAL_GPIO_WritePin_def GPIO_PIN_def
      bit_simps HAL_TIM_SET_COMPARE_def hal_calls_def hal_def)

text \<open>
  C4 (invariant). From power-up on, through any interleaving of ticks with arbitrary readings,
  commands of the host, camera messages and wheel counts: the avoidance machine stays in its
  thirteen states and shows its state in \<^verbatim>\<open>mystate\<close>, its tick counter stays at most 101, the duty
  of both wheels stays within the period, no bridge has both inputs high or both low, and the sum
  of the turning controller, which nobody resets, stays finite.
\<close>

theorem sport_always_safe:
  assumes "sport_step\<^sup>*\<^sup>* sport_ready w"
  shows "Modestate w \<le> 12 \<and> mystate w = Modestate w \<and> unat (time_cntobs w) \<le> 101 \<and>
    CCR w (TIM12, 1) \<le> 4199 \<and> CCR w (TIM12, 2) \<le> 4199 \<and>
    pin_high w GPIOE 7 \<noteq> pin_high w GPIOE 8 \<and> pin_high w GPIOE 12 \<noteq> pin_high w GPIOE 10 \<and>
    f32_mag (2 ^ 33) (Error_Sum (Pid_Trun w))"
proof -
  from assms have "sport_safe w"
    by (induction rule: rtranclp_induct) (auto intro: sport_ready_safe sport_step_safe)
  then show ?thesis
    by (auto simp: sport_safe_def drive_safe_def bridge_ok_def trun_ok_def cnt_ok_def split: if_splits)
qed

theorem sport_always_safe_witness:
  "Modestate (MaixCam_Sport sport_ready) \<le> 12 \<and> mystate (MaixCam_Sport sport_ready) = Modestate (MaixCam_Sport sport_ready) \<and>
    unat (time_cntobs (MaixCam_Sport sport_ready)) \<le> 101 \<and>
    CCR (MaixCam_Sport sport_ready) (TIM12, 1) \<le> 4199 \<and> CCR (MaixCam_Sport sport_ready) (TIM12, 2) \<le> 4199 \<and>
    pin_high (MaixCam_Sport sport_ready) GPIOE 7 \<noteq> pin_high (MaixCam_Sport sport_ready) GPIOE 8 \<and>
    pin_high (MaixCam_Sport sport_ready) GPIOE 12 \<noteq> pin_high (MaixCam_Sport sport_ready) GPIOE 10 \<and>
    f32_mag (2 ^ 33) (Error_Sum (Pid_Trun (MaixCam_Sport sport_ready)))"
  by (rule sport_always_safe) (rule r_into_rtranclp, rule sport_step.tick)

end
