(* ===== verification/Sport_Behaviour.thy ===== *)
theory Sport_Behaviour
  imports Sport_Invariant
begin

text \<open>
  What the motion modes do: when the avoidance starts, what the leaf inspection sends to the
  stepper motors, how the search for light ends, and when the host's stop command is heard.
\<close>

subsection \<open>The avoidance starts after half a second\<close>

lemma obs_watch_count:
  assumes "Modestate w = 0" "Motor_flag w = 1" "Distance (vl53 w) \<le> 400" "time_cntobs w = of_nat k" "k < 50"
  shows "Finding_obs w = (if k < 49 then w\<lparr>time_cntobs := of_nat (Suc k)\<rparr>
    else goto 1 (w\<lparr>time_cntobs := 50, yaw_temprary := fadd (Yaw w) (Fin 180)\<rparr>))"
proof -
  have u: "unat (of_nat k :: u16) = k" "unat (of_nat (Suc k) :: u16) = Suc k"
    using assms(5) by (simp_all add: unat_of_nat take_bit_nat_def del: of_nat_Suc)
  have d: "\<not> 400 < Distance (vl53 w)" using assms(3) by simp
  have c: "50 \<le> (of_nat (Suc k) :: u16) \<longleftrightarrow> \<not> k < 49" using u(2) by (auto simp: word_le_nat_alt simp del: of_nat_Suc)
  have t: "time_cntobs w + 1 = of_nat (Suc k)" by (simp add: assms(4))
  have o: "obs_watch w = (if k < 49 then w\<lparr>time_cntobs := of_nat (Suc k)\<rparr>
      else goto 1 (w\<lparr>time_cntobs := of_nat (Suc k), yaw_temprary := fadd (Yaw w) (Fin 180)\<rparr>))"
    using d c t assms(3) by (simp add: obs_watch_def Let_def del: of_nat_Suc)
  have f: "Finding_obs w = obs_watch w"
  proof -
    have "Motor_flag (obs_watch w) = 1"
      using assms(2) by (simp add: obs_watch_def goto_def Let_def)
    then show ?thesis using assms(1,2) by (simp add: Finding_obs_def obs_machine_def Let_def)
  qed
  show ?thesis
  proof (cases "k < 49")
    case True
    then show ?thesis by (simp add: f o del: of_nat_Suc)
  next
    case False
    then have "k = 49" using assms(5) by simp
    then show ?thesis by (simp add: f o)
  qed
qed

text \<open>
  C20 (liveness). The avoidance starts when the distance has been at most 400 for exactly 50 ticks
  (half a second): before, the machine waits in state 0, counting, and touches nothing else; the
  50th tick sets the new heading half a turn away and goes to state 1. A distance of 0, which is
  what the firmware holds until the sensor has sent its first frame, counts as an obstacle.
\<close>

theorem avoidance_starts_after_50:
  assumes "Modestate w = 0" "Motor_flag w = 1" "Distance (vl53 w) \<le> 400" "time_cntobs w = 0" "n \<le> 50"
  shows "(Finding_obs ^^ n) w = (if n < 50 then w\<lparr>time_cntobs := of_nat n\<rparr>
    else goto 1 (w\<lparr>time_cntobs := 50, yaw_temprary := fadd (Yaw w) (Fin 180)\<rparr>))"
  using assms(5)
proof (induction n)
  case 0
  then show ?case using assms(4) by (simp flip: assms(4))
next
  case (Suc n)
  then have e: "(Finding_obs ^^ n) w = w\<lparr>time_cntobs := of_nat n\<rparr>" "n < 50" by simp_all
  have "(Finding_obs ^^ Suc n) w = Finding_obs (w\<lparr>time_cntobs := of_nat n\<rparr>)" by (simp add: e(1))
  also have "\<dots> = (if n < 49 then (w\<lparr>time_cntobs := of_nat n\<rparr>)\<lparr>time_cntobs := of_nat (Suc n)\<rparr>
    else goto 1 ((w\<lparr>time_cntobs := of_nat n\<rparr>)\<lparr>time_cntobs := 50, yaw_temprary := fadd (Yaw w) (Fin 180)\<rparr>))"
    using obs_watch_count [of "w\<lparr>time_cntobs := of_nat n\<rparr>" n] assms e(2) by simp
  finally show ?case using Suc.prems by (auto simp del: of_nat_Suc)
qed

lemma sport_ready_fields:
  "Modestate sport_ready = 0" "Motor_flag sport_ready = 1" "Distance (vl53 sport_ready) = 0" "time_cntobs sport_ready = 0"
  "Yaw sport_ready = Fin 0" "leaf_time_cnt sport_ready = 0" "Plantleaf_insflag sport_ready = 1"
  by (simp_all add: sport_ready_def PID_Init_def PWM_Init_def Let_def sport0_def sport_fields0_def sport.defs voice0_def
      voice_fields0_def voice.defs senders0_def senders_fields0_def senders.defs soft0_def soft_fields0_def soft.defs
      comm0_def comm_fields0_def comm.defs turns0_def turns.defs motors0_def motors.defs encoders0_def encoders.defs
      globals0_def globals.defs hw0_def hw.defs AIN_SET_def BIN_SET_def HAL_GPIO_WritePin_def
      HAL_TIM_SET_COMPARE_def hal_calls_def hal_def vl53_init_def)

theorem avoidance_starts_after_50_witness:
  "Modestate ((Finding_obs ^^ 50) sport_ready) = 1 \<and> yaw_temprary ((Finding_obs ^^ 50) sport_ready) = Fin 180"
proof -
  have "fadd (Fin 0) (Fin 180) = Fin 180" by (simp add: f32_round_rep)
  then show ?thesis using avoidance_starts_after_50 [of sport_ready 50] sport_ready_fields by (simp add: goto_def)
qed

subsection \<open>The stop command\<close>

text \<open>Both wheels without drive.\<close>

definition standing :: "'a hw_scheme \<Rightarrow> bool" where
  "standing w \<longleftrightarrow> CCR w (TIM12, 1) = 0 \<and> CCR w (TIM12, 2) = 0"

lemma brake_standing: "standing (Motor_SetCCR 0 0 w)"
  using Motor_SetCCR_bridge [of 0 0 w] by (simp add: standing_def bridge_is_def duty_def)

text \<open>
  C21 (safety). In the inspection mode the stop command takes effect on the same tick: with
  \<^verbatim>\<open>Motor_flag\<close> at 0 both wheels are without drive after \<^verbatim>\<open>MaixCam_Sport\<close>, whatever the state of the
  avoidance, which keeps its state.
\<close>

theorem stop_command_stops:
  assumes "MaixMode_flag w = 1" "Motor_flag w = 0"
  shows "standing (MaixCam_Sport w) \<and> Modestate (MaixCam_Sport w) = Modestate w"
proof -
  define v where "v = w\<lparr>starttime_cnt := starttime_cnt w + 1\<rparr>"
  define u where "u = (if 300 \<le> starttime_cnt v then Plantleaf_ins v else v)"
  have m: "MaixMode_flag u = 1 \<and> Motor_flag u = 0 \<and> Modestate u = Modestate w"
  proof -
    have "MaixMode_flag (stepper f x) = MaixMode_flag x \<and> Motor_flag (stepper f x) = Motor_flag x \<and>
        Modestate (stepper f x) = Modestate x" for f and x :: "'a sport_scheme"
      by (cases "f (rtos x, usart3_dev x)") (simp add: stepper_def)
    then show ?thesis using assms by (simp add: u_def v_def Plantleaf_ins_def Let_def)
  qed
  have k: "MaixMode_flag (Motor_SetCCR 0 0 u) = MaixMode_flag u" "Modestate (Motor_SetCCR 0 0 u) = Modestate u"
  proof -
    obtain o1 c l b where f: "Motor_SetCCR 0 0 u = u\<lparr>ODR := o1, CCR := c, hal_log := l, motor_pwm_inited := b\<rparr>"
      by (rule Motor_SetCCR_frame)
    show "MaixMode_flag (Motor_SetCCR 0 0 u) = MaixMode_flag u" "Modestate (Motor_SetCCR 0 0 u) = Modestate u"
      by (simp_all add: f)
  qed
  have "MaixCam_Sport w = Motor_SetCCR 0 0 u"
    using assms m k by (simp add: MaixCam_Sport_def Let_def Finding_obs_def flip: v_def u_def)
  then show ?thesis using brake_standing [of u] k(2) m by simp
qed

theorem stop_command_stops_witness:
  "standing (MaixCam_Sport (sport_ready\<lparr>MaixMode_flag := 1, Motor_flag := 0\<rparr>)) \<and>
   Modestate (MaixCam_Sport (sport_ready\<lparr>MaixMode_flag := 1, Motor_flag := 0\<rparr>)) = 0"
  using stop_command_stops [of "sport_ready\<lparr>MaixMode_flag := 1, Motor_flag := 0\<rparr>"] sport_ready_fields by simp

text \<open>
  In the light mode it is not heard for up to three seconds: until \<^verbatim>\<open>starttime_cnt\<close>,
  which the host's mode command resets, reaches 300, a tick only counts, so a car that was driving
  when the mode was switched drives on with the same duty, stop command or not.
\<close>

theorem mode_switch_ignores_stop:
  assumes "MaixMode_flag w = 2" "Modestate_light w \<noteq> 5" "unat (starttime_cnt w) + n < 300"
  shows "(MaixCam_Sport ^^ n) w = w\<lparr>starttime_cnt := starttime_cnt w + of_nat n\<rparr>"
  using assms(3)
proof (induction n)
  case (Suc n)
  have u: "unat (starttime_cnt w + of_nat n + 1) = unat (starttime_cnt w) + n + 1"
    using Suc.prems by (simp add: unat_word_ariths unat_of_nat take_bit_nat_def)
  have "(MaixCam_Sport ^^ Suc n) w = MaixCam_Sport (w\<lparr>starttime_cnt := starttime_cnt w + of_nat n\<rparr>)"
    using Suc by simp
  also have "\<dots> = w\<lparr>starttime_cnt := starttime_cnt w + of_nat n + 1\<rparr>"
    using assms(1,2) u Suc.prems by (simp add: MaixCam_Sport_def Let_def word_le_nat_alt)
  finally show ?case by (simp add: ac_simps)
qed simp

theorem mode_switch_ignores_stop_witness:
  fixes v defines "v \<equiv> (Motor_SetCCR 2000 2000 sport_ready)\<lparr>MaixMode_flag := 2, Motor_flag := 0, starttime_cnt := 0, Modestate_light := 1\<rparr>"
  shows "CCR ((MaixCam_Sport ^^ 299) v) (TIM12, 1) = 2000"
proof -
  have "CCR v (TIM12, 1) = 2000"
    using Motor_SetCCR_bridge [of 2000 2000 sport_ready] by (simp add: v_def bridge_is_def duty_def)
  moreover have "(MaixCam_Sport ^^ 299) v = v\<lparr>starttime_cnt := starttime_cnt v + of_nat 299\<rparr>"
    by (rule mode_switch_ignores_stop) (simp_all add: v_def)
  ultimately show ?thesis by simp
qed

subsection \<open>Inspecting the leaves\<close>

definition look_up :: emm where "look_up = Pos_Control 1 100 0 (ucast (pitch_clk (Fin 30))) True False"
definition circle :: "u8 \<Rightarrow> emm" where "circle dir = Pos_Control dir 100 0 3200 False False"

lemma leaf_commands:
  "BuJinMotor_PitchView 2 1 100 (Fin 30) = emm_send 2 look_up"
  "BuJinMotor_Circle 1 d 100 1 = emm_send 1 (circle d)"
  by (simp_all add: BuJinMotor_PitchView_def BuJinMotor_Circle_def look_up_def circle_def)

text \<open>What has been sent after \<open>n\<close> ticks.\<close>

definition leaf_sent :: "nat \<Rightarrow> bytes" where
  "leaf_sent n = (if 1 \<le> n then emm_frame 2 look_up else []) @ (if 200 \<le> n then emm_frame 1 (circle 1) else []) @
     (if 900 \<le> n then emm_frame 1 (circle 0) else [])"

lemma leaf_tick:
  assumes "lines_ready w" "Plantleaf_insflag w = 1" "leaf_time_cnt w = of_nat k" "k < 900"
  shows "lines_ready (Plantleaf_ins w)" "leaf_time_cnt (Plantleaf_ins w) = of_nat (Suc k)"
    "Plantleaf_insflag (Plantleaf_ins w) = (if Suc k = 900 then 0 else 1)"
    "sent ''uart3'' (Plantleaf_ins w) = sent ''uart3'' w @ (if Suc k = 1 then emm_frame 2 look_up
       else if Suc k = 200 then emm_frame 1 (circle 1) else if Suc k = 900 then emm_frame 1 (circle 0) else [])"
proof -
  define v where "v = w\<lparr>leaf_time_cnt := of_nat (Suc k)\<rparr>"
  have v: "lines_ready v" "rtos v = rtos w" "leaf_time_cnt v = of_nat (Suc k)" "Plantleaf_insflag v = 1"
    using assms by (simp_all add: v_def lines_ready_def)
  have c: "leaf_time_cnt v = of_nat m \<longleftrightarrow> Suc k = m" if "m \<le> 900" for m
  proof -
    have "(of_nat (Suc k) :: u16) = of_nat m \<longleftrightarrow> Suc k = m"
      using assms(4) that by (subst word_of_nat_eq_iff) (simp add: take_bit_nat_def)
    then show ?thesis using v(3) by simp
  qed
  have c': "leaf_time_cnt v = 1 \<longleftrightarrow> Suc k = 1" "leaf_time_cnt v = 200 \<longleftrightarrow> Suc k = 200" "leaf_time_cnt v = 900 \<longleftrightarrow> Suc k = 900"
    using c [of 1] c [of 200] c [of 900] by simp_all
  have e: "Plantleaf_ins w = (if Suc k = 1 then stepper (emm_send 2 look_up) v
      else if Suc k = 200 then stepper (emm_send 1 (circle 1)) v
      else if Suc k = 900 then (stepper (emm_send 1 (circle 0)) v)\<lparr>Plantleaf_insflag := 0\<rparr> else v)"
  proof -
    have "w\<lparr>leaf_time_cnt := leaf_time_cnt w + 1\<rparr> = v" by (simp add: v_def assms(3))
    then show ?thesis using assms(2) by (simp only: Plantleaf_ins_def Let_def c' leaf_commands if_True simp_thms)
  qed
  have f: "leaf_time_cnt (stepper (emm_send a x) v) = leaf_time_cnt v \<and> Plantleaf_insflag (stepper (emm_send a x) v) = 1 \<and>
      lines_ready (stepper (emm_send a x) v) \<and> sent ''uart3'' (stepper (emm_send a x) v) = sent ''uart3'' w @ emm_frame a x" for a x
    by (rule stepper_ready [OF v(1), of a x]) (use v in simp)
  show "lines_ready (Plantleaf_ins w)" "leaf_time_cnt (Plantleaf_ins w) = of_nat (Suc k)"
    "Plantleaf_insflag (Plantleaf_ins w) = (if Suc k = 900 then 0 else 1)"
    "sent ''uart3'' (Plantleaf_ins w) = sent ''uart3'' w @ (if Suc k = 1 then emm_frame 2 look_up
       else if Suc k = 200 then emm_frame 1 (circle 1) else if Suc k = 900 then emm_frame 1 (circle 0) else [])"
    unfolding e using f v by (auto simp: lines_ready_def simp del: of_nat_Suc)
qed

text \<open>
  C22 (liveness). A leaf inspection is three stepper commands: look up at once, one turn of the
  base after two seconds, the same turn back after nine, so the base ends where it began; then the
  request flag is cleared. Nothing else goes to the motors in these 900 ticks.
\<close>

theorem leaf_inspection:
  assumes "lines_ready w" "Plantleaf_insflag w = 1" "leaf_time_cnt w = 0" "n \<le> 900"
  shows "lines_ready ((Plantleaf_ins ^^ n) w) \<and> leaf_time_cnt ((Plantleaf_ins ^^ n) w) = of_nat n \<and>
    Plantleaf_insflag ((Plantleaf_ins ^^ n) w) = (if n < 900 then 1 else 0) \<and>
    sent ''uart3'' ((Plantleaf_ins ^^ n) w) = sent ''uart3'' w @ leaf_sent n"
  using assms(4)
proof (induction n)
  case 0
  then show ?case using assms by (simp add: leaf_sent_def)
next
  case (Suc n)
  define v where "v = (Plantleaf_ins ^^ n) w"
  have v: "lines_ready v" "leaf_time_cnt v = of_nat n" "Plantleaf_insflag v = 1"
    "sent ''uart3'' v = sent ''uart3'' w @ leaf_sent n" "n < 900"
    using Suc by (simp_all add: v_def)
  note t = leaf_tick [OF v(1,3,2,5)]
  have "leaf_sent (Suc n) = leaf_sent n @ (if Suc n = 1 then emm_frame 2 look_up
       else if Suc n = 200 then emm_frame 1 (circle 1) else if Suc n = 900 then emm_frame 1 (circle 0) else [])"
    by (auto simp: leaf_sent_def)
  then show ?case using t v(4) Suc.prems by (simp add: v_def [symmetric] del: of_nat_Suc)
qed

lemma lines_ready_sport0: "lines_ready sport0"
  using lines_ready_comm0
  by (simp add: sport0_def sport_fields0_def sport.defs voice0_def voice_fields0_def voice.defs senders0_def
      senders_fields0_def senders.defs soft0_def soft_fields0_def soft.defs lines_ready_def comm0_def comm_fields0_def
      comm.defs)

theorem leaf_inspection_witness:
  "leaf_time_cnt ((Plantleaf_ins ^^ 900) sport0) = 900 \<and> Plantleaf_insflag ((Plantleaf_ins ^^ 900) sport0) = 0 \<and>
   sent ''uart3'' ((Plantleaf_ins ^^ 900) sport0) =
     [0x02, 0xFD, 1, 0, 100, 0] @ be32 (ucast (pitch_clk (Fin 30))) @ [1, 0, 0x6B] @
     [0x01, 0xFD, 1, 0, 100, 0, 0, 0, 0x0C, 0x80, 0, 0, 0x6B] @ [0x01, 0xFD, 0, 0, 100, 0, 0, 0, 0x0C, 0x80, 0, 0, 0x6B]"
proof -
  have s: "Plantleaf_insflag sport0 = 1" "leaf_time_cnt sport0 = 0" "sent ''uart3'' sport0 = []"
    by (simp_all add: sport0_def sport_fields0_def sport.defs voice0_def
      voice_fields0_def voice.defs senders0_def senders_fields0_def senders.defs soft0_def soft_fields0_def soft.defs
      comm0_def comm_fields0_def comm.defs turns0_def turns.defs motors0_def motors.defs encoders0_def encoders.defs
      globals0_def globals.defs hw0_def hw.defs)
  have b: "be16 100 = [0, 100]" "be32 3200 = [0, 0, 0x0C, 0x80]" by (simp_all add: be16_def be32_def byte_at_def)
  show ?thesis
    using leaf_inspection [OF lines_ready_sport0 s(1,2), of 900] s(3)
    by (simp add: leaf_sent_def emm_frame_def look_up_def circle_def b)
qed

subsection \<open>The search for light\<close>

text \<open>
  C23 (liveness). Once the camera has reported the light, three ticks of the search end it: the
  wheels stand and the mode is 5, from which the avoidance takes over.
\<close>

theorem light_found_stops:
  assumes "Motor_flag w = 1" "Modestate_light w = 2" "finding_flag w = 1"
  shows "standing ((Finding_light ^^ 3) w) \<and> Modestate_light ((Finding_light ^^ 3) w) = 5"
proof -
  have 1: "Finding_light w = w\<lparr>Modestate_light := 3\<rparr>"
    using assms by (simp add: Finding_light_def Let_def)
  have 2: "Finding_light (w\<lparr>Modestate_light := 3\<rparr>) = w\<lparr>Modestate_light := 4\<rparr>"
    using assms by (simp add: Finding_light_def Let_def)
  define v where "v = stepper (BuJinMotor_PitchView 2 0 100 (Fin 0)) (w\<lparr>Modestate_light := 4\<rparr>)"
  have v: "Motor_flag v = 1"
    using assms(1) by (cases "BuJinMotor_PitchView 2 0 100 (Fin 0) (rtos w, usart3_dev w)") (simp add: v_def stepper_def)
  have m: "Motor_flag (Motor_SetCCR 0 0 v) = 1"
  proof -
    obtain o1 c l b where f: "Motor_SetCCR 0 0 v = v\<lparr>ODR := o1, CCR := c, hal_log := l, motor_pwm_inited := b\<rparr>"
      by (rule Motor_SetCCR_frame)
    show ?thesis using v by (simp add: f)
  qed
  have 3: "Finding_light (w\<lparr>Modestate_light := 4\<rparr>) = (Motor_SetCCR 0 0 v)\<lparr>Modestate_light := 5\<rparr>"
    using assms m by (simp add: Finding_light_def Let_def flip: v_def)
  have "(Finding_light ^^ 3) w = (Motor_SetCCR 0 0 v)\<lparr>Modestate_light := 5\<rparr>"
    by (simp add: numeral_3_eq_3 1 2 3)
  then show ?thesis using brake_standing [of v] by (simp add: standing_def)
qed

theorem light_found_stops_witness:
  "standing ((Finding_light ^^ 3) (sport_ready\<lparr>Modestate_light := 2, finding_flag := 1\<rparr>)) \<and>
   Modestate_light ((Finding_light ^^ 3) (sport_ready\<lparr>Modestate_light := 2, finding_flag := 1\<rparr>)) = 5"
  by (rule light_found_stops) (simp_all add: sport_ready_fields)

end
