(* ===== verification/Schedule.thy ===== *)
theory Schedule
  imports Display Sport_Behaviour
begin

text \<open>
  The whole firmware in motion: \<^verbatim>\<open>Software/rt_schedule.c\<close>, the thread that runs every module each ten
  milliseconds, and \<^verbatim>\<open>main\<close> of \<^verbatim>\<open>applications/main.c\<close>, which starts the modules and then refreshes
  the display. The result is \<open>None\<close> when some array is overrun.

  The threads and the interrupt interleave in steps: one turn of the schedule, one refresh of the
  display, one turn of the buzzer, one edge of the sensor's line, one change of the inputs.
\<close>

record schedule = oled +
  sched_cnt :: u16
  schedule_thread :: "string option"

definition schedule0 :: schedule where
  "schedule0 = oled.extend oled0 (schedule.fields 0 None)"

subsection \<open>The schedule\<close>

text \<open>The modules of a turn, in the order of the loop body: first the ten millisecond chain.\<close>

definition schedule_tasks :: "'a schedule_scheme \<Rightarrow> 'a schedule_scheme option" where
  "schedule_tasks w = (let
     w = sample_encoder1 w;
     w = sample_encoder2 w;
     w = SendData_to_PlantSoft w
   in Option.bind (My_GetActual MY_YAW w) (\<lambda>w. let
     w = Maixcam_SetMode (MaixMode_flag w) w;
     w = LightContral (lightONOFF_flag w) w;
     w = water_auto (Soil_AlarmFlag w) (Water_flag w) w;
     w = Check_vioce w;
     w = MaixCam_Sport w
   in Some (DHT11_Task10ms w)))"

text \<open>Then the samples and the values on display.\<close>

definition schedule_readings :: "(f32 \<Rightarrow> f32 \<Rightarrow> f32) \<Rightarrow> 'a schedule_scheme \<Rightarrow> 'a schedule_scheme" where
  "schedule_readings powf w = (let
     (x, w) = Soil_GetData_Percent w;
     w = w\<lparr>OLED_SoilPercent := x\<rparr>;
     w = Soil_UpdateAlarmFlag w;
     (x, w) = MQ2_GetData_PPM powf w;
     w = w\<lparr>OLED_MQ2ppm := x\<rparr>;
     w = MQ2_UpdateAlarmFlag w;
     (x, w) = MQ135_GetData_PPM powf w;
     w = w\<lparr>OLED_MQ135ppm := x\<rparr>;
     w = MQ135_UpdateAlarmFlag w;
     w = w\<lparr>My_temp := DHT11_GetTemperature w\<rparr>;
     w = w\<lparr>My_humi := DHT11_GetHumidity w\<rparr>
   in DH11_UpdateAlarmFlag w)"

text \<open>One turn of \<^verbatim>\<open>rt_schedule_entry\<close>'s endless loop.\<close>

definition schedule_turn :: "(f32 \<Rightarrow> f32 \<Rightarrow> f32) \<Rightarrow> 'a schedule_scheme \<Rightarrow> 'a schedule_scheme option" where
  "schedule_turn powf w = Option.bind (schedule_tasks (w\<lparr>sched_cnt := sched_cnt w + 1\<rparr>)) (\<lambda>w. let
     w = schedule_readings powf w;
     w = (if 300 \<le> sched_cnt w then w\<lparr>sched_cnt := 0\<rparr> else w)
   in Some (rt_thread_mdelay 10 w))"

definition rt_schedule_init :: "'a schedule_scheme \<Rightarrow> int \<times> 'a schedule_scheme" where
  "rt_schedule_init w = (case schedule_thread w of Some t \<Rightarrow> (0, w)
     | None \<Rightarrow> (let t = rt_thread_create (rtos w) ''sched10ms''; w = w\<lparr>schedule_thread := t\<rparr> in
         case t of None \<Rightarrow> (- 1, w) | Some n \<Rightarrow> (0, w\<lparr>rtos := rt_thread_startup n (rtos w)\<rparr>)))"

subsection \<open>The main thread\<close>

text \<open>The initialisations, in the order of \<^verbatim>\<open>main\<close>: the modules, then the display and the schedule.\<close>

definition main_modules :: "u32 \<Rightarrow> 'a schedule_scheme \<Rightarrow> 'a schedule_scheme" where
  "main_modules SystemCoreClock w = (let
     w = Soil_Init w;
     w = MQ2_Init w;
     w = MQ135_Init w;
     w = DHT11_Init SystemCoreClock w;
     w = Buzzer_Init w;
     w = LED_PWM_Init w;
     w = water_Init w;
     w = PWM_Init w;
     w = Encoder_Init w
   in PID_Init w)"

definition main_start :: "u32 \<Rightarrow> 'a schedule_scheme \<Rightarrow> 'a schedule_scheme option" where
  "main_start SystemCoreClock w = Option.bind (OLED_Init (main_modules SystemCoreClock w)) (\<lambda>w.
     Some (snd (rt_schedule_init (OLED_Clear w))))"

text \<open>One turn of \<^verbatim>\<open>main\<close>'s loop; \<open>cs\<close> is what the array on its stack holds before.\<close>

definition main_turn :: "string \<Rightarrow> 'a schedule_scheme \<Rightarrow> 'a schedule_scheme option" where
  "main_turn cs w = Option.bind (main_show_oled_data cs w) (\<lambda>w. Some (rt_thread_mdelay 500 w))"


subsection \<open>The lines of the car\<close>

definition inbox_ok :: "'a comm_scheme \<Rightarrow> bool" where
  "inbox_ok w \<longleftrightarrow> vl53_rx.port.port_settled (port1 w) \<and> imu_rx.port.port_settled (port2 w) \<and>
     cam_rx.port.port_settled (port4 w) \<and> soft_rx.port.port_settled (port5 w) \<and> uart_port_wf (port6 w)"

lemma inbox_same:
  assumes "inbox q = inbox p"
  shows "vl53_rx.port.port_settled q = vl53_rx.port.port_settled p" "imu_rx.port.port_settled q = imu_rx.port.port_settled p"
    "cam_rx.port.port_settled q = cam_rx.port.port_settled p" "soft_rx.port.port_settled q = soft_rx.port.port_settled p"
    "uart_port_wf q = uart_port_wf p"
  using assms
  by (simp_all add: inbox_def uart_port_wf_def vl53_rx.port.port_settled_def imu_rx.port.port_settled_def
    cam_rx.port.port_settled_def soft_rx.port.port_settled_def)

text \<open>
  All UART lines in use. The debug line's is the console, which was opened before \<^verbatim>\<open>main\<close> began, and
  once more when the shell has started.
\<close>

definition links :: "'a comm_scheme \<Rightarrow> bool" where
  "links w \<longleftrightarrow> lines_ready w \<and> console_ready (rtos w) (port1 w) \<and> inbox_ok w"

lemmas links_defs = links_def lines_ready_def inbox_ok_def

text \<open>What the console sends is no matter of the other lines, nor is the list of threads.\<close>

lemma console_send_others:
  assumes "console_ready k p" "cs \<noteq> []" "uart_send ''uart1'' ri th (Some cs) (k, p) = (k', p')"
  shows "m \<noteq> ''uart1'' \<Longrightarrow> port_ready m k' q = port_ready m k q" "usart3_ready (k', d) = usart3_ready (k, d)"
proof -
  note f = console_send_ready(4,5) [OF assms]
  show "port_ready m k' q = port_ready m k q" if "m \<noteq> ''uart1''" by (rule ready_elsewhere(1) [OF f(1) [OF that] f(2)])
  show "usart3_ready (k', d) = usart3_ready (k, d)" by (rule usart3_ready_elsewhere [OF f(1)]) simp
qed

lemma startup_lines [simp]:
  "port_ready n (rt_thread_startup th k) p = port_ready n k p" "console_ready (rt_thread_startup th k) p = console_ready k p"
  "usart3_ready (rt_thread_startup th k, d) = usart3_ready (k, d)"
  by (simp_all add: rt_thread_startup_def port_ready_def port_up_def port_fresh_def device_up_def device_fresh_def
    console_ready_def console_up_def usart3_ready_def)

lemma send_links:
  assumes "links w" "cs \<noteq> []" "length cs \<le> TX_LEN"
  shows "\<exists>k p. host_send cs w = w\<lparr>rtos := k, port5 := p\<rparr> \<and> links (w\<lparr>rtos := k, port5 := p\<rparr>)"
    "\<exists>k p. cam_send cs w = w\<lparr>rtos := k, port4 := p\<rparr> \<and> links (w\<lparr>rtos := k, port4 := p\<rparr>)"
    "\<exists>k p. voice_send cs w = w\<lparr>rtos := k, port6 := p\<rparr> \<and> links (w\<lparr>rtos := k, port6 := p\<rparr>)"
    "\<exists>k p. vl53_send cs w = w\<lparr>rtos := k, port1 := p\<rparr> \<and> links (w\<lparr>rtos := k, port1 := p\<rparr>)"
proof -
  have r: "port_ready ''uart5'' (rtos w) (port5 w)" "port_ready ''uart4'' (rtos w) (port4 w)"
    "port_ready ''uart6'' (rtos w) (port6 w)" "console_ready (rtos w) (port1 w)"
    using assms(1) by (simp_all add: links_defs)
  have b: "uart_port_wf (port5 w)" "uart_port_wf (port4 w)" "uart_port_wf (port6 w)" "uart_port_wf (port1 w)"
    using assms(1) by (simp_all add: links_defs vl53_rx.port.port_settled_def cam_rx.port.port_settled_def
      soft_rx.port.port_settled_def)
  note same = inbox_same [OF send_inbox]
  obtain k p where e: "uart_send ''uart5'' ''uart5_rx_ind'' ''u5rx'' (Some cs) (rtos w, port5 w) = (k, p)" by fastforce
  show "\<exists>k p. host_send cs w = w\<lparr>rtos := k, port5 := p\<rparr> \<and> links (w\<lparr>rtos := k, port5 := p\<rparr>)"
    using assms(1) send_on_line [OF r(1) assms(2,3) e] same [OF b(1) e]
    by (intro exI [of _ k] exI [of _ p]) (simp add: port_sends e links_defs)
  obtain k p where e: "uart_send ''uart4'' ''uart4_rx_ind'' ''u4rx'' (Some cs) (rtos w, port4 w) = (k, p)" by fastforce
  show "\<exists>k p. cam_send cs w = w\<lparr>rtos := k, port4 := p\<rparr> \<and> links (w\<lparr>rtos := k, port4 := p\<rparr>)"
    using assms(1) send_on_line [OF r(2) assms(2,3) e] same [OF b(2) e]
    by (intro exI [of _ k] exI [of _ p]) (simp add: port_sends e links_defs)
  obtain k p where e: "uart_send ''uart6'' ''usart6_rx_ind'' ''u6rx'' (Some cs) (rtos w, port6 w) = (k, p)" by fastforce
  show "\<exists>k p. voice_send cs w = w\<lparr>rtos := k, port6 := p\<rparr> \<and> links (w\<lparr>rtos := k, port6 := p\<rparr>)"
    using assms(1) send_on_line [OF r(3) assms(2,3) e] same [OF b(3) e]
    by (intro exI [of _ k] exI [of _ p]) (simp add: port_sends e links_defs)
  obtain k p where e: "uart_send ''uart1'' ''usart1_rx_ind'' ''u1rx'' (Some cs) (rtos w, port1 w) = (k, p)" by fastforce
  show "\<exists>k p. vl53_send cs w = w\<lparr>rtos := k, port1 := p\<rparr> \<and> links (w\<lparr>rtos := k, port1 := p\<rparr>)"
    using assms(1) console_send_ready(1) [OF r(4) assms(2) e] same [OF b(4) e] console_send_others [OF r(4) assms(2) e]
    by (intro exI [of _ k] exI [of _ p]) (simp add: vl53_send_def Usart1DMA_SendData_def e links_defs)
qed

lemma stepper_links:
  assumes "links w"
  shows "\<exists>k d. stepper (emm_send a c) w = w\<lparr>rtos := k, usart3_dev := d\<rparr> \<and> links (w\<lparr>rtos := k, usart3_dev := d\<rparr>)"
proof -
  obtain k d where e: "emm_send a c (rtos w, usart3_dev w) = (k, d)" by fastforce
  have r: "usart3_ready (rtos w, usart3_dev w)" using assms by (simp add: links_defs)
  have f: "usart3_ready (k, d)" "\<And>m. m \<noteq> ''uart3'' \<Longrightarrow> devs k m = devs (rtos w) m" "heap_ok k = heap_ok (rtos w)"
    using emm_send_ready [OF r, where a = a and c = c] by (simp_all add: e)
  have o: "port_ready m k q = port_ready m (rtos w) q" if "m \<noteq> ''uart3''" for m q
    by (rule ready_elsewhere(1) [OF f(2) [OF that] f(3)])
  have c: "console_ready k q = console_ready (rtos w) q" for q
    using emm_kernel [of a c "(rtos w, usart3_dev w)"] by (intro console_elsewhere f(2,3)) (simp_all add: e)
  show ?thesis
    using assms f(1) o c by (intro exI [of _ k] exI [of _ d]) (simp add: stepper_def e links_defs)
qed

subsection \<open>The motion modes leave the rest alone\<close>

text \<open>What they do not touch, and the relation they keep to a state they started from.\<close>

definition beside where
  "beside w = (port1 w, port2 w, port4 w, port5 w, port6 w, (Soilpack w, Temppack w, Humipack w, Airpack w, Plantstatepack w,
     PlantTypepack w, Obspack w), (voice_pack w, obsvoice_flag w, airvoice_flag w, soilvoice_flag w, humivoice_flag w),
     (OLED_MQ2ppm w, OLED_MQ135ppm w, OLED_SoilPercent w, My_temp w, My_humi w, Soil_AlarmFlag w, Water_flag w,
     Soil_PlantType w), (ODR w GPIOB, ODR w GPIOD), sport.more w)"

definition leaves_rest :: "'a sport_scheme \<Rightarrow> 'a sport_scheme \<Rightarrow> bool" where
  "leaves_rest w v \<longleftrightarrow> beside v = beside w \<and> (links w \<longrightarrow> links v)"

named_theorems drive_frames \<open>operations of the drive beside the rest of the car\<close>

lemma leaves_rest_refl [simp]: "leaves_rest w w"
  by (simp add: leaves_rest_def)

lemma leaves_rest_trans: "leaves_rest u v \<Longrightarrow> leaves_rest v w \<Longrightarrow> leaves_rest u w"
  by (simp add: leaves_rest_def)

lemma Motor_SetCCR_odr: "p \<noteq> GPIOE \<Longrightarrow> ODR (Motor_SetCCR c1 c2 w) p = ODR w p"
  by (simp add: Motor_SetCCR_def PWM_Init_def AIN_SET_def AIN_RESET_def BIN_SET_def BIN_RESET_def Let_def
    HAL_GPIO_WritePin_def hw_simps)

lemma Motor_SetCCR_rest: "leaves_rest w (Motor_SetCCR c1 c2 w)"
proof -
  have p: "ODR (Motor_SetCCR c1 c2 w) GPIOB = ODR w GPIOB" "ODR (Motor_SetCCR c1 c2 w) GPIOD = ODR w GPIOD"
    by (simp_all add: Motor_SetCCR_odr)
  obtain o1 c l b where f: "Motor_SetCCR c1 c2 w = w\<lparr>ODR := o1, CCR := c, hal_log := l, motor_pwm_inited := b\<rparr>"
    by (rule Motor_SetCCR_frame)
  show ?thesis using p unfolding f by (simp add: leaves_rest_def beside_def links_defs)
qed

lemma field_rest:
  "leaves_rest w (w\<lparr>leaf_time_cnt := c\<rparr>)" "leaves_rest w (w\<lparr>Plantleaf_insflag := f\<rparr>)"
  "leaves_rest w (w\<lparr>Modestate_light := l\<rparr>)" "leaves_rest w (w\<lparr>Milleage1_flag := f1\<rparr>)"
  "leaves_rest w (w\<lparr>Milleage2_flag := f2\<rparr>)" "leaves_rest w (w\<lparr>starttime_cnt := t\<rparr>)"
  "leaves_rest w (w\<lparr>Modestate := f\<rparr>)" "leaves_rest w (w\<lparr>mystate := f\<rparr>)" "leaves_rest w (w\<lparr>time_cntobs := t\<rparr>)"
  "leaves_rest w (w\<lparr>yaw_temprary := x\<rparr>)" "leaves_rest w (w\<lparr>yaw_temprary1 := x\<rparr>)" "leaves_rest w (w\<lparr>yaw_temprary2 := x\<rparr>)"
  "leaves_rest w (w\<lparr>Milleage := x\<rparr>)" "leaves_rest w (w\<lparr>Milleage1 := x\<rparr>)" "leaves_rest w (w\<lparr>Milleage2 := x\<rparr>)"
  "leaves_rest w (w\<lparr>Pid_Motor1Speed := q\<rparr>)" "leaves_rest w (w\<lparr>Pid_Motor2Speed := q\<rparr>)" "leaves_rest w (w\<lparr>Pid_Trun := q\<rparr>)"
  "leaves_rest w (w\<lparr>Yaw_Read := x\<rparr>)" "leaves_rest w (w\<lparr>Turn_Out := x\<rparr>)" "leaves_rest w (w\<lparr>Turn_EndTargetLeft := x\<rparr>)"
  "leaves_rest w (w\<lparr>Turn_EndTargetRight := x\<rparr>)"
  by (simp_all add: leaves_rest_def beside_def links_defs)

lemmas field_frames [drive_frames] = field_rest [THEN leaves_rest_trans [rotated]]


lemma motor_frames [drive_frames]:
  "leaves_rest u w \<Longrightarrow> leaves_rest u (Motor_SetCCR c1 c2 w)"
  by (rule leaves_rest_trans [OF _ Motor_SetCCR_rest])

lemma speed_frames [drive_frames]:
  "leaves_rest u w \<Longrightarrow> leaves_rest u (motor_speed_loop w)" "leaves_rest u w \<Longrightarrow> leaves_rest u (set_targets s1 s2 w)"
  by (simp_all add: motor_speed_loop_def set_targets_def drive_frames split: prod.split)

lemma turn_frames [drive_frames]:
  "leaves_rest u w \<Longrightarrow> leaves_rest u (Motor_PidTarget s1 s2 w)" "leaves_rest u w \<Longrightarrow> leaves_rest u (Motor_PidTarget_Acce s1 s2 w)"
  by (simp_all add: Motor_PidTarget_def Motor_PidTarget_Acce_def drive_frames)

lemma heading_frames [drive_frames]:
  "leaves_rest u w \<Longrightarrow> leaves_rest u (Car_Turn t w)" "leaves_rest u w \<Longrightarrow> leaves_rest u (Car_Goline t n w)"
  "leaves_rest u w \<Longrightarrow> leaves_rest u (Yaw_change t w)"
  by (simp_all add: Car_Turn_def Car_Goline_def Yaw_change_def Let_def drive_frames split: prod.split)

lemma stepper_rest: "leaves_rest w (stepper (emm_send a c) w)"
proof (cases "links w")
  case True
  then obtain k d where "stepper (emm_send a c) w = w\<lparr>rtos := k, usart3_dev := d\<rparr>" "links (w\<lparr>rtos := k, usart3_dev := d\<rparr>)"
    using stepper_links by blast
  then show ?thesis by (simp add: leaves_rest_def beside_def)
next
  case False
  obtain k d where "stepper (emm_send a c) w = w\<lparr>rtos := k, usart3_dev := d\<rparr>" by (rule stepper_frame)
  then show ?thesis using False by (simp add: leaves_rest_def beside_def)
qed

lemma command_frames [drive_frames]:
  assumes "leaves_rest u w"
  shows "leaves_rest u (stepper (BuJinMotor_PitchView a d s p) w)" "leaves_rest u (stepper (BuJinMotor_Circle a d s c) w)"
proof -
  have "leaves_rest u (stepper (Emm_V5_Pos_Control b d v acc clk rf sf) w)" for b d v acc clk rf sf
    using leaves_rest_trans [OF assms stepper_rest, of b "Pos_Control d v acc clk rf sf"] by simp
  then show "leaves_rest u (stepper (BuJinMotor_PitchView a d s p) w)" "leaves_rest u (stepper (BuJinMotor_Circle a d s c) w)"
    by (simp_all add: BuJinMotor_PitchView_def [abs_def] BuJinMotor_Circle_def [abs_def])
qed

lemma obs_frames [drive_frames]:
  "leaves_rest u w \<Longrightarrow> leaves_rest u (goto s w)" "leaves_rest u w \<Longrightarrow> leaves_rest u (obs_watch w)"
  "leaves_rest u w \<Longrightarrow> leaves_rest u (obs_turn h s w)" "leaves_rest u w \<Longrightarrow> leaves_rest u (obs_drive w)"
  by (simp_all add: goto_def obs_watch_def obs_turn_def obs_drive_def Let_def drive_frames)

lemma wait_frame:
  "leaves_rest u w \<Longrightarrow> (\<And>v. leaves_rest u v \<Longrightarrow> leaves_rest u (blocked v)) \<Longrightarrow> leaves_rest u (obs_wait blocked w)"
  by (simp add: obs_wait_def Let_def drive_frames)

text \<open>Following a function through its branches and its intermediate states.\<close>

lemma branch_rest:
  "(b \<Longrightarrow> leaves_rest u w) \<Longrightarrow> (\<not> b \<Longrightarrow> leaves_rest u v) \<Longrightarrow> leaves_rest u (if b then w else v)"
  "leaves_rest u w \<Longrightarrow> (\<And>v. leaves_rest u v \<Longrightarrow> leaves_rest u (f v)) \<Longrightarrow> leaves_rest u (Let w f)"
  by simp_all

lemma mode_frames [drive_frames]:
  assumes "leaves_rest u w"
  shows "leaves_rest u (obs_machine w)" "leaves_rest u (Plantleaf_ins w)" "leaves_rest u (Finding_light w)"
  unfolding obs_machine_def Plantleaf_ins_def Finding_light_def
  by (intro branch_rest wait_frame drive_frames assms | assumption)+

lemma sport_frames [drive_frames]:
  "leaves_rest u w \<Longrightarrow> leaves_rest u (Finding_obs w)" "leaves_rest u w \<Longrightarrow> leaves_rest u (MaixCam_Sport w)"
  unfolding Finding_obs_def MaixCam_Sport_def by (intro branch_rest drive_frames | assumption)+

end
