(* ===== verification/Car_Order.thy ===== *)
theory Car_Order
  imports Schedule
begin

text \<open>
  The invariants of all modules together, and that every module of the ten millisecond schedule, the
  display refresh, the buzzer and the sensor's interrupt keep them.
\<close>

subsection \<open>A car in order\<close>

text \<open>
  The invariants of the modules together: the motion modes, the UART lines with their packets, the
  buffer of the debug line, the humidity sensor's two state machines, the readings, the light and
  the display's bus at rest.
\<close>

definition car_ok :: "'a schedule_scheme \<Rightarrow> bool" where
  "car_ok w \<longleftrightarrow> sport_safe w \<and> links w \<and> length (Debug_String w) = 128 \<and> packs_wf w \<and> voice_ok w \<and> dht_ok w \<and>
     readings_ok w \<and> led_i w \<le> 100 \<and> answers w \<and> (\<exists>hs. resting hs w)"

lemma car_okD:
  assumes "car_ok w"
  shows "sport_safe w" "links w" "packs_wf w" "voice_ok w" "dht_ok w" "readings_ok w" "answers w" "debug_ready w"
proof -
  show s: "sport_safe w" "links w" "packs_wf w" "voice_ok w" "dht_ok w" "readings_ok w" "answers w"
    using assms by (simp_all add: car_ok_def)
  have "speeds_ok w" using s(1) by (auto simp: sport_safe_def drive_safe_def loop_safe_def speeds_ok_def)
  then show "debug_ready w" using s(2) assms by (simp add: debug_ready_def links_def car_ok_def)
qed

text \<open>What the display's bus and its invariant look at.\<close>

lemma resting_same:
  assumes "bus v = bus w" "GPIOB_MODER v = GPIOB_MODER w" "ODR v GPIOB = ODR w GPIOB"
  shows "resting hs v = resting hs w"
  using assms by (simp add: resting_def seen_def scl_def sda_latch_def sda_driven_def pin_high_def)

lemma resting_pins:
  assumes "bus v = bus w" "GPIOB_MODER v = GPIOB_MODER w" "scl v = scl w" "sda_latch v = sda_latch w"
  shows "resting hs v = resting hs w"
  using assms by (simp add: resting_def seen_def sda_driven_def)

lemma dht_ok_same:
  assumes "sport.more v = sport.more w" shows "dht_ok v = dht_ok w"
  using assms by (cases v; cases w) (simp add: dht_ok_def)

lemma more_same:
  fixes v w :: "'a schedule_scheme"
  assumes "sport.more v = sport.more w"
  shows "dht_ok v = dht_ok w" "Debug_String v = Debug_String w" "led_i v = led_i w" "answers v = answers w"
    "bus v = bus w" "GPIOB_MODER v = GPIOB_MODER w"
  using assms by (cases v; cases w; simp add: dht_ok_same answers_def)+

lemma car_rest:
  assumes "leaves_rest w v" "car_ok w" "sport_safe v"
  shows "car_ok v"
proof -
  have b: "beside v = beside w" "links v" using assms(1) car_okD(2) [OF assms(2)] by (simp_all add: leaves_rest_def)
  have m: "sport.more v = sport.more w" "ODR v GPIOB = ODR w GPIOB" using b(1) by (simp_all add: beside_def)
  have "resting hs v = resting hs w" for hs by (rule resting_same) (use more_same [OF m(1)] m(2) in simp_all)
  moreover have "packs_wf v = packs_wf w" "readings_ok v = readings_ok w"
    using b(1) by (simp_all add: beside_def packs_wf_def readings_ok_def)
  moreover have "voice_ok v" using b assms(2) by (simp add: beside_def voice_ok_def car_ok_def links_def)
  ultimately show ?thesis using assms(2,3) b(2) more_same [OF m(1)] by (simp add: car_ok_def)
qed

lemma MaixCam_Sport_car: "car_ok w \<Longrightarrow> car_ok (MaixCam_Sport w)"
  by (rule car_rest) (simp_all add: drive_frames MaixCam_Sport_safe car_okD)


subsection \<open>Each module keeps the car in order\<close>

named_theorems car_keeps \<open>operations that keep the car in order\<close>

lemma sport_safe_same:
  assumes "obs_view v = obs_view w" "loop_safe v = loop_safe w" "bridge_ok v = bridge_ok w"
  shows "sport_safe v = sport_safe w"
  using assms(2,3) obs_view_eqD [OF assms(1)] by (simp add: sport_safe_def drive_safe_def headings_ok_def)

lemma sample_encoders_car [car_keeps]:
  "car_ok w \<Longrightarrow> car_ok (sample_encoder1 w)" "car_ok w \<Longrightarrow> car_ok (sample_encoder2 w)"
proof -
  assume w: "car_ok w"
  have e: "HAL_TIM_SET_COUNTER t (CNT w t) w = w" for t by (simp add: HAL_TIM_SET_COUNTER_def)
  have s: "sport_safe (sample_encoder1 w)" "sport_safe (sample_encoder2 w)"
    using sport_safe_encoders(1) [OF car_okD(1) [OF w], of "CNT w TIM4"] sport_safe_encoders(2) [OF car_okD(1) [OF w], of "CNT w TIM3"]
    by (simp_all add: e)
  show "car_ok (sample_encoder1 w)" "car_ok (sample_encoder2 w)"
    by (rule car_rest [OF _ w s(1)], simp add: sample_encoder1_eq leaves_rest_def beside_def links_defs)
      (rule car_rest [OF _ w s(2)], simp add: sample_encoder2_eq leaves_rest_def beside_def links_defs)
qed

text \<open>Fields none of the invariants looks at.\<close>

lemmas car_defs = car_ok_def obs_view_def loop_safe_def bridge_ok_def pin_high_def links_def inbox_ok_def lines_ready_def
  voice_ok_def packs_wf_def dht_ok_def readings_ok_def answers_def resting_def scl_def sda_latch_def sda_driven_def seen_def
  sport_safe_def drive_safe_def headings_ok_def

lemma car_fields [simp]:
  "car_ok (w\<lparr>sched_cnt := c\<rparr>) = car_ok w" "car_ok (w\<lparr>schedule_thread := t\<rparr>) = car_ok w"
  "car_ok (w\<lparr>soft_cnt := b\<rparr>) = car_ok w" "car_ok (w\<lparr>maix_cnt := c\<rparr>) = car_ok w" "car_ok (w\<lparr>sleeps := ss\<rparr>) = car_ok w"
  "car_ok (w\<lparr>Soil_AlarmFlag := b\<rparr>) = car_ok w" "car_ok (w\<lparr>MQ2_AlarmFlag := b\<rparr>) = car_ok w"
  "car_ok (w\<lparr>MQ135_AlarmFlag := b\<rparr>) = car_ok w" "car_ok (w\<lparr>DHT11_AlarmFlag := b\<rparr>) = car_ok w"
  "car_ok (w\<lparr>adc_n := n\<rparr>) = car_ok w" "car_ok (w\<lparr>adc_CR2 := x\<rparr>) = car_ok w" "car_ok (w\<lparr>adc_SQR3 := x\<rparr>) = car_ok w"
  "car_ok (w\<lparr>adc_SMPR2 := x\<rparr>) = car_ok w" "car_ok (w\<lparr>valueSoil_Raw := c\<rparr>) = car_ok w" "car_ok (w\<lparr>MQ2value := c\<rparr>) = car_ok w"
  "car_ok (w\<lparr>value135 := c\<rparr>) = car_ok w" "car_ok (w\<lparr>percentSoil := y\<rparr>) = car_ok w" "car_ok (w\<lparr>MQ2ppm := y\<rparr>) = car_ok w"
  "car_ok (w\<lparr>ppm135 := y\<rparr>) = car_ok w" "car_ok (w\<lparr>hal_log := l\<rparr>) = car_ok w" "car_ok (w\<lparr>led_pwm_inited := i\<rparr>) = car_ok w"
  by (simp_all add: car_defs)

text \<open>A transmission is an exchange of the kernel and one port.\<close>

lemma car_lines:
  assumes "car_ok w"
  shows "links (w\<lparr>rtos := k, port5 := p\<rparr>) \<Longrightarrow> car_ok (w\<lparr>rtos := k, port5 := p\<rparr>)"
    "links (w\<lparr>rtos := k, port4 := p\<rparr>) \<Longrightarrow> car_ok (w\<lparr>rtos := k, port4 := p\<rparr>)"
    "links (w\<lparr>rtos := k, port6 := p\<rparr>) \<Longrightarrow> car_ok (w\<lparr>rtos := k, port6 := p\<rparr>)"
    "links (w\<lparr>rtos := k, port1 := p\<rparr>) \<Longrightarrow> car_ok (w\<lparr>rtos := k, port1 := p\<rparr>)"
  using assms by (simp_all add: car_defs)

lemma cam_send_car:
  assumes "car_ok w" "cs \<noteq> []" "length cs \<le> TX_LEN" shows "car_ok (cam_send cs w)"
proof -
  obtain k p where "cam_send cs w = w\<lparr>rtos := k, port4 := p\<rparr>" "links (w\<lparr>rtos := k, port4 := p\<rparr>)"
    using send_links(2) [OF car_okD(2) [OF assms(1)] assms(2,3)] by blast
  then show ?thesis using car_lines(2) [OF assms(1)] by simp
qed

lemma host_send_car:
  assumes "car_ok w" "cs \<noteq> []" "length cs \<le> TX_LEN" shows "car_ok (host_send cs w)"
proof -
  obtain k p where "host_send cs w = w\<lparr>rtos := k, port5 := p\<rparr>" "links (w\<lparr>rtos := k, port5 := p\<rparr>)"
    using send_links(1) [OF car_okD(2) [OF assms(1)] assms(2,3)] by blast
  then show ?thesis using car_lines(1) [OF assms(1)] by simp
qed

lemma vl53_send_car:
  assumes "car_ok w" "cs \<noteq> []" "length cs \<le> TX_LEN" shows "car_ok (vl53_send cs w)"
proof -
  obtain k p where "vl53_send cs w = w\<lparr>rtos := k, port1 := p\<rparr>" "links (w\<lparr>rtos := k, port1 := p\<rparr>)"
    using send_links(4) [OF car_okD(2) [OF assms(1)] assms(2,3)] by blast
  then show ?thesis using car_lines(4) [OF assms(1)] by simp
qed

lemma My_GetActual_car:
  assumes "car_ok w" shows "\<exists>v. My_GetActual name w = Some v \<and> car_ok v"
proof -
  note r = car_okD(8) [OF assms, unfolded debug_ready_def]
  have c: "length b = 128 \<Longrightarrow> car_ok (w\<lparr>Debug_String := b\<rparr>)" for b using assms by (simp add: car_defs)
  have wr: "wr (Debug_String w) 0 NUL = Some ((Debug_String w)[0 := NUL])" using r by (simp add: wr_Some)
  show ?thesis
  proof (cases "debug_line name w")
    case None
    then show ?thesis using c r by (simp add: My_GetActual_def wr)
  next
    case (Some ps)
    note ok = debug_line_ok [OF _ Some]
    obtain b p where b: "for_each put_piece ps ((Debug_String w)[0 := NUL], 0) = Some (b, p)" "length b = 128"
      "take (strlen b) b = concat (map piece_text ps)"
      by (rule print_line [of "(Debug_String w)[0 := NUL]" ps]) (use r ok in auto)
    have "ascii (concat (map piece_text ps)) \<noteq> []" "length (ascii (concat (map piece_text ps))) \<le> TX_LEN"
      using ok r by (auto simp: ascii_def TX_LEN_def)
    then show ?thesis
      using vl53_send_car [OF c [OF b(2)]] cam_send_car [OF c [OF b(2)]] b by (simp add: My_GetActual_def wr Some Let_def)
  qed
qed

lemma Maixcam_SetMode_car [car_keeps]: "car_ok w \<Longrightarrow> car_ok (Maixcam_SetMode m w)"
  by (auto simp: Maixcam_SetMode_eq mode_packet_def numeral_3_eq_3 TX_LEN_def intro: cam_send_car)


lemma refresh_car: "car_ok w \<Longrightarrow> car_ok (refresh_packs w)"
proof -
  assume w: "car_ok w"
  have p: "packs_wf (refresh_packs w)" using car_okD(3) [OF w]
    by (auto simp: packs_wf_def refresh_packs_def put2_def Let_def eval_nat_numeral)
  then have "packs_wf (refresh_packs w) = packs_wf w" using car_okD(3) [OF w] by simp
  moreover have "sport_safe (refresh_packs w) = sport_safe w"
    by (rule sport_safe_same) (simp_all add: refresh_packs_def Let_def obs_view_def loop_safe_def bridge_ok_def pin_high_def)
  moreover have "voice_ok (refresh_packs w) = voice_ok w" "links (refresh_packs w) = links w" "dht_ok (refresh_packs w) = dht_ok w"
    "readings_ok (refresh_packs w) = readings_ok w" "answers (refresh_packs w) = answers w"
    "\<And>hs. resting hs (refresh_packs w) = resting hs w" "Debug_String (refresh_packs w) = Debug_String w"
    "led_i (refresh_packs w) = led_i w"
    by (simp_all add: refresh_packs_def Let_def car_defs)
  ultimately show ?thesis using w by (simp add: car_ok_def)
qed

lemma turns_car:
  assumes "set ts \<subseteq> set turns_of_tick" "car_ok w"
  shows "car_ok (fold (\<lambda>(k, pack). send_at k pack) ts w)"
  using assms
proof (induction ts arbitrary: w)
  case (Cons t ts)
  obtain k pack where t: "t = (k, pack)" by fastforce
  have "pack w \<noteq> [] \<and> length (pack w) \<le> TX_LEN"
    using Cons.prems car_okD(3) [OF Cons.prems(2)] by (auto simp: t turns_of_tick_def packs_wf_def TX_LEN_def)
  then have "car_ok (send_at k pack w)" using Cons.prems(2) by (simp add: send_at_def host_send_car)
  then show ?case using Cons by (simp add: t)
qed simp

lemma SendData_car [car_keeps]: "car_ok w \<Longrightarrow> car_ok (SendData_to_PlantSoft w)"
  by (simp add: SendData_unfold send_turns_def Let_def turns_car refresh_car)

lemma compare3_ccr: "CCR (PWM_SetCompare3 v w) (TIM12, c) = CCR w (TIM12, c)"
  by (simp add: PWM_SetCompare3_def LED_PWM_Init_def hal_calls_def hal_def HAL_TIM_SET_COMPARE_def Let_def)

lemma compare3_car: "car_ok w \<Longrightarrow> car_ok (PWM_SetCompare3 v w)"
proof -
  assume w: "car_ok w"
  obtain c l where f: "PWM_SetCompare3 v w = w\<lparr>CCR := c((TIM1, 3) := v), hal_log := l, led_pwm_inited := True\<rparr>"
    by (rule PWM_SetCompare3_frame)
  have "c (TIM12, 1) = CCR w (TIM12, 1)" "c (TIM12, 2) = CCR w (TIM12, 2)"
    using compare3_ccr [of v w 1] compare3_ccr [of v w 2] by (simp_all add: f)
  then show ?thesis using w by (simp add: f car_defs)
qed

lemma LED_PWM_car: "car_ok w \<Longrightarrow> car_ok (LED_PWM t w)"
proof -
  assume w: "car_ok w"
  define t' where "t' = (if 100 < t then 100 else t)"
  define v where "v = (if led_i w < t' then w\<lparr>led_i := led_i w + 1\<rparr>
          else if t' < led_i w then w\<lparr>led_i := led_i w - 1\<rparr> else w)"
  have e: "LED_PWM t w = PWM_SetCompare3 (led_i v) v" by (simp add: LED_PWM_def v_def t'_def Let_def)
  have l: "led_i w \<le> 100" using w by (simp add: car_ok_def)
  have "led_i v \<le> 100"
    using l unat_step [of "led_i w" t'] unat_step [of t' "led_i w"]
    by (auto simp: v_def t'_def word_le_nat_alt word_less_nat_alt split: if_splits)
  moreover have "v = w\<lparr>led_i := led_i v\<rparr>" by (simp add: v_def)
  moreover have "i \<le> 100 \<Longrightarrow> car_ok (w\<lparr>led_i := i\<rparr>)" for i using w by (simp add: car_defs)
  ultimately have "car_ok v" by metis
  then show ?thesis unfolding e by (rule compare3_car)
qed

lemma LightContral_car [car_keeps]: "car_ok w \<Longrightarrow> car_ok (LightContral f w)"
  by (simp add: LightContral_def LED_PWM_car)

text \<open>Pins of other modules.\<close>

text \<open>All but the humidity sensor, for the operations that move its state.\<close>

definition car_but_dht :: "'a schedule_scheme \<Rightarrow> bool" where
  "car_but_dht w \<longleftrightarrow> sport_safe w \<and> links w \<and> length (Debug_String w) = 128 \<and> packs_wf w \<and> voice_ok w \<and>
     readings_ok w \<and> led_i w \<le> 100 \<and> answers w \<and> (\<exists>hs. resting hs w)"

lemma car_split: "car_ok w \<longleftrightarrow> car_but_dht w \<and> dht_ok w"
  by (auto simp: car_ok_def car_but_dht_def)

lemma car_pins:
  assumes "pin_high (w\<lparr>ODR := r\<rparr>) GPIOE = pin_high w GPIOE" "scl (w\<lparr>ODR := r\<rparr>) = scl w" "sda_latch (w\<lparr>ODR := r\<rparr>) = sda_latch w"
  shows "car_but_dht (w\<lparr>ODR := r\<rparr>) = car_but_dht w" "car_ok (w\<lparr>ODR := r\<rparr>) = car_ok w"
proof -
  have "bridge_ok (w\<lparr>ODR := r\<rparr>) = bridge_ok w" using assms(1) by (simp add: bridge_ok_def)
  then have "sport_safe (w\<lparr>ODR := r\<rparr>) = sport_safe w"
    by (rule sport_safe_same [rotated 2]) (simp_all add: obs_view_def loop_safe_def)
  moreover have "resting hs (w\<lparr>ODR := r\<rparr>) = resting hs w" for hs by (rule resting_pins) (use assms in simp_all)
  moreover have "voice_ok (w\<lparr>ODR := r\<rparr>) = voice_ok w" "links (w\<lparr>ODR := r\<rparr>) = links w"
    "readings_ok (w\<lparr>ODR := r\<rparr>) = readings_ok w" "answers (w\<lparr>ODR := r\<rparr>) = answers w" "packs_wf (w\<lparr>ODR := r\<rparr>) = packs_wf w"
    by (simp_all add: car_defs)
  ultimately show "car_but_dht (w\<lparr>ODR := r\<rparr>) = car_but_dht w" by (simp add: car_but_dht_def)
  then show "car_ok (w\<lparr>ODR := r\<rparr>) = car_ok w" by (simp add: car_split dht_ok_def)
qed

lemma write_car:
  assumes "(p, k) \<in> {(GPIOB, 1), (GPIOB, 5), (GPIOD, 4)}"
  shows "car_but_dht (HAL_GPIO_WritePin p (GPIO_PIN k) s w) = car_but_dht w" "car_ok (HAL_GPIO_WritePin p (GPIO_PIN k) s w) = car_ok w"
proof -
  let ?v = "HAL_GPIO_WritePin p (GPIO_PIN k) s w"
  have f: "?v = w\<lparr>ODR := ODR ?v\<rparr>" by (simp add: HAL_GPIO_WritePin_def)
  have "ODR ?v GPIOE = ODR w GPIOE" using assms by (auto simp: HAL_GPIO_WritePin_def)
  then have e: "pin_high ?v GPIOE = pin_high w GPIOE" by (simp add: pin_high_def fun_eq_iff)
  have b: "scl ?v = scl w" "sda_latch ?v = sda_latch w"
    using assms by (auto simp: scl_def sda_latch_def hw_simps)
  show "car_but_dht ?v = car_but_dht w" "car_ok ?v = car_ok w"
    using car_pins [where w = w and r = "ODR ?v"] e b unfolding f [symmetric] by blast+
qed

lemma water_auto_car [car_keeps]: "car_ok w \<Longrightarrow> car_ok (water_auto m a w)"
  by (simp add: water_auto_def water_Open_def water_close_def Let_def write_car)

lemma buzzer_car [car_keeps]: "car_ok w \<Longrightarrow> car_ok (buzzer_alarm_entry w)"
proof -
  assume w: "car_ok w"
  have b: "car_ok (beep v) = car_ok v" for v :: "'a schedule_scheme" by (simp add: beep_def rt_thread_mdelay_def write_car)
  have "car_ok ((beep ^^ n) w)" for n using w by (induction n) (simp_all add: b)
  then show ?thesis
    using w by (simp add: buzzer_alarm_entry_def Buzzer_open_def Buzzer_warm_def Buzzer_close_def rt_thread_mdelay_def write_car)
qed

text \<open>The humidity sensor.\<close>

lemma dht_fields [simp]:
  "car_but_dht (w\<lparr>IDR := r\<rparr>) = car_but_dht w" "car_but_dht (w\<lparr>EXTI_IMR := x\<rparr>) = car_but_dht w"
  "car_but_dht (w\<lparr>EXTI_PR := x\<rparr>) = car_but_dht w" "car_but_dht (w\<lparr>CYCCNT := x\<rparr>) = car_but_dht w"
  "car_but_dht (w\<lparr>s_dht11_state := d\<rparr>) = car_but_dht w" "car_but_dht (w\<lparr>s_capture_state := e\<rparr>) = car_but_dht w"
  "car_but_dht (w\<lparr>s_state_ticks := c\<rparr>) = car_but_dht w" "car_but_dht (w\<lparr>s_frame_bytes := bs\<rparr>) = car_but_dht w"
  "car_but_dht (w\<lparr>s_bit_index := b\<rparr>) = car_but_dht w" "car_but_dht (w\<lparr>s_frame_done := b\<rparr>) = car_but_dht w"
  "car_but_dht (w\<lparr>s_frame_error := b\<rparr>) = car_but_dht w" "car_but_dht (w\<lparr>s_transaction_active := b\<rparr>) = car_but_dht w"
  "car_but_dht (w\<lparr>s_high_start_cycle := x\<rparr>) = car_but_dht w" "car_but_dht (w\<lparr>s_temperature_c := y\<rparr>) = car_but_dht w"
  "car_but_dht (w\<lparr>s_humidity_rh := y\<rparr>) = car_but_dht w" "car_but_dht (w\<lparr>s_has_valid_data := b\<rparr>) = car_but_dht w"
  "car_but_dht (w\<lparr>DHT11_AlarmFlag := b\<rparr>) = car_but_dht w" "car_but_dht (w\<lparr>hal_log := l\<rparr>) = car_but_dht w"
  by (simp_all add: car_but_dht_def car_defs)

lemma dht_lines [simp]:
  "car_but_dht (DHT11_EXTI_Enable b w) = car_but_dht w" "car_but_dht (DHT11_Set_Output w) = car_but_dht w"
  "car_but_dht (DHT11_Set_Input w) = car_but_dht w" "car_but_dht (DHT11_Line_High w) = car_but_dht w"
  "car_but_dht (DHT11_Line_Low w) = car_but_dht w" "car_but_dht (DHT11_Reset_Capture w) = car_but_dht w"
  by (simp_all add: DHT11_EXTI_Enable_def DHT11_Set_Output_def DHT11_Set_Input_def DHT11_Line_High_def DHT11_Line_Low_def
    DHT11_Reset_Capture_def hal_def DHT11_GPIO_PIN_def write_car Let_def)

lemma dht_operations [simp]:
  "car_but_dht (DHT11_Enter_Idle t w) = car_but_dht w" "car_but_dht (DHT11_Start_Request w) = car_but_dht w"
  "car_but_dht (DHT11_Release_And_Listen w) = car_but_dht w" "car_but_dht (capture_error w) = car_but_dht w"
  by (simp_all add: DHT11_Enter_Idle_def DHT11_Start_Request_def DHT11_Release_And_Listen_def capture_error_def Let_def)

lemma Task10ms_car [car_keeps]: "car_ok w \<Longrightarrow> car_ok (DHT11_Task10ms w)"
proof -
  assume w: "car_ok w"
  have "car_but_dht (DHT11_Process_Frame v) = car_but_dht v" for v :: "'a schedule_scheme"
    by (simp add: DHT11_Process_Frame_def Let_def)
  then have "car_but_dht (DHT11_Task10ms w) = car_but_dht w"
    by (simp add: DHT11_Task10ms_def DHT11_Handle_Failed_Frame_def Let_def split: dht11_state_t.split)
  then show ?thesis using w Task_ok [OF car_okD(5) [OF w]] by (simp add: car_split)
qed

lemma edge_car:
  assumes "car_ok w" shows "\<exists>v. dht_step (Edge lvl t) w = Some v \<and> car_ok v"
proof -
  obtain v where v: "dht_step (Edge lvl t) w = Some v" "dht_ok v" by (rule step_ok [OF car_okD(5) [OF assms]])
  have c: "capture_bit n u = Some v' \<Longrightarrow> car_but_dht v' = car_but_dht u" for n u and v' :: "'a schedule_scheme"
    by (auto simp: capture_bit_def Let_def bind_eq_Some_conv split: if_splits)
  have "car_but_dht (line_in lvl t w)" using assms by (simp add: line_in_def car_split)
  moreover have "DHT11_EXTI_Callback DHT11_GPIO_PIN u = Some v' \<Longrightarrow> car_but_dht v' = car_but_dht u" for u and v' :: "'a schedule_scheme"
    by (auto simp: DHT11_EXTI_Callback_def Let_def c split: if_splits dht11_capture_state_t.splits)
  ultimately show ?thesis using v by (auto simp: car_split)
qed


text \<open>The voice.\<close>

lemma voice_fields_car:
  assumes "car_ok w"
  shows "car_ok (w\<lparr>obsvoice_waittime := c\<rparr>)" "b \<le> 1 \<Longrightarrow> car_ok (w\<lparr>obsvoice_flag := b\<rparr>)"
    "b \<le> 1 \<Longrightarrow> car_ok (w\<lparr>airvoice_flag := b\<rparr>)" "b \<le> 1 \<Longrightarrow> car_ok (w\<lparr>soilvoice_flag := b\<rparr>)"
    "b \<le> 1 \<Longrightarrow> car_ok (w\<lparr>humivoice_flag := b\<rparr>)"
  using assms by (simp_all add: car_defs)

lemma ASR_VOICE_car:
  assumes "car_ok w"
  shows "car_ok (ASR_VOICE c w)" "obsvoice_flag (ASR_VOICE c w) = obsvoice_flag w" "airvoice_flag (ASR_VOICE c w) = airvoice_flag w"
    "soilvoice_flag (ASR_VOICE c w) = soilvoice_flag w" "humivoice_flag (ASR_VOICE c w) = humivoice_flag w"
proof -
  define v where "v = w\<lparr>voice_pack := (voice_pack w)[2 := c]\<rparr>"
  obtain b where b: "voice_pack w = [0xa1, 0xb1, b, 0xc1]" using car_okD(4) [OF assms] by (auto simp: voice_ok_def)
  have v: "car_ok v" using assms b by (simp add: v_def car_defs eval_nat_numeral)
  have l: "voice_pack v \<noteq> []" "length (voice_pack v) \<le> TX_LEN" by (simp_all add: v_def b TX_LEN_def)
  obtain k p where f: "voice_send (voice_pack v) v = v\<lparr>rtos := k, port6 := p\<rparr>" "links (v\<lparr>rtos := k, port6 := p\<rparr>)"
    using send_links(3) [OF car_okD(2) [OF v] l] by blast
  have e: "ASR_VOICE c w = v\<lparr>rtos := k, port6 := p\<rparr>" using f(1) by (simp add: ASR_VOICE_def v_def Let_def)
  show "car_ok (ASR_VOICE c w)" using car_lines(3) [OF v f(2)] by (simp add: e)
  show "obsvoice_flag (ASR_VOICE c w) = obsvoice_flag w" "airvoice_flag (ASR_VOICE c w) = airvoice_flag w"
    "soilvoice_flag (ASR_VOICE c w) = soilvoice_flag w" "humivoice_flag (ASR_VOICE c w) = humivoice_flag w"
    by (simp_all add: e v_def)
qed

lemma announce_car:
  assumes "car_ok w"
  shows "obsvoice_flag w \<noteq> 0 \<Longrightarrow> car_ok ((ASR_VOICE c w)\<lparr>obsvoice_waittime := n, obsvoice_flag := obsvoice_flag (ASR_VOICE c w) - 1\<rparr>)"
    "airvoice_flag w \<noteq> 0 \<Longrightarrow> car_ok ((ASR_VOICE c w)\<lparr>airvoice_flag := airvoice_flag (ASR_VOICE c w) - 1\<rparr>)"
    "soilvoice_flag w \<noteq> 0 \<Longrightarrow> car_ok ((ASR_VOICE c w)\<lparr>soilvoice_flag := soilvoice_flag (ASR_VOICE c w) - 1\<rparr>)"
    "humivoice_flag w \<noteq> 0 \<Longrightarrow> car_ok ((ASR_VOICE c w)\<lparr>humivoice_flag := humivoice_flag (ASR_VOICE c w) - 1\<rparr>)"
proof -
  note a = ASR_VOICE_car [OF assms, of c]
  have f: "b \<noteq> 0 \<Longrightarrow> b \<le> 1 \<Longrightarrow> b - 1 \<le> 1" for b :: u8 by (auto simp: le_one_cases)
  have v: "obsvoice_flag w \<le> 1" "airvoice_flag w \<le> 1" "soilvoice_flag w \<le> 1" "humivoice_flag w \<le> 1"
    using car_okD(4) [OF assms] by (simp_all add: voice_ok_def)
  show "obsvoice_flag w \<noteq> 0 \<Longrightarrow> car_ok ((ASR_VOICE c w)\<lparr>obsvoice_waittime := n, obsvoice_flag := obsvoice_flag (ASR_VOICE c w) - 1\<rparr>)"
    using voice_fields_car(2) [OF voice_fields_car(1) [OF a(1)]] f [OF _ v(1)] by (simp add: a)
  show "airvoice_flag w \<noteq> 0 \<Longrightarrow> car_ok ((ASR_VOICE c w)\<lparr>airvoice_flag := airvoice_flag (ASR_VOICE c w) - 1\<rparr>)"
    using voice_fields_car(3) [OF a(1)] f [OF _ v(2)] by (simp add: a)
  show "soilvoice_flag w \<noteq> 0 \<Longrightarrow> car_ok ((ASR_VOICE c w)\<lparr>soilvoice_flag := soilvoice_flag (ASR_VOICE c w) - 1\<rparr>)"
    using voice_fields_car(4) [OF a(1)] f [OF _ v(3)] by (simp add: a)
  show "humivoice_flag w \<noteq> 0 \<Longrightarrow> car_ok ((ASR_VOICE c w)\<lparr>humivoice_flag := humivoice_flag (ASR_VOICE c w) - 1\<rparr>)"
    using voice_fields_car(5) [OF a(1)] f [OF _ v(4)] by (simp add: a)
qed

lemma branch_car: "(b \<Longrightarrow> car_ok w) \<Longrightarrow> (\<not> b \<Longrightarrow> car_ok v) \<Longrightarrow> car_ok (if b then w else v)"
  by simp

lemma voice_alarm_car: "car_ok w \<Longrightarrow> car_ok (voice_alarm w)"
  unfolding voice_alarm_def Let_def by (intro branch_car; use announce_car in blast)

lemma Check_vioce_car [car_keeps]: "car_ok w \<Longrightarrow> car_ok (Check_vioce w)"
proof -
  have "car_ok v \<Longrightarrow> car_ok (voice_rearm v)" for v :: "'a schedule_scheme"
    by (simp add: voice_rearm_def Let_def voice_fields_car)
  then show "car_ok w \<Longrightarrow> car_ok (Check_vioce w)"
    by (simp add: Check_vioce_def Let_def voice_alarm_car voice_fields_car)
qed

text \<open>The samples: whatever the converter and the library's power function deliver, as long as it is a float.\<close>

definition gives_floats :: "(f32 \<Rightarrow> f32 \<Rightarrow> f32) \<Rightarrow> bool" where
  "gives_floats f \<longleftrightarrow> (\<forall>x y v. f x y = Fin v \<longrightarrow> f32_rep v)"

lemma gives_floatsD: "gives_floats f \<Longrightarrow> f x y = Fin v \<Longrightarrow> f32_rep v"
  by (auto simp: gives_floats_def)

lemma ppm_in:
  assumes "gives_floats powf"
  shows "f32_in 0 999 (MQ2_CalcPPM_FromRaw powf raw)" "f32_in 0 999 (ppm135_of_mean powf t)"
proof -
  have "MQ2_CalcPPM_FromRaw powf raw = Fin v \<Longrightarrow> f32_rep v" "ppm135_of_mean powf t = Fin v \<Longrightarrow> f32_rep v" for v
    using gives_floatsD [OF assms]
    by (auto simp: MQ2_CalcPPM_FromRaw_def ppm135_of_mean_def Let_def f32_round_rep split: if_splits)
  then show "f32_in 0 999 (MQ2_CalcPPM_FromRaw powf raw)" "f32_in 0 999 (ppm135_of_mean powf t)"
    using ppm_ok_Fin [OF MQ2_CalcPPM_range, of powf raw] ppm_ok_Fin [OF ppm135_range, of powf t] by auto
qed


lemma adc_moved_car: "adc_moved w v \<Longrightarrow> car_ok v = car_ok w"
  by (elim adc_movedE) simp

lemma readings_car:
  assumes "car_ok w"
  shows "f32_in 0 100 x \<Longrightarrow> car_ok (w\<lparr>OLED_SoilPercent := x\<rparr>)" "f32_in 0 999 x \<Longrightarrow> car_ok (w\<lparr>OLED_MQ2ppm := x\<rparr>)"
    "f32_in 0 999 x \<Longrightarrow> car_ok (w\<lparr>OLED_MQ135ppm := x\<rparr>)" "f32_in 0 281 x \<Longrightarrow> car_ok (w\<lparr>My_temp := x\<rparr>)"
    "f32_in 0 281 x \<Longrightarrow> car_ok (w\<lparr>My_humi := x\<rparr>)"
  using assms by (simp_all add: car_defs)

text \<open>What one turn reads: moisture, smoke, air, climate.\<close>

lemma soil_car: "car_ok w \<Longrightarrow> Soil_GetData_Percent w = (x, v) \<Longrightarrow> car_ok v \<and> f32_in 0 100 x"
  by (rule Soil_reading [of w]) (auto simp: adc_moved_car soil_of_mean_range mean_in)

lemma gas_car:
  assumes "gives_floats powf" "car_ok w"
  shows "MQ2_GetData_PPM powf w = (x, v) \<Longrightarrow> car_ok v \<and> f32_in 0 999 x"
    "MQ135_GetData_PPM powf w = (x, v) \<Longrightarrow> car_ok v \<and> f32_in 0 999 x"
proof -
  note p = ppm_in [OF assms(1)]
  show "MQ2_GetData_PPM powf w = (x, v) \<Longrightarrow> car_ok v \<and> f32_in 0 999 x"
    by (rule MQ2_reading [of w powf]) (use assms(2) p in \<open>auto simp: adc_moved_car\<close>)
  show "MQ135_GetData_PPM powf w = (x, v) \<Longrightarrow> car_ok v \<and> f32_in 0 999 x"
    by (rule MQ135_reading [of w powf]) (use assms(2) p in \<open>auto simp: adc_moved_car\<close>)
qed

lemma climate_in: "car_ok w \<Longrightarrow> f32_in 0 281 (DHT11_GetTemperature w) \<and> f32_in 0 281 (DHT11_GetHumidity w)"
  by (auto simp: DHT11_GetTemperature_def DHT11_GetHumidity_def tenths_range dht_ok_def dest!: car_okD(5))

lemma alarm_car [simp]:
  "car_ok (Soil_UpdateAlarmFlag w) = car_ok w" "car_ok (MQ2_UpdateAlarmFlag w) = car_ok w"
  "car_ok (MQ135_UpdateAlarmFlag w) = car_ok w" "car_ok (DH11_UpdateAlarmFlag w) = car_ok w"
  by (simp_all add: Soil_UpdateAlarmFlag_def MQ2_UpdateAlarmFlag_def MQ135_UpdateAlarmFlag_def DH11_UpdateAlarmFlag_def Let_def
    split: prod.split)

lemma schedule_readings_car:
  assumes "gives_floats powf" "car_ok w"
  shows "car_ok (schedule_readings powf w)"
proof -
  obtain x1 w1 where 1: "Soil_GetData_Percent w = (x1, w1)" by fastforce
  note r1 = soil_car [OF assms(2) 1]
  define v1 where "v1 = Soil_UpdateAlarmFlag (w1\<lparr>OLED_SoilPercent := x1\<rparr>)"
  have v1: "car_ok v1" using readings_car(1) [where w = w1 and x = x1] r1 by (simp add: v1_def)
  obtain x2 w2 where 2: "MQ2_GetData_PPM powf v1 = (x2, w2)" by fastforce
  note r2 = gas_car(1) [OF assms(1) v1 2]
  define v2 where "v2 = MQ2_UpdateAlarmFlag (w2\<lparr>OLED_MQ2ppm := x2\<rparr>)"
  have v2: "car_ok v2" using readings_car(2) [where w = w2 and x = x2] r2 by (simp add: v2_def)
  obtain x3 w3 where 3: "MQ135_GetData_PPM powf v2 = (x3, w3)" by fastforce
  note r3 = gas_car(2) [OF assms(1) v2 3]
  define v3 where "v3 = MQ135_UpdateAlarmFlag (w3\<lparr>OLED_MQ135ppm := x3\<rparr>)"
  have v3: "car_ok v3" using readings_car(3) [where w = w3 and x = x3] r3 by (simp add: v3_def)
  define v4 where "v4 = v3\<lparr>My_temp := DHT11_GetTemperature v3\<rparr>"
  have v4: "car_ok v4" using readings_car(4) [OF v3] climate_in [OF v3] by (simp add: v4_def)
  have "schedule_readings powf w = DH11_UpdateAlarmFlag (v4\<lparr>My_humi := DHT11_GetHumidity v4\<rparr>)"
    by (simp add: schedule_readings_def 1 2 3 Let_def v4_def flip: v1_def v2_def v3_def)
  then show ?thesis using readings_car(5) [OF v4] climate_in [OF v4] by simp
qed

lemma schedule_tasks_car:
  assumes "car_ok w" shows "\<exists>v. schedule_tasks w = Some v \<and> car_ok v"
proof -
  have "car_ok (SendData_to_PlantSoft (sample_encoder2 (sample_encoder1 w)))" using assms by (intro car_keeps)
  from My_GetActual_car [OF this, of MY_YAW]
  obtain u where u: "My_GetActual MY_YAW (SendData_to_PlantSoft (sample_encoder2 (sample_encoder1 w))) = Some u" "car_ok u" by blast
  then show ?thesis by (simp add: schedule_tasks_def Let_def car_keeps MaixCam_Sport_car)
qed

lemma mdelay_car [simp]: "car_ok (rt_thread_mdelay n w) = car_ok w"
  by (simp add: rt_thread_mdelay_def)

lemma schedule_turn_car:
  assumes "gives_floats powf" "car_ok w" shows "\<exists>v. schedule_turn powf w = Some v \<and> car_ok v"
proof -
  have "car_ok (w\<lparr>sched_cnt := sched_cnt w + 1\<rparr>)" using assms(2) by simp
  from schedule_tasks_car [OF this] obtain u where
    "schedule_tasks (w\<lparr>sched_cnt := sched_cnt w + 1\<rparr>) = Some u" "car_ok u" by blast
  then show ?thesis using schedule_readings_car [OF assms(1), of u] by (simp add: schedule_turn_def Let_def)
qed

lemma bus_only_car:
  assumes "bus_only w v" "resting hs v" "car_ok w" shows "car_ok v"
proof -
  have e: "v = w\<lparr>ODR := ODR v, GPIOB_MODER := GPIOB_MODER v, GPIOB_OSPEEDR := GPIOB_OSPEEDR v, bus := bus v, sda_n := sda_n v\<rparr>"
    and p: "\<And>p n. n < 16 \<Longrightarrow> pin_high v p n \<noteq> pin_high w p n \<Longrightarrow> p = GPIOB \<and> (n = 8 \<or> n = 9)"
    using assms(1) unfolding bus_only_def by blast+
  have g: "pin_high v GPIOE n = pin_high w GPIOE n" if "n < 16" for n using p [OF that, of GPIOE] by auto
  have "sport_safe v = sport_safe w"
  proof (rule sport_safe_same)
    have "CCR v = CCR w" using arg_cong [OF e, of CCR] by simp
    then show "bridge_ok v = bridge_ok w" by (simp add: bridge_ok_def g)
  qed (subst e, simp add: obs_view_def loop_safe_def)+
  moreover have "voice_ok v = voice_ok w" "links v = links w" "dht_ok v = dht_ok w" "readings_ok v = readings_ok w"
    "answers v = answers w" "packs_wf v = packs_wf w" "Debug_String v = Debug_String w" "led_i v = led_i w"
    by (subst e, simp add: car_defs)+
  ultimately show ?thesis using assms(2,3) by (auto simp: car_ok_def)
qed

lemma main_turn_car:
  assumes "length cs = 20" "car_ok w" shows "\<exists>v. main_turn cs w = Some v \<and> car_ok v"
proof -
  obtain hs where "resting hs w" using assms(2) by (auto simp: car_ok_def)
  from refresh_draws [OF car_okD(6) [OF assms(2)] assms(1) this car_okD(7) [OF assms(2)]]
  obtain u where u: "main_show_oled_data cs w = Some u" "resting (hs @ wire (screen_tx w)) u" "bus_only w u" by blast
  then show ?thesis using bus_only_car [OF u(3,2) assms(2)] by (simp add: main_turn_def)
qed

end
