(* ===== verification/Start.thy ===== *)
theory Start
  imports Car_Order
begin

text \<open>
  From power-up to the endless loops: the initialisations of \<^verbatim>\<open>main\<close> (\<^verbatim>\<open>applications/main.c\<close>) leave the
  car in order, whatever the display has latched and the sensors deliver.
\<close>

text \<open>What the initialisations start from and keep: everything but the bridge, the sensor and the display bus.\<close>

definition drive_off :: "'a sport_scheme \<Rightarrow> bool" where
  "drive_off w \<longleftrightarrow> Pid_Motor1Speed w = Mypid0 \<and> Pid_Motor2Speed w = Mypid0 \<and> Pid_Trun w = Mypid0 \<and>
     Encoder_Speed1 w = 0 \<and> Encoder_Speed2 w = 0 \<and> Yaw w = Fin 0 \<and> yaw_temprary w = Fin 0 \<and>
     yaw_temprary1 w = Fin 0 \<and> yaw_temprary2 w = Fin 0 \<and> Modestate w = 0 \<and> mystate w = 0 \<and> time_cntobs w = 0"

definition powered :: "'a schedule_scheme \<Rightarrow> bool" where
  "powered w \<longleftrightarrow> drive_off w \<and> links w \<and> length (Debug_String w) = 128 \<and> packs_wf w \<and> voice_ok w \<and> readings_ok w \<and>
     led_i w \<le> 100 \<and> answers w \<and> bus w = [] \<and> \<not> scl w \<and> length (s_frame_bytes w) = 5 \<and> unat (s_bit_index w) \<le> 40"

lemmas powered_defs = powered_def drive_off_def links_defs packs_wf_def voice_ok_def readings_ok_def answers_def scl_def pin_high_def

lemma powered_fields [simp]:
  "powered (w\<lparr>CCR := c\<rparr>) = powered w" "powered (w\<lparr>CNT := n\<rparr>) = powered w" "powered (w\<lparr>hal_log := l\<rparr>) = powered w"
  "powered (w\<lparr>adc_CR1 := x\<rparr>) = powered w" "powered (w\<lparr>adc_CR2 := x\<rparr>) = powered w" "powered (w\<lparr>adc_SQR1 := x\<rparr>) = powered w"
  "powered (w\<lparr>adc_CCR := x\<rparr>) = powered w" "powered (w\<lparr>led_pwm_inited := b\<rparr>) = powered w"
  "powered (w\<lparr>buzzer_thread := t\<rparr>) = powered w" "powered (w\<lparr>DEMCR := x\<rparr>) = powered w" "powered (w\<lparr>CYCCNT := x\<rparr>) = powered w"
  "powered (w\<lparr>DWT_CTRL := x\<rparr>) = powered w" "powered (w\<lparr>s_cycles_per_us := x\<rparr>) = powered w"
  "powered (w\<lparr>EXTI_IMR := x\<rparr>) = powered w" "powered (w\<lparr>EXTI_PR := x\<rparr>) = powered w"
  "powered (w\<lparr>s_dht11_state := d\<rparr>) = powered w" "powered (w\<lparr>s_state_ticks := k\<rparr>) = powered w"
  "powered (w\<lparr>s_frame_done := u\<rparr>) = powered w" "powered (w\<lparr>s_frame_error := u\<rparr>) = powered w"
  "powered (w\<lparr>s_transaction_active := u\<rparr>) = powered w" "powered (w\<lparr>s_temperature_c := y\<rparr>) = powered w"
  "powered (w\<lparr>s_humidity_rh := y\<rparr>) = powered w" "powered (w\<lparr>s_has_valid_data := u\<rparr>) = powered w"
  "powered (w\<lparr>DHT11_AlarmFlag := u\<rparr>) = powered w" "powered (w\<lparr>encoder1_inited := b\<rparr>) = powered w"
  "powered (w\<lparr>encoder2_inited := b\<rparr>) = powered w" "powered (w\<lparr>motor_pwm_inited := b\<rparr>) = powered w"
  by (simp_all add: powered_defs)

lemma powered_calls [simp]: "powered (hal c w) = powered w" "powered (hal_calls cs w) = powered w"
  by (rule hal_frame [of c w], simp) (rule hal_calls_frame [of cs w], simp)

lemma powered_write [simp]:
  assumes "p \<noteq> GPIOB \<or> k \<noteq> 8" "k < 16"
  shows "powered (HAL_GPIO_WritePin p (GPIO_PIN k) s w) = powered w"
proof -
  have "scl (HAL_GPIO_WritePin p (GPIO_PIN k) s w) = scl w" using assms by (auto simp: scl_def hw_simps)
  moreover have "HAL_GPIO_WritePin p (GPIO_PIN k) s w = w\<lparr>ODR := ODR (HAL_GPIO_WritePin p (GPIO_PIN k) s w)\<rparr>"
    by (simp add: HAL_GPIO_WritePin_def)
  moreover have "scl (w\<lparr>ODR := r\<rparr>) = scl w \<Longrightarrow> powered (w\<lparr>ODR := r\<rparr>) = powered w" for r
    by (simp add: powered_def drive_off_def links_defs packs_wf_def voice_ok_def readings_ok_def answers_def)
  ultimately show ?thesis by metis
qed

lemma powered_timers [simp]:
  "powered (HAL_TIM_SET_COMPARE t c v w) = powered w" "powered (HAL_TIM_SET_COUNTER t v w) = powered w"
  by (simp_all add: HAL_TIM_SET_COMPARE_def HAL_TIM_SET_COUNTER_def)

lemma powered_startup [simp]: "powered (w\<lparr>buzzer_thread := t, rtos := rt_thread_startup n (rtos w)\<rparr>) = powered w"
  by (simp add: powered_defs)

lemma powered_modules [simp]:
  "powered (Soil_Init w) = powered w" "powered (MQ2_Init w) = powered w" "powered (MQ135_Init w) = powered w"
  "powered (DHT11_Init clk w) = powered w" "powered (Buzzer_Init w) = powered w" "powered (LED_PWM_Init w) = powered w"
  "powered (water_Init w) = powered w" "powered (PWM_Init w) = powered w" "powered (Encoder_Init w) = powered w"
  by (simp_all add: Soil_Init_def MQ2_Init_def MQ135_Init_def ADCx_Init_def DHT11_Init_def DHT11_DWT_Init_def DHT11_EXTI_Init_def
    DHT11_EXTI_Enable_def DHT11_Set_Output_def DHT11_Line_High_def DHT11_GPIO_PIN_def Buzzer_Init_def LED_PWM_Init_def
    water_Init_def PWM_Init_def AIN_SET_def BIN_SET_def Encoder_Init_def Encoder1_Init_def Encoder2_Init_def
    encoder_gpio_init_pa6_pa7_def encoder_gpio_init_pd12_pd13_def
    Let_def rt_thread_create_def split: option.split)

lemma off_calls [simp]:
  "motor_pwm_inited (hal_calls cs w) = motor_pwm_inited w" "motor_pwm_inited (hal x w) = motor_pwm_inited w"
  by (rule hal_calls_frame [of cs w], simp) (rule hal_frame [of x w], simp)

lemma off_modules [simp]:
  "motor_pwm_inited (Soil_Init w) = motor_pwm_inited w" "motor_pwm_inited (MQ2_Init w) = motor_pwm_inited w"
  "motor_pwm_inited (MQ135_Init w) = motor_pwm_inited w" "motor_pwm_inited (DHT11_Init clk w) = motor_pwm_inited w"
  "motor_pwm_inited (Buzzer_Init w) = motor_pwm_inited w" "motor_pwm_inited (LED_PWM_Init w) = motor_pwm_inited w"
  "motor_pwm_inited (water_Init w) = motor_pwm_inited w"
  by (simp_all add: Soil_Init_def MQ2_Init_def MQ135_Init_def ADCx_Init_def DHT11_Init_def DHT11_DWT_Init_def
    DHT11_EXTI_Init_def DHT11_EXTI_Enable_def DHT11_Set_Output_def DHT11_Line_High_def Buzzer_Init_def LED_PWM_Init_def
    water_Init_def HAL_GPIO_WritePin_def Let_def split: option.split)

text \<open>The sensor's state and the bridge survive the initialisations after their own.\<close>

lemma dht_primitives [simp]:
  "dht_ok (hal_calls cs w) = dht_ok w" "dht_ok (hal x w) = dht_ok w" "dht_ok (HAL_GPIO_WritePin p m s w) = dht_ok w"
  "dht_ok (HAL_TIM_SET_COMPARE t k b w) = dht_ok w" "dht_ok (HAL_TIM_SET_COUNTER t b w) = dht_ok w"
  "dht_ok (w\<lparr>led_pwm_inited := i\<rparr>) = dht_ok w" "dht_ok (w\<lparr>motor_pwm_inited := i\<rparr>) = dht_ok w"
  "dht_ok (w\<lparr>encoder1_inited := i\<rparr>) = dht_ok w" "dht_ok (w\<lparr>encoder2_inited := i\<rparr>) = dht_ok w"
  "dht_ok (w\<lparr>buzzer_thread := th\<rparr>) = dht_ok w" "dht_ok (w\<lparr>buzzer_thread := th, rtos := r\<rparr>) = dht_ok w"
  by (rule hal_calls_frame [of cs w], simp add: dht_ok_def, rule hal_frame [of x w], simp add: dht_ok_def)
    (simp_all add: dht_ok_def HAL_GPIO_WritePin_def HAL_TIM_SET_COMPARE_def HAL_TIM_SET_COUNTER_def)

lemma dht_modules [simp]:
  "dht_ok (Buzzer_Init w) = dht_ok w" "dht_ok (LED_PWM_Init w) = dht_ok w" "dht_ok (water_Init w) = dht_ok w"
  "dht_ok (PWM_Init w) = dht_ok w" "dht_ok (Encoder_Init w) = dht_ok w" "dht_ok (PID_Init w) = dht_ok w"
  by (simp_all add: Buzzer_Init_def LED_PWM_Init_def water_Init_def PWM_Init_def AIN_SET_def BIN_SET_def Encoder_Init_def
    Encoder1_Init_def Encoder2_Init_def encoder_gpio_init_pa6_pa7_def encoder_gpio_init_pd12_pd13_def Let_def split: option.split)
    (simp add: PID_Init_def dht_ok_def)

lemma Encoder_Init_bridge: "bridge_ok (Encoder_Init w) = bridge_ok w"
  by (rule bridge_ok_eq)
    (simp_all add: Encoder_Init_def Encoder1_Init_def Encoder2_Init_def encoder_gpio_init_pa6_pa7_def encoder_gpio_init_pd12_pd13_def
      hal_calls_def hal_def HAL_TIM_SET_COUNTER_def Let_def)

lemma PWM_Init_bridge: "\<not> motor_pwm_inited w \<Longrightarrow> bridge_ok (PWM_Init w)"
proof -
  assume "\<not> motor_pwm_inited w"
  moreover have "bridge_ok (v\<lparr>motor_pwm_inited := i\<rparr>) = bridge_ok v" for v :: "'a motors_scheme" and i
    by (rule bridge_ok_eq) simp_all
  ultimately show ?thesis by (simp add: PWM_Init_def Let_def) (simp add: bridge_ok_def motor_defs)
qed

lemma PID_Init_safe: "powered w \<Longrightarrow> bridge_ok w \<Longrightarrow> sport_safe (PID_Init w)"
  by (simp add: powered_def drive_off_def sport_safe_def drive_safe_def headings_ok_def cnt_ok_def loop_safe_def bridge_ok_def
      pin_high_def trun_ok_def PID_Init_def pid_safe_def pid_init_def f32_in_round Mypid0_def)


text \<open>The display's bus is the last piece.\<close>

lemma IIC_Init_frame:
  obtains r l m o1 b where "IIC_Init w = w\<lparr>ODR := r, hal_log := l, GPIOB_MODER := m, GPIOB_OSPEEDR := o1, bus := b\<rparr>"
    "\<And>p. p \<noteq> GPIOB \<Longrightarrow> r p = ODR w p"
proof -
  have c: "hal_calls [RCC_GPIO_ENABLE GPIOB,
      GPIO_Init GPIOB (GPIO_PIN 8 OR GPIO_PIN 9) OUTPUT_PP NOPULL SPEED_HIGH None] w = w\<lparr>hal_log := hal_log w @ [RCC_GPIO_ENABLE GPIOB,
      GPIO_Init GPIOB (GPIO_PIN 8 OR GPIO_PIN 9) OUTPUT_PP NOPULL SPEED_HIGH None]\<rparr>"
    by (simp add: hal_calls_def hal_def)
  show ?thesis
    by (rule that [where r = "ODR (IIC_Init w)" and l = "hal_log (IIC_Init w)" and m = "GPIOB_MODER (IIC_Init w)" and
        ?o1.0 = "GPIOB_OSPEEDR (IIC_Init w)" and b = "bus (IIC_Init w)"])
      (simp_all add: IIC_Init_def Let_def c set_moder_def watch_lines_def record_event_def HAL_GPIO_WritePin_def)
qed

lemma IIC_Init_car:
  assumes "powered u" "bridge_ok u" "dht_ok u"
  shows "car_ok (IIC_Init (PID_Init u))"
proof -
  define v where "v = PID_Init u"
  have p: "links v" "length (Debug_String v) = 128" "packs_wf v" "voice_ok v" "readings_ok v" "led_i v \<le> 100" "answers v"
    "bus v = []" "\<not> scl v"
    using assms(1) by (simp_all add: v_def PID_Init_def powered_defs)
  have s: "sport_safe v" "dht_ok v" using PID_Init_safe [OF assms(1,2)] assms(3) by (simp_all add: v_def)
  have r: "resting [] (IIC_Init v)" using Init_rests [OF p(8,9)] by simp
  obtain q l m o1 b where f: "IIC_Init v = v\<lparr>ODR := q, hal_log := l, GPIOB_MODER := m, GPIOB_OSPEEDR := o1, bus := b\<rparr>"
    "\<And>p. p \<noteq> GPIOB \<Longrightarrow> q p = ODR v p" by (rule IIC_Init_frame [where w = v]) blast
  have "sport_safe (IIC_Init v) = sport_safe v"
    by (rule sport_safe_same) (simp_all add: f obs_view_def loop_safe_def bridge_ok_def pin_high_def)
  moreover have "links (IIC_Init v) = links v" "packs_wf (IIC_Init v) = packs_wf v" "voice_ok (IIC_Init v) = voice_ok v"
    "readings_ok (IIC_Init v) = readings_ok v" "answers (IIC_Init v) = answers v" "dht_ok (IIC_Init v) = dht_ok v"
    "Debug_String (IIC_Init v) = Debug_String v" "led_i (IIC_Init v) = led_i v"
    by (simp_all add: f links_defs packs_wf_def voice_ok_def readings_ok_def answers_def dht_ok_def)
  ultimately show ?thesis using p s r by (auto simp: car_ok_def v_def [symmetric])
qed

lemma draws_car:
  assumes "draws f ts" "car_ok w" shows "\<exists>v. f w = Some v \<and> car_ok v"
proof -
  obtain hs where "resting hs w" using assms(2) by (auto simp: car_ok_def)
  from drawsE [OF assms(1) this car_okD(7) [OF assms(2)]] obtain v where
    "f w = Some v" "resting (hs @ wire ts) v" "bus_only w v" by blast
  then show ?thesis using bus_only_car [OF _ _ assms(2)] by blast
qed

definition OLED_screens :: "'a schedule_scheme \<Rightarrow> 'a schedule_scheme option" where
  "OLED_screens w = Option.bind (Some (OLED_Fill 0 (fold cmd OLED_init_commands w))) (OLED_ShowStr 0 0 (''OLED OK!'' @ [NUL]) 1)"

lemma OLED_Init_screens: "OLED_Init w = OLED_screens (rt_thread_mdelay 100 (IIC_Init w))"
  by (simp add: OLED_Init_def OLED_screens_def Let_def)

lemma screens_draw:
  "draws OLED_screens ((concat (map (\<lambda>c. [Cmd c]) OLED_init_commands) @ fill_tx 0) @ text_tx small_tx 126 6 ''OLED OK!'' 0 0)"
proof -
  have "draws (\<lambda>w. Some (fold cmd OLED_init_commands w)) (concat (map (\<lambda>c. [Cmd c]) OLED_init_commands))"
    by (rule draws_fold) simp
  moreover have "draws (OLED_ShowStr 0 0 (''OLED OK!'' @ [NUL]) 1) (text_tx small_tx 126 6 ''OLED OK!'' 0 0)"
    by (rule ShowStr_draws(1)) (simp_all add: in_font_def)
  ultimately show ?thesis
    unfolding OLED_screens_def [abs_def] by (intro draws_then [OF draws_pure [OF _ draws_fill]])
qed

lemma OLED_Init_car:
  assumes "car_ok (IIC_Init w)" shows "\<exists>v. OLED_Init w = Some v \<and> car_ok v"
  using draws_car [OF screens_draw, of "rt_thread_mdelay 100 (IIC_Init w)"] assms by (simp add: OLED_Init_screens)

lemma schedule_init_car: "car_ok w \<Longrightarrow> car_ok (snd (rt_schedule_init w))"
proof -
  assume w: "car_ok w"
  have "links (w\<lparr>schedule_thread := t, rtos := rt_thread_startup n (rtos w)\<rparr>) = links w" for t n
    by (simp add: links_defs)
  then have "car_ok (w\<lparr>schedule_thread := t, rtos := rt_thread_startup n (rtos w)\<rparr>)" for t n
    using w car_okD(2) [OF w] by (simp add: car_defs)
  then show ?thesis using w by (auto simp: rt_schedule_init_def Let_def split: option.split)
qed

lemma modules_car:
  assumes "powered w" "\<not> motor_pwm_inited w" shows "car_ok (IIC_Init (main_modules clk w))"
proof -
  define u where "u = PWM_Init (water_Init (LED_PWM_Init (Buzzer_Init (DHT11_Init clk (MQ135_Init (MQ2_Init (Soil_Init w)))))))"
  have m: "main_modules clk w = PID_Init (Encoder_Init u)" by (simp add: main_modules_def u_def Let_def)
  have "powered (MQ135_Init (MQ2_Init (Soil_Init w)))" using assms(1) by simp
  then have "dht_ok (DHT11_Init clk (MQ135_Init (MQ2_Init (Soil_Init w))))" by (intro DHT11_Init_ok) (simp_all add: powered_def)
  then have d: "dht_ok (Encoder_Init u)" by (simp add: u_def)
  have "bridge_ok (Encoder_Init u)" unfolding Encoder_Init_bridge u_def by (rule PWM_Init_bridge) (use assms(2) in simp)
  moreover have "powered (Encoder_Init u)" using assms(1) by (simp add: u_def)
  ultimately show ?thesis unfolding m using IIC_Init_car d by blast
qed

lemma main_start_car:
  assumes "powered w" "\<not> motor_pwm_inited w"
  shows "\<exists>v. main_start clk w = Some v \<and> car_ok v"
proof -
  from OLED_Init_car [OF modules_car [OF assms]] obtain v where v: "OLED_Init (main_modules clk w) = Some v" "car_ok v" by blast
  have "car_ok (OLED_Clear v)" using draws_car [OF draws_fill v(2)] by (simp add: OLED_Clear_def)
  then show ?thesis using v(1) schedule_init_car by (simp add: main_start_def)
qed

text \<open>
  The beginning of \<^verbatim>\<open>main\<close>: the variables as the program declares them, the kernel as the board and the
  components left it (\<^verbatim>\<open>uart1\<close> open as the console, the shell's thread waiting for its turn), any wheel
  counts, any sensor values, a display that answers.
\<close>

definition power_up :: "(u32 \<Rightarrow> nat \<Rightarrow> u16) \<Rightarrow> (nat \<Rightarrow> bool) \<Rightarrow> schedule" where
  "power_up adc sda = schedule0\<lparr>adc_in := adc, sda_in := sda\<rparr>"

lemmas all_fields0 = schedule0_def oled0_def oled_fields0_def debug0_def dht0_def dht_fields0_def actuators0_def actuators_fields0_def
  sensors0_def sensors_fields0_def sport0_def sport_fields0_def voice0_def voice_fields0_def senders0_def senders_fields0_def
  soft0_def soft_fields0_def comm0_def comm_fields0_def turns0_def motors0_def encoders0_def globals0_def hw0_def
  schedule.defs oled.defs debug.defs dht.defs actuators.defs sensors.defs sport.defs voice.defs senders.defs
  soft.defs comm.defs turns.defs motors.defs encoders.defs globals.defs hw.defs

lemma power_up_ports:
  "rtos (power_up adc sda) = rtk0" "port1 (power_up adc sda) = uart_port0" "port2 (power_up adc sda) = uart_port0"
  "port4 (power_up adc sda) = uart_port0" "port5 (power_up adc sda) = uart_port0" "port6 (power_up adc sda) = uart_port0"
  "usart3_dev (power_up adc sda) = None"
  by (simp_all add: power_up_def all_fields0)

lemma power_up_lines: "lines_ready (power_up adc sda)"
  by (simp add: lines_ready_def power_up_ports rtk0_fresh usart3_ready_def rtk0_device_fresh)

lemma power_up_links: "links (power_up adc sda)"
  by (simp add: links_def power_up_lines inbox_ok_def power_up_ports rtk0_console_ready)

lemma power_up_powered:
  assumes "\<And>n. \<exists>i<251. \<not> sda (n + i)"
  shows "powered (power_up adc sda)" "\<not> motor_pwm_inited (power_up adc sda)"
proof -
  have "drive_off (power_up adc sda)" "length (Debug_String (power_up adc sda)) = 128" "packs_wf (power_up adc sda)"
    "readings_ok (power_up adc sda)" "led_i (power_up adc sda) \<le> 100" "sda_in (power_up adc sda) = sda"
    "bus (power_up adc sda) = []" "\<not> scl (power_up adc sda)" "length (s_frame_bytes (power_up adc sda)) = 5"
    "unat (s_bit_index (power_up adc sda)) \<le> 40" "\<not> motor_pwm_inited (power_up adc sda)"
    by (simp_all add: power_up_def all_fields0 drive_off_def packs_wf_def readings_ok_def scl_def pin_high_def f32_in_def)
  moreover have "voice_ok (power_up adc sda)"
    using power_up_lines by (simp add: voice_ok_def) (simp add: power_up_def all_fields0)
  ultimately show "powered (power_up adc sda)" "\<not> motor_pwm_inited (power_up adc sda)"
    using assms power_up_links by (simp_all add: powered_def answers_def)
qed

end
