(* ===== verification/Firmware.thy ===== *)
theory Firmware
  imports Start
begin

text \<open>
  The firmware as a whole: its start in \<^verbatim>\<open>main\<close>, and every interleaving of the schedule, the display
  thread, the buzzer thread, the five receive threads, the sensor's interrupt and the console (the
  start of the shell's thread and whatever text is printed) from there on.
\<close>

subsection \<open>The receive threads\<close>

text \<open>What a parser does to the state, whatever it finds, keeps what its decoder keeps.\<close>

lemma header_scan_keeps:
  assumes "\<And>m i k s s'. proc m i k s = Some s' \<Longrightarrow> P s \<Longrightarrow> P s'"
  shows "header_scan h mt proc i buf n s = Some (buf', n', s') \<Longrightarrow> P s \<Longrightarrow> P s'"
  using assms
proof (induction h mt proc i buf n s rule: header_scan.induct)
  case (1 h mt proc i buf n s)
  note e = "1.prems"(1) [unfolded header_scan.simps [of h mt proc i buf n s]]
  show ?case
  proof (cases "i < n \<and> rd_eq buf i h = Some True")
    case False
    then show ?thesis using e "1.prems"(2,3) "1.IH"(1) by (auto simp: bind_eq_Some_conv split: if_splits)
  next
    case True
    then obtain m where m: "mt buf n i = Some m" using e by (cases "mt buf n i") auto
    show ?thesis
    proof (cases m)
      case None
      then show ?thesis using e True m "1.prems"(2) by (auto split: if_splits prod.splits)
    next
      case (Some k)
      obtain b l where u: "uart_shift_left buf n (i + k) = (b, l)" by fastforce
      obtain t where t: "k \<noteq> 0" "proc buf i k s = Some t" "header_scan h mt proc 0 b l t = Some (buf', n', s')"
        using e True m Some u by (auto simp: bind_eq_Some_conv split: if_splits)
      show ?thesis
        using "1.IH"(2) [OF _ _ _ m Some _ t(2) u [symmetric] refl t(3)] True t(1) "1.prems"(2,3) t(2) by auto
    qed
  qed
qed

lemma scan_frames_keeps:
  assumes "\<And>m i k s s'. proc m i k s = Some s' \<Longrightarrow> P s \<Longrightarrow> P s'"
  shows "scan_frames L test proc i buf n s = Some (buf', n', s') \<Longrightarrow> P s \<Longrightarrow> P s'"
  using assms
proof (induction L test proc i buf n s rule: scan_frames.induct)
  case (1 L test proc i buf n s)
  note e = "1.prems"(1) [unfolded scan_frames.simps [of L test proc i buf n s]]
  obtain b l where u: "uart_shift_left buf n (i + L) = (b, l)" by fastforce
  show ?case
  proof (cases "0 < L \<and> i + L \<le> n \<and> test buf i = Some True")
    case False
    then show ?thesis
      using e "1.prems"(2,3) "1.IH"(2) by (auto simp: if_opt_def bind_eq_Some_conv split: if_splits prod.splits)
  next
    case True
    then obtain t where t: "proc buf i L s = Some t" "scan_frames L test proc 0 b l t = Some (buf', n', s')"
      using e u by (auto simp: if_opt_def bind_eq_Some_conv)
    show ?thesis using "1.IH"(1) [OF _ t(1) u [symmetric] refl t(2)] True "1.prems"(2,3) t(1) by auto
  qed
qed

lemma for_each_keeps:
  assumes "for_each f xs s = Some s'" "P s" "\<And>x s s'. f x s = Some s' \<Longrightarrow> P s \<Longrightarrow> P s'"
  shows "P s'"
  using assms by (induction xs arbitrary: s) (auto simp: bind_eq_Some_conv)

text \<open>Receiving changes the inbox of the port and the state, not what the port sends with.\<close>

definition same_outbox :: "uart_port \<Rightarrow> uart_port \<Rightarrow> bool" where
  "same_outbox p q \<longleftrightarrow> port_dev q = port_dev p \<and> rx_sem_inited q = rx_sem_inited p \<and> rx_thread q = rx_thread p"

lemma port_ready_outbox: "same_outbox p q \<Longrightarrow> port_ready n k q = port_ready n k p"
  by (simp add: same_outbox_def port_ready_def port_up_def port_fresh_def)

lemma console_ready_outbox: "same_outbox p q \<Longrightarrow> console_ready k q = console_ready k p"
  by (simp add: same_outbox_def console_ready_def statics_up_def statics_fresh_def)

lemma rx_entry_keeps:
  assumes "uart_rx_entry parse cs (p, s) = Some (p', s')" "P s"
    "\<And>buf n s b m s'. parse buf n s = Some (b, m, s') \<Longrightarrow> P s \<Longrightarrow> P s'"
  shows "P s' \<and> same_outbox p p'"
proof -
  have "\<forall>q t. ps = (q, t) \<longrightarrow> P t \<and> same_outbox p q"
    if "for_each (uart_rx_chunk parse) xs (p, s) = Some ps" for xs ps
    using that
    by (rule for_each_keeps) (use assms(2,3) in \<open>auto simp: uart_rx_chunk_def same_outbox_def Let_def bind_eq_Some_conv split: if_splits\<close>)
  then show ?thesis using assms(1) by (simp add: uart_rx_entry_def)
qed


text \<open>The decoders write command flags, readings and the clock.\<close>

lemma received_fields [simp]:
  "car_ok (w\<lparr>MaixMode_flag := b\<rparr>) = car_ok w" "car_ok (w\<lparr>Plantleaf_insflag := b\<rparr>) = car_ok w"
  "car_ok (w\<lparr>starttime_cnt := c\<rparr>) = car_ok w" "car_ok (w\<lparr>Modestate_light := b\<rparr>) = car_ok w"
  "car_ok (w\<lparr>Water_flag := b\<rparr>) = car_ok w" "car_ok (w\<lparr>lightONOFF_flag := b\<rparr>) = car_ok w"
  "car_ok (w\<lparr>Motor_flag := b\<rparr>) = car_ok w" "car_ok (w\<lparr>Soil_PlantType := b\<rparr>) = car_ok w"
  "car_ok (w\<lparr>Year := b\<rparr>) = car_ok w" "car_ok (w\<lparr>Month := b\<rparr>) = car_ok w" "car_ok (w\<lparr>Day := b\<rparr>) = car_ok w"
  "car_ok (w\<lparr>Hour := b\<rparr>) = car_ok w" "car_ok (w\<lparr>Minute := b\<rparr>) = car_ok w" "car_ok (w\<lparr>Second := b\<rparr>) = car_ok w"
  "car_ok (w\<lparr>Source_X := c\<rparr>) = car_ok w" "car_ok (w\<lparr>Source_Y := c\<rparr>) = car_ok w" "car_ok (w\<lparr>finding_flag := b\<rparr>) = car_ok w"
  "car_ok (w\<lparr>blade_state := b\<rparr>) = car_ok w" "car_ok (w\<lparr>vl53 := v\<rparr>) = car_ok w" "car_ok (w\<lparr>adc_in := a\<rparr>) = car_ok w"
  "car_ok (w\<lparr>CNT := n\<rparr>) = car_ok w"
  by (simp_all add: car_defs)

text \<open>\<open>received w v\<close>: from \<open>w\<close> the decoders may have come to \<open>v\<close>.\<close>

definition received :: "'a schedule_scheme \<Rightarrow> 'a schedule_scheme \<Rightarrow> bool" where
  "received w v \<longleftrightarrow> globals.more v = globals.more w \<and> (car_ok w \<longrightarrow> car_ok v)"

lemma received_refl [simp]: "received w w"
  by (simp add: received_def)

lemma received_trans: "received u v \<Longrightarrow> received v w \<Longrightarrow> received u w"
  by (simp add: received_def)

text \<open>Commands do not touch the heading either.\<close>

definition commanded :: "'a schedule_scheme \<Rightarrow> 'a schedule_scheme \<Rightarrow> bool" where
  "commanded w v \<longleftrightarrow> received w v \<and> Yaw v = Yaw w"

lemmas command_defs = commanded_def received_def

lemma commanded_refl [simp]: "commanded w w"
  by (simp add: commanded_def)

lemma commanded_trans: "commanded u v \<Longrightarrow> commanded v w \<Longrightarrow> commanded u w"
  by (auto simp: commanded_def intro: received_trans)

lemma soft_command_commanded: "commanded w (soft_command c v w)"
  by (simp add: command_defs soft_command_def soft_maix_def soft_water_def soft_light_def soft_system_def soft_plant_def Let_def)

lemma soft_at_commanded: "soft_at m i k w = Some v \<Longrightarrow> commanded w v"
  using soft_command_commanded [of w]
  by (auto simp: soft_at_def soft_time_def command_defs if_opt_def bind_eq_Some_conv split: if_splits)

lemma stage_kept:
  "if_opt c a (Some w) = Some v \<Longrightarrow> R x w \<Longrightarrow> (\<And>u. a = Some u \<Longrightarrow> R x u) \<Longrightarrow> R x v"
  by (auto simp: if_opt_def bind_eq_Some_conv split: if_splits)

lemma cam_at_commanded: "cam_at m i k w = Some v \<Longrightarrow> commanded w v"
proof -
  assume e: "cam_at m i k w = Some v"
  have p: "commanded u (cam_plant b u)" for b and u :: "'a schedule_scheme" by (simp add: command_defs cam_plant_def Let_def)
  obtain w1 w2 w3 where
    1: "if_opt (cam_frame_at m (i + k) UART4_FRAME_HEAD2_LOC 6)
       (Option.bind (rd m (i + k + 2)) (\<lambda>xh. Option.bind (rd m (i + k + 3)) (\<lambda>xl.
        Option.bind (rd m (i + k + 4)) (\<lambda>yh. Option.bind (rd m (i + k + 5)) (\<lambda>yl.
          Some (w\<lparr>Source_X := join16 xh xl, Source_Y := join16 yh yl, finding_flag := 1, lightONOFF_flag := 0\<rparr>))))))
       (Some w) = Some w1" and
    2: "if_opt (cam_frame_at m (i + k) UART4_FRAME_HEAD2_STA 3)
       (Option.bind (rd m (i + k + 2)) (\<lambda>v. Some (w1\<lparr>blade_state := v\<rparr>))) (Some w1) = Some w2" and
    3: "if_opt (cam_frame_at m (i + k) UART4_FRAME_HEAD2_TYP 3)
       (Option.bind (rd m (i + k + 2)) (\<lambda>v. Some (cam_plant v w2))) (Some w2) = Some w3" and
    4: "if_opt (cam_frame_at m (i + k) UART4_FRAME_HEAD2_LED 2)
       (Some (w3\<lparr>lightONOFF_flag := 1, finding_flag := 0\<rparr>)) (Some w3) = Some v"
    using e unfolding cam_at_def Let_def bind_eq_Some_conv [of "if_opt _ _ _"] by blast
  have "commanded w w1" by (rule stage_kept [where R = commanded, OF 1]) (auto simp: bind_eq_Some_conv command_defs)
  moreover have "commanded w1 w2" by (rule stage_kept [where R = commanded, OF 2]) (auto simp: bind_eq_Some_conv command_defs)
  moreover have "commanded w2 w3" by (rule stage_kept [where R = commanded, OF 3]) (auto simp: bind_eq_Some_conv p)
  moreover have "commanded w3 v" by (rule stage_kept [where R = commanded, OF 4]) (auto simp: command_defs)
  ultimately show "commanded w v" by (blast intro: commanded_trans)
qed

lemma attitude_car:
  assumes "car_ok w" "f32_mag 180 y"
  shows "car_ok (w\<lparr>Roll := r, Pitch := q, Yaw := y, Obspack := (Obspack w)[3 := yl, 2 := yh]\<rparr>)"
proof -
  let ?v = "w\<lparr>Roll := r, Pitch := q, Yaw := y, Obspack := (Obspack w)[3 := yl, 2 := yh]\<rparr>"
  have "packs_wf ?v" using car_okD(3) [OF assms(1)] by (auto simp: packs_wf_def eval_nat_numeral)
  moreover have "sport_safe ?v" using car_okD(1) [OF assms(1)] assms(2)
    by (simp add: sport_safe_def drive_safe_def headings_ok_def loop_safe_def bridge_ok_def pin_high_def)
  moreover have "voice_ok ?v = voice_ok w" "links ?v = links w" "dht_ok ?v = dht_ok w" "readings_ok ?v = readings_ok w"
    "answers ?v = answers w" "\<And>hs. resting hs ?v = resting hs w"
    by (simp_all add: voice_ok_def links_defs dht_ok_def readings_ok_def answers_def resting_def scl_def sda_latch_def sda_driven_def
      seen_def pin_high_def)
  ultimately show ?thesis using assms(1) by (simp add: car_ok_def)
qed

lemma imu_at_received: "imu_at m i n k w = Some v \<Longrightarrow> received w v"
proof -
  assume e: "imu_at m i n k w = Some v"
  show "received w v"
  proof (rule stage_kept [where R = received, OF e [unfolded imu_at_def]])
    fix u assume "imu_take m (i + k) w = Some u"
    then obtain r q h l yl yh where "u = w\<lparr>Roll := r, Pitch := q, Yaw := imu_angle h l, Obspack := (Obspack w)[3 := yl, 2 := yh]\<rparr>"
      unfolding imu_take_def by (auto simp only: bind_eq_Some_conv option.inject)
    then show "received w u" using attitude_car [OF _ imu_angle_mag, where w = w] by (simp add: received_def)
  qed simp
qed

text \<open>Receiving is possible whatever arrives, and leaves the car in order.\<close>

lemma decoders_received:
  "PlantSoft_DataProc m i n w = Some v \<Longrightarrow> commanded u w \<Longrightarrow> commanded u v"
  "Maixcam_DataProc m i n w = Some v \<Longrightarrow> commanded u w \<Longrightarrow> commanded u v"
  "HWT101_DataProc m i n w = Some v \<Longrightarrow> received u w \<Longrightarrow> received u v"
  unfolding PlantSoft_DataProc_def Maixcam_DataProc_def HWT101_DataProc_def
  by (erule for_each_keeps; blast intro: received_trans commanded_trans soft_at_commanded cam_at_commanded imu_at_received)+

lemma received_ports:
  fixes v w :: "'a schedule_scheme"
  assumes "received w v"
  shows "rtos v = rtos w" "port2 v = port2 w" "port4 v = port4 w" "port5 v = port5 w"
proof -
  have "globals.more v = globals.more w" using assms by (simp add: received_def)
  then show "rtos v = rtos w" "port2 v = port2 w" "port4 v = port4 w" "port5 v = port5 w" by (cases v; cases w; simp)+
qed

lemma car_ports:
  assumes "car_ok w"
  shows "links (w\<lparr>port1 := p\<rparr>) \<Longrightarrow> car_ok (w\<lparr>port1 := p\<rparr>)" "links (w\<lparr>port2 := p\<rparr>) \<Longrightarrow> car_ok (w\<lparr>port2 := p\<rparr>)"
    "links (w\<lparr>port4 := p\<rparr>) \<Longrightarrow> car_ok (w\<lparr>port4 := p\<rparr>)" "links (w\<lparr>port5 := p\<rparr>) \<Longrightarrow> car_ok (w\<lparr>port5 := p\<rparr>)"
    "links (w\<lparr>port6 := p\<rparr>) \<Longrightarrow> car_ok (w\<lparr>port6 := p\<rparr>)"
  using assms by (simp_all add: car_defs)

lemma links_ports:
  assumes "links w"
  shows "same_outbox (port1 w) p \<Longrightarrow> vl53_rx.port.port_settled p \<Longrightarrow> links (w\<lparr>port1 := p\<rparr>)"
    "same_outbox (port2 w) p \<Longrightarrow> imu_rx.port.port_settled p \<Longrightarrow> links (w\<lparr>port2 := p\<rparr>)"
    "same_outbox (port4 w) p \<Longrightarrow> cam_rx.port.port_settled p \<Longrightarrow> links (w\<lparr>port4 := p\<rparr>)"
    "same_outbox (port5 w) p \<Longrightarrow> soft_rx.port.port_settled p \<Longrightarrow> links (w\<lparr>port5 := p\<rparr>)"
    "same_outbox (port6 w) p \<Longrightarrow> uart_port_wf p \<Longrightarrow> links (w\<lparr>port6 := p\<rparr>)"
  using assms by (simp_all add: links_defs port_ready_outbox console_ready_outbox)


definition short_reads :: "bytes list \<Rightarrow> bool" where
  "short_reads cs \<longleftrightarrow> (\<forall>c\<in>set cs. length c \<le> 63)"

lemma short_readsD: "short_reads cs \<Longrightarrow> \<forall>c\<in>set cs. length c \<le> 63 \<and> length c \<le> MAX_LEN"
  "short_reads cs \<Longrightarrow> \<forall>c\<in>set cs. length c \<le> MAX_LEN \<and> length c \<le> MAX_LEN"
  by (auto simp: short_reads_def MAX_LEN_def)

lemma command_entries:
  "uart5_rx_entry cs (q, w) = Some (p, v) \<Longrightarrow> commanded w v \<and> same_outbox q p"
  "uart4_rx_entry cs (q, w) = Some (p, v) \<Longrightarrow> commanded w v \<and> same_outbox q p"
proof -
  assume r: "uart5_rx_entry cs (q, w) = Some (p, v)"
  show "commanded w v \<and> same_outbox q p"
    by (rule rx_entry_keeps [OF r [unfolded uart5_rx_entry_eq] commanded_refl], rule header_scan_keeps)
      (rule decoders_received(1), assumption+)
next
  assume r: "uart4_rx_entry cs (q, w) = Some (p, v)"
  show "commanded w v \<and> same_outbox q p"
    by (rule rx_entry_keeps [OF r [unfolded uart4_rx_entry_eq] commanded_refl], rule header_scan_keeps)
      (rule decoders_received(2), assumption+)
qed

lemma host_receives:
  assumes "car_ok w" "short_reads cs"
  shows "\<exists>p v. uart5_rx_entry cs (port5 w, w) = Some (p, v) \<and> car_ok (v\<lparr>port5 := p\<rparr>)"
proof -
  have l: "links w" "soft_rx.port.port_settled (port5 w)" using car_okD(2) [OF assms(1)] by (simp_all add: links_defs)
  obtain p v where r: "uart5_rx_entry cs (port5 w, w) = Some (p, v)" "soft_rx.port.port_settled p"
    using soft_rx.port.rx_entry_ok [OF l(2) short_readsD(1) [OF assms(2)], of w] by (auto simp: uart5_rx_entry_eq)
  have k: "received w v \<and> same_outbox (port5 w) p"
    using command_entries(1) [OF r(1)] by (simp add: commanded_def)
  then have v: "car_ok v" "port5 v = port5 w" using assms(1) received_ports(4) [of w v] by (auto simp: received_def)
  then have "links (v\<lparr>port5 := p\<rparr>)" using k r(2) car_okD(2) [OF v(1)] by (intro links_ports) simp_all
  then show ?thesis using r(1) car_ports(4) [OF v(1)] by blast
qed

lemma camera_receives:
  assumes "car_ok w" "short_reads cs"
  shows "\<exists>p v. uart4_rx_entry cs (port4 w, w) = Some (p, v) \<and> car_ok (v\<lparr>port4 := p\<rparr>)"
proof -
  have l: "links w" "cam_rx.port.port_settled (port4 w)" using car_okD(2) [OF assms(1)] by (simp_all add: links_defs)
  obtain p v where r: "uart4_rx_entry cs (port4 w, w) = Some (p, v)" "cam_rx.port.port_settled p"
    using cam_rx.port.rx_entry_ok [OF l(2) short_readsD(1) [OF assms(2)], of w] by (auto simp: uart4_rx_entry_eq)
  have k: "received w v \<and> same_outbox (port4 w) p"
    using command_entries(2) [OF r(1)] by (simp add: commanded_def)
  then have v: "car_ok v" "port4 v = port4 w" using assms(1) received_ports(3) [of w v] by (auto simp: received_def)
  then have "links (v\<lparr>port4 := p\<rparr>)" using k r(2) car_okD(2) [OF v(1)] by (intro links_ports) simp_all
  then show ?thesis using r(1) car_ports(3) [OF v(1)] by blast
qed

lemma attitude_receives:
  assumes "car_ok w" "short_reads cs"
  shows "\<exists>p v. usart2_rx_entry cs (port2 w, w) = Some (p, v) \<and> car_ok (v\<lparr>port2 := p\<rparr>)"
proof -
  have l: "links w" "imu_rx.port.port_settled (port2 w)" using car_okD(2) [OF assms(1)] by (simp_all add: links_defs)
  obtain p v where r: "usart2_rx_entry cs (port2 w, w) = Some (p, v)" "imu_rx.port.port_settled p"
    using imu_rx.port.rx_entry_ok [OF l(2) short_readsD(2) [OF assms(2)], of w] by (auto simp: usart2_rx_entry_eq)
  have k: "received w v \<and> same_outbox (port2 w) p"
    by (rule rx_entry_keeps [OF r(1) [unfolded usart2_rx_entry_eq] received_refl], rule scan_frames_keeps)
      (rule decoders_received(3), assumption+)
  then have v: "car_ok v" "port2 v = port2 w" using assms(1) received_ports(2) [of w v] by (auto simp: received_def)
  then have "links (v\<lparr>port2 := p\<rparr>)" using k r(2) car_okD(2) [OF v(1)] by (intro links_ports) simp_all
  then show ?thesis using r(1) car_ports(2) [OF v(1)] by blast
qed

lemma distance_receives:
  assumes "car_ok w" "short_reads cs"
  shows "\<exists>p s. usart1_rx_entry cs (port1 w, vl53 w) = Some (p, s) \<and> car_ok (w\<lparr>vl53 := s, port1 := p\<rparr>)"
proof -
  have l: "links w" "vl53_rx.port.port_settled (port1 w)" using car_okD(2) [OF assms(1)] by (simp_all add: links_defs)
  obtain p s where r: "usart1_rx_entry cs (port1 w, vl53 w) = Some (p, s)" "vl53_rx.port.port_settled p"
    using vl53_rx.port.rx_entry_ok [OF l(2) short_readsD(2) [OF assms(2)], of "vl53 w"] by (auto simp: usart1_rx_entry_eq)
  have k: "same_outbox (port1 w) p"
    using rx_entry_keeps [OF r(1) [unfolded usart1_rx_entry_def], where P = "\<lambda>_. True"] by simp
  have v: "car_ok (w\<lparr>vl53 := s\<rparr>)" using assms(1) by simp
  then have "links (w\<lparr>vl53 := s, port1 := p\<rparr>)" using k r(2) car_okD(2) [OF v(1)] by (intro links_ports) simp_all
  then show ?thesis using r(1) car_ports(1) [OF v] by blast
qed

lemma voice_receives:
  assumes "car_ok w" "short_reads cs"
  shows "\<exists>p. usart6_rx_entry cs (port6 w) = Some p \<and> car_ok (w\<lparr>port6 := p\<rparr>)"
proof -
  have l: "links w" "uart_port_wf (port6 w)" using car_okD(2) [OF assms(1)] by (simp_all add: links_defs)
  have "\<exists>p. for_each usart6_rx_chunk (takeWhile (\<lambda>c. c \<noteq> []) cs) (port6 w) = Some p \<and>
      (uart_port_wf p \<and> same_outbox (port6 w) p)"
  proof (rule for_each_invariant)
    show "uart_port_wf (port6 w) \<and> same_outbox (port6 w) (port6 w)" using l by (simp add: same_outbox_def)
    fix c p assume "c \<in> set (takeWhile (\<lambda>c. c \<noteq> []) cs)" "uart_port_wf p \<and> same_outbox (port6 w) p"
    then show "\<exists>q. usart6_rx_chunk c p = Some q \<and> uart_port_wf q \<and> same_outbox (port6 w) q"
      using assms(2) set_takeWhileD [of c "\<lambda>c. c \<noteq> []" cs]
      by (auto simp: usart6_rx_chunk_def USART6_DataProc_def uart_port_wf_def same_outbox_def Let_def short_reads_def MAX_LEN_def)
  qed
  then obtain p where "usart6_rx_entry cs (port6 w) = Some p" "uart_port_wf p" "same_outbox (port6 w) p"
    by (auto simp: usart6_rx_entry_def)
  then show ?thesis using car_ports(5) [OF assms(1)] links_ports(5) [OF l(1)] by blast
qed


subsection \<open>The console\<close>

text \<open>The shell's thread and printing change the kernel's record of the console only.\<close>

lemma links_console:
  assumes "links w" "console_up k" "heap_ok k = heap_ok (rtos w)" "\<And>n. n \<noteq> ''uart1'' \<Longrightarrow> devs k n = devs (rtos w) n"
  shows "links (w\<lparr>rtos := k\<rparr>)"
proof -
  have "port_ready n k q = port_ready n (rtos w) q" if "n \<noteq> ''uart1''" for n q by (rule ready_elsewhere(1) [OF assms(4) [OF that] assms(3)])
  moreover have "usart3_ready (k, d) = usart3_ready (rtos w, d)" for d by (rule usart3_ready_elsewhere [OF assms(4)]) simp
  moreover have "console_ready k (port1 w)" using assms(1-3) by (simp add: links_def console_ready_def)
  ultimately show ?thesis using assms(1) by (simp add: links_defs)
qed

lemma car_console:
  assumes "car_ok w"
  shows "car_ok (w\<lparr>rtos := rt_kputs s (rtos w)\<rparr>)" "\<exists>k. finsh_thread_start (rtos w) = Some k \<and> car_ok (w\<lparr>rtos := k\<rparr>)"
proof -
  have l: "links w" and u: "console_up (rtos w)"
    using car_okD(2) [OF assms] by (simp_all add: links_def console_ready_def)
  have c: "links (w\<lparr>rtos := k\<rparr>) \<Longrightarrow> car_ok (w\<lparr>rtos := k\<rparr>)" for k using assms by (simp add: car_defs)
  show "car_ok (w\<lparr>rtos := rt_kputs s (rtos w)\<rparr>)" by (intro c links_console [OF l] kputs_up [OF u])
  obtain k where "finsh_thread_start (rtos w) = Some k" "console_up k" "heap_ok k = heap_ok (rtos w)"
    "\<forall>n. n \<noteq> ''uart1'' \<longrightarrow> devs k n = devs (rtos w) n" using shell_start_up [OF u] by blast
  then show "\<exists>k. finsh_thread_start (rtos w) = Some k \<and> car_ok (w\<lparr>rtos := k\<rparr>)"
    by (intro exI [of _ k] conjI c links_console [OF l]) simp_all
qed

subsection \<open>Every interleaving\<close>

text \<open>
  The steps: a turn of the schedule, a refresh of the display (with anything on the stack), a turn
  of the buzzer, an edge of the sensor's line, a wake-up of a receive thread that has been created
  (with anything on its line), the start of the shell, a text printed on the console (by the shell or
  the kernel, whatever it is), new wheel counts and new values at the converter.
\<close>

inductive car_step :: "(f32 \<Rightarrow> f32 \<Rightarrow> f32) \<Rightarrow> schedule \<Rightarrow> schedule \<Rightarrow> bool" for powf where
  turn: "schedule_turn powf w = Some v \<Longrightarrow> car_step powf w v"
| refresh: "length cs = 20 \<Longrightarrow> main_turn cs w = Some v \<Longrightarrow> car_step powf w v"
| buzzer: "car_step powf w (buzzer_alarm_entry w)"
| edge: "dht_step (Edge lvl t) w = Some v \<Longrightarrow> car_step powf w v"
| distance: "rx_thread (port1 w) \<noteq> None \<Longrightarrow> short_reads cs \<Longrightarrow> usart1_rx_entry cs (port1 w, vl53 w) = Some (p, s) \<Longrightarrow>
    car_step powf w (w\<lparr>vl53 := s, port1 := p\<rparr>)"
| attitude: "rx_thread (port2 w) \<noteq> None \<Longrightarrow> short_reads cs \<Longrightarrow> usart2_rx_entry cs (port2 w, w) = Some (p, v) \<Longrightarrow>
    car_step powf w (v\<lparr>port2 := p\<rparr>)"
| camera: "rx_thread (port4 w) \<noteq> None \<Longrightarrow> short_reads cs \<Longrightarrow> uart4_rx_entry cs (port4 w, w) = Some (p, v) \<Longrightarrow>
    car_step powf w (v\<lparr>port4 := p\<rparr>)"
| host: "rx_thread (port5 w) \<noteq> None \<Longrightarrow> short_reads cs \<Longrightarrow> uart5_rx_entry cs (port5 w, w) = Some (p, v) \<Longrightarrow>
    car_step powf w (v\<lparr>port5 := p\<rparr>)"
| voice: "rx_thread (port6 w) \<noteq> None \<Longrightarrow> short_reads cs \<Longrightarrow> usart6_rx_entry cs (port6 w) = Some p \<Longrightarrow>
    car_step powf w (w\<lparr>port6 := p\<rparr>)"
| shell_start: "finsh_thread_start (rtos w) = Some k \<Longrightarrow> car_step powf w (w\<lparr>rtos := k\<rparr>)"
| print: "car_step powf w (w\<lparr>rtos := rt_kputs str (rtos w)\<rparr>)"
| world: "car_step powf w (w\<lparr>CNT := n, adc_in := a\<rparr>)"

inductive_cases car_stepE: "car_step powf w v"

lemma car_step_ok:
  assumes "gives_floats powf" "car_step powf w v" "car_ok w" shows "car_ok v"
  using assms(2)
proof cases
  case turn then show ?thesis using schedule_turn_car [OF assms(1,3)] by simp
next
  case (refresh cs) then show ?thesis using main_turn_car [OF _ assms(3), of cs] by simp
next
  case buzzer then show ?thesis using assms(3) by (simp add: car_keeps)
next
  case (edge lvl t) then show ?thesis using edge_car [OF assms(3), of lvl t] by simp
next
  case (distance cs p s) then show ?thesis using distance_receives [OF assms(3), of cs] by simp
next
  case (attitude cs p u) then show ?thesis using attitude_receives [OF assms(3), of cs] by simp
next
  case (camera cs p u) then show ?thesis using camera_receives [OF assms(3), of cs] by simp
next
  case (host cs p u) then show ?thesis using host_receives [OF assms(3), of cs] by simp
next
  case (voice cs p) then show ?thesis using voice_receives [OF assms(3), of cs] by simp
next
  case (shell_start k) then show ?thesis using car_console(2) [OF assms(3)] by simp
next
  case (print str) then show ?thesis using car_console(1) [OF assms(3)] by simp
next
  case (world n a) then show ?thesis using assms(3) by simp
qed

definition all_threads_run :: "(f32 \<Rightarrow> f32 \<Rightarrow> f32) \<Rightarrow> schedule \<Rightarrow> bool" where
  "all_threads_run powf w \<longleftrightarrow> schedule_turn powf w \<noteq> None \<and>
     (\<forall>cs. length cs = 20 \<longrightarrow> main_turn cs w \<noteq> None) \<and> (\<forall>lvl t. dht_step (Edge lvl t) w \<noteq> None) \<and>
     finsh_thread_start (rtos w) \<noteq> None \<and>
     (\<forall>cs. short_reads cs \<longrightarrow> usart1_rx_entry cs (port1 w, vl53 w) \<noteq> None \<and> usart2_rx_entry cs (port2 w, w) \<noteq> None \<and>
        uart4_rx_entry cs (port4 w, w) \<noteq> None \<and> uart5_rx_entry cs (port5 w, w) \<noteq> None \<and>
        usart6_rx_entry cs (port6 w) \<noteq> None)"

lemma car_ok_runs:
  assumes "gives_floats powf" "car_ok w" shows "all_threads_run powf w"
  using schedule_turn_car [OF assms] main_turn_car [OF _ assms(2)] edge_car [OF assms(2)] distance_receives [OF assms(2)]
    attitude_receives [OF assms(2)] camera_receives [OF assms(2)] host_receives [OF assms(2)] voice_receives [OF assms(2)]
    car_console(2) [OF assms(2)]
  unfolding all_threads_run_def by fastforce

text \<open>
  C1 (type). From the state in which the board's and the components' start leaves the kernel, with
  \<^verbatim>\<open>uart1\<close> open as the console in stream mode, the start of \<^verbatim>\<open>main\<close> comes through, and after any
  interleaving of the schedule, the display, the buzzer, the receive threads, the sensor's interrupt
  and the console (the shell's start, whatever is printed), with any bytes on the five lines, any
  edges, wheel counts and converter values, every thread can take its next step: none ever leaves one
  of its arrays, and the invariants of all modules hold together. The library's power function may return any float, and the display must not keep the data line high
  for 251 reads on end.
\<close>

theorem firmware_never_faults:
  assumes "gives_floats powf" "\<And>n. \<exists>i<251. \<not> sda (n + i)"
  shows "\<exists>w. main_start clk (power_up adc sda) = Some w \<and>
    (\<forall>v. (car_step powf)\<^sup>*\<^sup>* w v \<longrightarrow> car_ok v \<and> all_threads_run powf v)"
proof -
  obtain w where w: "main_start clk (power_up adc sda) = Some w" "car_ok w"
    using main_start_car power_up_powered assms(2) by blast
  have "car_ok v" if "(car_step powf)\<^sup>*\<^sup>* w v" for v
    using that by (induction rule: rtranclp_induct) (auto intro: w(2) car_step_ok [OF assms(1)])
  then show ?thesis using w(1) car_ok_runs [OF assms(1)] by blast
qed

theorem firmware_never_faults_witness:
  "\<exists>w. main_start 168000000 (power_up (\<lambda>_ _. 2000) (\<lambda>k. k mod 250 \<noteq> 0)) = Some w \<and>
    (\<forall>v. (car_step (\<lambda>_ _. Fin 5))\<^sup>*\<^sup>* w v \<longrightarrow> car_ok v \<and> all_threads_run (\<lambda>_ _. Fin 5) v)"
proof (rule firmware_never_faults)
  show "gives_floats (\<lambda>_ _. Fin 5)" by (simp add: gives_floats_def)
  show "\<exists>i<251. \<not> (n + i) mod 250 \<noteq> 0" for n :: nat
  proof (intro exI conjI)
    show "250 - n mod 250 < 251" by simp
    have "n + (250 - n mod 250) = 250 * (n div 250) + 250"
      using div_mult_mod_eq [of n 250] mod_less_divisor [of 250 n] by linarith
    then show "\<not> (n + (250 - n mod 250)) mod 250 \<noteq> 0" by simp
  qed
qed

end
