(* ===== verification/Car_View.thy ===== *)
theory Car_View
  imports Firmware
begin

text \<open>
  What the modules of the schedule leave alone beside their invariants: the soil's alarm flag with all
  that decides it, and the heading of the car with the port it comes from. The chains of cause and
  effect through several modules (\<^verbatim>\<open>Watering\<close>, \<^verbatim>\<open>Attitude_Line\<close>) rest on these frames.
\<close>

text \<open>The flag, the consent, the plant, the converter's inputs and the port of the relay.\<close>

definition soil_view :: "'a sensors_scheme \<Rightarrow> u8 \<times> u8 \<times> u8 \<times> (u32 \<Rightarrow> nat \<Rightarrow> u16) \<times> (u32 \<Rightarrow> nat) \<times> u16" where
  "soil_view w = (Soil_AlarmFlag w, Water_flag w, Soil_PlantType w, adc_in w, adc_n w, ODR w GPIOD)"

text \<open>The heading, the state of the avoidance with the first heading it aims at, and the port of the attitude sensor.\<close>

definition heading_view :: "'a sport_scheme \<Rightarrow> f32 \<times> u8 \<times> f32 \<times> uart_port" where
  "heading_view w = (Yaw w, Modestate w, yaw_temprary w, port2 w)"

definition car_view where
  "car_view w = (soil_view w, heading_view w)"

lemmas view_defs = car_view_def soil_view_def heading_view_def

named_theorems view_keeps \<open>operations beside the view\<close>

lemma send_view [view_keeps]:
  "car_view (host_send cs w) = car_view w" "car_view (cam_send cs w) = car_view w" "car_view (voice_send cs w) = car_view w"
  by (simp_all add: host_send_def cam_send_def voice_send_def view_defs split: prod.split)

lemma vl53_send_view [view_keeps]: "car_view (vl53_send cs w) = car_view w"
  by (simp add: vl53_send_def view_defs split: prod.split)

lemma encoders_view [view_keeps]: "car_view (sample_encoder1 w) = car_view w" "car_view (sample_encoder2 w) = car_view w"
  by (simp_all add: sample_encoder1_eq sample_encoder2_eq view_defs)

lemma SendData_view [view_keeps]: "car_view (SendData_to_PlantSoft w) = car_view w"
proof -
  have f: "car_view (fold (\<lambda>(k, pack). send_at k pack) ts v) = car_view v"
    for ts and v :: "'a sensors_scheme"
    by (induction ts arbitrary: v) (auto simp: send_at_def view_keeps)
  have r: "car_view (refresh_packs w) = car_view w"
    by (simp add: refresh_packs_def view_defs Let_def)
  have c: "car_view (v\<lparr>soft_cnt := c\<rparr>) = car_view v" for c and v :: "'a sensors_scheme" by (simp add: view_defs)
  show ?thesis by (simp add: SendData_unfold send_turns_def Let_def c f r)
qed

lemma My_GetActual_view:
  assumes "My_GetActual name w = Some v" shows "car_view v = car_view w"
proof -
  have b: "car_view (w\<lparr>Debug_String := x\<rparr>) = car_view w" for x by (simp add: view_defs)
  show ?thesis
    using assms by (auto simp: My_GetActual_def bind_eq_Some_conv view_keeps b Let_def split: option.splits if_splits)
qed

lemma SetMode_view [view_keeps]: "car_view (Maixcam_SetMode m w) = car_view w"
  by (rule Maixcam_SetMode_frame [of m w]) (simp add: view_defs)

lemma light_view [view_keeps]: "car_view (LightContral f w) = car_view w"
proof -
  have c: "car_view (PWM_SetCompare3 v u) = car_view u" for v and u :: "'a actuators_scheme"
    by (rule PWM_SetCompare3_frame [of v u]) (simp add: view_defs)
  have "car_view (LED_PWM t w) = car_view w" for t
    by (simp add: LED_PWM_def Let_def c) (simp add: view_defs)
  then show ?thesis by (simp add: LightContral_def)
qed

lemma voice_view [view_keeps]: "car_view (Check_vioce w) = car_view w"
proof -
  have f [simp]: "car_view (u\<lparr>obsvoice_waittime := c\<rparr>) = car_view u" "car_view (u\<lparr>obsvoice_flag := b\<rparr>) = car_view u"
    "car_view (u\<lparr>airvoice_flag := b\<rparr>) = car_view u" "car_view (u\<lparr>soilvoice_flag := b\<rparr>) = car_view u"
    "car_view (u\<lparr>humivoice_flag := b\<rparr>) = car_view u" "car_view (u\<lparr>voice_pack := ps\<rparr>) = car_view u"
    for c b ps and u :: "'a sensors_scheme" by (simp_all add: view_defs)
  have a [simp]: "car_view (ASR_VOICE c u) = car_view u" for c and u :: "'a sensors_scheme"
    by (simp add: ASR_VOICE_def view_keeps Let_def)
  have "car_view (voice_alarm u) = car_view u" "car_view (voice_rearm u) = car_view u" for u :: "'a sensors_scheme"
    by (simp_all add: voice_alarm_def voice_rearm_def Let_def)
  then show ?thesis by (simp add: Check_vioce_def Let_def)
qed

lemma sensor_view [view_keeps]: "car_view (DHT11_Task10ms w) = car_view w"
  by (simp add: DHT11_Task10ms_def DHT11_Process_Frame_def DHT11_Handle_Failed_Frame_def DHT11_Enter_Idle_def
    DHT11_Start_Request_def DHT11_Release_And_Listen_def dht_ops view_defs Let_def split: dht11_state_t.split)


lemmas soil_keeps = view_keeps [unfolded car_view_def prod.inject, THEN conjunct1]

lemmas heading_keeps = view_keeps [unfolded car_view_def prod.inject, THEN conjunct2]

text \<open>The motion modes leave the soil alone.\<close>

lemma modes_soil: "soil_view (MaixCam_Sport w) = soil_view w"
proof -
  have "beside (MaixCam_Sport w) = beside w" using sport_frames(2) [of w w] by (simp add: leaves_rest_def)
  then have b: "Soil_AlarmFlag (MaixCam_Sport w) = Soil_AlarmFlag w" "Water_flag (MaixCam_Sport w) = Water_flag w"
    "Soil_PlantType (MaixCam_Sport w) = Soil_PlantType w" "ODR (MaixCam_Sport w) GPIOD = ODR w GPIOD"
    "sport.more (MaixCam_Sport w) = sport.more w" by (simp_all add: beside_def)
  from b(5) have "adc_in (MaixCam_Sport w) = adc_in w" "adc_n (MaixCam_Sport w) = adc_n w"
    by (cases w; cases "MaixCam_Sport w"; simp)+
  then show ?thesis using b by (simp add: soil_view_def)
qed


text \<open>The readings set the flag from the samples.\<close>

lemma readings_view:
  "Soil_AlarmFlag (schedule_readings powf w) =
    Soil_AlarmFlag (Soil_UpdateAlarmFlag (w\<lparr>percentSoil := soil_of_mean (fmean 5 w)\<rparr>))"
  "ODR (schedule_readings powf w) = ODR w" "heading_view (schedule_readings powf w) = heading_view w"
proof -
  obtain x v1 where 1: "Soil_GetData_Percent w = (x, v1)" by fastforce
  define v2 where "v2 = Soil_UpdateAlarmFlag (v1\<lparr>OLED_SoilPercent := x\<rparr>)"
  obtain y v3 where 2: "MQ2_GetData_PPM powf v2 = (y, v3)" by fastforce
  define v4 where "v4 = MQ2_UpdateAlarmFlag (v3\<lparr>OLED_MQ2ppm := y\<rparr>)"
  obtain z v5 where 3: "MQ135_GetData_PPM powf v4 = (z, v5)" by fastforce
  have soil: "percentSoil v1 = soil_of_mean (fmean 5 w)" "Soil_PlantType v1 = Soil_PlantType w"
    "Soil_AlarmFlag v1 = Soil_AlarmFlag w" "ODR v1 = ODR w" "heading_view v1 = heading_view w"
    by (rule Soil_reading [of w]; use 1 in \<open>auto simp: heading_view_def elim!: adc_movedE\<close>)+
  have gas: "Soil_AlarmFlag v3 = Soil_AlarmFlag v2 \<and> ODR v3 = ODR v2 \<and> heading_view v3 = heading_view v2"
    "Soil_AlarmFlag v5 = Soil_AlarmFlag v4 \<and> ODR v5 = ODR v4 \<and> heading_view v5 = heading_view v4"
    by (rule MQ2_reading [of v2 powf]; use 2 in \<open>auto simp: heading_view_def elim!: adc_movedE\<close>)
      (rule MQ135_reading [of v4 powf]; use 3 in \<open>auto simp: heading_view_def elim!: adc_movedE\<close>)
  have a: "Soil_AlarmFlag v2 = Soil_AlarmFlag (Soil_UpdateAlarmFlag (w\<lparr>percentSoil := soil_of_mean (fmean 5 w)\<rparr>))"
    "ODR v2 = ODR w" "heading_view v2 = heading_view w"
    using soil(5) by (simp_all add: v2_def heading_view_def Soil_UpdateAlarmFlag_def soil(1-4) Let_def split: prod.split)
  have b: "Soil_AlarmFlag v4 = Soil_AlarmFlag v3" "ODR v4 = ODR v3" "heading_view v4 = heading_view v3"
    by (simp_all add: v4_def heading_view_def MQ2_UpdateAlarmFlag_def)
  have r: "schedule_readings powf w = DH11_UpdateAlarmFlag ((MQ135_UpdateAlarmFlag (v5\<lparr>OLED_MQ135ppm := z\<rparr>))
      \<lparr>My_temp := DHT11_GetTemperature (MQ135_UpdateAlarmFlag (v5\<lparr>OLED_MQ135ppm := z\<rparr>)),
       My_humi := DHT11_GetHumidity (MQ135_UpdateAlarmFlag (v5\<lparr>OLED_MQ135ppm := z\<rparr>))\<rparr>)"
    by (simp add: schedule_readings_def 1 Let_def flip: v2_def)
      (simp add: 2 Let_def flip: v4_def, simp add: 3 Let_def MQ135_UpdateAlarmFlag_def DHT11_GetHumidity_def DHT11_GetTemperature_def)
  show "Soil_AlarmFlag (schedule_readings powf w) =
      Soil_AlarmFlag (Soil_UpdateAlarmFlag (w\<lparr>percentSoil := soil_of_mean (fmean 5 w)\<rparr>))"
    "ODR (schedule_readings powf w) = ODR w" "heading_view (schedule_readings powf w) = heading_view w"
    using a b gas by (simp_all add: r DH11_UpdateAlarmFlag_def MQ135_UpdateAlarmFlag_def heading_view_def)
qed

end
