(* ===== verification/Attitude_Line.thy ===== *)
theory Attitude_Line
  imports Car_View
begin

text \<open>
  The attitude sensor is on USART2. Its driver (\<^verbatim>\<open>Hardware/usart2_port.c\<close>) opens the line and starts the
  receive thread on the first transmission or on \<^verbatim>\<open>Usart2DMA_Init\<close>, but the program never calls the
  latter, and transmits to the sensor only in \<^verbatim>\<open>Time_Calibration\<close>, which nothing calls. What follows for
  the heading of the car is proved here of the whole firmware.
\<close>

subsection \<open>The motion modes at a heading that is always zero\<close>

definition aim_view :: "'a sport_scheme \<Rightarrow> f32 \<times> u8 \<times> f32" where
  "aim_view w = (Yaw w, Modestate w, yaw_temprary w)"

text \<open>Either no obstacle was met yet, or the car aims at 180 degrees in the first state of the avoidance.\<close>

definition never_turned :: "'a sport_scheme \<Rightarrow> bool" where
  "never_turned w \<longleftrightarrow> Yaw w = Fin 0 \<and> (Modestate w = 0 \<or> Modestate w = 1 \<and> yaw_temprary w = Fin 180)"

lemma never_turned_view: "aim_view v = aim_view w \<Longrightarrow> never_turned v = never_turned w"
  by (simp add: aim_view_def never_turned_def)

lemma aim_of_obs: "obs_view v = obs_view w \<Longrightarrow> aim_view v = aim_view w"
  by (simp add: obs_view_def aim_view_def)

lemma fields_turned [simp]:
  "never_turned (w\<lparr>leaf_time_cnt := c\<rparr>) = never_turned w" "never_turned (w\<lparr>Plantleaf_insflag := f\<rparr>) = never_turned w"
  "never_turned (w\<lparr>Modestate_light := l\<rparr>) = never_turned w" "never_turned (w\<lparr>starttime_cnt := t\<rparr>) = never_turned w"
  "never_turned (w\<lparr>Milleage1_flag := f1, Milleage2_flag := f2\<rparr>) = never_turned w"
  "never_turned (w\<lparr>time_cntobs := t\<rparr>) = never_turned w"
  by (simp_all add: never_turned_def)

lemma drive_turned [simp]:
  "never_turned (Motor_SetCCR c1 c2 w) = never_turned w" "never_turned (Motor_PidTarget_Acce s1 s2 w) = never_turned w"
  "never_turned (stepper f w) = never_turned w"
  using Motor_SetCCR_view Acce_view stepper_keeps(1) by (metis aim_of_obs never_turned_view)+

lemma first_turn:
  assumes "drive_safe w" "Yaw w = Fin 0" "Modestate w = 1" "yaw_temprary w = Fin 180"
  shows "never_turned (obs_turn yaw_temprary 2 w)"
proof -
  have c: "wrap_yaw (Fin 180) = Fin 180" by (simp add: wrap_yaw_def Let_def f32_round_rep)
  define v where "v = Car_Turn (Fin 180) w"
  have d: "loop_safe w" "trun_ok (Pid_Trun w)" "f32_mag 180 (Fin 180)" "f32_mag 180 (Yaw w)"
    using assms(1) by (simp_all add: drive_safe_def)
  have v: "Target (Pid_Trun v) = Fin 180" "turns.more v = turns.more w" "Yaw v = Yaw w"
    unfolding v_def by (rule Car_Turn_step [OF d])+
  have "fabsf (fsub (Fin 0) (Fin 180)) = Fin 180" by (simp add: f32_round_rep fsub_def)
  then have "obs_turn yaw_temprary 2 w = v\<lparr>time_cntobs := 0\<rparr>"
    using assms v by (simp add: obs_turn_def Yaw_change_def c Let_def f32_round_rep flip: v_def)
  then show ?thesis using assms v more_view [OF v(2)] by (simp add: never_turned_def)
qed

lemma watch_turned: "never_turned w \<Longrightarrow> Modestate w = 0 \<Longrightarrow> never_turned (obs_watch w)"
  by (auto simp: obs_watch_def goto_def never_turned_def Let_def f32_round_rep)

lemma Finding_obs_turned: "drive_safe w \<Longrightarrow> never_turned w \<Longrightarrow> never_turned (Finding_obs w)"
  using first_turn [of w] watch_turned [of w]
  by (auto simp: Finding_obs_def obs_machine_def Let_def) (auto simp: never_turned_def)

lemma light_turned [simp]: "never_turned (Plantleaf_ins w) = never_turned w" "never_turned (Finding_light w) = never_turned w"
  by (simp_all add: Plantleaf_ins_def Finding_light_def Let_def)

text \<open>The entry of the modes, branch by branch.\<close>

definition astray :: "'a sport_scheme \<Rightarrow> bool" where
  "astray w \<longleftrightarrow> sport_safe w \<and> never_turned w"

lemma astray_branch:
  "(b \<Longrightarrow> astray w) \<Longrightarrow> (\<not> b \<Longrightarrow> astray v) \<Longrightarrow> astray (if b then w else v)"
  "astray w \<Longrightarrow> (\<And>v. astray v \<Longrightarrow> astray (f v)) \<Longrightarrow> astray (Let w f)"
  by simp_all

lemma astray_modes:
  assumes "astray w"
  shows "astray (w\<lparr>starttime_cnt := c\<rparr>)" "astray (Plantleaf_ins w)" "astray (Finding_light w)" "astray (Finding_obs w)"
  using assms Finding_obs_turned [of w]
  by (simp_all add: astray_def Plantleaf_ins_safe Finding_light_safe Finding_obs_safe) (simp add: sport_safe_def)

lemma modes_turned: "astray w \<Longrightarrow> astray (MaixCam_Sport w)"
  unfolding MaixCam_Sport_def by (intro astray_branch astray_modes | assumption)+

subsection \<open>The line is never opened\<close>

text \<open>What the port needs for its receive thread, with the state of the avoidance.\<close>

definition blind :: "'a schedule_scheme \<Rightarrow> bool" where
  "blind w \<longleftrightarrow> never_turned w \<and> rx_thread (port2 w) = None"

lemma blind_view: "heading_view v = heading_view w \<Longrightarrow> blind v = blind w"
  by (simp add: heading_view_def blind_def never_turned_def)

lemma blind_keeps:
  assumes "car_view v = car_view w" shows "blind v = blind w"
  using assms blind_view [of v w] by (simp add: car_view_def)

lemma water_view_heading: "heading_view (water_auto m a w) = heading_view w"
  by (rule water_auto_frame [of m a w]) (simp add: heading_view_def)

lemma modes_blind: "sport_safe w \<Longrightarrow> blind w \<Longrightarrow> blind (MaixCam_Sport w)"
proof -
  assume "sport_safe w" "blind w"
  moreover from this have "astray (MaixCam_Sport w)" by (intro modes_turned) (simp add: astray_def blind_def)
  moreover have "port2 (MaixCam_Sport w) = port2 w"
    using sport_frames(2) [of w w] by (simp add: leaves_rest_def beside_def)
  ultimately show ?thesis by (simp add: blind_def astray_def)
qed

lemma tasks_blind:
  assumes "schedule_tasks w = Some v" "car_ok w" "blind w" shows "blind v"
proof -
  define w1 where "w1 = SendData_to_PlantSoft (sample_encoder2 (sample_encoder1 w))"
  have 1: "car_ok w1" using assms(2) by (simp add: w1_def car_keeps)
  obtain w2 where g: "My_GetActual MY_YAW w1 = Some w2"
    using assms(1) by (auto simp: schedule_tasks_def Let_def bind_eq_Some_conv w1_def)
  have 2: "car_ok w2" using My_GetActual_car [OF 1, of MY_YAW] g by auto
  define w3 where "w3 = LightContral (lightONOFF_flag (Maixcam_SetMode (MaixMode_flag w2) w2)) (Maixcam_SetMode (MaixMode_flag w2) w2)"
  define w4 where "w4 = Check_vioce (water_auto (Soil_AlarmFlag w3) (Water_flag w3) w3)"
  have 4: "car_ok w4" using 2 by (simp add: w4_def w3_def car_keeps)
  have v: "v = DHT11_Task10ms (MaixCam_Sport w4)"
    using assms(1) g by (simp add: schedule_tasks_def Let_def w1_def w3_def w4_def)
  have "heading_view w4 = heading_view w"
    using My_GetActual_view [OF g] by (simp add: w4_def w3_def w1_def heading_keeps water_view_heading car_view_def)
  then have "blind (MaixCam_Sport w4)"
    using car_okD(1) [OF 4] assms(3) blind_view [of w4 w] by (intro modes_blind) simp_all
  then show ?thesis by (simp add: v blind_view [OF heading_keeps(11)])
qed


lemma turn_blind:
  assumes "schedule_turn powf w = Some v" "car_ok w" "blind w" shows "blind v"
proof -
  define w0 where "w0 = w\<lparr>sched_cnt := sched_cnt w + 1\<rparr>"
  have 0: "car_ok w0" "blind w0" using assms(2,3) by (simp_all add: w0_def blind_def never_turned_def)
  obtain u where u: "schedule_tasks w0 = Some u"
    using assms(1) by (auto simp: schedule_turn_def bind_eq_Some_conv w0_def)
  have "heading_view v = heading_view (schedule_readings powf u)"
    using assms(1) u by (auto simp: schedule_turn_def rt_thread_mdelay_def w0_def Let_def heading_view_def)
  then show ?thesis using tasks_blind [OF u 0] blind_view [of v u] by (simp add: readings_view)
qed

lemma bus_only_heading: "bus_only w v \<Longrightarrow> heading_view v = heading_view w"
proof -
  assume "bus_only w v"
  then have "v = w\<lparr>ODR := ODR v, GPIOB_MODER := GPIOB_MODER v, GPIOB_OSPEEDR := GPIOB_OSPEEDR v, bus := bus v, sda_n := sda_n v\<rparr>"
    by (simp add: bus_only_def)
  then show ?thesis by (rule ssubst) (simp add: heading_view_def)
qed

lemma refresh_blind:
  assumes "main_turn cs w = Some v" "length cs = 20" "car_ok w" "blind w" shows "blind v"
proof -
  obtain hs where "resting hs w" using assms(3) by (auto simp: car_ok_def)
  from refresh_draws [OF car_okD(6) [OF assms(3)] assms(2) this car_okD(7) [OF assms(3)]]
  obtain u where u: "main_show_oled_data cs w = Some u" "bus_only w u" by blast
  then have "heading_view v = heading_view w"
    using assms(1) bus_only_heading [OF u(2)] by (auto simp: main_turn_def rt_thread_mdelay_def heading_view_def)
  then show ?thesis using assms(4) blind_view by blast
qed

lemma heading_fields [simp]:
  "heading_view (w\<lparr>s_frame_bytes := fb\<rparr>) = heading_view w" "heading_view (w\<lparr>s_bit_index := k\<rparr>) = heading_view w"
  "heading_view (w\<lparr>s_capture_state := c\<rparr>) = heading_view w" "heading_view (w\<lparr>s_transaction_active := b\<rparr>) = heading_view w"
  "heading_view (w\<lparr>s_frame_done := b\<rparr>) = heading_view w" "heading_view (w\<lparr>s_frame_error := b\<rparr>) = heading_view w"
  "heading_view (w\<lparr>s_high_start_cycle := t\<rparr>) = heading_view w" "heading_view (DHT11_EXTI_Enable e w) = heading_view w"
  "heading_view (line_in lvl t w) = heading_view w"
  by (simp_all add: DHT11_EXTI_Enable_def line_in_def heading_view_def Let_def)

lemma edge_heading: "dht_step (Edge lvl t) w = Some v \<Longrightarrow> heading_view v = heading_view w"
proof -
  have c: "capture_bit n u = Some v' \<Longrightarrow> heading_view v' = heading_view u" for n u and v' :: "'a dht_scheme"
    by (auto simp: capture_bit_def Let_def bind_eq_Some_conv split: if_splits)
  have "DHT11_EXTI_Callback DHT11_GPIO_PIN u = Some v' \<Longrightarrow> heading_view v' = heading_view u" for u and v' :: "'a dht_scheme"
    by (auto simp: DHT11_EXTI_Callback_def Let_def capture_error_def dest!: c split: if_splits dht11_capture_state_t.splits)
  then show "dht_step (Edge lvl t) w = Some v \<Longrightarrow> heading_view v = heading_view w" by fastforce
qed

lemma buzzer_heading: "heading_view (buzzer_alarm_entry w) = heading_view w"
proof -
  have b: "heading_view (beep u) = heading_view u" for u :: "'a actuators_scheme"
    by (simp add: beep_def rt_thread_mdelay_def HAL_GPIO_WritePin_def heading_view_def)
  have "heading_view ((beep ^^ n) w) = heading_view w" for n by (induction n) (simp_all add: b)
  then show ?thesis
    by (simp add: buzzer_alarm_entry_def Buzzer_open_def Buzzer_warm_def Buzzer_close_def rt_thread_mdelay_def
      HAL_GPIO_WritePin_def heading_view_def)
qed

lemma commanded_blind: "commanded w v \<Longrightarrow> blind v = blind w"
proof -
  assume c: "commanded w v"
  then have "Modestate v = Modestate w" "yaw_temprary v = yaw_temprary w" "port2 v = port2 w"
    by (cases w; cases v; simp add: command_defs)+
  then show ?thesis using c by (simp add: blind_def never_turned_def commanded_def)
qed

lemma car_step_blind:
  assumes "car_step powf w v" "car_ok w" "blind w" shows "blind v"
  using assms(1)
proof cases
  case turn then show ?thesis using turn_blind assms(2,3) by blast
next
  case (refresh cs) then show ?thesis using refresh_blind assms(2,3) by blast
next
  case buzzer then show ?thesis using assms(3) blind_view [OF buzzer_heading [of w]] by simp
next
  case (edge lvl t) then show ?thesis using assms(3) blind_view [OF edge_heading] by blast
next
  case (attitude cs p u) then show ?thesis using assms(3) by (simp add: blind_def)
next
  case (camera cs p u)
  then have "blind u" using commanded_blind [of w u] command_entries(2) [of cs "port4 w" w p u] assms(3) by simp
  then show ?thesis using camera(1) by (simp add: blind_def never_turned_def)
next
  case (host cs p u)
  then have "blind u" using commanded_blind [of w u] command_entries(1) [of cs "port5 w" w p u] assms(3) by simp
  then show ?thesis using host(1) by (simp add: blind_def never_turned_def)
qed (use assms(3) in \<open>auto simp: blind_def never_turned_def\<close>)

subsection \<open>From power-up on\<close>

text \<open>The initialisations before the display's.\<close>

lemmas heading_inits = heading_view_def hal_calls_def hal_def HAL_GPIO_WritePin_def HAL_TIM_SET_COMPARE_def HAL_TIM_SET_COUNTER_def Let_def

lemma inits_heading [simp]:
  "heading_view (Soil_Init w) = heading_view w" "heading_view (MQ2_Init w) = heading_view w" "heading_view (MQ135_Init w) = heading_view w"
  by (simp_all add: Soil_Init_def MQ2_Init_def MQ135_Init_def ADCx_Init_def heading_inits)

lemma sensor_init_heading [simp]: "heading_view (DHT11_Init clk w) = heading_view w"
  by (simp add: DHT11_Init_def DHT11_DWT_Init_def DHT11_EXTI_Init_def DHT11_EXTI_Enable_def DHT11_Set_Output_def DHT11_Line_High_def
    heading_inits)

lemma output_inits_heading [simp]:
  "heading_view (Buzzer_Init w) = heading_view w" "heading_view (LED_PWM_Init w) = heading_view w" "heading_view (water_Init w) = heading_view w"
  by (simp_all add: Buzzer_Init_def LED_PWM_Init_def water_Init_def heading_inits split: option.split)

lemma drive_inits_heading [simp]:
  "heading_view (PWM_Init w) = heading_view w" "heading_view (Encoder_Init w) = heading_view w" "heading_view (PID_Init w) = heading_view w"
  by (simp_all add: PWM_Init_def AIN_SET_def BIN_SET_def Encoder_Init_def Encoder1_Init_def Encoder2_Init_def
    encoder_gpio_init_pa6_pa7_def encoder_gpio_init_pd12_pd13_def PID_Init_def heading_inits)

lemma start_blind:
  assumes "powered w" "\<not> motor_pwm_inited w" "main_start clk w = Some v" shows "blind v = blind w"
proof -
  define u where "u = rt_thread_mdelay 100 (IIC_Init (main_modules clk w))"
  have c: "car_ok u" using modules_car [OF assms(1,2)] by (simp add: u_def)
  have d: "\<exists>v. f s = Some v \<and> heading_view v = heading_view s \<and> car_ok v"
    if draw: "draws f ts" and s: "car_ok s" for f ts and s :: "'a schedule_scheme"
  proof -
    obtain hs where "resting hs s" using s by (auto simp: car_ok_def)
    from drawsE [OF draw this car_okD(7) [OF s]] obtain v where "f s = Some v" "bus_only s v" by blast
    then show ?thesis using bus_only_heading draws_car [OF draw s] by auto
  qed
  obtain v1 where 1: "OLED_screens u = Some v1" "heading_view v1 = heading_view u" "car_ok v1" using d [OF screens_draw c] by blast
  have 2: "heading_view (OLED_Clear v1) = heading_view v1" using d [OF draws_fill 1(3)] by (auto simp: OLED_Clear_def)
  have "heading_view u = heading_view (main_modules clk w)"
    unfolding u_def by (rule IIC_Init_frame [of "main_modules clk w"]) (simp add: rt_thread_mdelay_def heading_view_def)
  moreover have "heading_view (main_modules clk w) = heading_view w" by (simp add: main_modules_def Let_def)
  moreover have "heading_view (snd (rt_schedule_init x)) = heading_view x" for x :: "'a schedule_scheme"
    by (simp add: rt_schedule_init_def heading_view_def Let_def split: option.split)
  moreover have "v = snd (rt_schedule_init (OLED_Clear v1))"
    using assms(3) 1(1) by (simp add: main_start_def OLED_Init_screens u_def)
  ultimately show ?thesis using 1(2) 2 by (intro blind_view) simp
qed

text \<open>
  C3 (safety). From power-up, in any interleaving of the threads, the interrupt and the inputs, the
  receive thread of the attitude sensor is never created, so the heading stays at the zero it starts
  with. The avoidance then never gets past its first state: once an obstacle has been in the way for
  half a second the car aims at 180 degrees and no later step brings it there, so it turns on the
  spot for as long as it may move.
\<close>

theorem heading_never_known:
  assumes "gives_floats powf" "\<And>n. \<exists>i<251. \<not> sda (n + i)"
  shows "\<exists>w. main_start clk (power_up adc sda) = Some w \<and>
    (\<forall>v. (car_step powf)\<^sup>*\<^sup>* w v \<longrightarrow> rx_thread (port2 v) = None \<and> Yaw v = Fin 0 \<and>
       (Modestate v = 0 \<or> Modestate v = 1 \<and> yaw_temprary v = Fin 180))"
proof -
  note p = power_up_powered [OF assms(2), where adc = adc]
  obtain w where w: "main_start clk (power_up adc sda) = Some w" "car_ok w"
    using main_start_car [OF p] by blast
  have "blind (power_up adc sda)"
    using p(1) by (simp add: blind_def never_turned_def powered_def drive_off_def power_up_ports uart_port0_def)
  then have b: "blind w" using start_blind [OF p w(1)] by simp
  have "car_ok v \<and> blind v" if "(car_step powf)\<^sup>*\<^sup>* w v" for v
    using that by (induction rule: rtranclp_induct) (auto intro: w(2) b car_step_ok [OF assms(1)] car_step_blind)
  then show ?thesis using w(1) by (auto simp: blind_def never_turned_def)
qed

theorem heading_never_known_witness:
  "\<exists>w. main_start 168000000 (power_up (\<lambda>_ _. 2000) (\<lambda>_. False)) = Some w \<and>
    (\<forall>v. (car_step (\<lambda>_ _. Fin 5))\<^sup>*\<^sup>* w v \<longrightarrow> rx_thread (port2 v) = None \<and> Yaw v = Fin 0 \<and>
       (Modestate v = 0 \<or> Modestate v = 1 \<and> yaw_temprary v = Fin 180))"
  by (rule heading_never_known) (auto simp: gives_floats_def intro: exI [of _ 0])

end
