(* ===== verification/Uart_Live.thy ===== *)
theory Uart_Live
  imports Header_Scan Uart_Send
begin

text \<open>
  A port at work: bytes come in by interrupt (\<^verbatim>\<open>rt_hw_serial_isr\<close> of \<^verbatim>\<open>serial.c\<close>, which fills the ring
  and calls the port's callback, which releases the semaphore) while the receive thread
  (\<^verbatim>\<open>xxx_rx_entry\<close> of the five drivers) takes the semaphore and reads until nothing is left. The two
  interleave in steps: an interrupt with some bytes, and one step of the thread, a take of the
  semaphore or one read with the parse that follows it.
\<close>

subsection \<open>The steps\<close>

text \<open>\<^verbatim>\<open>rt_sem_take\<close> with \<^verbatim>\<open>RT_WAITING_FOREVER\<close>: \<open>None\<close> is a thread that waits. A release to a waiting
  thread counts up and is taken at once, which is the hand-over of the kernel.\<close>

definition rt_sem_take :: "u16 \<Rightarrow> u16 option" where
  "rt_sem_take v = (if 0 < v then Some (v - 1) else None)"

record 's live =
  live_k :: rtk
  live_p :: uart_port
  reading :: bool
  live_s :: 's

datatype line_event = Irq bytes | Run

text \<open>The receive interrupt of the device, with the bytes in its register, and the callback.\<close>

definition line_isr :: "string \<Rightarrow> bytes \<Rightarrow> 's live \<Rightarrow> 's live option" where
  "line_isr h bs L = (case devs (live_k L) h of None \<Rightarrow> Some L
   | Some d \<Rightarrow> Option.bind (rt_hw_serial_isr_rx (d\<lparr>hw_rx := hw_rx d @ bs\<rparr>)) (\<lambda>(cb, d').
       Some (L\<lparr>live_k := (live_k L)\<lparr>devs := (devs (live_k L))(h \<mapsto> d')\<rparr>,
         live_p := (case cb of None \<Rightarrow> live_p L | Some _ \<Rightarrow> uart_rx_ind (live_p L))\<rparr>)))"

text \<open>The thread: waiting at the semaphore, or in the inner loop.\<close>

definition line_read :: "'s parser \<Rightarrow> 's live \<Rightarrow> 's live option" where
  "line_read parse L = (case port_dev (live_p L) of None \<Rightarrow> Some L | Some h \<Rightarrow>
     (case devs (live_k L) h of None \<Rightarrow> Some L
      | Some d \<Rightarrow> Option.bind (rt_device_read d MAX_LEN) (\<lambda>(cs, d').
          let L = L\<lparr>live_k := (live_k L)\<lparr>devs := (devs (live_k L))(h \<mapsto> d')\<rparr>\<rparr> in
          if cs = [] then Some (L\<lparr>reading := False\<rparr>)
          else Option.bind (uart_rx_chunk parse cs (live_p L, live_s L)) (\<lambda>(p, s).
            Some (L\<lparr>live_p := p, live_s := s\<rparr>)))))"

definition line_run :: "'s parser \<Rightarrow> 's live \<Rightarrow> 's live option" where
  "line_run parse L = (if reading L then line_read parse L
     else case rt_sem_take (rx_sem (live_p L)) of None \<Rightarrow> Some L
     | Some v \<Rightarrow> Some (L\<lparr>live_p := (live_p L)\<lparr>rx_sem := v\<rparr>, reading := True\<rparr>))"

fun line_step :: "'s parser \<Rightarrow> string \<Rightarrow> line_event \<Rightarrow> 's live \<Rightarrow> 's live option" where
  "line_step parse h (Irq bs) L = line_isr h bs L"
| "line_step parse h Run L = line_run parse L"

text \<open>What is in the ring, and whether the thread has nothing to do.\<close>

definition ring :: "string \<Rightarrow> 's live \<Rightarrow> bytes" where
  "ring h L = (case Option.bind (devs (live_k L) h) serial_rx of None \<Rightarrow> [] | Some f \<Rightarrow> rx_fifo_list f)"

definition idle :: "'s live \<Rightarrow> bool" where
  "idle L \<longleftrightarrow> \<not> reading L \<and> rx_sem (live_p L) = 0"

text \<open>The bytes of the interrupts, and whether the thread keeps up: never more than 63 wait.\<close>

fun arrivals :: "line_event list \<Rightarrow> bytes" where
  "arrivals [] = []"
| "arrivals (Irq bs # es) = bs @ arrivals es"
| "arrivals (Run # es) = arrivals es"

fun timely :: "'s parser \<Rightarrow> string \<Rightarrow> line_event list \<Rightarrow> 's live \<Rightarrow> bool" where
  "timely parse h [] L = True"
| "timely parse h (e # es) L =
    ((case e of Irq bs \<Rightarrow> length (ring h L) + length bs \<le> 63 | Run \<Rightarrow> True) \<and>
     (case line_step parse h e L of None \<Rightarrow> True | Some L' \<Rightarrow> timely parse h es L'))"

subsection \<open>The semaphore is not part of the parsing\<close>

lemma chunk_sem:
  "uart_rx_chunk parse c (p\<lparr>rx_sem := v\<rparr>, s) =
    map_option (\<lambda>(q, t). (q\<lparr>rx_sem := v\<rparr>, t)) (uart_rx_chunk parse c (p, s))"
  by (cases "parse (blit c (if MAX_LEN < parse_len p + length c then 0 else parse_len p) (parse_buf p))
      ((if MAX_LEN < parse_len p + length c then 0 else parse_len p) + length c) s")
    (auto simp: uart_rx_chunk_def Let_def)

text \<open>A chunk leaves the kernel's side of the port alone.\<close>

lemma chunk_keeps:
  assumes "uart_rx_chunk parse c (p, s) = Some (q, t)"
  shows "port_dev q = port_dev p" "rx_sem q = rx_sem p" "rx_sem_inited q = rx_sem_inited p" "rx_thread q = rx_thread p"
  using assms by (auto simp: uart_rx_chunk_def Let_def bind_eq_Some_conv split: if_splits)

subsection \<open>No wake-up is lost\<close>

text \<open>The port is open, its ring is in order, and when bytes wait the thread is on its way to them.\<close>

definition line_ok :: "string \<Rightarrow> 's live \<Rightarrow> bool" where
  "line_ok h L \<longleftrightarrow> port_dev (live_p L) = Some h \<and> rx_sem_inited (live_p L) \<and>
     (\<exists>d f. devs (live_k L) h = Some d \<and> serial_rx d = Some f \<and> rx_fifo_wf f \<and> hw_rx d = [] \<and> rx_indicate d \<noteq> None \<and>
        ref_count d \<noteq> 0 \<and> has (open_flag d) RT_DEVICE_FLAG_INT_RX) \<and>
     (ring h L \<noteq> [] \<longrightarrow> reading L \<or> rx_sem (live_p L) \<noteq> 0)"

lemma line_okE:
  assumes "line_ok h L"
  obtains d f where "port_dev (live_p L) = Some h" "rx_sem_inited (live_p L)" "devs (live_k L) h = Some d"
    "serial_rx d = Some f" "rx_fifo_wf f" "hw_rx d = []" "rx_indicate d \<noteq> None" "ref_count d \<noteq> 0"
    "has (open_flag d) RT_DEVICE_FLAG_INT_RX" "ring h L = rx_fifo_list f" "length (ring h L) \<le> 63"
proof -
  obtain d f where d: "port_dev (live_p L) = Some h" "rx_sem_inited (live_p L)" "devs (live_k L) h = Some d"
    "serial_rx d = Some f" "rx_fifo_wf f" "hw_rx d = []" "rx_indicate d \<noteq> None" "ref_count d \<noteq> 0"
    "has (open_flag d) RT_DEVICE_FLAG_INT_RX" using assms unfolding line_ok_def by blast
  then have r: "ring h L = rx_fifo_list f" by (simp add: ring_def)
  have "length (ring h L) \<le> 63" using isr_rx_length_less [OF d(5)] by (simp add: r)
  then show ?thesis using that d r by blast
qed

lemma release_pos: "rt_sem_release v \<noteq> 0" "unat (rt_sem_release v) \<le> unat v + 1"
proof -
  have "unat (v + 1) = unat v + 1" if "unat v < 65535" using that by (simp add: unat_word_ariths)
  moreover have "unat v = 65535" if "\<not> unat v < 65535" using that unat_u16_lt [of v] by linarith
  ultimately show "rt_sem_release v \<noteq> 0" "unat (rt_sem_release v) \<le> unat v + 1"
    by (auto simp: rt_sem_release_def word_unat_eq_iff split: if_splits)
qed

lemma isr_effect:
  assumes "line_ok h L"
  shows "\<exists>L'. line_isr h bs L = Some L' \<and> line_ok h L' \<and> ring h L' = newest 63 (ring h L @ bs) \<and>
    live_s L' = live_s L \<and> reading L' = reading L \<and> unat (rx_sem (live_p L')) \<le> unat (rx_sem (live_p L)) + 1 \<and>
    (\<exists>v. live_p L' = (live_p L)\<lparr>rx_sem := v\<rparr>)"
proof -
  obtain d f where d: "port_dev (live_p L) = Some h" "rx_sem_inited (live_p L)" "devs (live_k L) h = Some d"
    "serial_rx d = Some f" "rx_fifo_wf f" "hw_rx d = []" "rx_indicate d \<noteq> None" "ref_count d \<noteq> 0"
    "has (open_flag d) RT_DEVICE_FLAG_INT_RX" "ring h L = rx_fifo_list f" by (rule line_okE [OF assms])
  obtain f' where f': "serial_isr_rx bs f = Some f'" "rx_fifo_wf f'" "rx_fifo_list f' = newest 63 (rx_fifo_list f @ bs)"
    using serial_isr_rx_list [OF d(5)] by blast
  obtain cb where cb: "rx_indicate d = Some cb" using d(7) by blast
  define d' where "d' = d\<lparr>serial_rx := Some f', hw_rx := []\<rparr>"
  define p where "p = (if isr_rx_length f' \<noteq> 0 then uart_rx_ind (live_p L) else live_p L)"
  define L' where "L' = L\<lparr>live_k := (live_k L)\<lparr>devs := (devs (live_k L))(h \<mapsto> d')\<rparr>, live_p := p\<rparr>"
  have e: "line_isr h bs L = Some L'"
    by (simp add: line_isr_def rt_hw_serial_isr_rx_def d f' cb Let_def L'_def d'_def p_def)
  have p: "p = (live_p L)\<lparr>rx_sem := if isr_rx_length f' \<noteq> 0 then rt_sem_release (rx_sem (live_p L)) else rx_sem (live_p L)\<rparr>"
    using d(2) by (simp add: p_def uart_rx_ind_def)
  have r: "ring h L' = rx_fifo_list f'" by (simp add: ring_def L'_def d'_def)
  have "ring h L' \<noteq> [] \<longrightarrow> rx_sem p \<noteq> 0"
    using release_pos(1) by (auto simp: r p simp flip: length_0_conv)
  then have "line_ok h L'"
    using d f'(2) by (auto simp: line_ok_def) (simp_all add: L'_def d'_def p)
  moreover have "unat (rx_sem p) \<le> unat (rx_sem (live_p L)) + 1" using release_pos(2) [of "rx_sem (live_p L)"] by (simp add: p)
  moreover have "live_s L' = live_s L" "reading L' = reading L" "live_p L' = p" by (simp_all add: L'_def)
  moreover have "\<exists>v. p = (live_p L)\<lparr>rx_sem := v\<rparr>" using p by blast
  ultimately show ?thesis using e r f'(3) d(10) by auto
qed

subsection \<open>The steps of the thread\<close>

lemma take_effect:
  assumes "line_ok h L" "\<not> reading L" "rx_sem (live_p L) \<noteq> 0"
  shows "\<exists>L'. line_run parse L = Some L' \<and> line_ok h L' \<and> ring h L' = ring h L \<and> live_s L' = live_s L \<and> reading L' \<and>
    live_p L' = (live_p L)\<lparr>rx_sem := rx_sem (live_p L) - 1\<rparr>"
proof -
  define L' where "L' = L\<lparr>live_p := (live_p L)\<lparr>rx_sem := rx_sem (live_p L) - 1\<rparr>, reading := True\<rparr>"
  have e: "line_run parse L = Some L'"
    using assms(2,3) by (simp add: line_run_def rt_sem_take_def L'_def word_neq_0_conv)
  have r: "ring h L' = ring h L" by (simp add: ring_def L'_def)
  have "line_ok h L'" using assms(1) by (simp add: line_ok_def r) (simp add: L'_def)
  then show ?thesis using e r by (auto simp: L'_def)
qed

lemma read_effect:
  assumes "line_ok h L"
  obtains L1 where "ring h L1 = []" "line_ok h (L1\<lparr>reading := True\<rparr>)" "live_p L1 = live_p L" "live_s L1 = live_s L"
    "reading L1 = reading L" "line_read parse L = (if ring h L = [] then Some (L1\<lparr>reading := False\<rparr>)
       else Option.bind (uart_rx_chunk parse (ring h L) (live_p L, live_s L)) (\<lambda>(p, s). Some (L1\<lparr>live_p := p, live_s := s\<rparr>)))"
proof -
  obtain d f where d: "port_dev (live_p L) = Some h" "rx_sem_inited (live_p L)" "devs (live_k L) h = Some d"
    "serial_rx d = Some f" "rx_fifo_wf f" "hw_rx d = []" "rx_indicate d \<noteq> None" "ref_count d \<noteq> 0"
    "has (open_flag d) RT_DEVICE_FLAG_INT_RX" "ring h L = rx_fifo_list f" "length (ring h L) \<le> 63"
    by (rule line_okE [OF assms])
  have w: "serial_wf d" using d by (simp add: serial_wf_def)
  obtain f' where f': "rt_device_read d MAX_LEN = Some (take MAX_LEN (rx_fifo_list f), d\<lparr>serial_rx := Some f'\<rparr>)"
    "rx_fifo_wf f'" "rx_fifo_list f' = drop MAX_LEN (rx_fifo_list f)"
    using rt_device_read_ring [OF w d(4,8,9), of MAX_LEN] by blast
  have a: "take MAX_LEN (rx_fifo_list f) = ring h L" "rx_fifo_list f' = []"
    using d(10,11) f'(3) by (simp_all add: MAX_LEN_def)
  define L1 where "L1 = L\<lparr>live_k := (live_k L)\<lparr>devs := (devs (live_k L))(h \<mapsto> d\<lparr>serial_rx := Some f'\<rparr>)\<rparr>\<rparr>"
  have r: "ring h (L1\<lparr>reading := b\<rparr>) = []" "ring h L1 = []" for b by (simp_all add: ring_def L1_def a)
  have "line_ok h (L1\<lparr>reading := True\<rparr>)"
    using d f'(2) by (simp add: line_ok_def r) (simp add: L1_def)
  moreover have "line_read parse L = (if ring h L = [] then Some (L1\<lparr>reading := False\<rparr>)
      else Option.bind (uart_rx_chunk parse (ring h L) (live_p L, live_s L)) (\<lambda>(p, s). Some (L1\<lparr>live_p := p, live_s := s\<rparr>)))"
    by (simp add: line_read_def d(1,3) f'(1) a(1) Let_def flip: L1_def) (simp add: L1_def)
  ultimately show ?thesis using that [of L1] r by (simp add: L1_def)
qed

lemma read_nothing:
  assumes "line_ok h L" "reading L" "ring h L = []"
  shows "\<exists>L'. line_run parse L = Some L' \<and> line_ok h L' \<and> ring h L' = [] \<and> live_s L' = live_s L \<and> \<not> reading L' \<and>
    live_p L' = live_p L"
proof -
  obtain L1 where L1: "ring h L1 = []" "line_ok h (L1\<lparr>reading := True\<rparr>)" "live_p L1 = live_p L" "live_s L1 = live_s L" and
    e: "line_read parse L = (if ring h L = [] then Some (L1\<lparr>reading := False\<rparr>)
       else Option.bind (uart_rx_chunk parse (ring h L) (live_p L, live_s L)) (\<lambda>(p, s). Some (L1\<lparr>live_p := p, live_s := s\<rparr>)))"
    by (rule read_effect [OF assms(1), of parse]) blast
  have r: "ring h (L1\<lparr>reading := b\<rparr>) = []" for b using L1(1) by (simp add: ring_def)
  then have "line_ok h (L1\<lparr>reading := False\<rparr>)" using L1(2) by (simp add: line_ok_def)
  moreover have "line_run parse L = Some (L1\<lparr>reading := False\<rparr>)" using assms(2,3) e by (simp add: line_run_def)
  ultimately show ?thesis using L1 r by auto
qed

lemma read_bytes:
  assumes "line_ok h L" "reading L" "ring h L \<noteq> []" "uart_rx_chunk parse (ring h L) (live_p L, live_s L) = Some (q, t)"
  shows "\<exists>L'. line_run parse L = Some L' \<and> line_ok h L' \<and> ring h L' = [] \<and> live_s L' = t \<and> reading L' \<and> live_p L' = q"
proof -
  obtain L1 where L1: "ring h L1 = []" "line_ok h (L1\<lparr>reading := True\<rparr>)" "live_p L1 = live_p L" "reading L1 = reading L" and
    e: "line_read parse L = (if ring h L = [] then Some (L1\<lparr>reading := False\<rparr>)
       else Option.bind (uart_rx_chunk parse (ring h L) (live_p L, live_s L)) (\<lambda>(p, s). Some (L1\<lparr>live_p := p, live_s := s\<rparr>)))"
    by (rule read_effect [OF assms(1), of parse]) blast
  have r: "ring h (L1\<lparr>live_p := q, live_s := t\<rparr>) = []" using L1(1) by (simp add: ring_def)
  have "line_ok h (L1\<lparr>live_p := q, live_s := t\<rparr>)"
    using L1(2) chunk_keeps [OF assms(4)] L1(3,4) assms(2) by (auto simp: line_ok_def r)
  moreover have "line_run parse L = Some (L1\<lparr>live_p := q, live_s := t\<rparr>)" using assms(2-4) e by (simp add: line_run_def)
  ultimately show ?thesis using L1 r assms(2) by auto
qed

lemma wait_effect: "idle L \<Longrightarrow> line_run parse L = Some L"
  by (simp add: idle_def line_run_def rt_sem_take_def)

text \<open>The steps the thread still needs.\<close>

definition work :: "string \<Rightarrow> 's live \<Rightarrow> nat" where
  "work h L = 2 * unat (rx_sem (live_p L)) + (if reading L then 1 else 0) + (if ring h L = [] then 0 else 1)"

lemma idle_ring: "line_ok h L \<Longrightarrow> idle L \<Longrightarrow> ring h L = []"
  by (auto simp: line_ok_def idle_def)

subsection \<open>Any interleaving\<close>

text \<open>What was received before and is not in the ring went through the parser, read by read.\<close>

definition handled :: "'s parser \<Rightarrow> uart_port \<times> 's \<Rightarrow> bytes \<Rightarrow> string \<Rightarrow> 's live \<Rightarrow> bool" where
  "handled parse ps arr h L \<longleftrightarrow> (\<exists>cs q. (\<forall>c\<in>set cs. c \<noteq> [] \<and> length c \<le> 63) \<and> arr = concat cs @ ring h L \<and>
     for_each (uart_rx_chunk parse) cs ps = Some (q, live_s L) \<and> (\<exists>v. live_p L = q\<lparr>rx_sem := v\<rparr>))"

lemma handled_same:
  assumes "handled parse ps arr h L" "ring h L' = ring h L @ bs" "live_s L' = live_s L" "live_p L' = (live_p L)\<lparr>rx_sem := v\<rparr>"
  shows "handled parse ps (arr @ bs) h L'"
proof -
  obtain cs q u where c: "\<forall>c\<in>set cs. c \<noteq> [] \<and> length c \<le> 63" "arr = concat cs @ ring h L"
    "for_each (uart_rx_chunk parse) cs ps = Some (q, live_s L)" "live_p L = q\<lparr>rx_sem := u\<rparr>"
    using assms(1) unfolding handled_def by blast
  have "live_p L' = q\<lparr>rx_sem := v\<rparr>" by (simp add: assms(4) c(4))
  then show ?thesis unfolding handled_def using c(1-3) assms(2,3) by (intro exI [of _ cs] exI [of _ q]) auto
qed

lemma handled_read:
  assumes "handled parse ps arr h L" "uart_rx_chunk parse (ring h L) (live_p L, live_s L) = Some (p', s')"
    "ring h L \<noteq> []" "length (ring h L) \<le> 63" "ring h L' = []" "live_s L' = s'" "live_p L' = p'"
  shows "handled parse ps arr h L'"
proof -
  obtain cs q u where c: "\<forall>c\<in>set cs. c \<noteq> [] \<and> length c \<le> 63" "arr = concat cs @ ring h L"
    "for_each (uart_rx_chunk parse) cs ps = Some (q, live_s L)" "live_p L = q\<lparr>rx_sem := u\<rparr>"
    using assms(1) unfolding handled_def by blast
  obtain q' where q': "uart_rx_chunk parse (ring h L) (q, live_s L) = Some (q', s')" "p' = q'\<lparr>rx_sem := u\<rparr>"
    using assms(2) chunk_sem [where parse = parse and c = "ring h L" and p = q and v = u and s = "live_s L"] by (auto simp: c(4))
  have "for_each (uart_rx_chunk parse) (cs @ [ring h L]) ps = Some (q', s')"
    using c(3) q'(1) by (simp add: for_each_append)
  then show ?thesis
    unfolding handled_def using c(1,2) assms(3-7) q'(2) by (intro exI [of _ "cs @ [ring h L]"] exI [of _ q']) auto
qed

context stream_parser
begin

lemma settled_sem [simp]: "port_settled (p\<lparr>rx_sem := v\<rparr>) = port_settled p"
  by (simp add: port_settled_def uart_port_wf_def)

lemma irq_ok:
  assumes "line_ok h L" "port_settled (live_p L)"
  shows "\<exists>L'. line_isr h bs L = Some L' \<and> line_ok h L' \<and> port_settled (live_p L') \<and> work h L' \<le> work h L + 3 \<and>
    length (ring h L') \<le> length (ring h L) + length bs \<and>
    (handled parse ps arr h L \<and> length (ring h L) + length bs \<le> 63 \<longrightarrow> handled parse ps (arr @ bs) h L')"
proof -
  obtain L' v where L': "line_isr h bs L = Some L'" "line_ok h L'" "ring h L' = newest 63 (ring h L @ bs)" "live_s L' = live_s L"
    "reading L' = reading L" "unat (rx_sem (live_p L')) \<le> unat (rx_sem (live_p L)) + 1" "live_p L' = (live_p L)\<lparr>rx_sem := v\<rparr>"
    using isr_effect [OF assms(1), of bs] by blast
  have "work h L' \<le> work h L + 3" using L'(5,6) by (simp add: work_def)
  moreover have "length (ring h L) + length bs \<le> 63 \<Longrightarrow> ring h L' = ring h L @ bs" by (simp add: L'(3) newest_def)
  moreover have "length (ring h L') \<le> length (ring h L) + length bs" by (simp add: L'(3) newest_def)
  ultimately show ?thesis
    using L' assms(2) handled_same [OF _ _ L'(4,7)] by auto
qed

lemma thread_ok:
  assumes "line_ok h L" "port_settled (live_p L)" "63 \<le> chunk_max" "\<not> idle L"
  shows "\<exists>L'. line_run parse L = Some L' \<and> line_ok h L' \<and> port_settled (live_p L') \<and> work h L' < work h L \<and>
    length (ring h L') \<le> length (ring h L) \<and>
    (handled parse ps arr h L \<longrightarrow> handled parse ps arr h L')"
proof (cases "reading L")
  case False
  then have s: "rx_sem (live_p L) \<noteq> 0" using assms(4) by (simp add: idle_def)
  then obtain L' where L': "line_run parse L = Some L'" "line_ok h L'" "ring h L' = ring h L" "live_s L' = live_s L" "reading L'"
    "live_p L' = (live_p L)\<lparr>rx_sem := rx_sem (live_p L) - 1\<rparr>" using take_effect [OF assms(1) False s] by blast
  have "unat (rx_sem (live_p L) - 1) + 1 = unat (rx_sem (live_p L))"
    using s by (simp add: unat_minus_one unat_gt_0)
  then have "work h L' < work h L" using False L' by (simp add: work_def)
  then show ?thesis using L' assms(2) handled_same [of parse ps arr h L L' "[]"] by auto
next
  case True
  show ?thesis
  proof (cases "ring h L = []")
    case empty: True
    obtain L' where L': "line_run parse L = Some L'" "line_ok h L'" "ring h L' = []" "live_s L' = live_s L" "\<not> reading L'"
      "live_p L' = live_p L" using read_nothing [OF assms(1) True empty] by blast
    have "live_p L' = (live_p L)\<lparr>rx_sem := rx_sem (live_p L)\<rparr>" using L'(6) by simp
    from handled_same [of parse ps arr h L L' "[]", OF _ _ L'(4) this] show ?thesis
      using L' True empty assms(2) by (auto simp: work_def)
  next
    case False
    have l: "length (ring h L) \<le> 63" by (rule line_okE [OF assms(1)])
    have "length (ring h L) \<le> chunk_max" "length (ring h L) \<le> MAX_LEN" using l assms(3) by (simp_all add: MAX_LEN_def)
    from rx_chunk_ok [OF assms(2) this, of "live_s L"] obtain q t where
      q: "uart_rx_chunk parse (ring h L) (live_p L, live_s L) = Some (q, t)" "port_settled q" by blast
    obtain L' where L': "line_run parse L = Some L'" "line_ok h L'" "ring h L' = []" "live_s L' = t" "reading L'" "live_p L' = q"
      using read_bytes [OF assms(1) True False q(1)] by blast
    have "work h L' < work h L" using L' True False chunk_keeps(2) [OF q(1)] by (simp add: work_def)
    then show ?thesis using L' q(2) handled_read [OF _ q(1) False l L'(3,4,6)] by auto
  qed
qed

text \<open>No interleaving makes the thread leave its buffers, and what came in time is handled.\<close>

lemma events_ok:
  assumes "line_ok h L" "port_settled (live_p L)" "63 \<le> chunk_max"
  shows "\<exists>L'. for_each (line_step parse h) es L = Some L' \<and> line_ok h L' \<and> port_settled (live_p L') \<and>
    work h L' \<le> work h L + 3 * length es \<and>
    (handled parse ps arr h L \<and> timely parse h es L \<longrightarrow> handled parse ps (arr @ arrivals es) h L')"
  using assms(1,2)
proof (induction es arbitrary: L arr)
  case (Cons e es)
  obtain L1 where L1: "line_step parse h e L = Some L1" "line_ok h L1" "port_settled (live_p L1)" "work h L1 \<le> work h L + 3"
    "handled parse ps arr h L \<and> timely parse h [e] L \<longrightarrow> handled parse ps (arr @ arrivals [e]) h L1"
  proof (cases e)
    case (Irq bs)
    then show ?thesis using that irq_ok [OF Cons.prems, of bs ps arr] by auto
  next
    case Run
    show ?thesis
    proof (cases "idle L")
      case True
      then show ?thesis using that [of L] Cons.prems by (simp add: Run wait_effect)
    next
      case False
      obtain L' where "line_run parse L = Some L'" "line_ok h L'" "port_settled (live_p L')" "work h L' < work h L"
        "handled parse ps arr h L \<longrightarrow> handled parse ps arr h L'"
        using thread_ok [OF Cons.prems assms(3) False] by blast
      then show ?thesis using that [of L'] by (simp add: Run)
    qed
  qed
  obtain L2 where "for_each (line_step parse h) es L1 = Some L2" "line_ok h L2" "port_settled (live_p L2)"
    "work h L2 \<le> work h L1 + 3 * length es"
    "handled parse ps (arr @ arrivals [e]) h L1 \<and> timely parse h es L1 \<longrightarrow> handled parse ps ((arr @ arrivals [e]) @ arrivals es) h L2"
    using Cons.IH [OF L1(2,3)] by blast
  moreover have "arrivals [e] @ arrivals es = arrivals (e # es)" by (cases e) simp_all
  moreover have "timely parse h (e # es) L \<Longrightarrow> timely parse h [e] L \<and> timely parse h es L1"
    using L1(1) by (auto split: option.splits line_event.splits)
  ultimately show ?case using L1 by auto
qed simp

text \<open>A thread always keeps up with what fits the ring.\<close>

lemma short_timely:
  assumes "line_ok h L" "port_settled (live_p L)" "63 \<le> chunk_max" "length (ring h L) + length (arrivals es) \<le> 63"
  shows "timely parse h es L"
  using assms(1,2,4)
proof (induction es arbitrary: L)
  case (Cons e es)
  show ?case
  proof (cases e)
    case (Irq bs)
    from irq_ok [OF Cons.prems(1,2), of bs] obtain L' where "line_isr h bs L = Some L'" "line_ok h L'" "port_settled (live_p L')"
      "length (ring h L') \<le> length (ring h L) + length bs" by blast
    then show ?thesis using Cons.IH [of L'] Cons.prems(3) by (simp add: Irq)
  next
    case Run
    show ?thesis
    proof (cases "idle L")
      case True
      then show ?thesis using Cons by (simp add: Run wait_effect)
    next
      case False
      from thread_ok [OF Cons.prems(1,2) assms(3) this] obtain L' where "line_run parse L = Some L'" "line_ok h L'"
        "port_settled (live_p L')" "length (ring h L') \<le> length (ring h L)" by blast
      then show ?thesis using Cons.IH [of L'] Cons.prems(3) by (simp add: Run)
    qed
  qed
qed simp

text \<open>Left alone, the thread comes to rest with nothing waiting.\<close>

lemma comes_to_rest:
  assumes "line_ok h L" "port_settled (live_p L)" "63 \<le> chunk_max"
  shows "\<exists>n L'. n \<le> work h L \<and> for_each (line_step parse h) (replicate n Run) L = Some L' \<and> idle L' \<and> line_ok h L' \<and>
    (handled parse ps arr h L \<longrightarrow> handled parse ps arr h L')"
  using assms(1,2)
proof (induction "work h L" arbitrary: L rule: less_induct)
  case less
  show ?case
  proof (cases "idle L")
    case True
    then show ?thesis using less.prems by (intro exI [of _ 0] exI [of _ L]) simp
  next
    case False
    obtain L1 where L1: "line_run parse L = Some L1" "line_ok h L1" "port_settled (live_p L1)" "work h L1 < work h L"
      "handled parse ps arr h L \<longrightarrow> handled parse ps arr h L1"
      using thread_ok [OF less.prems assms(3) False] by blast
    from less.hyps [OF L1(4,2,3)] obtain n L2 where "n \<le> work h L1" "for_each (line_step parse h) (replicate n Run) L1 = Some L2"
      "idle L2" "line_ok h L2" "handled parse ps arr h L1 \<longrightarrow> handled parse ps arr h L2" by blast
    then show ?thesis using L1 by (intro exI [of _ "Suc n"] exI [of _ L2]) auto
  qed
qed

end

subsection \<open>Commands over a live line\<close>

context header_commands
begin

lemma live_commands:
  assumes "line_ok nm L" "ring nm L = []" "uart_port_wf (live_p L)" "parse_len (live_p L) = 0"
    and "timely (\<lambda>b n w. header_scan h matching proc 0 b n w) nm es L" "arrivals es = concat (map enc cs)" "\<forall>c\<in>set cs. valid c"
  shows "\<exists>n L'. n \<le> work nm L + 3 * length es \<and>
    for_each (line_step (\<lambda>b n w. header_scan h matching proc 0 b n w) nm) (es @ replicate n Run) L = Some L' \<and>
    idle L' \<and> live_s L' = fold app cs (live_s L) \<and> parse_len (live_p L') = 0"
proof -
  define P where "P = (\<lambda>b n w. header_scan h matching proc 0 b n w)"
  have s: "port.port_settled (live_p L)" using assms(3,4) by (simp add: port.port_settled_def settled_def)
  have "handled P (live_p L, live_s L) [] nm L"
    unfolding handled_def using assms(2)
    by (intro exI [of _ "[]"] exI [of _ "live_p L"] conjI exI [of _ "rx_sem (live_p L)"]) simp_all
  with port.events_ok [OF assms(1) s, folded P_def, of es "(live_p L, live_s L)" "[]"] assms(5) obtain L1 where
    L1: "for_each (line_step P nm) es L = Some L1" "line_ok nm L1" "port.port_settled (live_p L1)"
    "work nm L1 \<le> work nm L + 3 * length es" "handled P (live_p L, live_s L) (arrivals es) nm L1"
    by (auto simp: P_def [symmetric])
  from port.comes_to_rest [OF L1(2,3), of "(live_p L, live_s L)" "arrivals es", folded P_def] L1(5) obtain n L2 where
    L2: "n \<le> work nm L1" "for_each (line_step P nm) (replicate n Run) L1 = Some L2" "idle L2" "line_ok nm L2"
    "handled P (live_p L, live_s L) (arrivals es) nm L2" by auto
  obtain cuts q u where c: "\<forall>c\<in>set cuts. c \<noteq> [] \<and> length c \<le> 63" "arrivals es = concat cuts"
    "for_each (uart_rx_chunk P) cuts (live_p L, live_s L) = Some (q, live_s L2)" "live_p L2 = q\<lparr>rx_sem := u\<rparr>"
    using L2(5) idle_ring [OF L2(4,3)] unfolding handled_def by auto
  have tw: "takeWhile (\<lambda>c. c \<noteq> []) cuts = cuts" using c(1) by (simp add: takeWhile_eq_all_conv)
  have "concat cuts = concat (map enc cs)" using c(2) assms(6) by simp
  from cmds.rx_entry_commands [OF assms(3,4) c(1) this assms(7), folded P_def, of "live_s L"]
  have "live_s L2 = fold app cs (live_s L)" "parse_len q = 0" using c(3) by (auto simp: uart_rx_entry_def tw)
  then have "live_s L2 = fold app cs (live_s L) \<and> parse_len (live_p L2) = 0" by (simp add: c(4))
  then show ?thesis
    using L1(1,4) L2(1-3) by (intro exI [of _ n] exI [of _ L2]) (simp add: for_each_append P_def)
qed

end

subsection \<open>Opening\<close>

text \<open>A device that waits for its first use, with no byte in its register.\<close>

definition line_fresh :: "rtk \<Rightarrow> string \<Rightarrow> bool" where
  "line_fresh k nm \<longleftrightarrow> device_fresh k nm \<and> heap_ok k \<and> map_option hw_rx (devs k nm) = Some []"

definition live_at :: "'r \<times> rtk \<times> uart_port \<Rightarrow> 's \<Rightarrow> 's live" where
  "live_at o1 s = \<lparr>live_k = fst (snd o1), live_p = snd (snd o1), reading = False, live_s = s\<rparr>"

lemma open_line:
  assumes "line_fresh k nm" "L = live_at (uart_port_open nm ri th (k, uart_port0)) s"
  shows "line_ok nm L" "ring nm L = []" "idle L" "uart_port_wf (live_p L)" "parse_len (live_p L) = 0" "live_s L = s" "work nm L = 0"
proof -
  obtain d where d: "devs k nm = Some d" "dflag d = uart_dflag"
     "open_flag d = 0" "ref_count d = 0" "configure_result d = RT_EOK" "hw_rx d = []" "heap_ok k"
    using assms(1) by (auto simp: line_fresh_def device_fresh_def)
  obtain d1 where o: "rt_device_open d (RT_DEVICE_OFLAG_RDWR OR RT_DEVICE_FLAG_INT_RX) = (RT_EOK, d1)"
    and s: "serial_rx d1 = Some rx_fifo_new" "hw_rx d1 = []" "ref_count d1 = 1" "has (open_flag d1) RT_DEVICE_FLAG_INT_RX"
    by (rule that [of "snd (rt_device_open d (RT_DEVICE_OFLAG_RDWR OR RT_DEVICE_FLAG_INT_RX))"])
      (use d in \<open>simp_all add: rt_device_open_def rt_serial_init_def rt_serial_open_def flag_facts opened_flags Let_def\<close>,
        simp_all add: has_def rt_consts)
  define d' where "d' = rt_device_set_rx_indicate d1 ri"
  have d': "serial_rx d' = Some rx_fifo_new" "hw_rx d' = []" "ref_count d' = 1" "has (open_flag d') RT_DEVICE_FLAG_INT_RX"
    "rx_indicate d' = Some ri" using s by (simp_all add: d'_def rt_device_set_rx_indicate_def)
  define k1 where "k1 = k\<lparr>devs := (devs k)(nm \<mapsto> d1)\<rparr>"
  have f: "rt_device_find k nm = Some nm" "rx_sem_inited uart_port0 = False" "rx_thread uart_port0 = None" "port_dev uart_port0 = None"
    using d(1) by (simp_all add: rt_device_find_def uart_port0_def)
  have "open_device nm (RT_DEVICE_OFLAG_RDWR OR RT_DEVICE_FLAG_INT_RX) k = (RT_EOK, k1)"
    by (simp only: open_device_def d(1,3) flag_facts option.case not_False_eq_True if_True o Let_def split k1_def)
  then have e: "uart_port_open nm ri th (k, uart_port0) = (RT_EOK, rt_thread_startup th (set_rx_indicate nm ri k1),
      uart_port0\<lparr>port_dev := Some nm, rx_sem := 0, rx_sem_inited := True, rx_thread := Some th\<rparr>)"
    using d(7) by (simp add: uart_port_open_def f Let_def) (simp add: rt_thread_create_def set_rx_indicate_def k1_def)
  have L: "devs (live_k L) nm = Some d'" "port_dev (live_p L) = Some nm" "rx_sem_inited (live_p L)" "rx_sem (live_p L) = 0"
    "\<not> reading L" "live_s L = s" "parse_len (live_p L) = 0" "uart_port_wf (live_p L)"
    unfolding assms(2) e using uart_port0_wf
    by (simp_all add: live_at_def rt_thread_startup_def set_rx_indicate_def k1_def d'_def uart_port_wf_def)
      (simp add: uart_port0_def)
  have "isr_rx_length rx_fifo_new = 0" by (simp add: rx_fifo_new_def isr_rx_length_def)
  then have r: "rx_fifo_list rx_fifo_new = []" by (simp add: rx_fifo_list_def)
  then show "ring nm L = []" by (simp add: ring_def L(1) d'(1))
  then show "line_ok nm L" "idle L" "uart_port_wf (live_p L)" "parse_len (live_p L) = 0" "live_s L = s" "work nm L = 0"
    using L d' by (auto simp: line_ok_def idle_def work_def)
qed

end
