(* ===== verification/Live_Links.thy ===== *)
theory Live_Links
  imports Uart_Live Usart1_Port Usart2_Port Uart4_Port Uart5_Port
begin

text \<open>
  The three parsed lines that are the drivers' own (\<^verbatim>\<open>uart2\<close>, \<^verbatim>\<open>uart4\<close>, \<^verbatim>\<open>uart5\<close>), at work: each port is
  opened by its own driver and then lives through any interleaving of its interrupt and its receive
  thread. The fourth, \<^verbatim>\<open>uart1\<close>, is shared with the console and has a theory of its own.
\<close>

lemmas try_parse_eqs = usart1_try_parse_def [abs_def] usart2_try_parse_def [abs_def]
  uart4_try_parse_def [abs_def] uart5_try_parse_def [abs_def]

lemma rtk0_line: "n \<in> set [''uart2'', ''uart3'', ''uart4'', ''uart5'', ''uart6''] \<Longrightarrow> line_fresh rtk0 n"
  using rtk0_device_fresh [of n] by (auto simp: line_fresh_def rtk0_fields(1)) (simp_all add: rtk0_devs uart_obj_def serial_fresh_def)

subsection \<open>No interleaving leaves the buffers or loses a wake-up\<close>

definition wakes :: "string \<Rightarrow> 's live \<Rightarrow> bool" where
  "wakes nm L \<longleftrightarrow> (ring nm L \<noteq> [] \<longrightarrow> reading L \<or> rx_sem (live_p L) \<noteq> 0)"

context stream_parser
begin

lemma open_line_runs:
  assumes "line_fresh k nm" "63 \<le> chunk_max"
  shows "\<exists>L. for_each (line_step parse nm) es (live_at (uart_port_open nm ri th (k, uart_port0)) s) = Some L \<and> wakes nm L"
proof -
  define L0 where "L0 = live_at (uart_port_open nm ri th (k, uart_port0)) s"
  note o = open_line [OF assms(1) L0_def]
  have "port_settled (live_p L0)" using o(4,5) settled_nil by (simp add: port_settled_def)
  from events_ok [OF o(1) this assms(2), of es undefined undefined] show ?thesis
    by (auto simp: L0_def [symmetric] wakes_def line_ok_def)
qed

lemma open_line_timely:
  assumes "line_fresh k nm" "63 \<le> chunk_max" "length (arrivals es) \<le> 63"
  shows "timely parse nm es (live_at (uart_port_open nm ri th (k, uart_port0)) s)"
proof -
  define L0 where "L0 = live_at (uart_port_open nm ri th (k, uart_port0)) s"
  note o = open_line [OF assms(1) L0_def]
  have "port_settled (live_p L0)" using o(4,5) settled_nil by (simp add: port_settled_def)
  from short_timely [OF o(1) this assms(2), of es] show ?thesis using assms(3) o(2) by (simp add: L0_def)
qed

end

lemma imu_line: "line_fresh k ''uart2'' \<Longrightarrow>
  \<exists>L. for_each (line_step usart2_try_parse ''uart2'') es (live_at (usart2_port_open (k, uart_port0)) s) = Some L \<and> wakes ''uart2'' L"
  unfolding usart2_port_open_def try_parse_eqs by (rule imu_rx.port.open_line_runs) (simp_all add: MAX_LEN_def)

lemma cam_line: "line_fresh k ''uart4'' \<Longrightarrow>
  \<exists>L. for_each (line_step uart4_try_parse ''uart4'') es (live_at (uart4_port_open (k, uart_port0)) s) = Some L \<and> wakes ''uart4'' L"
  unfolding uart4_port_open_def try_parse_eqs by (rule cam_rx.port.open_line_runs) simp_all

lemma soft_line: "line_fresh k ''uart5'' \<Longrightarrow>
  \<exists>L. for_each (line_step uart5_try_parse ''uart5'') es (live_at (uart5_port_open (k, uart_port0)) s) = Some L \<and> wakes ''uart5'' L"
  unfolding uart5_port_open_def try_parse_eqs by (rule soft_rx.port.open_line_runs) simp_all

subsection \<open>Commands and messages over a live line\<close>

context header_commands
begin

lemma open_line_commands:
  assumes "line_fresh k nm" "timely (\<lambda>b n w. header_scan h matching proc 0 b n w) nm es (live_at (uart_port_open nm ri th (k, uart_port0)) s)"
    "arrivals es = concat (map enc cs)" "\<forall>c\<in>set cs. valid c"
  shows "\<exists>n L. n \<le> 3 * length es \<and>
    for_each (line_step (\<lambda>b n w. header_scan h matching proc 0 b n w) nm) (es @ replicate n Run)
      (live_at (uart_port_open nm ri th (k, uart_port0)) s) = Some L \<and>
    idle L \<and> live_s L = fold app cs s \<and> parse_len (live_p L) = 0"
proof -
  define L0 where "L0 = live_at (uart_port_open nm ri th (k, uart_port0)) s"
  note o = open_line [OF assms(1) L0_def]
  from live_commands [OF o(1,2,4,5) assms(2) [folded L0_def] assms(3,4)] show ?thesis
    by (simp add: o(6,7) flip: L0_def)
qed

end

text \<open>
  C8 (liveness). The host is obeyed by the port at work: when valid commands arrive in bursts of
  interrupts, cut and interleaved in any way with the receive thread such that never more than 63
  bytes wait (the ring holds no more; a larger backlog loses bytes), the thread needs at most three
  more steps per event to have carried them all out, once each and in order, and then waits at its
  semaphore with nothing left over.
\<close>

theorem host_line_obeyed:
  assumes "line_fresh k ''uart5''" "timely uart5_try_parse ''uart5'' es (live_at (uart5_port_open (k, uart_port0)) w)"
    "arrivals es = concat (map soft_enc cmds)" "\<forall>c\<in>set cmds. soft_valid c"
  shows "\<exists>n L. n \<le> 3 * length es \<and>
    for_each (line_step uart5_try_parse ''uart5'') (es @ replicate n Run) (live_at (uart5_port_open (k, uart_port0)) w) = Some L \<and>
    idle L \<and> live_s L = fold soft_apply cmds w \<and> parse_len (live_p L) = 0"
  using assms(1,2,3,4) unfolding uart5_port_open_def try_parse_eqs by (rule soft_host.open_line_commands)

theorem host_line_obeyed_witness:
  "\<exists>n L. n \<le> 15 \<and>
    for_each (line_step uart5_try_parse ''uart5'')
      ([Irq [0xAA, 0x20], Run, Irq [1], Irq [0x55, 0xAA, 0x40, 0x00], Irq [0x55]] @ replicate n Run)
      (live_at (uart5_port_open (rtk0, uart_port0)) globals0) = Some L \<and>
    idle L \<and> live_s L = fold soft_apply [Cmd 0x20 1, Cmd 0x40 0] globals0 \<and> parse_len (live_p L) = 0"
proof -
  define es where "es = [Irq [0xAA, 0x20], Run, Irq [1], Irq [0x55, 0xAA, 0x40, 0x00], Irq [0x55]]"
  have "timely uart5_try_parse ''uart5'' es (live_at (uart5_port_open (rtk0, uart_port0)) (globals0 :: globals))"
    unfolding uart5_port_open_def try_parse_eqs by (rule soft_rx.port.open_line_timely [OF rtk0_line]) (simp_all add: es_def)
  from host_line_obeyed [OF rtk0_line this, of "[Cmd 0x20 1, Cmd 0x40 0]"] show ?thesis by (simp add: es_def)
qed

text \<open>
  C9 (liveness). So are the messages of the camera, under the same limit of 63 waiting bytes, for
  positions that cannot be taken for another header (the high byte of \<open>x\<close> is not \<^verbatim>\<open>A3\<close>, that of \<open>y\<close> is
  neither \<^verbatim>\<open>A3\<close> nor one of \<^verbatim>\<open>B1\<close> to \<^verbatim>\<open>B4\<close>), as all positions in a picture of 640 by 480 are.
\<close>

theorem camera_line_obeyed:
  assumes "line_fresh k ''uart4''" "timely uart4_try_parse ''uart4'' es (live_at (uart4_port_open (k, uart_port0)) w)"
    "arrivals es = concat (map cam_enc msgs)" "\<forall>c\<in>set msgs. cam_valid c"
  shows "\<exists>n L. n \<le> 3 * length es \<and>
    for_each (line_step uart4_try_parse ''uart4'') (es @ replicate n Run) (live_at (uart4_port_open (k, uart_port0)) w) = Some L \<and>
    idle L \<and> live_s L = fold cam_apply msgs w \<and> parse_len (live_p L) = 0"
  using assms(1,2,3,4) unfolding uart4_port_open_def try_parse_eqs by (rule camera.open_line_commands)

theorem camera_line_obeyed_witness:
  "\<exists>n L. n \<le> 12 \<and>
    for_each (line_step uart4_try_parse ''uart4'')
      ([Irq [0xA3, 0xB1, 1, 0x40], Run, Irq [0, 0xF0, 0xC3, 0xA3], Irq [0xB4, 0xC3]] @ replicate n Run)
      (live_at (uart4_port_open (rtk0, uart_port0)) globals0) = Some L \<and>
    idle L \<and> live_s L = fold cam_apply [Source 320 240, Lamp] globals0 \<and> parse_len (live_p L) = 0"
proof -
  define es where "es = [Irq [0xA3, 0xB1, 1, 0x40], Run, Irq [0, 0xF0, 0xC3, 0xA3], Irq [0xB4, 0xC3]]"
  have "timely uart4_try_parse ''uart4'' es (live_at (uart4_port_open (rtk0, uart_port0)) (globals0 :: globals))"
    unfolding uart4_port_open_def try_parse_eqs by (rule cam_rx.port.open_line_timely [OF rtk0_line]) (simp_all add: es_def)
  from camera_line_obeyed [OF rtk0_line this, of "[Source 320 240, Lamp]"] show ?thesis by (simp add: es_def byte_at_def)
qed

end
