(* ===== verification/Console_Line.thy ===== *)
theory Console_Line
  imports Live_Links
begin

text \<open>
  The line of the distance sensor at work. It is also the console's: the shell opens it for
  interrupt receive, takes its bytes one at a time (\<^verbatim>\<open>finsh_getchar\<close> of
  \<^verbatim>\<open>rt-thread/components/finsh/shell.c\<close>), and installs its own callback, which the port's driver
  replaces by its own with every transmission. The events interleave in any order: interrupts with
  some bytes, steps of the port's receive thread and of the shell's thread, transmissions of the
  port, printing. No interrupt comes before the shell has opened the device (it is opened without
  interrupt receive until then).

  What the shell does with a character beside printing is not modelled (its commands are outside
  the application).
\<close>

subsection \<open>The steps\<close>

text \<open>\<open>shell_reading\<close>: the shell is about to read, rather than waiting at its semaphore.\<close>

record 's console =
  side :: "'s live"
  shell_reading :: bool

datatype console_event = Rx bytes | Port | Shell | Debug bytes | Print string

text \<open>The receive interrupt, with the callback that is installed when it comes.\<close>

definition console_isr :: "bytes \<Rightarrow> 's console \<Rightarrow> 's console option" where
  "console_isr bs C = (let L = side C in case devs (live_k L) ''uart1'' of None \<Rightarrow> Some C
   | Some d \<Rightarrow>
     if \<not> has (open_flag d) RT_DEVICE_FLAG_INT_RX then Some C
     else Option.bind (rt_hw_serial_isr_rx (d\<lparr>hw_rx := hw_rx d @ bs\<rparr>)) (\<lambda>(cb, d').
       let L = L\<lparr>live_k := (live_k L)\<lparr>devs := (devs (live_k L))(''uart1'' \<mapsto> d')\<rparr>\<rparr> in
       Some (C\<lparr>side := (case cb of None \<Rightarrow> L
         | Some (f, n) \<Rightarrow>
             if f = ''usart1_rx_ind'' then L\<lparr>live_p := usart1_rx_ind (live_p L)\<rparr>
             else if f = ''finsh_rx_ind'' then L\<lparr>live_k := finsh_rx_ind (live_k L)\<rparr>
             else L)\<rparr>)))"

text \<open>A step of the shell's thread: its start, one read of one byte, or a take of its semaphore.\<close>

definition shell_step :: "'s console \<Rightarrow> 's console option" where
  "shell_step C = (let L = side C; k = live_k L in case shell k of None \<Rightarrow> Some C
   | Some sh \<Rightarrow> (case sh_device sh of
       None \<Rightarrow> map_option (\<lambda>k. C\<lparr>side := L\<lparr>live_k := k\<rparr>, shell_reading := True\<rparr>) (finsh_thread_start k)
     | Some h \<Rightarrow>
         if shell_reading C then (case devs k h of None \<Rightarrow> Some C
           | Some d \<Rightarrow> Option.bind (rt_device_read d (Suc 0)) (\<lambda>(cs, d').
               Some (C\<lparr>side := L\<lparr>live_k := k\<lparr>devs := (devs k)(h \<mapsto> d')\<rparr>\<rparr>, shell_reading := cs \<noteq> []\<rparr>)))
         else (case rt_sem_take (sh_rx_sem sh) of None \<Rightarrow> Some C
           | Some v \<Rightarrow> Some (C\<lparr>side := L\<lparr>live_k := k\<lparr>shell := Some (sh\<lparr>sh_rx_sem := v\<rparr>)\<rparr>\<rparr>, shell_reading := True\<rparr>))))"

definition console_debug :: "bytes \<Rightarrow> 's console \<Rightarrow> 's console" where
  "console_debug cs C = (let L = side C; (k, p) = Usart1DMA_SendData (Some cs) (live_k L, live_p L)
     in C\<lparr>side := L\<lparr>live_k := k, live_p := p\<rparr>\<rparr>)"

fun console_step :: "console_event \<Rightarrow> vl53_st console \<Rightarrow> vl53_st console option" where
  "console_step (Rx bs) C = console_isr bs C"
| "console_step Port C = map_option (\<lambda>L. C\<lparr>side := L\<rparr>) (line_run usart1_try_parse (side C))"
| "console_step Shell C = shell_step C"
| "console_step (Debug cs) C = Some (console_debug cs C)"
| "console_step (Print s) C = Some (C\<lparr>side := (side C)\<lparr>live_k := rt_kputs s (live_k (side C))\<rparr>\<rparr>)"

definition console_boot :: "'s \<Rightarrow> 's console" where
  "console_boot s = \<lparr>side = \<lparr>live_k = rtk0, live_p = uart_port0, reading = False, live_s = s\<rparr>, shell_reading = False\<rparr>"

text \<open>The shell waits for a call that announces bytes.\<close>

definition shell_waits :: "'s console \<Rightarrow> bool" where
  "shell_waits C \<longleftrightarrow> \<not> shell_reading C \<and>
     (case shell (live_k (side C)) of None \<Rightarrow> False | Some sh \<Rightarrow> sh_device sh \<noteq> None \<and> sh_rx_sem sh = 0)"

text \<open>Bytes in the ring have the port's thread or the shell on its way to them.\<close>

definition console_wakes :: "'s console \<Rightarrow> bool" where
  "console_wakes C \<longleftrightarrow> ring ''uart1'' (side C) = [] \<or> reading (side C) \<or> rx_sem (live_p (side C)) \<noteq> 0 \<or> shell_reading C \<or>
     (case shell (live_k (side C)) of None \<Rightarrow> False | Some sh \<Rightarrow> sh_rx_sem sh \<noteq> 0)"

subsection \<open>The line in order\<close>

definition console_ok :: "rt_serial \<Rightarrow> finsh_shell \<Rightarrow> vl53_st console \<Rightarrow> bool" where
  "console_ok d sh C \<longleftrightarrow> devs (live_k (side C)) ''uart1'' = Some d \<and> shell (live_k (side C)) = Some sh \<and>
     console_ready (live_k (side C)) (live_p (side C)) \<and> vl53_rx.port.port_settled (live_p (side C)) \<and> hw_rx d = [] \<and>
     (sh_device sh = None \<longrightarrow> \<not> reading (side C) \<and> rx_sem (live_p (side C)) = 0) \<and>
     (sh_device sh \<noteq> None \<longrightarrow> rx_indicate d = Some ''usart1_rx_ind'' \<or> rx_indicate d = Some ''finsh_rx_ind'') \<and>
     (rx_indicate d = Some ''usart1_rx_ind'' \<or> reading (side C) \<or> rx_sem (live_p (side C)) \<noteq> 0 \<longrightarrow> statics_up ''uart1'' (live_p (side C))) \<and>
     console_wakes C"

text \<open>The port has the callback and the shell waits.\<close>

definition deaf :: "rt_serial \<Rightarrow> vl53_st console \<Rightarrow> bool" where
  "deaf d C \<longleftrightarrow> shell_waits C \<and> rx_indicate d = Some ''usart1_rx_ind''"

lemma console_okD:
  assumes "console_ok d sh C"
  shows "devs (live_k (side C)) ''uart1'' = Some d" "shell (live_k (side C)) = Some sh"
    "console_ready (live_k (side C)) (live_p (side C))" "vl53_rx.port.port_settled (live_p (side C))" "hw_rx d = []"
    "sh_device sh \<noteq> None \<Longrightarrow> rx_indicate d = Some ''usart1_rx_ind'' \<or> rx_indicate d = Some ''finsh_rx_ind''"
    "rx_indicate d = Some ''usart1_rx_ind'' \<Longrightarrow> statics_up ''uart1'' (live_p (side C))"
    "reading (side C) \<or> rx_sem (live_p (side C)) \<noteq> 0 \<Longrightarrow> statics_up ''uart1'' (live_p (side C))"
    "sh_device sh = None \<Longrightarrow> \<not> reading (side C) \<and> rx_sem (live_p (side C)) = 0" "console_wakes C"
    "console_device (live_k (side C)) = Some ''uart1''" "sh_device sh = None \<or> sh_device sh = Some ''uart1''"
    "console_dev (sh_device sh \<noteq> None) d" "console_up (live_k (side C))"
proof -
  note ok = assms [unfolded console_ok_def]
  show 1: "devs (live_k (side C)) ''uart1'' = Some d" "shell (live_k (side C)) = Some sh" and
    r: "console_ready (live_k (side C)) (live_p (side C))" and "vl53_rx.port.port_settled (live_p (side C))" "hw_rx d = []"
    "console_wakes C" using ok by simp_all
  show u: "console_up (live_k (side C))" using r by (simp add: console_ready_def)
  show "console_device (live_k (side C)) = Some ''uart1''" "sh_device sh = None \<or> sh_device sh = Some ''uart1''"
    "console_dev (sh_device sh \<noteq> None) d" using u by (simp_all add: console_up_def 1)
  show "rx_indicate d = Some ''usart1_rx_ind'' \<or> rx_indicate d = Some ''finsh_rx_ind''" if "sh_device sh \<noteq> None" using ok that by blast
  show "statics_up ''uart1'' (live_p (side C))" if "rx_indicate d = Some ''usart1_rx_ind''" using ok that by blast
  show "statics_up ''uart1'' (live_p (side C))" if "reading (side C) \<or> rx_sem (live_p (side C)) \<noteq> 0" using ok that by blast
  show "\<not> reading (side C) \<and> rx_sem (live_p (side C)) = 0" if "sh_device sh = None" using ok that by blast
qed

lemma settled_sem1 [simp]: "vl53_rx.port.port_settled (p\<lparr>rx_sem := v\<rparr>) = vl53_rx.port.port_settled p"
  by (simp add: vl53_rx.port.port_settled_def uart_port_wf_def)

text \<open>With the shell's device open, the ring is there.\<close>

lemma console_ring:
  assumes "console_ok d sh C" "sh_device sh \<noteq> None"
  obtains f where "serial_rx d = Some f" "rx_fifo_wf f" "console_dev True d" "has (open_flag d) RT_DEVICE_FLAG_INT_RX" "ref_count d \<noteq> 0"
    "ring ''uart1'' (side C) = rx_fifo_list f"
proof -
  have c: "console_dev True d" using console_okD(13) [OF assms(1)] assms(2) by simp
  then obtain f where f: "serial_rx d = Some f" "rx_fifo_wf f" by (auto simp: console_dev_def split: option.splits)
  have "ring ''uart1'' (side C) = rx_fifo_list f" using console_okD(1) [OF assms(1)] f(1) by (simp add: ring_def)
  then show ?thesis using that f c console_devD [OF c] by blast
qed

lemma boot_ok: "\<exists>d. console_ok d \<lparr>sh_device = None, sh_rx_sem = 0\<rparr> (console_boot s)"
proof -
  define d where "d = serial_fresh\<lparr>dflag := uart_dflag OR RT_DEVICE_FLAG_ACTIVATED, open_flag := console_flags, ref_count := 1\<rparr>"
  have d: "devs rtk0 ''uart1'' = Some d" "hw_rx d = []" "serial_rx d = None" "rx_indicate d = None"
    by (simp_all add: d_def rtk0_devs) (simp_all add: serial_fresh_def)
  have p: "rx_sem uart_port0 = 0" by (simp add: uart_port0_def)
  have "ring ''uart1'' (side (console_boot s)) = []" by (simp add: ring_def console_boot_def d)
  then have "console_ok d \<lparr>sh_device = None, sh_rx_sem = 0\<rparr> (console_boot s)"
    unfolding console_ok_def console_wakes_def using d(1,2,4) p
    by (simp add: console_boot_def rtk0_fields(3) rtk0_console_ready)
  then show ?thesis by blast
qed

text \<open>The ring, the semaphore and the callback of the line are the port's or the shell's.\<close>

lemma console_okI:
  assumes "devs (live_k (side C)) ''uart1'' = Some d" "shell (live_k (side C)) = Some sh" "console_ready (live_k (side C)) (live_p (side C))"
    "vl53_rx.port.port_settled (live_p (side C))" "hw_rx d = []" "sh_device sh = Some h"
    "rx_indicate d = Some ''usart1_rx_ind'' \<and> statics_up ''uart1'' (live_p (side C)) \<or> rx_indicate d = Some ''finsh_rx_ind''"
    "reading (side C) \<or> rx_sem (live_p (side C)) \<noteq> 0 \<Longrightarrow> statics_up ''uart1'' (live_p (side C))" "console_wakes C"
  shows "console_ok d sh C"
  using assms by (auto simp: console_ok_def)

lemma isr_ok:
  assumes "console_ok d sh C"
  shows "\<exists>C' d' sh'. console_isr bs C = Some C' \<and> console_ok d' sh' C' \<and> (deaf d C \<longrightarrow> deaf d' C')"
proof (cases "sh_device sh")
  case None
  then have "console_isr bs C = Some C"
    using console_okD(1) [OF assms] console_devD(4) [OF console_okD(13) [OF assms]] by (simp add: console_isr_def)
  then show ?thesis using assms by blast
next
  case (Some h)
  note ok = console_okD [OF assms]
  have op: "sh_device sh \<noteq> None" using Some by simp
  obtain f where f: "serial_rx d = Some f" "rx_fifo_wf f" and cd: "console_dev True d" "has (open_flag d) RT_DEVICE_FLAG_INT_RX"
    by (rule console_ring [OF assms op])
  obtain f' where f': "serial_isr_rx bs f = Some f'" "rx_fifo_wf f'" "rx_fifo_list f' = newest 63 (rx_fifo_list f @ bs)"
    using serial_isr_rx_list [OF f(2)] by blast
  obtain cb where cb: "rx_indicate d = Some cb" "cb = ''usart1_rx_ind'' \<or> cb = ''finsh_rx_ind''" using ok(6) [OF op] by auto
  define d' where "d' = d\<lparr>serial_rx := Some f', hw_rx := []\<rparr>"
  define n where "n = isr_rx_length f'"
  have n: "rx_fifo_list f' = [] \<longleftrightarrow> n = 0" by (auto simp: n_def simp flip: length_0_conv)
  have i: "rt_hw_serial_isr_rx (d\<lparr>hw_rx := bs\<rparr>) = Some (if n \<noteq> 0 then Some (cb, n) else None, d')"
    by (simp add: rt_hw_serial_isr_rx_def f f' cb(1) d'_def n_def Let_def)
  define k1 where "k1 = (live_k (side C))\<lparr>devs := (devs (live_k (side C)))(''uart1'' \<mapsto> d')\<rparr>"
  define a where "a = (n \<noteq> 0 \<and> cb = ''usart1_rx_ind'')"
  define b where "b = (n \<noteq> 0 \<and> cb = ''finsh_rx_ind'')"
  define k' where "k' = (if b then finsh_rx_ind k1 else k1)"
  define p' where "p' = (if a then usart1_rx_ind (live_p (side C)) else live_p (side C))"
  define sh' where "sh' = (if b then sh\<lparr>sh_rx_sem := rt_sem_release (sh_rx_sem sh)\<rparr> else sh)"
  define C' where "C' = C\<lparr>side := (side C)\<lparr>live_k := k', live_p := p'\<rparr>\<rparr>"
  have e: "console_isr bs C = Some C'"
    using cb(2) by (auto simp: console_isr_def Let_def ok(1,5) cd(2) i C'_def k'_def p'_def k1_def a_def b_def)
  have st: "statics_up ''uart1'' (live_p (side C))" if a using ok(7) that cb(1) by (simp add: a_def)
  have p: "p' = (live_p (side C))\<lparr>rx_sem := if a then rt_sem_release (rx_sem (live_p (side C))) else rx_sem (live_p (side C))\<rparr>"
    using st by (auto simp: p'_def usart1_rx_ind_def uart_rx_ind_def statics_up_def)
  have k: "devs k' ''uart1'' = Some d'" "shell k' = Some sh'" "console_device k' = Some ''uart1''" "heap_ok k' = heap_ok (live_k (side C))"
    by (simp_all add: k'_def k1_def finsh_rx_ind_def sh'_def ok(2,11))
  have dv: "sh_device sh' = sh_device sh" "console_dev True d'" "rx_indicate d' = Some cb" "hw_rx d' = []"
    using cd(1) f'(2) cb(1) f by (simp_all add: sh'_def d'_def console_dev_def)
  have su: "statics_up nm p' = statics_up nm (live_p (side C))" "statics_fresh p' = statics_fresh (live_p (side C))" for nm
    by (simp_all add: p statics_up_def statics_fresh_def)
  have "console_ok d' sh' C'"
  proof (rule console_okI [where h = h])
    show "console_ready (live_k (side C')) (live_p (side C'))"
      using ok(3,12) op by (simp add: C'_def console_ready_def console_up_def k dv su)
    show "vl53_rx.port.port_settled (live_p (side C'))" using ok(4) unfolding C'_def p by simp
    show "console_wakes C'"
      using release_pos(1) n cb(2) by (simp add: console_wakes_def C'_def ring_def k d'_def p sh'_def a_def b_def) blast
    show "rx_indicate d' = Some ''usart1_rx_ind'' \<and> statics_up ''uart1'' (live_p (side C')) \<or> rx_indicate d' = Some ''finsh_rx_ind''"
      using cb ok(7) by (auto simp: C'_def dv su)
    show "statics_up ''uart1'' (live_p (side C'))" if "reading (side C') \<or> rx_sem (live_p (side C')) \<noteq> 0"
      using that ok(8) st su by (cases a) (simp_all add: C'_def p statics_up_def)
  qed (use Some in \<open>simp_all add: C'_def k dv\<close>)
  moreover have "deaf d C \<longrightarrow> deaf d' C'"
    using cb(1) ok(2) by (simp add: deaf_def shell_waits_def C'_def k sh'_def dv b_def)
  ultimately show ?thesis using e by blast
qed

subsection \<open>The port's thread\<close>

context stream_parser
begin

lemma thread_step_ok:
  assumes "line_ok h L" "port_settled (live_p L)" "63 \<le> chunk_max"
  shows "\<exists>L'. line_run parse L = Some L' \<and> line_ok h L' \<and> port_settled (live_p L')"
proof -
  have "for_each (line_step parse h) [Run] L = line_run parse L" by (cases "line_run parse L") simp_all
  then show ?thesis using events_ok [OF assms, of "[Run]" undefined undefined] by metis
qed

end

text \<open>A step of the thread touches the ring of its device and its own part of the port.\<close>

lemma line_run_frame:
  assumes "line_run parse L = Some L'" "port_dev (live_p L) = Some h" "devs (live_k L) h = Some d"
    "has (open_flag d) RT_DEVICE_FLAG_INT_RX" "ref_count d \<noteq> 0"
  shows "\<exists>f. live_k L' = (live_k L)\<lparr>devs := (devs (live_k L))(h \<mapsto> d\<lparr>serial_rx := f\<rparr>)\<rparr> \<and> port_dev (live_p L') = port_dev (live_p L) \<and>
    rx_sem_inited (live_p L') = rx_sem_inited (live_p L) \<and> rx_thread (live_p L') = rx_thread (live_p L)"
proof (cases "reading L")
  case False
  have "(devs (live_k L))(h \<mapsto> d) = devs (live_k L)" using assms(3) by auto
  then show ?thesis
    using assms(1) False by (intro exI [of _ "serial_rx d"]) (auto simp: line_run_def split: option.splits)
next
  case True
  then obtain cs d' where r: "rt_device_read d MAX_LEN = Some (cs, d')"
    using assms by (auto simp: line_run_def line_read_def bind_eq_Some_conv)
  then obtain f where d': "d' = d\<lparr>serial_rx := f\<rparr>" using assms(4,5) by (auto simp: rt_device_read_def bind_eq_Some_conv)
  have ck: "port_dev q = port_dev (live_p L) \<and> rx_sem_inited q = rx_sem_inited (live_p L) \<and> rx_thread q = rx_thread (live_p L)"
    if "uart_rx_chunk parse cs (live_p L, live_s L) = Some (q, t)" for q t
    using chunk_keeps [OF that] by simp
  show ?thesis
    using assms(1-3) True r
    by (intro exI [of _ f]) (auto simp: line_run_def line_read_def d' bind_eq_Some_conv Let_def dest: ck split: if_splits)
qed

lemma port_ok:
  assumes "console_ok d sh C"
  shows "\<exists>C' d' sh'. console_step Port C = Some C' \<and> console_ok d' sh' C' \<and> (deaf d C \<longrightarrow> deaf d' C')"
proof (cases "idle (side C)")
  case True
  then have "console_step Port C = Some C" by (simp add: wait_effect)
  then show ?thesis using assms by blast
next
  case False
  note ok = console_okD [OF assms]
  have busy: "reading (side C) \<or> rx_sem (live_p (side C)) \<noteq> 0" using False by (auto simp: idle_def)
  then have op: "sh_device sh \<noteq> None" using ok(9) by blast
  have st: "statics_up ''uart1'' (live_p (side C))" using ok(8) busy by blast
  obtain f where f: "serial_rx d = Some f" "rx_fifo_wf f" and cd: "console_dev True d" "has (open_flag d) RT_DEVICE_FLAG_INT_RX" "ref_count d \<noteq> 0"
    by (rule console_ring [OF assms op])
  have l: "line_ok ''uart1'' (side C)"
    using ok(1,5) ok(6) [OF op] st f cd busy by (auto simp: line_ok_def statics_up_def)
  obtain L' where L': "line_run usart1_try_parse (side C) = Some L'" "line_ok ''uart1'' L'" "vl53_rx.port.port_settled (live_p L')"
    using vl53_rx.port.thread_step_ok [OF l ok(4)] unfolding try_parse_eqs by (auto simp: MAX_LEN_def)
  have pd: "port_dev (live_p (side C)) = Some ''uart1''" using st by (simp add: statics_up_def)
  obtain f' where fr: "live_k L' = (live_k (side C))\<lparr>devs := (devs (live_k (side C)))(''uart1'' \<mapsto> d\<lparr>serial_rx := f'\<rparr>)\<rparr>"
    "statics_up ''uart1'' (live_p L')"
    using line_run_frame [OF L'(1) pd ok(1) cd(2,3)] st by (auto simp: statics_up_def)
  define d' where "d' = d\<lparr>serial_rx := f'\<rparr>"
  have k: "devs (live_k L') ''uart1'' = Some d'" "shell (live_k L') = Some sh" "console_device (live_k L') = Some ''uart1''"
    by (simp_all add: fr(1) d'_def ok(2,11))
  obtain g where "f' = Some g" "rx_fifo_wf g" using L'(2) k(1) by (auto simp: line_ok_def d'_def)
  then have dv: "console_dev True d'" "rx_indicate d' = rx_indicate d" "hw_rx d' = []" using cd(1) ok(5) by (simp_all add: d'_def console_dev_def)
  obtain h where h: "sh_device sh = Some h" using op by blast
  define C' where "C' = C\<lparr>side := L'\<rparr>"
  have "console_ok d' sh C'"
  proof (rule console_okI [OF _ _ _ _ _ h])
    show "console_ready (live_k (side C')) (live_p (side C'))"
      using ok(12) op fr(2) dv(1) by (simp add: C'_def console_ready_def console_up_def k)
    show "console_wakes C'" using L'(2) by (auto simp: console_wakes_def C'_def line_ok_def)
    show "rx_indicate d' = Some ''usart1_rx_ind'' \<and> statics_up ''uart1'' (live_p (side C')) \<or> rx_indicate d' = Some ''finsh_rx_ind''"
      using ok(6) [OF op] fr(2) by (simp add: C'_def dv)
  qed (use L'(3) fr(2) in \<open>simp_all add: C'_def k dv\<close>)
  moreover have "deaf d C \<longrightarrow> deaf d' C'" by (simp add: deaf_def shell_waits_def C'_def k ok(2) dv)
  moreover have "console_step Port C = Some C'" by (simp add: L'(1) C'_def)
  ultimately show ?thesis by blast
qed

subsection \<open>The shell's thread\<close>

lemma shell_ok:
  assumes "console_ok d sh C"
  shows "\<exists>C' d' sh'. shell_step C = Some C' \<and> console_ok d' sh' C' \<and> (deaf d C \<longrightarrow> deaf d' C')"
proof (cases "sh_device sh")
  case None
  note ok = console_okD [OF assms]
  define d1 where "d1 = d\<lparr>open_flag := shell_flags, serial_rx := Some rx_fifo_new, ref_count := 2, rx_indicate := Some ''finsh_rx_ind''\<rparr>"
  define k1 where "k1 = (live_k (side C))\<lparr>shell := Some (sh\<lparr>sh_device := Some ''uart1''\<rparr>),
    devs := (devs (live_k (side C)))(''uart1'' \<mapsto> d1)\<rparr>"
  have c1: "console_dev True d1" using ok(13) None by (simp add: console_dev_def d1_def)
  define d' where "d' = d1\<lparr>hw_tx := hw_tx d1 @ serial_poll_tx True (map of_char ''msh >'')\<rparr>"
  have p: "rt_kputs ''msh >'' k1 = k1\<lparr>devs := (devs k1)(''uart1'' \<mapsto> d')\<rparr>"
    unfolding d'_def by (rule kputs_console [OF _ _ c1]) (simp_all add: k1_def ok(11))
  define sh' where "sh' = sh\<lparr>sh_device := Some ''uart1''\<rparr>"
  define C' where "C' = C\<lparr>side := (side C)\<lparr>live_k := rt_kputs ''msh >'' k1\<rparr>, shell_reading := True\<rparr>"
  have e: "shell_step C = Some C'"
    using shell_starts [OF ok(14,1,2) None] by (simp add: shell_step_def Let_def ok(2) None C'_def k1_def d1_def)
  have k: "devs (live_k (side C')) ''uart1'' = Some d'" "shell (live_k (side C')) = Some sh'" "console_device (live_k (side C')) = Some ''uart1''"
    "heap_ok (live_k (side C')) = heap_ok (live_k (side C))" "live_p (side C') = live_p (side C)"
    by (simp_all add: C'_def p) (simp_all add: k1_def sh'_def ok(11))
  have dv: "console_dev True d'" "rx_indicate d' = Some ''finsh_rx_ind''" "hw_rx d' = []" "sh_device sh' = Some ''uart1''"
    using c1 ok(5) by (simp_all add: d'_def d1_def sh'_def)
  have "console_ok d' sh' C'"
  proof (rule console_okI [where h = "''uart1''"])
    show "console_ready (live_k (side C')) (live_p (side C'))" using ok(3) dv by (simp add: console_ready_def console_up_def k)
    show "console_wakes C'" by (simp add: console_wakes_def C'_def)
  qed (use ok(4,9) None in \<open>simp_all add: k dv, simp_all add: C'_def\<close>)
  moreover have "\<not> deaf d C" by (simp add: deaf_def shell_waits_def ok(2) None)
  ultimately show ?thesis using e by blast
next
  case (Some h)
  note ok = console_okD [OF assms]
  have op: "sh_device sh \<noteq> None" and h: "h = ''uart1''" using Some ok(12) by simp_all
  obtain f where f: "serial_rx d = Some f" "rx_fifo_wf f" "console_dev True d" "has (open_flag d) RT_DEVICE_FLAG_INT_RX" "ref_count d \<noteq> 0"
    "ring ''uart1'' (side C) = rx_fifo_list f" by (rule console_ring [OF assms op])
  show ?thesis
  proof (cases "shell_reading C")
    case True
    have "serial_wf d" using f by (simp add: serial_wf_def)
    from rt_device_read_ring [OF this f(1,5,4), of "Suc 0"] obtain f' where
      r: "rt_device_read d (Suc 0) = Some (take (Suc 0) (rx_fifo_list f), d\<lparr>serial_rx := Some f'\<rparr>)" "rx_fifo_wf f'"
        "rx_fifo_list f' = drop (Suc 0) (rx_fifo_list f)" by blast
    define d' where "d' = d\<lparr>serial_rx := Some f'\<rparr>"
    define C' where "C' = C\<lparr>side := (side C)\<lparr>live_k := (live_k (side C))\<lparr>devs := (devs (live_k (side C)))(''uart1'' \<mapsto> d')\<rparr>\<rparr>,
      shell_reading := take (Suc 0) (rx_fifo_list f) \<noteq> []\<rparr>"
    have e: "shell_step C = Some C'" by (simp add: shell_step_def Let_def ok(2) Some h True ok(1) r(1) C'_def d'_def)
    have k: "devs (live_k (side C')) ''uart1'' = Some d'" "shell (live_k (side C')) = Some sh"
      "console_device (live_k (side C')) = Some ''uart1''" "heap_ok (live_k (side C')) = heap_ok (live_k (side C))"
      "live_p (side C') = live_p (side C)" "reading (side C') = reading (side C)" by (simp_all add: C'_def ok(2,11))
    have dv: "console_dev True d'" "rx_indicate d' = rx_indicate d" "hw_rx d' = []" using f(3) ok(5) r(2) by (simp_all add: d'_def console_dev_def)
    have "ring ''uart1'' (side C') = rx_fifo_list f'" by (simp add: ring_def k d'_def)
    then have w: "console_wakes C'" using r(3) by (cases "rx_fifo_list f") (simp_all add: console_wakes_def C'_def)
    have "console_ok d' sh C'"
    proof (rule console_okI [OF _ _ _ _ _ Some])
      show "console_ready (live_k (side C')) (live_p (side C'))" using ok(3,12) op dv by (simp add: console_ready_def console_up_def k)
    qed (use ok(4,7,8) ok(6) [OF op] w in \<open>auto simp: k dv\<close>)
    moreover have "\<not> deaf d C" by (simp add: deaf_def shell_waits_def True)
    ultimately show ?thesis using e by blast
  next
    case False
    show ?thesis
    proof (cases "sh_rx_sem sh = 0")
      case True
      then have "shell_step C = Some C" by (simp add: shell_step_def Let_def ok(2) Some False rt_sem_take_def)
      then show ?thesis using assms by blast
    next
      case sem: False
      define sh' where "sh' = sh\<lparr>sh_rx_sem := sh_rx_sem sh - 1\<rparr>"
      define C' where "C' = C\<lparr>side := (side C)\<lparr>live_k := (live_k (side C))\<lparr>shell := Some sh'\<rparr>\<rparr>, shell_reading := True\<rparr>"
      have e: "shell_step C = Some C'"
        using sem by (simp add: shell_step_def Let_def ok(2) Some False rt_sem_take_def word_neq_0_conv C'_def sh'_def)
      have k: "devs (live_k (side C')) ''uart1'' = Some d" "shell (live_k (side C')) = Some sh'"
        "console_device (live_k (side C')) = Some ''uart1''" "heap_ok (live_k (side C')) = heap_ok (live_k (side C))"
        "live_p (side C') = live_p (side C)" "reading (side C') = reading (side C)" by (simp_all add: C'_def ok(1,11))
      have s: "sh_device sh' = sh_device sh" by (simp add: sh'_def)
      have "console_ok d sh' C'"
      proof (rule console_okI [where h = h])
        show "console_ready (live_k (side C')) (live_p (side C'))" using ok(3,12,13) op by (simp add: console_ready_def console_up_def k s)
        show "console_wakes C'" by (simp add: console_wakes_def C'_def)
      qed (use ok(4,5,7,8) ok(6) [OF op] Some in \<open>auto simp: k s\<close>)
      moreover have "\<not> deaf d C" using sem by (simp add: deaf_def shell_waits_def ok(2))
      ultimately show ?thesis using e by blast
    qed
  qed
qed

subsection \<open>Transmissions and printing\<close>

lemma debug_ok:
  assumes "console_ok d sh C"
  shows "\<exists>d'. console_ok d' sh (console_debug cs C) \<and> (deaf d C \<longrightarrow> deaf d' (console_debug cs C)) \<and>
    (cs \<noteq> [] \<and> shell_waits C \<longrightarrow> deaf d' (console_debug cs C))"
proof (cases "cs = []")
  case True
  then have "console_debug cs C = C" by (simp add: console_debug_def Usart1DMA_SendData_def uart_send_nothing)
  then show ?thesis using assms True by auto
next
  case False
  note ok = console_okD [OF assms]
  obtain k' p' where e: "uart_send ''uart1'' ''usart1_rx_ind'' ''u1rx'' (Some cs) (live_k (side C), live_p (side C)) = (k', p')" by fastforce
  define d' where "d' = d\<lparr>rx_indicate := Some ''usart1_rx_ind'', hw_tx := hw_tx d @ serial_poll_tx True (take TX_LEN cs)\<rparr>"
  from console_send [OF ok(3,1) False e] obtain ts where st: "statics_up ''uart1'' p'" and
    k': "k' = (live_k (side C))\<lparr>devs := (devs (live_k (side C)))(''uart1'' \<mapsto> d'), threads := ts\<rparr>" by (auto simp: d'_def)
  have r: "console_ready k' p'" by (rule console_send_ready(1) [OF ok(3) False e])
  have wf: "uart_port_wf (live_p (side C))" using ok(4) by (simp add: vl53_rx.port.port_settled_def)
  have "vl53_rx.port.port_settled p' = vl53_rx.port.port_settled (live_p (side C))"
    using send_inbox [OF wf e] by (simp add: vl53_rx.port.port_settled_def inbox_def uart_port_wf_def)
  then have i: "vl53_rx.port.port_settled p'" using ok(4) by simp
  have sm: "rx_sem p' = rx_sem (live_p (side C))"
    using send_sem [OF e] ok(8) by (cases "rx_sem (live_p (side C)) = 0") (auto simp: statics_up_def)
  have c: "console_debug cs C = C\<lparr>side := (side C)\<lparr>live_k := k', live_p := p'\<rparr>\<rparr>"
    by (simp add: console_debug_def Let_def Usart1DMA_SendData_def e)
  have k: "devs k' ''uart1'' = Some d'" "shell k' = Some sh" "hw_rx d' = []" "rx_indicate d' = Some ''usart1_rx_ind''" "serial_rx d' = serial_rx d"
    by (simp_all add: k' ok(2,5) d'_def)
  have w: "console_wakes (console_debug cs C)" using ok(10) by (simp add: console_wakes_def c k sm ring_def ok(1,2))
  have "console_ok d' sh (console_debug cs C)"
    using ok(9) w by (simp add: console_ok_def c k r i st sm)
  moreover have "shell_waits C \<Longrightarrow> deaf d' (console_debug cs C)" by (simp add: deaf_def shell_waits_def c k ok(2))
  ultimately show ?thesis by (auto simp: deaf_def)
qed

lemma print_ok:
  assumes "console_ok d sh C"
  shows "\<exists>C' d'. console_step (Print s) C = Some C' \<and> console_ok d' sh C' \<and> (deaf d C \<longrightarrow> deaf d' C')"
proof -
  note ok = console_okD [OF assms]
  define d' where "d' = d\<lparr>hw_tx := hw_tx d @ serial_poll_tx True (map of_char s)\<rparr>"
  have p: "rt_kputs s (live_k (side C)) = (live_k (side C))\<lparr>devs := (devs (live_k (side C)))(''uart1'' \<mapsto> d')\<rparr>"
    unfolding d'_def by (rule kputs_console [OF ok(11,1,13)])
  define C' where "C' = C\<lparr>side := (side C)\<lparr>live_k := rt_kputs s (live_k (side C))\<rparr>\<rparr>"
  have k: "devs (live_k (side C')) ''uart1'' = Some d'" "shell (live_k (side C')) = Some sh" "live_p (side C') = live_p (side C)"
    "reading (side C') = reading (side C)" "shell_reading C' = shell_reading C" "hw_rx d' = []" "rx_indicate d' = rx_indicate d"
    "serial_rx d' = serial_rx d" by (simp_all add: C'_def p ok(2,5) d'_def)
  have r: "console_ready (live_k (side C')) (live_p (side C))"
    using ok(3) kputs_up [OF ok(14)] by (simp add: console_ready_def C'_def)
  have w: "console_wakes C'" using ok(10) by (simp add: console_wakes_def k ring_def ok(1,2))
  have "console_ok d' sh C'" using assms w by (simp add: console_ok_def k r)
  moreover have "deaf d C \<longrightarrow> deaf d' C'" by (simp add: deaf_def shell_waits_def k ok(2))
  ultimately show ?thesis by (auto simp: C'_def)
qed

subsection \<open>Every interleaving\<close>

lemma console_step_ok:
  assumes "console_ok d sh C"
  shows "\<exists>C' d' sh'. console_step e C = Some C' \<and> console_ok d' sh' C' \<and> (deaf d C \<longrightarrow> deaf d' C')"
proof (cases e)
  case (Rx bs) then show ?thesis using isr_ok [OF assms] by simp
next
  case Port then show ?thesis using port_ok [OF assms] by simp
next
  case Shell then show ?thesis using shell_ok [OF assms] by simp
next
  case (Debug cs) then show ?thesis using debug_ok [OF assms, of cs] by auto
next
  case (Print s) then show ?thesis using print_ok [OF assms, of s] by auto
qed

lemma console_run_ok:
  assumes "console_ok d sh C"
  shows "\<exists>C' d' sh'. for_each console_step es C = Some C' \<and> console_ok d' sh' C' \<and> (deaf d C \<longrightarrow> deaf d' C')"
  using assms
proof (induction es arbitrary: d sh C)
  case (Cons e es)
  obtain C1 d1 sh1 where 1: "console_step e C = Some C1" "console_ok d1 sh1 C1" "deaf d C \<longrightarrow> deaf d1 C1"
    using console_step_ok [OF Cons.prems] by blast
  then show ?case using Cons.IH [OF 1(2)] by auto
qed auto

lemma console_line_runs:
  "\<exists>C. for_each console_step es (console_boot s) = Some C \<and> console_wakes C"
proof -
  obtain d where "console_ok d \<lparr>sh_device = None, sh_rx_sem = 0\<rparr> (console_boot s)" using boot_ok by blast
  from console_run_ok [OF this, of es] show ?thesis using console_okD(10) by blast
qed

text \<open>
  C10 (safety). Whatever bytes the interrupts of the four parsed lines bring, in time or not, and
  however they interleave with the receive threads, no thread ever leaves its buffers and no wake-up
  is lost: bytes in a ring always have a thread on its way to them. The lines of the attitude sensor,
  the camera and the host are followed from the moment their ports open a device that nobody has
  opened; the distance sensor's, which is the console's as well, from the state the
  board leaves, interleaved with the shell's start and its reading, the transmissions of the port
  and the printing.
\<close>

theorem lines_never_fault:
  assumes "line_fresh k ''uart2''" "line_fresh k ''uart4''" "line_fresh k ''uart5''"
  shows
    "(\<exists>C. for_each console_step cs (console_boot s) = Some C \<and> console_wakes C) \<and>
     (\<exists>L. for_each (line_step usart2_try_parse ''uart2'') es (live_at (usart2_port_open (k, uart_port0)) w) = Some L \<and> wakes ''uart2'' L) \<and>
     (\<exists>L. for_each (line_step uart4_try_parse ''uart4'') es (live_at (uart4_port_open (k, uart_port0)) w) = Some L \<and> wakes ''uart4'' L) \<and>
     (\<exists>L. for_each (line_step uart5_try_parse ''uart5'') es (live_at (uart5_port_open (k, uart_port0)) w) = Some L \<and> wakes ''uart5'' L)"
  using assms by (intro conjI console_line_runs imu_line cam_line soft_line)

text \<open>
  From the state the board leaves: a burst larger than the ring, a command cut in two; and on the
  console's line the shell's start, a debug line and bytes for both readers.
\<close>

theorem lines_never_fault_witness:
  "(\<exists>C. for_each console_step [Shell, Shell, Rx [0x6C], Shell, Debug [0x59], Rx (replicate 200 0x59), Port] (console_boot vl53_init) = Some C \<and>
      console_wakes C) \<and>
   (\<exists>L. for_each (line_step uart5_try_parse ''uart5'') [Irq (replicate 200 0xAA), Run, Irq [0x20, 1], Run, Irq [0x55], Run]
     (live_at (uart5_port_open (rtk0, uart_port0)) globals0) = Some L \<and> wakes ''uart5'' L)"
proof -
  have "line_fresh rtk0 ''uart2''" "line_fresh rtk0 ''uart4''" "line_fresh rtk0 ''uart5''"
    by (rule rtk0_line; simp)+
  from lines_never_fault [OF this, of "[Shell, Shell, Rx [0x6C], Shell, Debug [0x59], Rx (replicate 200 0x59), Port]" vl53_init
      "[Irq (replicate 200 0xAA), Run, Irq [0x20, 1], Run, Irq [0x55], Run]" globals0]
  show ?thesis by (elim conjE) (intro conjI)
qed

text \<open>
  C17 (safety). The shell loses its input to the distance sensor: once it waits at its semaphore,
  the first debug line takes the device's callback away from it, and from then on, whatever
  happens, it is never woken again and reads no byte; the ring is left to the port's thread, which
  is always on its way when bytes wait.
\<close>

theorem shell_goes_deaf:
  assumes "for_each console_step es0 (console_boot s) = Some C0" "shell_waits C0" "cs \<noteq> []"
  shows "\<exists>C. for_each console_step (Debug cs # es) C0 = Some C \<and> shell_waits C \<and> wakes ''uart1'' (side C)"
proof -
  obtain d0 where b: "console_ok d0 \<lparr>sh_device = None, sh_rx_sem = 0\<rparr> (console_boot s)" using boot_ok by blast
  obtain d sh where "console_ok d sh C0" using console_run_ok [OF b, of es0] assms(1) by auto
  then obtain d1 where 1: "console_ok d1 sh (console_debug cs C0)" "deaf d1 (console_debug cs C0)"
    using debug_ok [of d sh C0 cs] assms(2,3) by blast
  obtain C d2 sh2 where 2: "for_each console_step es (console_debug cs C0) = Some C" "console_ok d2 sh2 C" "deaf d2 C"
    using console_run_ok [OF 1(1), of es] 1(2) by blast
  have "wakes ''uart1'' (side C)"
    using console_okD(10) [OF 2(2)] 2(3) by (auto simp: wakes_def console_wakes_def deaf_def shell_waits_def split: option.splits)
  then show ?thesis using 2 by (simp add: deaf_def)
qed

text \<open>The shell starts, finds nothing and waits; then a debug line, a byte of the user, and the shell's turn.\<close>

lemma shell_comes_to_wait: "\<exists>C. for_each console_step [Shell, Shell] (console_boot s) = Some C \<and> shell_waits C"
proof -
  obtain d0 where b: "console_ok d0 \<lparr>sh_device = None, sh_rx_sem = 0\<rparr> (console_boot s)" using boot_ok by blast
  note ok = console_okD [OF b]
  define sh where "sh = \<lparr>sh_device = Some ''uart1'', sh_rx_sem = 0\<rparr>"
  define d1 where "d1 = d0\<lparr>open_flag := shell_flags, serial_rx := Some rx_fifo_new, ref_count := 2, rx_indicate := Some ''finsh_rx_ind''\<rparr>"
  define k1 where "k1 = rtk0\<lparr>shell := Some sh, devs := (devs rtk0)(''uart1'' \<mapsto> d1)\<rparr>"
  have c1: "console_dev True d1" using ok(13) by (simp add: console_dev_def d1_def)
  define d2 where "d2 = d1\<lparr>hw_tx := hw_tx d1 @ serial_poll_tx True (map of_char ''msh >'')\<rparr>"
  have p: "rt_kputs ''msh >'' k1 = k1\<lparr>devs := (devs k1)(''uart1'' \<mapsto> d2)\<rparr>"
    unfolding d2_def by (rule kputs_console [OF _ _ c1]) (simp_all add: k1_def rtk0_fields)
  have s1: "finsh_thread_start rtk0 = Some (rt_kputs ''msh >'' k1)"
    using shell_starts [OF rtk0_console _ rtk0_fields(3), of d0] ok(1) by (simp add: console_boot_def k1_def d1_def sh_def)
  define C1 where "C1 = (console_boot s)\<lparr>side := (side (console_boot s))\<lparr>live_k := rt_kputs ''msh >'' k1\<rparr>, shell_reading := True\<rparr>"
  have e1: "shell_step (console_boot s) = Some C1"
    by (simp add: shell_step_def C1_def Let_def) (simp add: console_boot_def rtk0_fields s1)
  have k: "devs (live_k (side C1)) ''uart1'' = Some d2" "shell (live_k (side C1)) = Some sh" "shell_reading C1"
    by (simp_all add: C1_def p) (simp add: k1_def)
  have f: "serial_rx d2 = Some rx_fifo_new" "ref_count d2 \<noteq> 0" "has (open_flag d2) RT_DEVICE_FLAG_INT_RX" "serial_wf d2"
    by (simp_all add: d2_def d1_def serial_wf_def)
  have "isr_rx_length rx_fifo_new = 0" by (simp add: rx_fifo_new_def isr_rx_length_def)
  then have "rx_fifo_list rx_fifo_new = []" by (simp add: rx_fifo_list_def)
  then obtain d3 where "rt_device_read d2 (Suc 0) = Some ([], d3)" using rt_device_read_ring [OF f(4,1-3), of "Suc 0"] by auto
  then obtain C2 where e2: "shell_step C1 = Some C2" "shell_waits C2"
    by (auto simp: shell_step_def Let_def k sh_def shell_waits_def)
  show ?thesis using e1 e2 by simp
qed

theorem shell_goes_deaf_witness:
  "\<exists>C. for_each console_step ([Shell, Shell] @ [Debug [0x59], Rx [0x6C], Shell, Port, Rx [0x73, 0x0D], Shell, Shell])
     (console_boot vl53_init) = Some C \<and> shell_waits C \<and> wakes ''uart1'' (side C)"
proof -
  obtain C0 where C0: "for_each console_step [Shell, Shell] (console_boot vl53_init) = Some C0" "shell_waits C0"
    using shell_comes_to_wait by blast
  from shell_goes_deaf [OF C0, of "[0x59]" "[Rx [0x6C], Shell, Port, Rx [0x73, 0x0D], Shell, Shell]"]
  show ?thesis unfolding for_each_append C0(1) by simp
qed

end
