(* ===== verification/Fifo.thy ===== *)
theory Fifo
  imports Prelude Queue_Contract
begin

text \<open>
  The receive queue of the stepper driver (\<^verbatim>\<open>Software/fifo.c\<close>): a ring of 128 half words with a
  write and a read index. One slot always stays free, so the queue holds 127 elements; nothing in
  the code stops a 128th.
\<close>

definition FIFO_SIZE :: nat where
  "FIFO_SIZE = 128"

record FIFO_t =
  buffer :: "u16 list"
  ptrWrite :: u8
  ptrRead :: u8

text \<open>\<^verbatim>\<open>__IO FIFO_t rxFIFO = {0};\<close>\<close>

definition rxFIFO0 :: FIFO_t where
  "rxFIFO0 = \<lparr>buffer = replicate 128 0, ptrWrite = 0, ptrRead = 0\<rparr>"

definition initQueue :: "FIFO_t \<Rightarrow> FIFO_t" where
  "initQueue f = f\<lparr>ptrRead := 0, ptrWrite := 0\<rparr>"

definition fifo_initQueue :: "FIFO_t \<Rightarrow> FIFO_t" where
  "fifo_initQueue f = initQueue f"

definition fifo_enQueue :: "u16 \<Rightarrow> FIFO_t \<Rightarrow> FIFO_t option" where
  "fifo_enQueue data f =
     Option.bind (wr (buffer f) (unat (ptrWrite f)) data) (\<lambda>b.
       let w = ptrWrite f + 1 in
       Some (f\<lparr>buffer := b, ptrWrite := (if FIFO_SIZE \<le> unat w then 0 else w)\<rparr>))"

definition fifo_deQueue :: "FIFO_t \<Rightarrow> (u16 \<times> FIFO_t) option" where
  "fifo_deQueue f =
     Option.bind (rd (buffer f) (unat (ptrRead f))) (\<lambda>element.
       let r = ptrRead f + 1 in
       Some (element, f\<lparr>ptrRead := (if FIFO_SIZE \<le> unat r then 0 else r)\<rparr>))"

definition fifo_isEmpty :: "FIFO_t \<Rightarrow> bool" where
  "fifo_isEmpty f = (ptrRead f = ptrWrite f)"

definition fifo_queueLength :: "FIFO_t \<Rightarrow> u16" where
  "fifo_queueLength f =
     (if ptrRead f \<le> ptrWrite f then ucast (ptrWrite f) - ucast (ptrRead f)
      else of_nat FIFO_SIZE - ucast (ptrRead f) + ucast (ptrWrite f))"

subsection \<open>Invariant and contents\<close>

definition fifo_wf :: "FIFO_t \<Rightarrow> bool" where
  "fifo_wf f \<longleftrightarrow> length (buffer f) = FIFO_SIZE \<and>
     unat (ptrWrite f) < FIFO_SIZE \<and> unat (ptrRead f) < FIFO_SIZE"

definition fifo_count :: "FIFO_t \<Rightarrow> nat" where
  "fifo_count f = (unat (ptrWrite f) + FIFO_SIZE - unat (ptrRead f)) mod FIFO_SIZE"

definition fifo_list :: "FIFO_t \<Rightarrow> u16 list" where
  "fifo_list f = map (\<lambda>i. buffer f ! ((unat (ptrRead f) + i) mod FIFO_SIZE)) [0..<fifo_count f]"

lemma length_fifo_list [simp]: "length (fifo_list f) = fifo_count f"
  by (simp add: fifo_list_def)

lemma unat_incr_u8: "unat (p :: u8) < 128 \<Longrightarrow> unat (p + 1) = unat p + 1"
  by (simp add: unat_word_ariths)

lemma fifo_wrap:
  "unat (p :: u8) < FIFO_SIZE \<Longrightarrow>
    unat (if FIFO_SIZE \<le> unat (p + 1) then 0 else p + 1) = (unat p + 1) mod FIFO_SIZE"
  by (cases "unat p = 127") (auto simp: FIFO_SIZE_def unat_incr_u8)

lemma fifo_enQueue_wf:
  assumes "fifo_wf f"
  shows "\<exists>f'. fifo_enQueue x f = Some f' \<and> fifo_wf f' \<and> ptrRead f' = ptrRead f \<and>
    unat (ptrWrite f') = (unat (ptrWrite f) + 1) mod FIFO_SIZE \<and>
    buffer f' = (buffer f)[unat (ptrWrite f) := x]"
  using assms fifo_wrap [of "ptrWrite f"]
  by (simp add: fifo_wf_def fifo_enQueue_def arr_simps Let_def FIFO_SIZE_def)

lemma fifo_deQueue_wf:
  assumes "fifo_wf f"
  shows "\<exists>f'. fifo_deQueue f = Some (buffer f ! unat (ptrRead f), f') \<and> fifo_wf f' \<and>
    ptrWrite f' = ptrWrite f \<and> buffer f' = buffer f \<and>
    unat (ptrRead f') = (unat (ptrRead f) + 1) mod FIFO_SIZE"
  using assms fifo_wrap [of "ptrRead f"]
  by (simp add: fifo_wf_def fifo_deQueue_def arr_simps Let_def FIFO_SIZE_def)

lemma fifo_count_eq:
  "fifo_wf f \<Longrightarrow> fifo_count f = (if unat (ptrRead f) \<le> unat (ptrWrite f)
     then unat (ptrWrite f) - unat (ptrRead f) else unat (ptrWrite f) + FIFO_SIZE - unat (ptrRead f))"
  by (auto simp: fifo_count_def fifo_wf_def FIFO_SIZE_def mod_if le_mod_geq)

lemma fifo_count_bound: "fifo_wf f \<Longrightarrow> fifo_count f \<le> 127"
  by (auto simp: fifo_count_eq fifo_wf_def FIFO_SIZE_def)

lemma fifo_queueLength_count: "fifo_wf f \<Longrightarrow> unat (fifo_queueLength f) = fifo_count f"
proof -
  assume wf: "fifo_wf f"
  have u: "unat (ucast (p :: u8) :: u16) = unat p" for p
    by (simp add: byte_simps)
  show ?thesis
  proof (cases "ptrRead f \<le> ptrWrite f")
    case True
    then have "(ucast (ptrRead f) :: u16) \<le> ucast (ptrWrite f)" by (simp add: word_le_nat_alt u)
    with True wf show ?thesis
      by (simp add: fifo_queueLength_def fifo_count_eq unat_sub u word_le_nat_alt)
  next
    case False
    with wf have r: "unat (ptrRead f) < 128" "unat (ptrWrite f) < unat (ptrRead f)"
      by (auto simp: fifo_wf_def FIFO_SIZE_def word_le_nat_alt)
    then have "(ucast (ptrRead f) :: u16) \<le> 128" by (simp add: word_le_nat_alt u)
    then have "unat (128 - ucast (ptrRead f) :: u16) = 128 - unat (ptrRead f)" by (simp add: unat_sub u)
    with False wf r show ?thesis
      by (simp add: fifo_queueLength_def fifo_count_eq FIFO_SIZE_def unat_word_ariths u word_le_nat_alt)
  qed
qed

lemma fifo_list_enQueue:
  assumes "fifo_wf f" "fifo_count f < 127" "fifo_enQueue x f = Some f'"
  shows "fifo_list f' = fifo_list f @ [x]"
proof -
  obtain f1 where "fifo_enQueue x f = Some f1" and wf': "fifo_wf f1" and
    f': "ptrRead f1 = ptrRead f" "unat (ptrWrite f1) = (unat (ptrWrite f) + 1) mod FIFO_SIZE"
      "buffer f1 = (buffer f)[unat (ptrWrite f) := x]"
    using fifo_enQueue_wf [OF assms(1), of x] by auto
  with assms(3) have eq: "f1 = f'" by simp
  have b: "length (buffer f) = 128" "unat (ptrWrite f) < 128" "unat (ptrRead f) < 128"
    using assms(1) by (auto simp: fifo_wf_def FIFO_SIZE_def)
  have c: "fifo_count f' = Suc (fifo_count f)"
    using assms(1,2) wf' f' b unfolding eq
    by (auto simp: fifo_count_eq FIFO_SIZE_def mod_Suc split: if_splits)
  have at: "(unat (ptrRead f) + fifo_count f) mod 128 = unat (ptrWrite f)"
    using assms(1,2) b by (auto simp: fifo_count_eq FIFO_SIZE_def)
  have before: "unat (ptrWrite f) \<noteq> (unat (ptrRead f) + i) mod 128" if "i < fifo_count f" for i
    using assms(1,2) b that by (auto simp: fifo_count_eq FIFO_SIZE_def mod_if split: if_splits)
  show ?thesis
    using f' b at before
    by (auto simp: fifo_list_def c [folded eq] FIFO_SIZE_def nth_list_update_neq simp flip: eq)
qed

lemma fifo_list_deQueue:
  assumes "fifo_wf f" "fifo_list f = x # xs" "fifo_deQueue f = Some (y, f')"
  shows "y = x \<and> fifo_list f' = xs"
proof -
  obtain f1 where "fifo_deQueue f = Some (buffer f ! unat (ptrRead f), f1)" and wf': "fifo_wf f1" and
    f': "ptrWrite f1 = ptrWrite f" "buffer f1 = buffer f"
      "unat (ptrRead f1) = (unat (ptrRead f) + 1) mod FIFO_SIZE"
    using fifo_deQueue_wf [OF assms(1)] by auto
  with assms(3) have eq: "f1 = f'" "y = buffer f ! unat (ptrRead f)" by auto
  have b: "unat (ptrWrite f) < 128" "unat (ptrRead f) < 128"
    using assms(1) by (auto simp: fifo_wf_def FIFO_SIZE_def)
  have pos: "0 < fifo_count f" using assms(2) length_fifo_list [of f] by simp
  then have c: "fifo_count f = Suc (fifo_count f')"
    using assms(1) wf' f' b unfolding eq
    by (auto simp: fifo_count_eq FIFO_SIZE_def mod_Suc split: if_splits)
  have "fifo_list f = buffer f ! unat (ptrRead f) # fifo_list f'"
    using b f' unfolding eq fifo_list_def c
    by (simp add: upt_conv_Cons map_Suc_upt [symmetric] FIFO_SIZE_def mod_simps del: upt_Suc)
  with assms(2) eq show ?thesis by simp
qed

subsection \<open>The queue contract\<close>

interpretation rx: fifo_queue initQueue fifo_enQueue fifo_deQueue fifo_isEmpty
  "\<lambda>f. unat (fifo_queueLength f)" fifo_list fifo_wf 127
proof
  fix q :: FIFO_t and x :: u16 and y xs
  assume q: "fifo_wf q"
  show "fifo_wf (initQueue q) \<and> fifo_list (initQueue q) = []"
    using q by (simp add: fifo_wf_def initQueue_def fifo_list_def fifo_count_def FIFO_SIZE_def)
  show "fifo_isEmpty q = (fifo_list q = [])"
    using q fifo_count_eq [OF q] length_fifo_list [of q]
    by (auto simp: fifo_isEmpty_def fifo_wf_def FIFO_SIZE_def word_unat_eq_iff
        simp flip: length_0_conv simp del: length_fifo_list split: if_splits)
  show "unat (fifo_queueLength q) = length (fifo_list q)"
    using q by (simp add: fifo_queueLength_count)
  show "length (fifo_list q) \<le> 127"
    using q by (simp add: fifo_count_bound)
  show "\<exists>q'. fifo_enQueue x q = Some q' \<and> fifo_wf q' \<and> fifo_list q' = fifo_list q @ [x]"
    if "length (fifo_list q) < 127"
    using fifo_enQueue_wf [OF q, of x] fifo_list_enQueue [OF q] that by auto
  show "\<exists>q'. fifo_deQueue q = Some (y, q') \<and> fifo_wf q' \<and> fifo_list q' = xs"
    if "fifo_list q = y # xs"
    using fifo_deQueue_wf [OF q] fifo_list_deQueue [OF q that] by auto
qed

subsection \<open>Behaviour of the driver's queue\<close>

text \<open>The queue after a list of half words was pushed one by one.\<close>

definition fifo_push :: "u16 list \<Rightarrow> FIFO_t \<Rightarrow> FIFO_t option" where
  "fifo_push = rx.enq_all"

definition fifo_pop :: "nat \<Rightarrow> FIFO_t \<Rightarrow> (u16 list \<times> FIFO_t) option" where
  "fifo_pop = rx.deq_n"

text \<open>
  Any burst of up to 127 half words pushed into the freshly initialised queue is
  popped complete and in order, the reported length in between is the number pushed, no access
  leaves the 128-word buffer, and the queue reports empty at the end.
\<close>

theorem fifo_burst_roundtrip:
  assumes "length xs \<le> 127" "fifo_wf f"
  shows "\<exists>f1 f2. fifo_push xs (fifo_initQueue f) = Some f1 \<and>
    unat (fifo_queueLength f1) = length xs \<and>
    fifo_pop (length xs) f1 = Some (xs, f2) \<and> fifo_isEmpty f2"
  using rx.enq_all_deq_n [of "initQueue f" xs] rx.clear_ok [OF assms(2)] assms(1)
  unfolding fifo_push_def fifo_pop_def fifo_initQueue_def by blast

theorem fifo_burst_roundtrip_witness:
  "\<exists>f1 f2. fifo_push [7, 8] (fifo_initQueue rxFIFO0) = Some f1 \<and>
    unat (fifo_queueLength f1) = length [7 :: u16, 8] \<and>
    fifo_pop (length [7 :: u16, 8]) f1 = Some ([7, 8], f2) \<and> fifo_isEmpty f2"
  by (rule fifo_burst_roundtrip) (simp_all add: fifo_wf_def rxFIFO0_def FIFO_SIZE_def)

text \<open>
  The queue has no overflow check: the push that follows 127 unread elements is
  accepted, and afterwards the queue reports itself empty, so all 128 elements are lost.
\<close>

theorem fifo_overflow_empties:
  assumes "fifo_wf f" "fifo_queueLength f = 127"
  shows "\<exists>f'. fifo_enQueue x f = Some f' \<and> fifo_isEmpty f' \<and> fifo_queueLength f' = 0"
proof -
  have c: "fifo_count f = 127" using assms fifo_queueLength_count [of f] by simp
  obtain f' where f': "fifo_enQueue x f = Some f'" "fifo_wf f'" "ptrRead f' = ptrRead f"
    "unat (ptrWrite f') = (unat (ptrWrite f) + 1) mod FIFO_SIZE"
    using fifo_enQueue_wf [OF assms(1), of x] by auto
  have "unat (ptrWrite f') = unat (ptrRead f)"
    using c f'(4) fifo_count_eq [OF assms(1)] assms(1)
    by (auto simp: fifo_wf_def FIFO_SIZE_def mod_Suc split: if_splits)
  then have "fifo_isEmpty f'" using f'(3) by (simp add: fifo_isEmpty_def word_unat_eq_iff)
  then show ?thesis using f'(1) by (auto simp: fifo_isEmpty_def fifo_queueLength_def)
qed

theorem fifo_overflow_empties_witness:
  "\<exists>f'. fifo_enQueue 5 (rxFIFO0\<lparr>ptrWrite := 127\<rparr>) = Some f' \<and> fifo_isEmpty f' \<and>
    fifo_queueLength f' = 0"
  by (rule fifo_overflow_empties)
    (simp_all add: fifo_wf_def rxFIFO0_def FIFO_SIZE_def fifo_queueLength_def)

end
