(* ===== verification/Hal_Tim.thy ===== *)
theory Hal_Tim
  imports Hal
begin

text \<open>
  The timer configuration of the HAL (\<^verbatim>\<open>stm32f4xx_hal_tim.c\<close>) on the registers: time base, PWM
  channels, encoder interface and start. The compare values are in \<^verbatim>\<open>Hal\<close> (\<open>CCR\<close>); here are the
  registers that say what the timers do with them. The handle's state and lock are left out: every
  handle is static and used by one function only.
\<close>

subsection \<open>The registers\<close>

record tim_regs =
  CR1 :: "tim \<Rightarrow> u32"
  CR2 :: "tim \<Rightarrow> u32"
  SMCR :: "tim \<Rightarrow> u32"
  EGR :: "tim \<Rightarrow> u32"
  CCMR1 :: "tim \<Rightarrow> u32"
  CCMR2 :: "tim \<Rightarrow> u32"
  CCER :: "tim \<Rightarrow> u32"
  PSC :: "tim \<Rightarrow> u32"
  ARR :: "tim \<Rightarrow> u32"
  RCR :: "tim \<Rightarrow> u32"
  BDTR :: "tim \<Rightarrow> u32"

record TIM_Base_InitTypeDef =
  Prescaler :: u32
  CounterMode :: u32
  Period :: u32
  ClockDivision :: u32
  RepetitionCounter :: u32
  AutoReloadPreload :: u32

record TIM_OC_InitTypeDef =
  OCMode :: u32
  Pulse :: u32
  OCPolarity :: u32
  OCNPolarity :: u32
  OCFastMode :: u32
  OCIdleState :: u32
  OCNIdleState :: u32

record TIM_Encoder_InitTypeDef =
  EncoderMode :: u32
  IC1Polarity :: u32
  IC1Selection :: u32
  IC1Prescaler :: u32
  IC1Filter :: u32
  IC2Polarity :: u32
  IC2Selection :: u32
  IC2Prescaler :: u32
  IC2Filter :: u32

text \<open>Which of the four timers in use has what (\<^verbatim>\<open>stm32f407xx.h\<close>).\<close>

definition IS_TIM_COUNTER_MODE_SELECT_INSTANCE :: "tim \<Rightarrow> bool" where
  "IS_TIM_COUNTER_MODE_SELECT_INSTANCE t \<longleftrightarrow> t \<in> {TIM1, TIM3, TIM4}"

definition IS_TIM_CLOCK_DIVISION_INSTANCE :: "tim \<Rightarrow> bool" where
  "IS_TIM_CLOCK_DIVISION_INSTANCE t \<longleftrightarrow> t \<in> {TIM1, TIM3, TIM4, TIM12}"

definition IS_TIM_REPETITION_COUNTER_INSTANCE :: "tim \<Rightarrow> bool" where
  "IS_TIM_REPETITION_COUNTER_INSTANCE t \<longleftrightarrow> t = TIM1"

definition IS_TIM_BREAK_INSTANCE :: "tim \<Rightarrow> bool" where
  "IS_TIM_BREAK_INSTANCE t \<longleftrightarrow> t = TIM1"

definition IS_TIM_CCXN_INSTANCE :: "tim \<Rightarrow> nat \<Rightarrow> bool" where
  "IS_TIM_CCXN_INSTANCE t ch \<longleftrightarrow> t = TIM1 \<and> ch \<in> {1, 2, 3}"

lemmas tim_instances = IS_TIM_COUNTER_MODE_SELECT_INSTANCE_def IS_TIM_CLOCK_DIVISION_INSTANCE_def
  IS_TIM_REPETITION_COUNTER_INSTANCE_def IS_TIM_BREAK_INSTANCE_def IS_TIM_CCXN_INSTANCE_def

subsection \<open>Time base\<close>

definition TIM_Base_SetConfig :: "tim \<Rightarrow> TIM_Base_InitTypeDef \<Rightarrow> tim_regs \<Rightarrow> tim_regs" where
  "TIM_Base_SetConfig t s r = (let
     tmpcr1 = CR1 r t;
     tmpcr1 = (if IS_TIM_COUNTER_MODE_SELECT_INSTANCE t then (tmpcr1 AND NOT 0x70) OR CounterMode s else tmpcr1);
     tmpcr1 = (if IS_TIM_CLOCK_DIVISION_INSTANCE t then (tmpcr1 AND NOT 0x300) OR ClockDivision s else tmpcr1);
     tmpcr1 = (tmpcr1 AND NOT 0x80) OR AutoReloadPreload s;
     r = r\<lparr>CR1 := (CR1 r)(t := tmpcr1)\<rparr>;
     r = r\<lparr>ARR := (ARR r)(t := Period s)\<rparr>;
     r = r\<lparr>PSC := (PSC r)(t := Prescaler s)\<rparr>;
     r = (if IS_TIM_REPETITION_COUNTER_INSTANCE t then r\<lparr>RCR := (RCR r)(t := RepetitionCounter s)\<rparr> else r)
   in r\<lparr>EGR := (EGR r)(t := 1)\<rparr>)"

definition HAL_TIM_PWM_Init :: "tim \<Rightarrow> TIM_Base_InitTypeDef \<Rightarrow> tim_regs \<Rightarrow> tim_regs" where
  "HAL_TIM_PWM_Init t s r = TIM_Base_SetConfig t s r"

subsection \<open>PWM channels\<close>

text \<open>
  \<^verbatim>\<open>TIM_OC1_SetConfig\<close>, \<^verbatim>\<open>TIM_OC2_SetConfig\<close> and \<^verbatim>\<open>TIM_OC3_SetConfig\<close> are one text with other shifts: \<open>m\<close> is
  where the channel's fields are in its mode register, \<open>e\<close> in \<^verbatim>\<open>CCER\<close>, \<open>i\<close> in \<^verbatim>\<open>CR2\<close>.
\<close>

definition oc_mode :: "nat \<Rightarrow> TIM_OC_InitTypeDef \<Rightarrow> u32 \<Rightarrow> u32" where
  "oc_mode m c tmpccmrx = (let
     tmpccmrx = tmpccmrx AND NOT (push_bit m 0x70);
     tmpccmrx = tmpccmrx AND NOT (push_bit m 0x3)
   in tmpccmrx OR push_bit m (OCMode c))"

definition oc_enable :: "nat \<Rightarrow> nat \<Rightarrow> tim \<Rightarrow> TIM_OC_InitTypeDef \<Rightarrow> u32 \<Rightarrow> u32" where
  "oc_enable ch e t c tmpccer = (let
     tmpccer = (tmpccer AND NOT (push_bit e 0x2)) OR push_bit e (OCPolarity c)
   in if IS_TIM_CCXN_INSTANCE t ch then
        ((tmpccer AND NOT (push_bit e 0x8)) OR push_bit e (OCNPolarity c)) AND NOT (push_bit e 0x4)
      else tmpccer)"

definition oc_idle :: "nat \<Rightarrow> tim \<Rightarrow> TIM_OC_InitTypeDef \<Rightarrow> u32 \<Rightarrow> u32" where
  "oc_idle i t c tmpcr2 = (if IS_TIM_BREAK_INSTANCE t then
     ((tmpcr2 AND NOT (push_bit i 0x100)) AND NOT (push_bit i 0x200)) OR push_bit i (OCIdleState c) OR push_bit i (OCNIdleState c)
   else tmpcr2)"

definition TIM_OC1_SetConfig :: "tim \<Rightarrow> TIM_OC_InitTypeDef \<Rightarrow> tim_regs \<Rightarrow> tim_regs" where
  "TIM_OC1_SetConfig t c r = (let
     r = r\<lparr>CCER := (CCER r)(t := CCER r t AND NOT 0x1)\<rparr>;
     tmpccer = CCER r t; tmpcr2 = CR2 r t; tmpccmrx = CCMR1 r t
   in r\<lparr>CR2 := (CR2 r)(t := oc_idle 0 t c tmpcr2), CCMR1 := (CCMR1 r)(t := oc_mode 0 c tmpccmrx),
        CCER := (CCER r)(t := oc_enable 1 0 t c tmpccer)\<rparr>)"

definition TIM_OC2_SetConfig :: "tim \<Rightarrow> TIM_OC_InitTypeDef \<Rightarrow> tim_regs \<Rightarrow> tim_regs" where
  "TIM_OC2_SetConfig t c r = (let
     r = r\<lparr>CCER := (CCER r)(t := CCER r t AND NOT 0x10)\<rparr>;
     tmpccer = CCER r t; tmpcr2 = CR2 r t; tmpccmrx = CCMR1 r t
   in r\<lparr>CR2 := (CR2 r)(t := oc_idle 2 t c tmpcr2), CCMR1 := (CCMR1 r)(t := oc_mode 8 c tmpccmrx),
        CCER := (CCER r)(t := oc_enable 2 4 t c tmpccer)\<rparr>)"

definition TIM_OC3_SetConfig :: "tim \<Rightarrow> TIM_OC_InitTypeDef \<Rightarrow> tim_regs \<Rightarrow> tim_regs" where
  "TIM_OC3_SetConfig t c r = (let
     r = r\<lparr>CCER := (CCER r)(t := CCER r t AND NOT 0x100)\<rparr>;
     tmpccer = CCER r t; tmpcr2 = CR2 r t; tmpccmrx = CCMR2 r t
   in r\<lparr>CR2 := (CR2 r)(t := oc_idle 4 t c tmpcr2), CCMR2 := (CCMR2 r)(t := oc_mode 0 c tmpccmrx),
        CCER := (CCER r)(t := oc_enable 3 8 t c tmpccer)\<rparr>)"

text \<open>The fourth channel is never configured.\<close>

definition HAL_TIM_PWM_ConfigChannel :: "tim \<Rightarrow> TIM_OC_InitTypeDef \<Rightarrow> nat \<Rightarrow> tim_regs \<Rightarrow> tim_regs" where
  "HAL_TIM_PWM_ConfigChannel t c ch r =
    (if ch = 1 then let
       r = TIM_OC1_SetConfig t c r;
       r = r\<lparr>CCMR1 := (CCMR1 r)(t := CCMR1 r t OR 0x8)\<rparr>;
       r = r\<lparr>CCMR1 := (CCMR1 r)(t := CCMR1 r t AND NOT 0x4)\<rparr>
      in r\<lparr>CCMR1 := (CCMR1 r)(t := CCMR1 r t OR OCFastMode c)\<rparr>
     else if ch = 2 then let
       r = TIM_OC2_SetConfig t c r;
       r = r\<lparr>CCMR1 := (CCMR1 r)(t := CCMR1 r t OR 0x800)\<rparr>;
       r = r\<lparr>CCMR1 := (CCMR1 r)(t := CCMR1 r t AND NOT 0x400)\<rparr>
      in r\<lparr>CCMR1 := (CCMR1 r)(t := CCMR1 r t OR push_bit 8 (OCFastMode c))\<rparr>
     else if ch = 3 then let
       r = TIM_OC3_SetConfig t c r;
       r = r\<lparr>CCMR2 := (CCMR2 r)(t := CCMR2 r t OR 0x8)\<rparr>;
       r = r\<lparr>CCMR2 := (CCMR2 r)(t := CCMR2 r t AND NOT 0x4)\<rparr>
      in r\<lparr>CCMR2 := (CCMR2 r)(t := CCMR2 r t OR OCFastMode c)\<rparr>
     else r)"

definition TIM_CCxChannelCmd :: "tim \<Rightarrow> nat \<Rightarrow> u32 \<Rightarrow> tim_regs \<Rightarrow> tim_regs" where
  "TIM_CCxChannelCmd t ch state r = (let
     r = r\<lparr>CCER := (CCER r)(t := CCER r t AND NOT (push_bit (4 * (ch - 1)) 1))\<rparr>
   in r\<lparr>CCER := (CCER r)(t := CCER r t OR push_bit (4 * (ch - 1)) state)\<rparr>)"

definition HAL_TIM_PWM_Start :: "tim \<Rightarrow> nat \<Rightarrow> tim_regs \<Rightarrow> tim_regs" where
  "HAL_TIM_PWM_Start t ch r = (let
     r = TIM_CCxChannelCmd t ch 1 r;
     r = (if IS_TIM_BREAK_INSTANCE t then r\<lparr>BDTR := (BDTR r)(t := BDTR r t OR 0x8000)\<rparr> else r);
     tmpsmcr = SMCR r t AND 0x7
   in if tmpsmcr \<noteq> 0x6 then r\<lparr>CR1 := (CR1 r)(t := CR1 r t OR 0x1)\<rparr> else r)"

subsection \<open>Encoder interface\<close>

definition HAL_TIM_Encoder_Init :: "tim \<Rightarrow> TIM_Base_InitTypeDef \<Rightarrow> TIM_Encoder_InitTypeDef \<Rightarrow> tim_regs \<Rightarrow> tim_regs" where
  "HAL_TIM_Encoder_Init t s c r = (let
     r = r\<lparr>SMCR := (SMCR r)(t := SMCR r t AND NOT (0x7 OR 0x4000))\<rparr>;
     r = TIM_Base_SetConfig t s r;
     tmpsmcr = SMCR r t; tmpccmr1 = CCMR1 r t; tmpccer = CCER r t;
     tmpsmcr = tmpsmcr OR EncoderMode c;
     tmpccmr1 = tmpccmr1 AND NOT (0x3 OR 0x300);
     tmpccmr1 = tmpccmr1 OR (IC1Selection c OR push_bit 8 (IC2Selection c));
     tmpccmr1 = tmpccmr1 AND NOT (0xC OR 0xC00);
     tmpccmr1 = tmpccmr1 AND NOT (0xF0 OR 0xF000);
     tmpccmr1 = tmpccmr1 OR (IC1Prescaler c OR push_bit 8 (IC2Prescaler c));
     tmpccmr1 = tmpccmr1 OR (push_bit 4 (IC1Filter c) OR push_bit 12 (IC2Filter c));
     tmpccer = tmpccer AND NOT (0x2 OR 0x20);
     tmpccer = tmpccer AND NOT (0x8 OR 0x80);
     tmpccer = tmpccer OR (IC1Polarity c OR push_bit 4 (IC2Polarity c))
   in r\<lparr>SMCR := (SMCR r)(t := tmpsmcr), CCMR1 := (CCMR1 r)(t := tmpccmr1), CCER := (CCER r)(t := tmpccer)\<rparr>)"

text \<open>With \<^verbatim>\<open>TIM_CHANNEL_ALL\<close>, as both calls have it.\<close>

definition HAL_TIM_Encoder_Start :: "tim \<Rightarrow> tim_regs \<Rightarrow> tim_regs" where
  "HAL_TIM_Encoder_Start t r = (let
     r = TIM_CCxChannelCmd t 1 1 r;
     r = TIM_CCxChannelCmd t 2 1 r
   in r\<lparr>CR1 := (CR1 r)(t := CR1 r t OR 0x1)\<rparr>)"

subsection \<open>Replaying a trace\<close>

definition base_struct :: "nat \<Rightarrow> nat \<Rightarrow> TIM_Base_InitTypeDef" where
  "base_struct psc arr = \<lparr>Prescaler = of_nat psc, CounterMode = 0, Period = of_nat arr, ClockDivision = 0,
     RepetitionCounter = 0, AutoReloadPreload = 0\<rparr>"

definition pwm_struct :: "u16 \<Rightarrow> TIM_OC_InitTypeDef" where
  "pwm_struct v = \<lparr>OCMode = 0x60, Pulse = ucast v, OCPolarity = 0, OCNPolarity = 0, OCFastMode = 0,
     OCIdleState = 0, OCNIdleState = 0\<rparr>"

fun polarity_code :: "ic_polarity \<Rightarrow> u32" where
  "polarity_code RISING = 0"
| "polarity_code FALLING = 2"

definition encoder_struct :: "ic_polarity \<Rightarrow> ic_polarity \<Rightarrow> nat \<Rightarrow> TIM_Encoder_InitTypeDef" where
  "encoder_struct p1 p2 f = \<lparr>EncoderMode = 3, IC1Polarity = polarity_code p1, IC1Selection = 1, IC1Prescaler = 0, IC1Filter = of_nat f,
     IC2Polarity = polarity_code p2, IC2Selection = 1, IC2Prescaler = 0, IC2Filter = of_nat f\<rparr>"

fun replay_tim :: "hal_call \<Rightarrow> tim_regs \<Rightarrow> tim_regs" where
  "replay_tim (TIM_PWM_Init t psc arr) r = HAL_TIM_PWM_Init t (base_struct psc arr) r"
| "replay_tim (TIM_PWM_ConfigChannel t ch v) r = HAL_TIM_PWM_ConfigChannel t (pwm_struct v) ch r"
| "replay_tim (TIM_PWM_Start t ch) r = HAL_TIM_PWM_Start t ch r"
| "replay_tim (TIM_Encoder_Init t psc arr p1 p2 f) r = HAL_TIM_Encoder_Init t (base_struct psc arr) (encoder_struct p1 p2 f) r"
| "replay_tim (TIM_Encoder_Start t) r = HAL_TIM_Encoder_Start t r"
| "replay_tim _ r = r"

text \<open>After a reset of the controller the registers are zero; the reload value is written before it is used.\<close>

definition tim_reset :: tim_regs where
  "tim_reset = \<lparr>CR1 = (\<lambda>_. 0), CR2 = (\<lambda>_. 0), SMCR = (\<lambda>_. 0), EGR = (\<lambda>_. 0), CCMR1 = (\<lambda>_. 0), CCMR2 = (\<lambda>_. 0),
     CCER = (\<lambda>_. 0), PSC = (\<lambda>_. 0), ARR = (\<lambda>_. 0xFFFF), RCR = (\<lambda>_. 0), BDTR = (\<lambda>_. 0)\<rparr>"

definition tim_replay :: "hal_call list \<Rightarrow> tim_regs" where
  "tim_replay cs = fold replay_tim cs tim_reset"

lemmas tim_ops = tim_instances TIM_Base_SetConfig_def HAL_TIM_PWM_Init_def oc_mode_def oc_enable_def oc_idle_def TIM_OC1_SetConfig_def
  TIM_OC2_SetConfig_def TIM_OC3_SetConfig_def HAL_TIM_PWM_ConfigChannel_def TIM_CCxChannelCmd_def HAL_TIM_PWM_Start_def
  HAL_TIM_Encoder_Init_def HAL_TIM_Encoder_Start_def base_struct_def pwm_struct_def encoder_struct_def

text \<open>What the four timers do in the end: two PWM outputs, one with two channels, and two quadrature counters.\<close>

definition pwm_running :: "tim_regs \<Rightarrow> tim \<Rightarrow> nat list \<Rightarrow> nat \<Rightarrow> nat \<Rightarrow> bool" where
  "pwm_running r t chs psc arr \<longleftrightarrow> CR1 r t = 1 \<and> PSC r t = of_nat psc \<and> ARR r t = of_nat arr \<and> SMCR r t = 0 \<and>
     CCMR1 r t = (if 1 \<in> set chs then 0x68 else 0) OR (if 2 \<in> set chs then 0x6800 else 0) \<and>
     CCMR2 r t = (if 3 \<in> set chs then 0x68 else 0) \<and>
     CCER r t = (if 1 \<in> set chs then 0x1 else 0) OR (if 2 \<in> set chs then 0x10 else 0) OR (if 3 \<in> set chs then 0x100 else 0) \<and>
     (t = TIM1 \<longrightarrow> BDTR r t = 0x8000)"

definition counting :: "tim_regs \<Rightarrow> tim \<Rightarrow> u32 \<Rightarrow> nat \<Rightarrow> bool" where
  "counting r t ccer arr \<longleftrightarrow> CR1 r t = 1 \<and> PSC r t = 0 \<and> ARR r t = of_nat arr \<and> SMCR r t = 3 \<and> CCMR1 r t = 0x6161 \<and> CCER r t = ccer"

lemma light_timer:
  assumes "r' = fold replay_tim [TIM_PWM_Init TIM1 (720 - 1) (100 - 1), TIM_PWM_ConfigChannel TIM1 3 0, TIM_PWM_Start TIM1 3] r"
    "\<And>t. CR1 r t = CR1 tim_reset t" "CR2 r TIM1 = 0" "SMCR r TIM1 = 0" "CCMR1 r TIM1 = 0" "CCMR2 r TIM1 = 0" "CCER r TIM1 = 0" "BDTR r TIM1 = 0"
  shows "pwm_running r' TIM1 [3] 719 99"
  unfolding assms(1) pwm_running_def using assms(2-) by (simp add: tim_ops Let_def tim_reset_def)

end
