(* ===== verification/Hal_Gpio.thy ===== *)
theory Hal_Gpio
  imports Hal
begin

text \<open>
  The pin configuration of the HAL (\<^verbatim>\<open>stm32f4xx_hal_gpio.c\<close>) on the registers: \<^verbatim>\<open>HAL_GPIO_Init\<close> and
  \<^verbatim>\<open>HAL_GPIO_DeInit\<close>, which go through the sixteen pins of a port and rewrite the bit fields of those
  in the mask. The trace of configuration calls that \<^verbatim>\<open>Hal\<close> keeps is replayed on the registers here.
\<close>

subsection \<open>Bit fields\<close>

text \<open>\<^verbatim>\<open>temp &= ~(m << s); temp |= (v << s);\<close>\<close>

definition put_field :: "u32 \<Rightarrow> nat \<Rightarrow> u32 \<Rightarrow> u32 \<Rightarrow> u32" where
  "put_field m s v temp = (temp AND NOT (push_bit s m)) OR push_bit s v"

definition clear_field :: "u32 \<Rightarrow> nat \<Rightarrow> u32 \<Rightarrow> u32" where
  "clear_field m s temp = temp AND NOT (push_bit s m)"

text \<open>Field number \<open>k\<close> of a register divided into fields of \<open>b\<close> bits.\<close>

definition field :: "nat \<Rightarrow> nat \<Rightarrow> u32 \<Rightarrow> u32" where
  "field b k r = take_bit b (drop_bit (b * k) r)"

definition in_bits :: "nat \<Rightarrow> u32 \<Rightarrow> bool" where
  "in_bits b v \<longleftrightarrow> take_bit b v = v"

lemma in_bits_bit: "in_bits b v \<Longrightarrow> bit v n \<Longrightarrow> n < b"
  unfolding in_bits_def by (metis bit_take_bit_iff)

lemma field_apart: "j \<noteq> k \<Longrightarrow> n < b \<Longrightarrow> b * k \<le> b * j + n \<Longrightarrow> b \<le> b * j + n - b * k" for b :: nat
proof -
  assume a: "j \<noteq> k" "n < b" "b * k \<le> b * j + n"
  have "k < j"
  proof (rule ccontr)
    assume "\<not> k < j"
    then have "b * Suc j \<le> b * k" using a(1) by (intro mult_le_mono2) simp
    then show False using a(2,3) by simp
  qed
  then have "b * Suc k \<le> b * j" by (intro mult_le_mono2) simp
  then show ?thesis by simp
qed

lemma field_bit: "n < b \<Longrightarrow> bit (field b k r) n = bit r (b * k + n)"
  by (simp add: field_def bit_simps)

lemma field_eqI: "(\<And>n. n < b \<Longrightarrow> bit r (b * k + n) = bit r' (b * k + n)) \<Longrightarrow> field b k r = field b k r'"
  by (rule bit_word_eqI) (auto simp: field_def bit_simps)

lemma field_put:
  assumes "in_bits b v" "b * Suc k \<le> 32"
  shows "field b j (put_field (mask b) (b * k) v r) = (if j = k then v else field b j r)"
proof (cases "j = k")
  case True
  have "bit (field b k (put_field (mask b) (b * k) v r)) n = bit v n" if "n < 32" for n
    using assms(2) that in_bits_bit [OF assms(1), of n] by (auto simp: field_def put_field_def bit_simps)
  then show ?thesis by (auto simp: True intro!: bit_word_eqI)
next
  case False
  have "field b j (put_field (mask b) (b * k) v r) = field b j r"
  proof (rule field_eqI)
    fix n assume n: "n < b"
    have "b * k \<le> b * j + n \<Longrightarrow> \<not> bit (mask b :: u32) (b * j + n - b * k) \<and> \<not> bit v (b * j + n - b * k)"
      using field_apart [OF False n] in_bits_bit [OF assms(1)] by (auto simp: bit_simps dest: leD)
    then show "bit (put_field (mask b) (b * k) v r) (b * j + n) = bit r (b * j + n)"
      by (auto simp: put_field_def bit_simps dest: bit_imp_le_length)
  qed
  then show ?thesis using False by simp
qed

lemma clear_is_put: "clear_field m s r = put_field m s 0 r"
  by (simp add: clear_field_def put_field_def)

lemma masks: "mask 2 = (3 :: u32)" "mask (Suc 0) = (1 :: u32)" "mask 4 = (0xF :: u32)"
  by (simp_all add: mask_eq_exp_minus_1)

lemma field_puts [simp]:
  "in_bits 2 v \<Longrightarrow> k < 16 \<Longrightarrow> field 2 j (put_field 3 (2 * k) v r) = (if j = k then v else field 2 j r)"
  "in_bits (Suc 0) v \<Longrightarrow> k < 16 \<Longrightarrow> field (Suc 0) j (put_field 1 k v r) = (if j = k then v else field (Suc 0) j r)"
  "in_bits 4 v \<Longrightarrow> k < 8 \<Longrightarrow> field 4 j (put_field 0xF (4 * k) v r) = (if j = k then v else field 4 j r)"
  using field_put [of 2 v k j r] field_put [of "Suc 0" v k j r] field_put [of 4 v k j r] unfolding masks by simp_all

lemma in_bits_facts [simp]: "in_bits b 0" "in_bits 2 (v AND 3)" "in_bits (Suc 0) (v AND 1)"
  using take_bit_eq_mask [of 2 v] take_bit_eq_mask [of "Suc 0" v] by (simp_all only: in_bits_def masks take_bit_of_0) (metis take_bit_take_bit min.idem)+

subsection \<open>The registers\<close>

record gpio_regs =
  MODER :: "gpio_port \<Rightarrow> u32"
  OTYPER :: "gpio_port \<Rightarrow> u32"
  OSPEEDR :: "gpio_port \<Rightarrow> u32"
  PUPDR :: "gpio_port \<Rightarrow> u32"
  AFR :: "gpio_port \<Rightarrow> nat \<Rightarrow> u32"
  EXTICR :: "nat \<Rightarrow> u32"
  IMR :: u32
  EMR :: u32
  RTSR :: u32
  FTSR :: u32

record GPIO_InitTypeDef =
  Pin :: u32
  Mode :: u32
  Pull :: u32
  Speed :: u32
  Alternate :: u32

definition GPIO_MODE_INPUT :: u32 where "GPIO_MODE_INPUT = 0"
definition GPIO_MODE_OUTPUT_PP :: u32 where "GPIO_MODE_OUTPUT_PP = 1"
definition GPIO_MODE_OUTPUT_OD :: u32 where "GPIO_MODE_OUTPUT_OD = 0x11"
definition GPIO_MODE_AF_PP :: u32 where "GPIO_MODE_AF_PP = 2"
definition GPIO_MODE_AF_OD :: u32 where "GPIO_MODE_AF_OD = 0x12"
definition GPIO_MODE_ANALOG :: u32 where "GPIO_MODE_ANALOG = 3"
definition GPIO_MODE_IT_RISING_FALLING :: u32 where "GPIO_MODE_IT_RISING_FALLING = 0x10310000"
definition EXTI_MODE :: u32 where "EXTI_MODE = 0x10000000"
definition GPIO_MODE_IT :: u32 where "GPIO_MODE_IT = 0x00010000"
definition GPIO_MODE_EVT :: u32 where "GPIO_MODE_EVT = 0x00020000"
definition RISING_EDGE :: u32 where "RISING_EDGE = 0x00100000"
definition FALLING_EDGE :: u32 where "FALLING_EDGE = 0x00200000"

lemmas gpio_consts = GPIO_MODE_INPUT_def GPIO_MODE_OUTPUT_PP_def GPIO_MODE_OUTPUT_OD_def GPIO_MODE_AF_PP_def GPIO_MODE_AF_OD_def
  GPIO_MODE_ANALOG_def GPIO_MODE_IT_RISING_FALLING_def EXTI_MODE_def GPIO_MODE_IT_def GPIO_MODE_EVT_def RISING_EDGE_def FALLING_EDGE_def

fun GPIO_GET_INDEX :: "gpio_port \<Rightarrow> u32" where
  "GPIO_GET_INDEX GPIOA = 0"
| "GPIO_GET_INDEX GPIOB = 1"
| "GPIO_GET_INDEX GPIOC = 2"
| "GPIO_GET_INDEX GPIOD = 3"
| "GPIO_GET_INDEX GPIOE = 4"

definition has_mode :: "GPIO_InitTypeDef \<Rightarrow> u32 \<Rightarrow> bool" where
  "has_mode c m \<longleftrightarrow> Mode c AND m = m"

definition alternate :: "GPIO_InitTypeDef \<Rightarrow> bool" where
  "alternate c \<longleftrightarrow> Mode c = GPIO_MODE_AF_PP \<or> Mode c = GPIO_MODE_AF_OD"

definition drives :: "GPIO_InitTypeDef \<Rightarrow> bool" where
  "drives c \<longleftrightarrow> Mode c = GPIO_MODE_OUTPUT_PP \<or> Mode c = GPIO_MODE_AF_PP \<or> Mode c = GPIO_MODE_OUTPUT_OD \<or> Mode c = GPIO_MODE_AF_OD"

definition exti_bit :: "u32 \<Rightarrow> bool \<Rightarrow> u32 \<Rightarrow> u32" where
  "exti_bit iocurrent on temp = (let temp = temp AND NOT iocurrent in if on then temp OR iocurrent else temp)"

subsection \<open>Configuring\<close>

text \<open>The body of the loop for one position.\<close>

definition gpio_init_exti :: "gpio_port \<Rightarrow> GPIO_InitTypeDef \<Rightarrow> nat \<Rightarrow> u32 \<Rightarrow> gpio_regs \<Rightarrow> gpio_regs" where
  "gpio_init_exti p c position iocurrent r =
     r\<lparr>EXTICR := (EXTICR r)(position div 4 := put_field 0xF (4 * (position mod 4)) (GPIO_GET_INDEX p) (EXTICR r (position div 4))),
       IMR := exti_bit iocurrent (has_mode c GPIO_MODE_IT) (IMR r),
       EMR := exti_bit iocurrent (has_mode c GPIO_MODE_EVT) (EMR r),
       RTSR := exti_bit iocurrent (has_mode c RISING_EDGE) (RTSR r),
       FTSR := exti_bit iocurrent (has_mode c FALLING_EDGE) (FTSR r)\<rparr>"

definition gpio_init_position :: "gpio_port \<Rightarrow> GPIO_InitTypeDef \<Rightarrow> nat \<Rightarrow> gpio_regs \<Rightarrow> gpio_regs" where
  "gpio_init_position p c position r = (let
     ioposition = push_bit position 1;
     iocurrent = Pin c AND ioposition
   in if iocurrent \<noteq> ioposition then r else let
     r = (if alternate c
          then r\<lparr>AFR := (AFR r)(p := (AFR r p)(position div 8 :=
                   put_field 0xF (4 * (position mod 8)) (Alternate c) (AFR r p (position div 8))))\<rparr> else r);
     r = r\<lparr>MODER := (MODER r)(p := put_field 3 (2 * position) (Mode c AND 3) (MODER r p))\<rparr>;
     r = (if drives c
          then r\<lparr>OSPEEDR := (OSPEEDR r)(p := put_field 3 (2 * position) (Speed c) (OSPEEDR r p)),
                 OTYPER := (OTYPER r)(p := put_field 1 position (drop_bit 4 (Mode c AND 0x10)) (OTYPER r p))\<rparr> else r);
     r = r\<lparr>PUPDR := (PUPDR r)(p := put_field 3 (2 * position) (Pull c) (PUPDR r p))\<rparr>
   in if has_mode c EXTI_MODE then gpio_init_exti p c position iocurrent r else r)"

definition HAL_GPIO_Init :: "gpio_port \<Rightarrow> GPIO_InitTypeDef \<Rightarrow> gpio_regs \<Rightarrow> gpio_regs" where
  "HAL_GPIO_Init p c r = fold (gpio_init_position p c) [0..<16] r"

definition gpio_deinit_exti :: "gpio_port \<Rightarrow> nat \<Rightarrow> u32 \<Rightarrow> gpio_regs \<Rightarrow> gpio_regs" where
  "gpio_deinit_exti p position iocurrent r =
    (if EXTICR r (position div 4) AND push_bit (4 * (position mod 4)) 0xF = push_bit (4 * (position mod 4)) (GPIO_GET_INDEX p)
     then r\<lparr>EXTICR := (EXTICR r)(position div 4 := clear_field 0xF (4 * (position mod 4)) (EXTICR r (position div 4))),
            IMR := IMR r AND NOT iocurrent, EMR := EMR r AND NOT iocurrent,
            RTSR := RTSR r AND NOT iocurrent, FTSR := FTSR r AND NOT iocurrent\<rparr>
     else r)"

definition gpio_deinit_position :: "gpio_port \<Rightarrow> u32 \<Rightarrow> nat \<Rightarrow> gpio_regs \<Rightarrow> gpio_regs" where
  "gpio_deinit_position p GPIO_Pin position r = (let
     ioposition = push_bit position 1;
     iocurrent = GPIO_Pin AND ioposition
   in if iocurrent \<noteq> ioposition then r else let
     r = gpio_deinit_exti p position iocurrent r;
     r = r\<lparr>MODER := (MODER r)(p := clear_field 3 (2 * position) (MODER r p))\<rparr>;
     r = r\<lparr>AFR := (AFR r)(p := (AFR r p)(position div 8 := clear_field 0xF (4 * (position mod 8)) (AFR r p (position div 8))))\<rparr>;
     r = r\<lparr>OSPEEDR := (OSPEEDR r)(p := clear_field 3 (2 * position) (OSPEEDR r p))\<rparr>;
     r = r\<lparr>OTYPER := (OTYPER r)(p := clear_field 1 position (OTYPER r p))\<rparr>
   in r\<lparr>PUPDR := (PUPDR r)(p := clear_field 3 (2 * position) (PUPDR r p))\<rparr>)"

definition HAL_GPIO_DeInit :: "gpio_port \<Rightarrow> u32 \<Rightarrow> gpio_regs \<Rightarrow> gpio_regs" where
  "HAL_GPIO_DeInit p GPIO_Pin r = fold (gpio_deinit_position p GPIO_Pin) [0..<16] r"

subsection \<open>What a pin shows\<close>

record pin_conf =
  direction :: u32
  output_type :: u32
  output_speed :: u32
  resistor :: u32
  function_no :: u32

definition pin_config :: "gpio_regs \<Rightarrow> gpio_port \<Rightarrow> nat \<Rightarrow> pin_conf" where
  "pin_config r p n = \<lparr>direction = field 2 n (MODER r p), output_type = field 1 n (OTYPER r p),
     output_speed = field 2 n (OSPEEDR r p), resistor = field 2 n (PUPDR r p),
     function_no = field 4 (n mod 8) (AFR r p (n div 8))\<rparr>"

text \<open>What a configuration asks of its pins: an input or analog pin keeps what concerns outputs.\<close>

definition configured :: "GPIO_InitTypeDef \<Rightarrow> pin_conf \<Rightarrow> pin_conf" where
  "configured c v = \<lparr>direction = Mode c AND 3,
     output_type = if drives c then drop_bit 4 (Mode c AND 0x10) else output_type v,
     output_speed = if drives c then Speed c else output_speed v, resistor = Pull c,
     function_no = if alternate c then Alternate c else function_no v\<rparr>"

definition pin_reset :: pin_conf where
  "pin_reset = \<lparr>direction = 0, output_type = 0, output_speed = 0, resistor = 0, function_no = 0\<rparr>"

definition init_wf :: "GPIO_InitTypeDef \<Rightarrow> bool" where
  "init_wf c \<longleftrightarrow> in_bits 2 (Speed c) \<and> in_bits 2 (Pull c) \<and> in_bits 4 (Alternate c)"

lemma in_mask: "k < 16 \<Longrightarrow> (m AND push_bit k 1 = push_bit k 1) = bit m k" for m :: u32
proof
  assume k: "k < 16" and "m AND push_bit k 1 = push_bit k 1"
  then have "bit (m AND push_bit k 1) k = bit (push_bit k 1 :: u32) k" by simp
  then show "bit m k" using k by (simp add: bit_simps)
qed (auto simp: bit_simps intro!: bit_word_eqI)

lemma half_apart: "n \<noteq> k \<Longrightarrow> n div 8 = k div 8 \<Longrightarrow> n mod 8 \<noteq> k mod 8" for n k :: nat
  by (metis div_mod_decomp)

lemma gpio_init_exti_keeps: "pin_config (gpio_init_exti p c k io r) q n = pin_config r q n"
  by (simp add: gpio_init_exti_def pin_config_def)

lemma init_position:
  assumes "init_wf c" "k < 16"
  shows "pin_config (gpio_init_position p c k r) q n =
    (if p = q \<and> k = n \<and> bit (Pin c) k then configured c (pin_config r q n) else pin_config r q n)"
proof (cases "bit (Pin c) k")
  case False
  then show ?thesis by (simp only: gpio_init_position_def Let_def in_mask [OF assms(2)]) simp
next
  case True
  have w: "in_bits 2 (Speed c)" "in_bits 2 (Pull c)" "in_bits 4 (Alternate c)" "k mod 8 < 8" using assms(1) by (simp_all add: init_wf_def)
  define r1 where "r1 = (if alternate c then r\<lparr>AFR := (AFR r)(p := (AFR r p)(k div 8 :=
                   put_field 0xF (4 * (k mod 8)) (Alternate c) (AFR r p (k div 8))))\<rparr> else r)"
  define r2 where "r2 = r1\<lparr>MODER := (MODER r1)(p := put_field 3 (2 * k) (Mode c AND 3) (MODER r1 p))\<rparr>"
  define r3 where "r3 = (if drives c then r2\<lparr>OSPEEDR := (OSPEEDR r2)(p := put_field 3 (2 * k) (Speed c) (OSPEEDR r2 p)),
      OTYPER := (OTYPER r2)(p := put_field 1 k (drop_bit 4 (Mode c AND 0x10)) (OTYPER r2 p))\<rparr> else r2)"
  define r4 where "r4 = r3\<lparr>PUPDR := (PUPDR r3)(p := put_field 3 (2 * k) (Pull c) (PUPDR r3 p))\<rparr>"
  have "gpio_init_position p c k r = (if has_mode c EXTI_MODE then gpio_init_exti p c k (Pin c AND push_bit k 1) r4 else r4)"
    by (simp only: gpio_init_position_def Let_def in_mask [OF assms(2)] True r1_def r2_def r3_def r4_def) simp
  then have e: "pin_config (gpio_init_position p c k r) q n = pin_config r4 q n" by (simp add: gpio_init_exti_keeps)
  have "pin_config r1 q n = (if p = q \<and> k = n \<and> alternate c then (pin_config r q n)\<lparr>function_no := Alternate c\<rparr> else pin_config r q n)"
    using half_apart [of n k] w by (auto simp: r1_def pin_config_def)
  moreover have "pin_config r2 q n = (if p = q \<and> k = n then (pin_config r1 q n)\<lparr>direction := Mode c AND 3\<rparr> else pin_config r1 q n)"
    using assms(2) by (auto simp: r2_def pin_config_def)
  moreover have "pin_config r3 q n = (if p = q \<and> k = n \<and> drives c
      then (pin_config r2 q n)\<lparr>output_speed := Speed c, output_type := drop_bit 4 (Mode c AND 0x10)\<rparr> else pin_config r2 q n)"
    using assms(2) w by (auto simp: r3_def pin_config_def)
  moreover have "pin_config r4 q n = (if p = q \<and> k = n then (pin_config r3 q n)\<lparr>resistor := Pull c\<rparr> else pin_config r3 q n)"
    using assms(2) w by (auto simp: r4_def pin_config_def)
  ultimately show ?thesis unfolding e using True by (simp add: configured_def pin_config_def)
qed

lemma deinit_exti_keeps: "pin_config (gpio_deinit_exti p k io r) q n = pin_config r q n"
  by (simp add: gpio_deinit_exti_def pin_config_def)

text \<open>One pass over the positions changes what is seen of the pins of the mask, each once.\<close>

lemma fold_positions:
  assumes "\<And>k r. k < 16 \<Longrightarrow> look (f k r) = (if k = n \<and> c then g (look r) else look r)" "n < 16"
  shows "look (fold f [0..<16] r) = (if c then g (look r) else look r)"
proof -
  have "look (fold f ks r) = (if c \<and> n \<in> set ks then g (look r) else look r)" if "distinct ks" "set ks \<subseteq> {..<16}" for ks r
    using that assms(1) by (induction ks arbitrary: r) auto
  from this [of "[0..<16]"] show ?thesis using assms(2) by (auto simp: atLeast0LessThan)
qed

lemma HAL_GPIO_Init_effect:
  assumes "init_wf c" "n < 16"
  shows "pin_config (HAL_GPIO_Init p c r) q n =
    (if p = q \<and> bit (Pin c) n then configured c (pin_config r q n) else pin_config r q n)"
  unfolding HAL_GPIO_Init_def
  by (rule fold_positions [where look = "\<lambda>r. pin_config r q n"]) (use assms init_position in auto)

lemma deinit_position:
  assumes "k < 16"
  shows "pin_config (gpio_deinit_position p m k r) q n = (if k = n \<and> p = q \<and> bit m n then pin_reset else pin_config r q n)"
proof (cases "bit m k")
  case False
  then show ?thesis by (simp only: gpio_deinit_position_def Let_def in_mask [OF assms]) auto
next
  case True
  define r1 where "r1 = gpio_deinit_exti p k (m AND push_bit k 1) r"
  have "pin_config (gpio_deinit_position p m k r) q n = (if p = q \<and> k = n then pin_reset else pin_config r1 q n)"
    using assms half_apart [of n k]
    by (simp only: gpio_deinit_position_def Let_def in_mask [OF assms] True flip: r1_def)
      (auto simp: pin_config_def pin_reset_def clear_is_put)
  then show ?thesis using True by (auto simp: r1_def deinit_exti_keeps)
qed

lemma HAL_GPIO_DeInit_effect:
  "n < 16 \<Longrightarrow> pin_config (HAL_GPIO_DeInit p m r) q n = (if p = q \<and> bit m n then pin_reset else pin_config r q n)"
  unfolding HAL_GPIO_DeInit_def
  by (rule fold_positions [where look = "\<lambda>r. pin_config r q n" and g = "\<lambda>_. pin_reset"]) (simp_all add: deinit_position)

subsection \<open>The interrupt lines\<close>

definition exti_config :: "gpio_regs \<Rightarrow> nat \<Rightarrow> u32 \<times> bool \<times> bool \<times> bool \<times> bool" where
  "exti_config r n = (field 4 (n mod 4) (EXTICR r (n div 4)), bit (IMR r) n, bit (EMR r) n, bit (RTSR r) n, bit (FTSR r) n)"

definition exti_asked :: "gpio_port \<Rightarrow> GPIO_InitTypeDef \<Rightarrow> u32 \<times> bool \<times> bool \<times> bool \<times> bool" where
  "exti_asked p c = (GPIO_GET_INDEX p, has_mode c GPIO_MODE_IT, has_mode c GPIO_MODE_EVT, has_mode c RISING_EDGE, has_mode c FALLING_EDGE)"

lemma index_in_bits [simp]: "in_bits 4 (GPIO_GET_INDEX p)"
  by (cases p) (simp_all add: in_bits_def take_bit_eq_mask masks)

lemma exti_bit_at: "k < 16 \<Longrightarrow> n < 16 \<Longrightarrow> bit (exti_bit (push_bit k 1) on temp) n = (if k = n then on else bit temp n)"
  by (auto simp: exti_bit_def Let_def bit_simps)

lemma quarter_apart: "n \<noteq> k \<Longrightarrow> n div 4 = k div 4 \<Longrightarrow> n mod 4 \<noteq> k mod 4" for n k :: nat
  by (metis div_mod_decomp)

lemma init_exti_config:
  assumes "k < 16" "n < 16"
  shows "exti_config (gpio_init_exti p c k (push_bit k 1) r) n = (if k = n then exti_asked p c else exti_config r n)"
proof -
  have "field 4 (n mod 4) (put_field 0xF (4 * (k mod 4)) (GPIO_GET_INDEX p) t) = (if n mod 4 = k mod 4 then GPIO_GET_INDEX p else field 4 (n mod 4) t)" for t
    by (rule field_puts) (simp_all add: order.strict_trans [OF mod_less_divisor])
  then show ?thesis
    using assms quarter_apart [of n k] by (auto simp: exti_config_def exti_asked_def gpio_init_exti_def exti_bit_at simp del: push_bit_of_1)
qed

lemma position_exti:
  assumes "k < 16" "n < 16"
  shows "exti_config (gpio_init_position p c k r) n =
    (if k = n \<and> bit (Pin c) n \<and> has_mode c EXTI_MODE then exti_asked p c else exti_config r n)"
proof (cases "bit (Pin c) k")
  case False
  then show ?thesis by (simp only: gpio_init_position_def Let_def in_mask [OF assms(1)]) auto
next
  case True
  have i: "Pin c AND push_bit k 1 = push_bit k 1" using in_mask [OF assms(1), of "Pin c"] True by simp
  have "exti_config (gpio_init_position p c k r) n =
      (if has_mode c EXTI_MODE then exti_config (gpio_init_exti p c k (push_bit k 1) r) n else exti_config r n)"
    by (simp only: gpio_init_position_def Let_def i) (simp add: exti_config_def gpio_init_exti_def)
  then show ?thesis using True init_exti_config [OF assms, of p c r] by (auto simp del: push_bit_of_1)
qed

lemma HAL_GPIO_Init_exti:
  assumes "n < 16"
  shows "exti_config (HAL_GPIO_Init p c r) n = (if bit (Pin c) n \<and> has_mode c EXTI_MODE then exti_asked p c else exti_config r n)"
  unfolding HAL_GPIO_Init_def
  by (rule fold_positions [where look = "\<lambda>r. exti_config r n" and g = "\<lambda>_. exti_asked p c"]) (use assms position_exti in auto)

subsection \<open>Replaying a trace\<close>

fun mode_code :: "gpio_mode \<Rightarrow> u32" where
  "mode_code OUTPUT_PP = GPIO_MODE_OUTPUT_PP"
| "mode_code OUTPUT_OD = GPIO_MODE_OUTPUT_OD"
| "mode_code AF_PP = GPIO_MODE_AF_PP"
| "mode_code IT_RISING_FALLING = GPIO_MODE_IT_RISING_FALLING"
| "mode_code ANALOG = GPIO_MODE_ANALOG"

fun pull_code :: "gpio_pull \<Rightarrow> u32" where
  "pull_code NOPULL = 0"
| "pull_code PULLUP = 1"

fun speed_code :: "gpio_speed \<Rightarrow> u32" where
  "speed_code SPEED_LOW = 0"
| "speed_code SPEED_MEDIUM = 1"
| "speed_code SPEED_HIGH = 2"
| "speed_code SPEED_VERY_HIGH = 3"

text \<open>The structure of a call; the field of the alternate function is not set when it is not used.\<close>

definition init_struct :: "u16 \<Rightarrow> gpio_mode \<Rightarrow> gpio_pull \<Rightarrow> gpio_speed \<Rightarrow> nat option \<Rightarrow> GPIO_InitTypeDef" where
  "init_struct m md pl sp af = \<lparr>Pin = ucast m, Mode = mode_code md, Pull = pull_code pl, Speed = speed_code sp,
     Alternate = (case af of None \<Rightarrow> 0 | Some k \<Rightarrow> of_nat k)\<rparr>"

fun replay_call :: "hal_call \<Rightarrow> gpio_regs \<Rightarrow> gpio_regs" where
  "replay_call (GPIO_Init p m md pl sp af) r = HAL_GPIO_Init p (init_struct m md pl sp af) r"
| "replay_call _ r = r"

definition replay :: "hal_call list \<Rightarrow> gpio_regs \<Rightarrow> gpio_regs" where
  "replay cs r = fold replay_call cs r"

end
