(* ===== verification/Pin_Plan.thy ===== *)
theory Pin_Plan
  imports Hal_Gpio Start
begin

text \<open>
  Which pins the program uses, and that they do not clash: the initialisations of all modules, run
  one after the other by \<^verbatim>\<open>main\<close>, leave every pin as its own module configured it, and leave alone
  the pins that \<^verbatim>\<open>drivers/board.h\<close> gives to the six serial lines.
\<close>

subsection \<open>The plan\<close>

datatype pin_role =
    Analog
  | Drives gpio_pull gpio_speed
  | OpenDrain gpio_pull gpio_speed
  | Function nat gpio_pull gpio_speed

fun role_config :: "pin_role \<Rightarrow> pin_conf \<Rightarrow> pin_conf" where
  "role_config Analog v = v\<lparr>direction := 3, resistor := 0\<rparr>"
| "role_config (Drives u s) v = v\<lparr>direction := 1, output_type := 0, output_speed := speed_code s, resistor := pull_code u\<rparr>"
| "role_config (OpenDrain u s) v = v\<lparr>direction := 1, output_type := 1, output_speed := speed_code s, resistor := pull_code u\<rparr>"
| "role_config (Function k u s) v =
    \<lparr>direction = 2, output_type = 0, output_speed = speed_code s, resistor = pull_code u, function_no = of_nat k\<rparr>"

text \<open>Gas, air and soil sensors; the wheel encoders; buzzer, sensor line, display bus; the wheels'
  duty, direction pins and the light; the pump.\<close>

definition pin_plan :: "((gpio_port \<times> nat) \<times> pin_role) list" where
  "pin_plan =
    [((GPIOA, 0), Analog), ((GPIOA, 2), Analog), ((GPIOA, 5), Analog),
     ((GPIOA, 6), Function 2 PULLUP SPEED_VERY_HIGH), ((GPIOA, 7), Function 2 PULLUP SPEED_VERY_HIGH),
     ((GPIOD, 12), Function 2 PULLUP SPEED_VERY_HIGH), ((GPIOD, 13), Function 2 PULLUP SPEED_VERY_HIGH),
     ((GPIOB, 1), Drives PULLUP SPEED_HIGH), ((GPIOB, 5), OpenDrain PULLUP SPEED_HIGH),
     ((GPIOB, 8), Drives NOPULL SPEED_HIGH), ((GPIOB, 9), Drives NOPULL SPEED_HIGH),
     ((GPIOB, 14), Function 9 PULLUP SPEED_VERY_HIGH), ((GPIOB, 15), Function 9 PULLUP SPEED_VERY_HIGH),
     ((GPIOE, 7), Drives PULLUP SPEED_VERY_HIGH), ((GPIOE, 8), Drives PULLUP SPEED_VERY_HIGH),
     ((GPIOE, 10), Drives PULLUP SPEED_VERY_HIGH), ((GPIOE, 12), Drives PULLUP SPEED_VERY_HIGH),
     ((GPIOE, 13), Function 1 PULLUP SPEED_HIGH), ((GPIOD, 4), Drives PULLUP SPEED_HIGH)]"

definition uart_pins :: "(gpio_port \<times> nat) list" where
  "uart_pins = [(GPIOA, 9), (GPIOA, 10), (GPIOD, 5), (GPIOD, 6), (GPIOD, 8), (GPIOD, 9), (GPIOC, 10), (GPIOC, 11),
     (GPIOC, 12), (GPIOD, 2), (GPIOC, 6), (GPIOC, 7)]"

definition planned :: "gpio_regs \<Rightarrow> gpio_regs \<Rightarrow> bool" where
  "planned r r' \<longleftrightarrow> (\<forall>p n. n < 16 \<longrightarrow> pin_config r' p n =
     (case map_of pin_plan (p, n) of None \<Rightarrow> pin_config r p n | Some c \<Rightarrow> role_config c (pin_config r p n)))"

subsection \<open>The trace of the start\<close>

text \<open>What no initialisation but its own touches.\<close>

definition boot_view :: "'a encoders_scheme \<Rightarrow> bool \<times> bool" where
  "boot_view w = (encoder1_inited w, encoder2_inited w)"

lemma boot_calls [simp]: "boot_view (hal_calls cs w) = boot_view w" "boot_view (hal x w) = boot_view w"
  by (rule hal_calls_frame [of cs w], simp add: boot_view_def) (rule hal_frame [of x w], simp add: boot_view_def)

lemma log_call [simp]: "hal_log (hal x w) = hal_log w @ [x]"
  using hal_calls_log [of "[x]" w] by (simp add: hal_calls_def)

lemmas init_ops = Soil_Init_def MQ2_Init_def MQ135_Init_def ADCx_Init_def DHT11_Init_def DHT11_DWT_Init_def DHT11_EXTI_Init_def
  DHT11_EXTI_Enable_def DHT11_Set_Output_def DHT11_Line_High_def Buzzer_Init_def LED_PWM_Init_def water_Init_def PWM_Init_def
  AIN_SET_def BIN_SET_def Let_def

lemma boot_writes [simp]:
  "boot_view (HAL_GPIO_WritePin p m s w) = boot_view w" "boot_view (HAL_TIM_SET_COMPARE t c v w) = boot_view w"
  by (simp_all add: HAL_GPIO_WritePin_def HAL_TIM_SET_COMPARE_def boot_view_def)

lemma boot_fields [simp]:
  "boot_view (w\<lparr>adc_CR1 := x\<rparr>) = boot_view w" "boot_view (w\<lparr>adc_CR2 := x\<rparr>) = boot_view w" "boot_view (w\<lparr>adc_SQR1 := x\<rparr>) = boot_view w"
  "boot_view (w\<lparr>adc_CCR := x\<rparr>) = boot_view w" "boot_view (w\<lparr>led_pwm_inited := b\<rparr>) = boot_view w"
  "boot_view (w\<lparr>motor_pwm_inited := b\<rparr>) = boot_view w" "boot_view (w\<lparr>buzzer_thread := t\<rparr>) = boot_view w"
  "boot_view (w\<lparr>buzzer_thread := t, rtos := k\<rparr>) = boot_view w"
  by (simp_all add: boot_view_def)

lemma boot_dht [simp]: "boot_view (DHT11_Init clk w) = boot_view w"
proof -
  obtain l c where "hal_calls [RCC_GPIO_ENABLE GPIOB, RCC_SYSCFG_ENABLE] w = w\<lparr>CCR := c, hal_log := l\<rparr>" by (rule hal_calls_frame)
  then show ?thesis by (simp add: init_ops) (simp add: boot_view_def hal_calls_def hal_def HAL_GPIO_WritePin_def Let_def)
qed

lemma boot_modules [simp]:
  "boot_view (Soil_Init w) = boot_view w" "boot_view (MQ2_Init w) = boot_view w" "boot_view (MQ135_Init w) = boot_view w"
  "boot_view (Buzzer_Init w) = boot_view w" "boot_view (LED_PWM_Init w) = boot_view w"
  "boot_view (water_Init w) = boot_view w" "boot_view (PWM_Init w) = boot_view w"
  by (simp_all add: init_ops split: option.split)

lemma module_logs:
  "hal_log (Soil_Init w) = hal_log w @ [RCC_GPIO_ENABLE GPIOA, GPIO_Init GPIOA (GPIO_PIN 5) ANALOG NOPULL SPEED_HIGH None, RCC_ADC1_ENABLE]"
  "hal_log (MQ2_Init w) = hal_log w @ [RCC_GPIO_ENABLE GPIOA, GPIO_Init GPIOA (GPIO_PIN 0) ANALOG NOPULL SPEED_HIGH None, RCC_ADC1_ENABLE]"
  "hal_log (MQ135_Init w) = hal_log w @ [RCC_GPIO_ENABLE GPIOA, GPIO_Init GPIOA (GPIO_PIN 2) ANALOG NOPULL SPEED_HIGH None, RCC_ADC1_ENABLE]"
  "hal_log (DHT11_Init clk w) = hal_log w @ [RCC_GPIO_ENABLE GPIOB, RCC_SYSCFG_ENABLE, NVIC_SetPriority 23 1 1, NVIC_EnableIRQ 23,
     GPIO_Init GPIOB (GPIO_PIN 5) OUTPUT_OD PULLUP SPEED_HIGH None]"
  "hal_log (Buzzer_Init w) = hal_log w @ [RCC_GPIO_ENABLE GPIOB, GPIO_Init GPIOB (GPIO_PIN 1) OUTPUT_PP PULLUP SPEED_HIGH None]"
  "hal_log (water_Init w) = hal_log w @ [RCC_GPIO_ENABLE GPIOD, GPIO_Init GPIOD (GPIO_PIN 4) OUTPUT_PP PULLUP SPEED_HIGH None]"
  "hal_log (PID_Init w) = hal_log w"
  by (simp_all add: init_ops hw_simps DHT11_GPIO_PIN_def PID_Init_def split: option.split)

text \<open>The initialisations that run once.\<close>

lemma once_logs:
  "hal_log (LED_PWM_Init w) = hal_log w @ [RCC_TIM_ENABLE TIM1, RCC_GPIO_ENABLE GPIOE,
     GPIO_Init GPIOE (GPIO_PIN 13) AF_PP PULLUP SPEED_HIGH (Some 1), TIM_PWM_Init TIM1 (720 - 1) (100 - 1),
     TIM_PWM_ConfigChannel TIM1 3 0, TIM_PWM_Start TIM1 3]"
  "\<not> motor_pwm_inited w \<Longrightarrow> hal_log (PWM_Init w) = hal_log w @
    [RCC_GPIO_ENABLE GPIOB, RCC_GPIO_ENABLE GPIOE, RCC_TIM_ENABLE TIM12,
     GPIO_Init GPIOE (GPIO_PIN 7 OR GPIO_PIN 8 OR GPIO_PIN 10 OR GPIO_PIN 12) OUTPUT_PP PULLUP SPEED_VERY_HIGH None,
     GPIO_Init GPIOB (GPIO_PIN 14 OR GPIO_PIN 15) AF_PP PULLUP SPEED_VERY_HIGH (Some 9),
     TIM_PWM_Init TIM12 (1 - 1) (4200 - 1), TIM_PWM_ConfigChannel TIM12 1 0, TIM_PWM_ConfigChannel TIM12 2 0,
     TIM_PWM_Start TIM12 1, TIM_PWM_Start TIM12 2]"
  by (simp_all add: LED_PWM_Init_def PWM_Init_def AIN_SET_def BIN_SET_def Let_def hw_simps)

lemma encoder_log:
  "boot_view w = (False, False) \<Longrightarrow> hal_log (Encoder_Init w) = hal_log w @ [RCC_TIM_ENABLE TIM4, RCC_GPIO_ENABLE GPIOD,
     GPIO_Init GPIOD (GPIO_PIN 12 OR GPIO_PIN 13) AF_PP PULLUP SPEED_VERY_HIGH (Some 2),
     TIM_Encoder_Init TIM4 (1 - 1) (65535 - 1) RISING FALLING 6, TIM_Encoder_Start TIM4,
     RCC_TIM_ENABLE TIM3, RCC_GPIO_ENABLE GPIOA,
     GPIO_Init GPIOA (GPIO_PIN 6 OR GPIO_PIN 7) AF_PP PULLUP SPEED_VERY_HIGH (Some 2),
     TIM_Encoder_Init TIM3 (1 - 1) (65535 - 1) RISING RISING 6, TIM_Encoder_Start TIM3]"
  by (simp add: boot_view_def Encoder_Init_def Encoder1_Init_def Encoder2_Init_def encoder_gpio_init_pd12_pd13_def
      encoder_gpio_init_pa6_pa7_def hal_calls_def hal_def HAL_TIM_SET_COUNTER_def Let_def)

lemma display_log: "hal_log (IIC_Init w) = hal_log w @ [RCC_GPIO_ENABLE GPIOB,
    GPIO_Init GPIOB (GPIO_PIN 8 OR GPIO_PIN 9) OUTPUT_PP NOPULL SPEED_HIGH None]"
  by (simp add: IIC_Init_def Let_def hw_simps watch_lines_def record_event_def set_moder_def HAL_GPIO_WritePin_def)

lemma screens_log:
  assumes "draws f ts" "car_ok w" "f w = Some v" shows "hal_log v = hal_log w"
proof -
  obtain hs where "resting hs w" using assms(2) by (auto simp: car_ok_def)
  from drawsE [OF assms(1) this car_okD(7) [OF assms(2)]] have "bus_only w v" using assms(3) by auto
  then have e: "v = w\<lparr>ODR := ODR v, GPIOB_MODER := GPIOB_MODER v, GPIOB_OSPEEDR := GPIOB_OSPEEDR v, bus := bus v, sda_n := sda_n v\<rparr>"
    unfolding bus_only_def by (rule conjunct1)
  show ?thesis by (subst e) simp
qed

subsection \<open>The display's pins\<close>

text \<open>What \<^verbatim>\<open>IIC_Init\<close> does to the two registers that the bus later switches by hand, from \<^verbatim>\<open>HAL_GPIO_Init\<close>.\<close>

lemma pin_mask_89: "ucast (GPIO_PIN 8 OR GPIO_PIN 9) = (0x300 :: u32)"
  by (simp add: GPIO_PIN_def)

lemma bus_pins: "HAL_GPIO_Init p c r = gpio_init_position p c 9 (gpio_init_position p c 8 r)" if "Pin c = 0x300"
proof -
  have s: "gpio_init_position p c k x = x" if "k \<notin> {8, 9}" "k < 16" for k x
  proof -
    have "\<not> bit (0x300 :: u32) k" using that
      by (auto simp: less_Suc_eq numeral_eq_Suc bit_Suc)
    then show ?thesis using in_mask [OF that(2), of "0x300"] by (simp only: gpio_init_position_def Let_def \<open>Pin c = 0x300\<close>) simp
  qed
  have "[0..<16] = [0,1,2,3,4,5,6,7,8,9,10,11,12,13,14,15]" by (simp add: upt_rec)
  then show ?thesis by (simp add: HAL_GPIO_Init_def s)
qed

lemma two_fields: "put_field 3 18 v (put_field 3 16 v r) = (r AND 0xFFF0FFFF) OR (push_bit 18 v OR push_bit 16 v)" if "in_bits 2 v"
proof (rule bit_word_eqI)
  fix n :: nat assume n: "n < LENGTH(32)"
  have v: "bit v k \<Longrightarrow> k < 2" for k using in_bits_bit that by blast
  have m: "bit (3 :: u32) k \<longleftrightarrow> k < 2" for k
    using bit_mask_iff [of 2 k, where 'a = "32 word"] by (auto simp: masks)
  have f: "bit (0xFFF0FFFF :: u32) n \<longleftrightarrow> \<not> (16 \<le> n \<and> n < 20)"
    using n by (auto simp: less_Suc_eq numeral_eq_Suc bit_Suc)
  have "\<not> bit v (n - 16)" if "18 \<le> n" using v [of "n - 16"] that by (auto dest: v)
  then show "bit (put_field 3 18 v (put_field 3 16 v r)) n = bit ((r AND 0xFFF0FFFF) OR (push_bit 18 v OR push_bit 16 v)) n"
    unfolding put_field_def bit_or_iff bit_and_iff bit_not_iff bit_push_bit_iff f m using n by auto
qed

lemma display_pins:
  assumes "R = HAL_GPIO_Init GPIOB (init_struct (GPIO_PIN 8 OR GPIO_PIN 9) OUTPUT_PP NOPULL SPEED_HIGH None) r"
  shows "MODER R GPIOB = (MODER r GPIOB AND 0xFFF0FFFF) OR 0x00050000"
    "OSPEEDR R GPIOB = (OSPEEDR r GPIOB AND 0xFFF0FFFF) OR 0x000A0000"
proof -
  define c where "c = init_struct (GPIO_PIN 8 OR GPIO_PIN 9) OUTPUT_PP NOPULL SPEED_HIGH None"
  have c: "Pin c = 0x300" "Mode c = 1" "drives c" "Speed c = 2"
    by (simp_all add: c_def init_struct_def pin_mask_89 drives_def gpio_consts)
  have b: "Pin c AND push_bit k 1 = push_bit k 1" if "k = 8 \<or> k = 9" for k using that c(1) by auto
  have s: "MODER (gpio_init_position GPIOB c k x) GPIOB = put_field 3 (2 * k) 1 (MODER x GPIOB)"
    "OSPEEDR (gpio_init_position GPIOB c k x) GPIOB = put_field 3 (2 * k) 2 (OSPEEDR x GPIOB)" if "k = 8 \<or> k = 9" for k x
    by (simp_all only: gpio_init_position_def Let_def b [OF that]) (simp_all add: c gpio_init_exti_def)
  have "in_bits 2 1" "in_bits 2 2" by (simp_all add: in_bits_def take_bit_eq_mask masks)
  then show "MODER R GPIOB = (MODER r GPIOB AND 0xFFF0FFFF) OR 0x00050000"
    "OSPEEDR R GPIOB = (OSPEEDR r GPIOB AND 0xFFF0FFFF) OR 0x000A0000"
    by (simp_all add: assms bus_pins [OF c(1)] s two_fields flip: c_def)
qed

subsection \<open>The pins after the start\<close>

text \<open>The whole trace of the start.\<close>

definition start_calls :: "hal_call list" where
  "start_calls =
    [RCC_GPIO_ENABLE GPIOA, GPIO_Init GPIOA (GPIO_PIN 5) ANALOG NOPULL SPEED_HIGH None, RCC_ADC1_ENABLE,
     RCC_GPIO_ENABLE GPIOA, GPIO_Init GPIOA (GPIO_PIN 0) ANALOG NOPULL SPEED_HIGH None, RCC_ADC1_ENABLE,
     RCC_GPIO_ENABLE GPIOA, GPIO_Init GPIOA (GPIO_PIN 2) ANALOG NOPULL SPEED_HIGH None, RCC_ADC1_ENABLE,
     RCC_GPIO_ENABLE GPIOB, RCC_SYSCFG_ENABLE, NVIC_SetPriority 23 1 1, NVIC_EnableIRQ 23,
     GPIO_Init GPIOB (GPIO_PIN 5) OUTPUT_OD PULLUP SPEED_HIGH None,
     RCC_GPIO_ENABLE GPIOB, GPIO_Init GPIOB (GPIO_PIN 1) OUTPUT_PP PULLUP SPEED_HIGH None,
     RCC_TIM_ENABLE TIM1, RCC_GPIO_ENABLE GPIOE, GPIO_Init GPIOE (GPIO_PIN 13) AF_PP PULLUP SPEED_HIGH (Some 1),
     TIM_PWM_Init TIM1 (720 - 1) (100 - 1), TIM_PWM_ConfigChannel TIM1 3 0, TIM_PWM_Start TIM1 3,
     RCC_GPIO_ENABLE GPIOD, GPIO_Init GPIOD (GPIO_PIN 4) OUTPUT_PP PULLUP SPEED_HIGH None,
     RCC_GPIO_ENABLE GPIOB, RCC_GPIO_ENABLE GPIOE, RCC_TIM_ENABLE TIM12,
     GPIO_Init GPIOE (GPIO_PIN 7 OR GPIO_PIN 8 OR GPIO_PIN 10 OR GPIO_PIN 12) OUTPUT_PP PULLUP SPEED_VERY_HIGH None,
     GPIO_Init GPIOB (GPIO_PIN 14 OR GPIO_PIN 15) AF_PP PULLUP SPEED_VERY_HIGH (Some 9),
     TIM_PWM_Init TIM12 (1 - 1) (4200 - 1), TIM_PWM_ConfigChannel TIM12 1 0, TIM_PWM_ConfigChannel TIM12 2 0,
     TIM_PWM_Start TIM12 1, TIM_PWM_Start TIM12 2,
     RCC_TIM_ENABLE TIM4, RCC_GPIO_ENABLE GPIOD,
     GPIO_Init GPIOD (GPIO_PIN 12 OR GPIO_PIN 13) AF_PP PULLUP SPEED_VERY_HIGH (Some 2),
     TIM_Encoder_Init TIM4 (1 - 1) (65535 - 1) RISING FALLING 6, TIM_Encoder_Start TIM4,
     RCC_TIM_ENABLE TIM3, RCC_GPIO_ENABLE GPIOA,
     GPIO_Init GPIOA (GPIO_PIN 6 OR GPIO_PIN 7) AF_PP PULLUP SPEED_VERY_HIGH (Some 2),
     TIM_Encoder_Init TIM3 (1 - 1) (65535 - 1) RISING RISING 6, TIM_Encoder_Start TIM3,
     RCC_GPIO_ENABLE GPIOB, GPIO_Init GPIOB (GPIO_PIN 8 OR GPIO_PIN 9) OUTPUT_PP NOPULL SPEED_HIGH None]"

lemma modules_log:
  assumes "\<not> motor_pwm_inited w" "boot_view w = (False, False)" "hal_log w = []"
  shows "hal_log (IIC_Init (main_modules clk w)) = start_calls"
proof -
  define u where "u = water_Init (LED_PWM_Init (Buzzer_Init (DHT11_Init clk (MQ135_Init (MQ2_Init (Soil_Init w))))))"
  have u: "\<not> motor_pwm_inited u" "boot_view (PWM_Init u) = (False, False)" using assms(1,2) by (simp_all add: u_def)
  have m: "main_modules clk w = PID_Init (Encoder_Init (PWM_Init u))" by (simp add: main_modules_def u_def Let_def)
  show ?thesis
    by (simp add: display_log m module_logs(7) encoder_log [OF u(2)] once_logs(2) [OF u(1)])
      (simp add: u_def module_logs once_logs(1) assms(3) start_calls_def)
qed

lemma start_log:
  assumes "powered w" "\<not> motor_pwm_inited w" "main_start clk w = Some v"
  shows "hal_log v = hal_log (IIC_Init (main_modules clk w))"
proof -
  define u where "u = rt_thread_mdelay 100 (IIC_Init (main_modules clk w))"
  have c: "car_ok u" using modules_car [OF assms(1,2)] by (simp add: u_def)
  obtain v1 where v1: "OLED_screens u = Some v1" "car_ok v1" using draws_car [OF screens_draw c] by blast
  have "v = snd (rt_schedule_init (OLED_Clear v1))" using assms(3) v1(1) by (simp add: main_start_def OLED_Init_screens u_def)
  moreover have "hal_log (OLED_Clear v1) = hal_log v1"
    using screens_log [OF draws_fill v1(2)] by (simp add: OLED_Clear_def)
  moreover have "hal_log v1 = hal_log u" by (rule screens_log [OF screens_draw c v1(1)])
  moreover have "hal_log (snd (rt_schedule_init x)) = hal_log x" for x :: "'a schedule_scheme"
    by (simp add: rt_schedule_init_def Let_def split: option.split)
  ultimately show ?thesis by (simp add: u_def rt_thread_mdelay_def)
qed

lemma pin_bit: "bit (ucast (GPIO_PIN k) :: u32) n = (n = k \<and> k < 16)"
  "bit (ucast (a OR b :: u16) :: u32) n = (bit (ucast a :: u32) n \<or> bit (ucast b :: u32) n)"
  by (auto simp: GPIO_PIN_def bit_simps dest: bit_imp_le_length)

lemma init_struct_wf: "(case af of None \<Rightarrow> True | Some k \<Rightarrow> k < 16) \<Longrightarrow> init_wf (init_struct m md pl sp af)"
proof -
  have "in_bits 4 (of_nat k)" if "k < 16" for k
    using that by (simp add: in_bits_def take_bit_nat_eq_self flip: of_nat_take_bit)
  moreover have "in_bits 2 (speed_code sp)" "in_bits 2 (pull_code pl)"
    by (cases sp; simp add: in_bits_def take_bit_eq_mask masks) (cases pl; simp add: in_bits_def take_bit_eq_mask masks)
  ultimately show "(case af of None \<Rightarrow> True | Some k \<Rightarrow> k < 16) \<Longrightarrow> init_wf (init_struct m md pl sp af)"
    by (auto simp: init_wf_def init_struct_def split: option.splits)
qed

lemma role_configured:
  "configured (init_struct m ANALOG NOPULL sp None) v = role_config Analog v"
  "configured (init_struct m OUTPUT_PP pl sp None) v = role_config (Drives pl sp) v"
  "configured (init_struct m OUTPUT_OD pl sp None) v = role_config (OpenDrain pl sp) v"
  "configured (init_struct m AF_PP pl sp (Some k)) v = role_config (Function k pl sp) v"
  by (simp_all add: configured_def init_struct_def drives_def alternate_def gpio_consts)

lemma start_planned: "planned r (replay start_calls r)"
proof -
  have p: "bit (Pin (init_struct m md pl sp af)) n = bit (ucast m :: u32) n" for m md pl sp af n by (simp add: init_struct_def)
  have "pin_config (replay start_calls r) p n =
     (case map_of pin_plan (p, n) of None \<Rightarrow> pin_config r p n | Some c \<Rightarrow> role_config c (pin_config r p n))" if n: "n < 16" for p n
    by (cases p) (simp_all add: replay_def start_calls_def HAL_GPIO_Init_effect [OF init_struct_wf] n p pin_bit role_configured pin_plan_def)
  then show ?thesis by (simp add: planned_def)
qed

text \<open>From power-up to the endless loops.\<close>

lemma power_up_calls:
  assumes "\<And>n. \<exists>i<251. \<not> sda (n + i)"
  obtains v where "main_start clk (power_up adc sda) = Some v" "hal_log v = start_calls" "car_ok v"
proof -
  have w: "powered (power_up adc sda)" "\<not> motor_pwm_inited (power_up adc sda)"
    using power_up_powered assms by blast+
  obtain v where v: "main_start clk (power_up adc sda) = Some v" "car_ok v" using main_start_car [OF w] by blast
  have "boot_view (power_up adc sda) = (False, False)" "hal_log (power_up adc sda) = []"
    by (simp_all add: boot_view_def power_up_def all_fields0)
  then show ?thesis using that v modules_log [OF w(2)] start_log [OF w v(1)] by simp
qed

text \<open>
  C13 (safety). No two modules claim the same pin: when \<^verbatim>\<open>main\<close> has run all initialisations, every pin of
  the five ports has the direction, output type, speed, resistor and alternate function its own
  module asked for, whatever the registers held, every other pin is untouched, and so are the twelve
  pins of the serial lines.
\<close>

theorem pins_as_planned:
  assumes "\<And>n. \<exists>i<251. \<not> sda (n + i)"
  shows "\<exists>v. main_start clk (power_up adc sda) = Some v \<and> (\<forall>r. planned r (replay (hal_log v) r)) \<and>
    list_all (\<lambda>x. map_of pin_plan x = None) uart_pins"
proof -
  obtain v where "main_start clk (power_up adc sda) = Some v" "hal_log v = start_calls" using power_up_calls [OF assms] by blast
  then show ?thesis using start_planned by (simp add: uart_pins_def pin_plan_def)
qed

theorem pins_as_planned_witness:
  "\<exists>v. main_start 168000000 (power_up (\<lambda>_ _. 2000) (\<lambda>k. False)) = Some v \<and> (\<forall>r. planned r (replay (hal_log v) r)) \<and>
    list_all (\<lambda>x. map_of pin_plan x = None) uart_pins"
  by (rule pins_as_planned) (simp add: exI [of _ 0])

end
