(* ===== verification/Timer_Plan.thy ===== *)
theory Timer_Plan
  imports Hal_Tim Pin_Plan Firmware
begin

text \<open>
  The four timers after the start, from the trace of the start replayed on their registers, and two
  consequences: the duty of the wheels never exceeds the period of their timer, and a wheel that
  turns backwards is counted one too many in every sample.
\<close>

lemma start_timers:
  "pwm_running (tim_replay start_calls) TIM1 [3] 719 99"
  "pwm_running (tim_replay start_calls) TIM12 [1, 2] 0 4199"
  "counting (tim_replay start_calls) TIM3 0x11 65534"
  "counting (tim_replay start_calls) TIM4 0x31 65534"
  by (simp_all add: pwm_running_def counting_def tim_replay_def start_calls_def tim_ops tim_reset_def Let_def)

text \<open>
  C14 (bounds). After the start the light's timer and the wheels' timer run as PWM outputs on their
  channels, the encoders' timers as quadrature counters of both channels, the first with one signal
  inverted; and in any interleaving from then on the duty of neither wheel exceeds the period.
\<close>

theorem duty_within_period:
  assumes "gives_floats powf" "\<And>n. \<exists>i<251. \<not> sda (n + i)"
  shows "\<exists>v. main_start clk (power_up adc sda) = Some v \<and>
    pwm_running (tim_replay (hal_log v)) TIM1 [3] 719 99 \<and> pwm_running (tim_replay (hal_log v)) TIM12 [1, 2] 0 4199 \<and>
    counting (tim_replay (hal_log v)) TIM3 0x11 65534 \<and> counting (tim_replay (hal_log v)) TIM4 0x31 65534 \<and>
    (\<forall>u. (car_step powf)\<^sup>*\<^sup>* v u \<longrightarrow>
       uint (CCR u (TIM12, 1)) \<le> uint (ARR (tim_replay (hal_log v)) TIM12) \<and>
       uint (CCR u (TIM12, 2)) \<le> uint (ARR (tim_replay (hal_log v)) TIM12))"
proof -
  obtain v where v: "main_start clk (power_up adc sda) = Some v" "hal_log v = start_calls" "car_ok v"
    using power_up_calls [OF assms(2)] by blast
  have "car_ok u" if "(car_step powf)\<^sup>*\<^sup>* v u" for u
    using that by (induction rule: rtranclp_induct) (auto intro: v(3) car_step_ok [OF assms(1)])
  moreover have "uint (ARR (tim_replay start_calls) TIM12) = 4199" using start_timers(2) by (simp add: pwm_running_def)
  ultimately show ?thesis using v(1) start_timers
    by (auto simp: v(2) car_ok_def sport_safe_def drive_safe_def bridge_ok_def word_le_def word_less_def)
qed

theorem duty_within_period_witness:
  "\<exists>v. main_start 168000000 (power_up (\<lambda>_ _. 2000) (\<lambda>_. False)) = Some v \<and>
    pwm_running (tim_replay (hal_log v)) TIM1 [3] 719 99 \<and> pwm_running (tim_replay (hal_log v)) TIM12 [1, 2] 0 4199 \<and>
    counting (tim_replay (hal_log v)) TIM3 0x11 65534 \<and> counting (tim_replay (hal_log v)) TIM4 0x31 65534 \<and>
    (\<forall>u. (car_step (\<lambda>_ _. Fin 5))\<^sup>*\<^sup>* v u \<longrightarrow>
       uint (CCR u (TIM12, 1)) \<le> uint (ARR (tim_replay (hal_log v)) TIM12) \<and>
       uint (CCR u (TIM12, 2)) \<le> uint (ARR (tim_replay (hal_log v)) TIM12))"
  by (rule duty_within_period) (simp_all add: gives_floats_def exI [of _ 0])

subsection \<open>Counting backwards\<close>

lemma small_sint: "- 32768 \<le> k \<Longrightarrow> k \<le> 32767 \<Longrightarrow> sint (of_int k :: u16) = k"
  by (simp add: signed_of_int signed_take_bit_int_eq_self)

text \<open>
  C15 (functional). The counters of the encoders run modulo their reload value plus one, which the
  start sets to 65535 instead of 65536: from zero, \<open>n\<close> steps forward are read as \<open>n\<close>, but \<open>n\<close> steps
  backward as \<open>n + 1\<close>, on both wheels.
\<close>

theorem backward_one_more:
  assumes "\<And>n. \<exists>i<251. \<not> sda (n + i)" "main_start clk (power_up adc sda) = Some v"
    and "\<bar>n\<bar> \<le> 32767" "\<bar>m\<bar> \<le> 32767" "Milleage1_flag u \<noteq> 0" "Milleage2_flag u \<noteq> 0"
    and "CNT u TIM4 = of_int (n mod (uint (ARR (tim_replay (hal_log v)) TIM4) + 1))"
    and "CNT u TIM3 = of_int (m mod (uint (ARR (tim_replay (hal_log v)) TIM3) + 1))"
  shows "Encoder_Speed1 (sample_encoder1 u) = (if n < 0 then n - 1 else n) \<and>
    Encoder_Speed2 (sample_encoder2 u) = (if m < 0 then m - 1 else m)"
proof -
  have "hal_log v = start_calls" using power_up_calls [OF assms(1), of clk adc] assms(2) by auto
  then have a: "uint (ARR (tim_replay (hal_log v)) TIM4) = 65534" "uint (ARR (tim_replay (hal_log v)) TIM3) = 65534"
    using start_timers(3,4) by (simp_all add: counting_def)
  have k: "sint (of_int (k mod 65535) :: u16) = (if k < 0 then k - 1 else k)" if "\<bar>k\<bar> \<le> 32767" for k
  proof (cases "k < 0")
    case True
    then have "k mod 65535 = (k + 65535) mod 65535" by simp
    also have "\<dots> = k + 65535" by (rule mod_pos_pos_trivial) (use True that in auto)
    finally have "k mod 65535 = (k - 1) + 65536" by simp
    then have "(of_int (k mod 65535) :: u16) = of_int (k - 1) + of_int 65536" by (simp only: of_int_add)
    moreover have "(of_int 65536 :: u16) = 0" by simp
    ultimately have "(of_int (k mod 65535) :: u16) = of_int (k - 1)" by simp
    moreover have "sint (of_int (k - 1) :: u16) = k - 1" by (rule small_sint) (use True that in auto)
    ultimately show ?thesis using True by simp
  next
    case False
    then have "k mod 65535 = k" using that by (intro mod_pos_pos_trivial) auto
    moreover have "sint (of_int k :: u16) = k" by (rule small_sint) (use False that in auto)
    ultimately show ?thesis using False by simp
  qed
  show ?thesis
    using assms(5-8) k [OF assms(3)] k [OF assms(4)]
    by (simp add: a sample_encoder1_def sample_encoder2_def GetSpeed_Milleage_1_def GetSpeed_Milleage_2_def
        HAL_TIM_GET_COUNTER_def Let_def)
qed

theorem backward_one_more_witness:
  "\<exists>v. main_start 168000000 (power_up (\<lambda>_ _. 2000) (\<lambda>_. False)) = Some v \<and>
    Encoder_Speed1 (sample_encoder1 (v\<lparr>CNT := (\<lambda>_. 65525), Milleage1_flag := 1, Milleage2_flag := 1\<rparr>)) = - 11 \<and>
    Encoder_Speed2 (sample_encoder2 (v\<lparr>CNT := (\<lambda>_. 65525), Milleage1_flag := 1, Milleage2_flag := 1\<rparr>)) = - 11"
proof -
  have s: "\<exists>i<251. \<not> (\<lambda>_ :: nat. False) (n + i)" for n by (simp add: exI [of _ 0])
  obtain v where v: "main_start 168000000 (power_up (\<lambda>_ _. 2000) (\<lambda>_. False)) = Some v" "hal_log v = start_calls"
    using power_up_calls [OF s, of 168000000 "\<lambda>_ _. 2000"] by metis
  have a: "uint (ARR (tim_replay (hal_log v)) TIM4) = 65534" "uint (ARR (tim_replay (hal_log v)) TIM3) = 65534"
    using start_timers(3,4) by (simp_all add: counting_def v(2))
  define u where "u = v\<lparr>CNT := (\<lambda>_. 65525), Milleage1_flag := 1, Milleage2_flag := 1\<rparr>"
  have u: "CNT u TIM4 = of_int (- 10 mod (uint (ARR (tim_replay (hal_log v)) TIM4) + 1))"
    "CNT u TIM3 = of_int (- 10 mod (uint (ARR (tim_replay (hal_log v)) TIM3) + 1))"
    "Milleage1_flag u \<noteq> 0" "Milleage2_flag u \<noteq> 0" by (simp_all only: a) (simp_all add: u_def)
  from backward_one_more [OF s v(1) _ _ u(3,4,1,2)] show ?thesis using v(1) by (auto simp flip: u_def)
qed

end
