(* ===== verification/Watering.thy ===== *)
theory Watering
  imports Car_View
begin

text \<open>
  A chain through four modules and two turns of the schedule: what the moisture probe measures
  (\<^verbatim>\<open>Soil.c\<close>) sets the alarm flag, the host's consent (\<^verbatim>\<open>usart5.c\<close>) and the flag drive the relay of the
  pump (\<^verbatim>\<open>water.c\<close>) in the next turn of \<^verbatim>\<open>rt_schedule.c\<close>.
\<close>

subsection \<open>One turn\<close>

lemma view_fields:
  assumes "soil_view v = soil_view w"
  shows "Soil_AlarmFlag v = Soil_AlarmFlag w" "Water_flag v = Water_flag w" "Soil_PlantType v = Soil_PlantType w"
    "samples n ch v = samples n ch w" "ODR v GPIOD = ODR w GPIOD"
  using assms by (simp_all add: soil_view_def samples_def)

lemma water_view:
  assumes "soil_view v = soil_view w" shows "soil_view (water_auto m a v) = soil_view (water_auto m a w)"
  using assms by (simp add: soil_view_def water_auto_def water_Open_def water_close_def HAL_GPIO_WritePin_def Let_def)

lemma water_auto_view:
  "Soil_PlantType (water_auto m a w) = Soil_PlantType w" "Soil_AlarmFlag (water_auto m a w) = Soil_AlarmFlag w"
  "samples n ch (water_auto m a w) = samples n ch w"
  by (rule water_auto_frame [of m a w]; simp add: samples_def)+

lemma tasks_view:
  assumes "schedule_tasks w = Some v"
  shows "soil_view v = soil_view (water_auto (Soil_AlarmFlag w) (Water_flag w) w)"
proof -
  define w1 where "w1 = SendData_to_PlantSoft (sample_encoder2 (sample_encoder1 w))"
  obtain w2 where g: "My_GetActual MY_YAW w1 = Some w2"
    using assms by (auto simp: schedule_tasks_def Let_def bind_eq_Some_conv w1_def)
  define w3 where "w3 = LightContral (lightONOFF_flag (Maixcam_SetMode (MaixMode_flag w2) w2)) (Maixcam_SetMode (MaixMode_flag w2) w2)"
  have v: "v = DHT11_Task10ms (MaixCam_Sport (Check_vioce (water_auto (Soil_AlarmFlag w3) (Water_flag w3) w3)))"
    using assms g by (simp add: schedule_tasks_def Let_def w1_def w3_def)
  have s: "soil_view w3 = soil_view w"
    using My_GetActual_view [OF g] by (simp add: w3_def w1_def soil_keeps car_view_def)
  show ?thesis by (simp add: v soil_keeps modes_soil view_fields [OF s] water_view [OF s])
qed

text \<open>A turn sets the pump by the flag it finds and leaves the flag its samples call for.\<close>

lemma turn_view:
  assumes "schedule_turn powf w = Some v"
  shows "Soil_AlarmFlag v = Soil_AlarmFlag (Soil_UpdateAlarmFlag (w\<lparr>percentSoil := soil_of_mean (fmean 5 w)\<rparr>))"
    "ODR v GPIOD = ODR (water_auto (Soil_AlarmFlag w) (Water_flag w) w) GPIOD"
proof -
  define w0 where "w0 = w\<lparr>sched_cnt := sched_cnt w + 1\<rparr>"
  have 0: "soil_view w0 = soil_view w" by (simp add: w0_def soil_view_def)
  obtain u where u: "schedule_tasks w0 = Some u"
    using assms by (auto simp: schedule_turn_def bind_eq_Some_conv w0_def)
  have v: "Soil_AlarmFlag v = Soil_AlarmFlag (schedule_readings powf u)" "ODR v = ODR (schedule_readings powf u)"
    using assms u by (auto simp: schedule_turn_def rt_thread_mdelay_def w0_def Let_def)
  have t: "soil_view u = soil_view (water_auto (Soil_AlarmFlag w) (Water_flag w) w)"
    using tasks_view [OF u] water_view [OF 0] by (simp add: view_fields [OF 0])
  note f = view_fields [OF t]
  have s: "Soil_PlantType u = Soil_PlantType w" "Soil_AlarmFlag u = Soil_AlarmFlag w" "fmean 5 u = fmean 5 w"
    using f(1,3) f(4) [of 10 5] by (simp_all add: water_auto_view fmean_def)
  show "Soil_AlarmFlag v = Soil_AlarmFlag (Soil_UpdateAlarmFlag (w\<lparr>percentSoil := soil_of_mean (fmean 5 w)\<rparr>))"
    using s by (simp add: v readings_view Soil_UpdateAlarmFlag_def Let_def split: prod.split)
  show "ODR v GPIOD = ODR (water_auto (Soil_AlarmFlag w) (Water_flag w) w) GPIOD"
    using f(5) by (simp add: v readings_view)
qed

lemma flag_of_samples:
  assumes "schedule_turn powf w = Some v" "\<forall>x\<in>set (samples 10 5 w). x \<le> 4095"
    "soil_thresholds (Soil_PlantType w) = (Fin lo, Fin hi)"
    "q = 100 * (40950 - of_nat (sum_of (samples 10 5 w))) / 40950"
  shows "q + 1 / 10000 < lo \<Longrightarrow> Soil_AlarmFlag v = 1"
    "lo < q - 1 / 10000 \<Longrightarrow> Soil_AlarmFlag v = 0 \<or> Soil_AlarmFlag v = 2"
proof -
  obtain p where p: "soil_of_mean (fmean 5 w) = Fin p" "p - q \<le> 1 / 10000" "q - p \<le> 1 / 10000"
    using soil_percent_near [OF assms(2)] unfolding abs_le_iff by (auto simp: assms(4))
  have lt: "lo < hi" by (rule soil_thresholds_cases [of "Soil_PlantType w"]) (simp add: assms(3))
  define u where "u = w\<lparr>percentSoil := soil_of_mean (fmean 5 w)\<rparr>"
  have v: "Soil_AlarmFlag v = Soil_AlarmFlag (Soil_UpdateAlarmFlag u)" by (simp add: turn_view(1) [OF assms(1)] u_def)
  have b: "soil_thresholds (Soil_PlantType u) = (Fin lo, Fin hi)" "percentSoil u = Fin p"
    using assms(3) p(1) by (simp_all add: u_def)
  note band = Soil_alarm_bands [OF b(1) lt b(2)]
  show "q + 1 / 10000 < lo \<Longrightarrow> Soil_AlarmFlag v = 1" using band(1) p(2) by (simp add: v)
  assume "lo < q - 1 / 10000"
  then have "lo < p" using p(3) by simp
  then show "Soil_AlarmFlag v = 0 \<or> Soil_AlarmFlag v = 2" using band(2,3) by (cases "p < hi") (auto simp: v)
qed

subsection \<open>The pump\<close>

text \<open>
  C2 (safety). Let one turn of the schedule sample the moisture probe at \<open>q\<close> per cent, by the exact
  mean of its ten samples, and let the next turn find the alarm flag as the first left it, whatever
  happened to the rest of the car in between. With the host's consent the second turn switches the
  pump on when \<open>q\<close> is below the threshold of the plant and off when it is above, but for the
  rounding of a ten thousandth of a per cent; without the consent it switches it off.
\<close>

theorem pump_follows_soil:
  assumes "schedule_turn powf w = Some v" "\<forall>x\<in>set (samples 10 5 w). x \<le> 4095"
    "soil_thresholds (Soil_PlantType w) = (Fin lo, Fin hi)"
    "q = 100 * (40950 - of_nat (sum_of (samples 10 5 w))) / 40950"
    "schedule_turn powf u = Some u'" "Soil_AlarmFlag u = Soil_AlarmFlag v"
  shows "(Water_flag u = 1 \<and> q + 1 / 10000 < lo \<longrightarrow> pin_high u' GPIOD 4) \<and>
    (Water_flag u = 1 \<and> lo < q - 1 / 10000 \<longrightarrow> \<not> pin_high u' GPIOD 4) \<and>
    (Water_flag u = 0 \<longrightarrow> \<not> pin_high u' GPIOD 4)"
proof -
  have "pin_high u' GPIOD 4 = pin_high (water_auto (Soil_AlarmFlag u) (Water_flag u) u) GPIOD 4"
    by (simp add: pin_high_def turn_view(2) [OF assms(5)])
  then show ?thesis
    using flag_of_samples [OF assms(1-4)] by (auto simp: water_auto_pin assms(6))
qed


theorem pump_follows_soil_witness:
  "\<exists>(w :: schedule) v u'. schedule_turn (\<lambda>_ _. Fin 5) w = Some v \<and> schedule_turn (\<lambda>_ _. Fin 5) (v\<lparr>Water_flag := 1\<rparr>) = Some u' \<and>
    pin_high u' GPIOD 4"
proof -
  have f: "gives_floats (\<lambda>_ _. Fin 5)" by (simp add: gives_floats_def)
  have a: "\<exists>i<251. \<not> (\<lambda>_. False) (n + i)" for n :: nat by (rule exI [of _ 0]) simp
  have p: "powered (power_up (\<lambda>_ _. 0) (\<lambda>_. False))" "\<not> motor_pwm_inited (power_up (\<lambda>_ _. 0) (\<lambda>_. False))"
    by (rule power_up_powered, rule a)+
  obtain w0 :: schedule where "car_ok w0"
    using main_start_car [OF p] by blast
  then have c: "car_ok (w0\<lparr>adc_in := \<lambda>_ _. 4095, Soil_PlantType := 1\<rparr>)" by simp
  define w where "w = w0\<lparr>adc_in := \<lambda>_ _. 4095, Soil_PlantType := 1\<rparr>"
  obtain v where v: "schedule_turn (\<lambda>_ _. Fin 5) w = Some v" "car_ok v"
    using schedule_turn_car [OF f c] by (auto simp: w_def)
  from v(2) have "car_ok (v\<lparr>Water_flag := 1\<rparr>)" by simp
  then obtain u' where u: "schedule_turn (\<lambda>_ _. Fin 5) (v\<lparr>Water_flag := 1\<rparr>) = Some u'"
    using schedule_turn_car [OF f] by blast
  have s: "samples 10 5 w = [4095, 4095, 4095, 4095, 4095, 4095, 4095, 4095, 4095, 4095]" by (simp add: samples_def w_def upt_rec)
  have t: "soil_thresholds (Soil_PlantType w) = (Fin 5, Fin 25)"
    by (simp add: w_def soil_thresholds_def plant_types f32_round_rep)
  have "pin_high u' GPIOD 4"
    using pump_follows_soil [OF v(1) _ t refl u, unfolded s] by (simp add: sum_of_def)
  then show ?thesis using v(1) u by blast
qed

end
