(* ===== verification/Spec2Isabelle.thy ===== *)
theory Spec2Isabelle
  imports Attitude_Line Console_Line Fifo Timer_Plan Watering
begin

text \<open>
  The firmware of a plant care car: an STM32F407 under RT-Thread 4.0.3 that drives on two wheels
  between the plants, avoids obstacles, looks for light, inspects leaves with two stepper motors,
  samples the soil and the air, waters, lights, speaks, shows its readings and talks to a host
  program and a camera. The program's own code is \<^verbatim>\<open>applications/main.c\<close>, \<^verbatim>\<open>Hardware/\<close> (the ports and
  the display bus) and \<^verbatim>\<open>Software/\<close> (the modules), all below the directory of the main program
  \<^verbatim>\<open>stm32F407vet6...\<close>. The paths in these theories are relative to it.

  \<^bold>\<open>How the parts interact.\<close> \<^verbatim>\<open>main\<close> starts the modules and two threads, the schedule
  (\<^verbatim>\<open>rt_schedule.c\<close>) and the buzzer (\<^verbatim>\<open>buzzer.c\<close>), and then refreshes the display twice a second. The
  schedule runs every module each ten milliseconds. Each UART driver opens its line on first use and
  starts a thread that collects the bytes received and hands whole frames to its module's decoder.
  Decoders and modules communicate through global variables. The temperature sensor's line raises
  an interrupt on both edges. Before \<^verbatim>\<open>main\<close> the board has registered the six UARTs and opened
  \<^verbatim>\<open>uart1\<close> as the console in stream mode (\<^verbatim>\<open>drivers/board.c\<close>, \<^verbatim>\<open>rtconfig.h\<close>), and the kernel has
  created the shell, which opens it again for its input; the driver of the distance sensor, which
  also carries the debug lines, is a third user of the same device.

  \<^bold>\<open>The state\<close> is one chain of records, extended in the order of the theories: \<open>hw\<close> (\<^verbatim>\<open>Hal\<close>: output,
  compare and counter registers, and the log of configuration calls), \<open>globals\<close> (the shared
  variables), \<open>encoders\<close>, \<open>motors\<close>, \<open>turns\<close>, \<open>comm\<close> (kernel objects and the ports' static
  variables), \<open>soft\<close>, \<open>senders\<close>, \<open>voice\<close>, \<open>sport\<close>, \<open>sensors\<close>, \<open>actuators\<close>, \<open>dht\<close>, \<open>debug\<close>,
  \<open>oled\<close>, \<open>schedule\<close>. A static or global variable of the C text is a field of the same name; one
  static to a function carries the function's prefix where names clash. A C function is a definition
  of the same name on that state. \<^verbatim>\<open>None\<close> is a read or write outside an array (or an index loop
  that never ends), so a proved result \<open>Some\<close> is the absence of undefined memory accesses.

  \<^bold>\<open>Theories and code.\<close>
  \<^item> \<^verbatim>\<open>Prelude\<close>: machine integers, bounds-checked arrays, byte helpers. \<^verbatim>\<open>Float32\<close>: IEEE single
    precision, rounding to nearest even over the rationals, with the conversions of C.
    \<^verbatim>\<open>Queue_Contract\<close>: the contract of a bounded queue, provided by \<^verbatim>\<open>Fifo\<close> (\<^verbatim>\<open>fifo.c\<close>) and by the
    kernel's receive ring in \<^verbatim>\<open>Rt_Serial\<close>.
  \<^item> \<^verbatim>\<open>Rt_Serial\<close>, \<^verbatim>\<open>Rt_Device\<close>: what the drivers rest on of \<^verbatim>\<open>rt-thread/.../serial.c\<close> and
    \<^verbatim>\<open>device.c\<close>. \<^verbatim>\<open>Console\<close>: the devices from reset to \<^verbatim>\<open>main\<close> (\<^verbatim>\<open>drv_usart.c\<close>, \<^verbatim>\<open>board.c\<close>,
    \<^verbatim>\<open>kservice.c\<close>), printing, and the start of the shell (\<^verbatim>\<open>shell.c\<close>); its \<open>rtk0\<close> is the kernel in which the
    car starts. \<^verbatim>\<open>Uart_Port\<close>, \<^verbatim>\<open>Uart_Send\<close>: the text the five interrupt driven drivers share.
    \<^verbatim>\<open>Frame_Scan\<close>, \<^verbatim>\<open>Command_Stream\<close>, \<^verbatim>\<open>Header_Scan\<close>: the two stream parsers as contracts (locales),
    interpreted for each port in \<^verbatim>\<open>Usart1_Port\<close>, \<^verbatim>\<open>Usart2_Port\<close>, \<^verbatim>\<open>Uart4_Port\<close>, \<^verbatim>\<open>Uart5_Port\<close> with the
    decoders of \<^verbatim>\<open>Vl53\<close> (\<^verbatim>\<open>VL53_DMA.c\<close>), \<^verbatim>\<open>Imu\<close> (\<^verbatim>\<open>Usart2DMA_IMU.c\<close>), \<^verbatim>\<open>usart4.c\<close> and \<^verbatim>\<open>usart5.c\<close>.
    \<^verbatim>\<open>Usart6_Port\<close>: the voice module. \<^verbatim>\<open>Emm_V5\<close>: \<^verbatim>\<open>usart3_port.c\<close> and \<^verbatim>\<open>Emm_V5.c\<close>.
    \<^verbatim>\<open>Uart_Live\<close>: one line at work, its receive interrupt (\<^verbatim>\<open>rt_hw_serial_isr\<close>), ring, semaphore
    (\<^verbatim>\<open>ipc.c\<close>) and receive thread interleaved in steps; \<^verbatim>\<open>Live_Links\<close>: the lines of the attitude sensor,
    the camera and the host, opened by their drivers and then in any such interleaving;
    \<^verbatim>\<open>Console_Line\<close>: the distance sensor's line, shared with the shell and the console.
  \<^item> \<^verbatim>\<open>Hal\<close>, \<^verbatim>\<open>Hal_Gpio\<close> and \<^verbatim>\<open>Hal_Tim\<close> (the pin and timer configurations of
    \<^verbatim>\<open>stm32f4xx_hal_gpio.c\<close> and \<^verbatim>\<open>stm32f4xx_hal_tim.c\<close> on the registers), \<^verbatim>\<open>Globals\<close>; \<^verbatim>\<open>MotorEncoder\<close>, \<^verbatim>\<open>Pid\<close> (\<^verbatim>\<open>Mypid.c\<close>), \<^verbatim>\<open>Motor\<close> (\<^verbatim>\<open>TB6612.c\<close>), \<^verbatim>\<open>CarTurn\<close>.
  \<^item> \<^verbatim>\<open>Comm\<close>: the modules' calls on the ports. \<^verbatim>\<open>Soft_Link\<close> (upload of \<^verbatim>\<open>usart5.c\<close>), \<^verbatim>\<open>Cam_Link\<close>,
    \<^verbatim>\<open>Voice\<close> (\<^verbatim>\<open>usart6.c\<close>), \<^verbatim>\<open>Sport\<close> (\<^verbatim>\<open>SportMode.c\<close>) with \<^verbatim>\<open>Sport_Invariant\<close> and \<^verbatim>\<open>Sport_Behaviour\<close>.
  \<^item> \<^verbatim>\<open>Sensors\<close> (\<^verbatim>\<open>ADC1.c\<close>, \<^verbatim>\<open>Soil.c\<close>, \<^verbatim>\<open>MQ2.c\<close>, \<^verbatim>\<open>MQ135.c\<close>), \<^verbatim>\<open>Actuators\<close> (\<^verbatim>\<open>PWM.c\<close>, \<^verbatim>\<open>water.c\<close>,
    \<^verbatim>\<open>buzzer.c\<close>), \<^verbatim>\<open>Dht11\<close> (\<^verbatim>\<open>DH11.c\<close>).
  \<^item> \<^verbatim>\<open>Text_Format\<close> (the append helpers of \<^verbatim>\<open>VL53_DMA.c\<close> and \<^verbatim>\<open>main.c\<close>), \<^verbatim>\<open>Debug_Print\<close>
    (\<^verbatim>\<open>My_GetActual\<close>), \<^verbatim>\<open>Oled_I2c\<close>, \<^verbatim>\<open>Oled_Font\<close>, \<^verbatim>\<open>Oled\<close> (\<^verbatim>\<open>oled_i2c.c\<close>, \<^verbatim>\<open>codetab.h\<close>, \<^verbatim>\<open>oled.c\<close>),
    \<^verbatim>\<open>Display\<close> (the display part of \<^verbatim>\<open>main.c\<close>).
  \<^item> \<^verbatim>\<open>Schedule\<close> (\<^verbatim>\<open>rt_schedule.c\<close> and \<^verbatim>\<open>main\<close>), \<^verbatim>\<open>Car_Order\<close> (the invariant of the whole car),
    \<^verbatim>\<open>Start\<close> (\<^verbatim>\<open>main\<close> establishes it), \<^verbatim>\<open>Firmware\<close> (all interleavings keep it), \<^verbatim>\<open>Car_View\<close>
    (frames), \<^verbatim>\<open>Watering\<close> (probe to pump across two turns), \<^verbatim>\<open>Attitude_Line\<close> (the attitude sensor's
    line is never opened), \<^verbatim>\<open>Pin_Plan\<close> (the trace of configuration calls of the whole start, replayed on
    the registers against a table of the pins and against the serial pins of \<^verbatim>\<open>drivers/board.h\<close>),
    \<^verbatim>\<open>Timer_Plan\<close> (the same for the timers, with what it means for the duty and the wheel counts).

  \<^bold>\<open>What the lemmas show.\<close> Memory: no thread of the firmware leaves an array, whatever arrives, whenever
  it runs (\<^verbatim>\<open>Firmware\<close>, on the per-module preservation lemmas). Protocols: the receive threads refine
  the decoding of the whole stream and obey every valid command once, in order, however the stream
  is cut into reads; no interleaving of interrupt and thread loses a wake-up, and the commands that
  arrive in time (never more than 63 bytes waiting) are carried out within a bounded number of steps; each stepper
  command puts its frame on its line and the sensors' frames are decoded to what was encoded; on the shared line the
  debug text leaves with a second carriage return, and the shell loses its input to the sensor; the display
  bus keeps the I2C protocol, checked by a monitor of its two lines. Motion: the avoidance machine
  and the drive stay safe, the duty within the timer's period, the bridges never shorted, the ramps
  move each wheel's target to its own speed, a turn acts on the shortest angle with the right sign on each wheel, the stop is obeyed. Sensors: float error bounds of the
  readings, ranges for every value the gas formulas produce, the exact decoding of a DHT11 frame,
  recovery from any failed one. Outputs: the upload rotation, the warnings never repeated, the light
  level, the buzzer, the pump. Pins and timers: after the start each pin has what
  its own module asked for, and the duty never exceeds the period of its timer. Text: what is printed reads back within half a unit of the last
  decimal.

  \<^bold>\<open>Bounds.\<close> The wait for the display's acknowledgement polls at most 251 times (a byte counter
  against 250), which is its termination measure. Index loops over a byte index are \<^verbatim>\<open>partial_function\<close>
  in \<^verbatim>\<open>OLED_ShowStr\<close> (a text of 256 characters would not end) and have measures elsewhere. A receive
  thread's read takes at most 63 bytes, what the kernel's ring of 64 holds. No fuel is used.

  \<^bold>\<open>Granularity and parameters.\<close> One turn of the schedule, of the display thread, of the buzzer thread,
  one read of a receive thread and one interrupt are atomic steps; within \<^verbatim>\<open>Dht11\<close> the interrupt may
  come before or after any task, and within \<^verbatim>\<open>Uart_Live\<close> the thread's take of the semaphore and each
  of its reads, with the parse that follows, are steps of their own between which interrupts come (a
  release to a waiting thread counts up and is taken by its next step; a command arrives in time when
  never more than 63 bytes wait). In \<^verbatim>\<open>Console_Line\<close> so are the shell's start, its reads of one byte,
  the port's transmissions and the printing; the shared device receives nothing before the shell
  has opened it with interrupt receive. A driver's sleep (\<^verbatim>\<open>rt_thread_mdelay\<close> after a speed of the pitch axis)
  is recorded. Samples of the converter, counts of the encoders, levels of the
  sensor's line and of the display's answer, the cycle counter and every received byte are inputs
  without restriction, but for the display answering in the start. The library's \<^verbatim>\<open>powf\<close> is a
  parameter; where it matters it is assumed to return a single precision value. Floats have one NaN
  and no signed zero.

  \<^bold>\<open>Not modelled.\<close> The vendored kernel (scheduler, memory, file systems, the version banner printed
  at start, the line editing and the commands of the shell), the HAL and CMSIS
  beyond the operations the program calls (clock and interrupt controller calls are only in the trace), the rest of the board support, the stack sizes and priorities of the threads, what the
  display's controller shows for the bytes it gets, the picture \<^verbatim>\<open>BMP1\<close> (not used), branches that
  the build compiles out (\<^verbatim>\<open>MODE\<close>, \<^verbatim>\<open>SOIL_MODE\<close>), and the Python programs of the camera and the host.
\<close>

end
